(* ===== verification/Prelude.thy ===== *)
theory Prelude
  imports Main "HOL-Library.Word" "HOL-Library.Monad_Syntax"
begin

text \<open>
  Shared vocabulary of the development: machine integers, byte buffers with bounds-checked
  access, the little-endian codecs of \<^verbatim>\<open>qendian.h\<close>, and the generic list, option and word
  lemmas that the component theories use.

  A C memory access is a partial operation here.  A function that reads or writes memory
  returns an \<open>option\<close>; \<open>None\<close> stands for an access outside the buffer it was made on, so a
  theorem that a function returns \<open>Some\<close> is a theorem that it stays inside its buffers.
\<close>

unbundle bit_operations_syntax

section \<open>Machine integers and buffers\<close>

type_synonym u8 = "8 word"
type_synonym u16 = "16 word"
type_synonym u32 = "32 word"
type_synonym u64 = "64 word"
type_synonym bytes = "u8 list"

text \<open>
  \<open>codec\<close> collects the encode/decode laws, \<open>buf\<close> the laws of buffer access.
\<close>

named_theorems codec
named_theorems buf

section \<open>Little-endian codecs (qendian.h)\<close>

definition le16 :: "u16 \<Rightarrow> bytes" where
  "le16 w = [ucast w, ucast (drop_bit 8 w)]"

definition le16_to_cpu :: "u8 \<Rightarrow> u8 \<Rightarrow> u16" where
  "le16_to_cpu a b = ucast a OR push_bit 8 (ucast b)"

definition le32 :: "u32 \<Rightarrow> bytes" where
  "le32 w = [ucast w, ucast (drop_bit 8 w), ucast (drop_bit 16 w), ucast (drop_bit 24 w)]"

definition le32_to_cpu :: "u8 \<Rightarrow> u8 \<Rightarrow> u8 \<Rightarrow> u8 \<Rightarrow> u32" where
  "le32_to_cpu a b c d =
     ucast a OR push_bit 8 (ucast b) OR push_bit 16 (ucast c) OR push_bit 24 (ucast d)"

lemma length_le16 [simp]: "length (le16 w) = 2"
  by (simp add: le16_def)

lemma length_le32 [simp]: "length (le32 w) = 4"
  by (simp add: le32_def)

lemma le16_roundtrip [codec, simp]:
  "le16_to_cpu (ucast w) (ucast (drop_bit 8 w)) = w"
  unfolding le16_to_cpu_def
  by (rule bit_word_eqI) (auto simp: bit_simps)

lemma le32_roundtrip [codec, simp]:
  "le32_to_cpu (ucast w) (ucast (drop_bit 8 w)) (ucast (drop_bit 16 w)) (ucast (drop_bit 24 w)) = w"
  unfolding le32_to_cpu_def
  apply (rule bit_word_eqI)
  subgoal for n by (cases "n < 8"; cases "n < 16"; cases "n < 24") (auto simp: bit_simps)
  done

section \<open>Bounds-checked access\<close>

definition rd8 :: "bytes \<Rightarrow> nat \<Rightarrow> u8 option" where
  "rd8 bs i = (if i < length bs then Some (bs ! i) else None)"

definition rd16 :: "bytes \<Rightarrow> nat \<Rightarrow> u16 option" where
  "rd16 bs i =
     (if i + 2 \<le> length bs then Some (le16_to_cpu (bs ! i) (bs ! (i + 1))) else None)"

definition rd32 :: "bytes \<Rightarrow> nat \<Rightarrow> u32 option" where
  "rd32 bs i =
     (if i + 4 \<le> length bs
      then Some (le32_to_cpu (bs ! i) (bs ! (i + 1)) (bs ! (i + 2)) (bs ! (i + 3)))
      else None)"

definition rdn :: "bytes \<Rightarrow> nat \<Rightarrow> nat \<Rightarrow> bytes option" where
  "rdn bs i n = (if i + n \<le> length bs then Some (take n (drop i bs)) else None)"

definition poke :: "nat \<Rightarrow> bytes \<Rightarrow> bytes \<Rightarrow> bytes option" where
  "poke i xs bs =
     (if i + length xs \<le> length bs
      then Some (take i bs @ xs @ drop (i + length xs) bs) else None)"

lemma rd8_append [buf]: "rd8 (xs @ ys) (length xs + i) = rd8 ys i"
  by (simp add: rd8_def)

lemma rd16_append [buf]: "rd16 (xs @ ys) (length xs + i) = rd16 ys i"
  by (simp add: rd16_def nth_append)

lemma rd32_append [buf]: "rd32 (xs @ ys) (length xs + i) = rd32 ys i"
  by (simp add: rd32_def nth_append)

lemma rdn_append [buf]: "rdn (xs @ ys) (length xs + i) n = rdn ys i n"
  by (simp add: rdn_def)

lemma rd8_Cons [simp]: "rd8 (x # xs) 0 = Some x"
  by (simp add: rd8_def)

lemma rd16_le16 [codec]: "rd16 (le16 w @ ys) 0 = Some w"
  by (simp add: rd16_def le16_def)

lemma rd32_le32 [codec]: "rd32 (le32 w @ ys) 0 = Some w"
  by (simp add: rd32_def le32_def)

lemma rdn_prefix [buf]: "rdn (xs @ ys) 0 (length xs) = Some xs"
  by (simp add: rdn_def)

lemma rd8_SomeD: "rd8 bs i = Some x \<Longrightarrow> i < length bs"
  by (auto simp: rd8_def split: if_splits)

lemma rd16_SomeD: "rd16 bs i = Some x \<Longrightarrow> i + 2 \<le> length bs"
  by (auto simp: rd16_def split: if_splits)

lemma poke_length: "poke i xs bs = Some bs' \<Longrightarrow> length bs' = length bs"
  by (auto simp: poke_def split: if_splits)

lemma poke_None_iff: "poke i xs bs = None \<longleftrightarrow> length bs < i + length xs"
  by (auto simp: poke_def)

text \<open>Writing at the end of a known prefix extends the prefix.\<close>

lemma poke_at_prefix [buf]:
  assumes "length xs + length ys \<le> n" and "length rest = n - length xs"
  shows "poke (length xs) ys (xs @ rest) = Some (xs @ ys @ drop (length ys) rest)"
  using assms by (simp add: poke_def)

text \<open>Reads inside a part of the buffer whose bytes are known.\<close>

lemma rdn_part:
  assumes "rdn m p n = Some v" and "i + k \<le> n"
  shows "rdn m (p + i) k = Some (take k (drop i v))"
proof -
  from assms(1) have l: "p + n \<le> length m" and v: "v = take n (drop p m)"
    by (auto simp: rdn_def split: if_splits)
  have "take k (drop i v) = take k (drop (p + i) m)"
    using assms(2) by (simp add: v drop_take add.commute min_def)
  then show ?thesis using l assms(2) by (simp add: rdn_def)
qed

lemma rd8_part:
  assumes "rdn m p n = Some v" and "i < n"
  shows "rd8 m (p + i) = Some (v ! i)"
  using assms by (auto simp: rdn_def rd8_def split: if_splits)

lemma rd16_part:
  assumes "rdn m p n = Some v" and "i + 2 \<le> n"
  shows "rd16 m (p + i) = Some (le16_to_cpu (v ! i) (v ! (i + 1)))"
  using assms by (auto simp: rdn_def rd16_def split: if_splits)

lemma rd32_part:
  assumes "rdn m p n = Some v" and "4 \<le> n"
  shows "rd32 m p = Some (le32_to_cpu (v ! 0) (v ! 1) (v ! 2) (v ! 3))"
  using assms by (auto simp: rdn_def rd32_def split: if_splits)

section \<open>Generic facts\<close>

lemma unat_of_nat16: "n < 65536 \<Longrightarrow> unat (of_nat n :: u16) = n"
  by (simp add: unat_of_nat)

text \<open>
  Inversion of a computation that returned a value: one rule per construct of the do-notation, so
  that a hypothesis \<open>f x = Some y\<close> opens into the values its steps returned.
\<close>

lemma case_option_Some_iff:
  "(case x of None \<Rightarrow> a | Some y \<Rightarrow> f y) = Some z \<longleftrightarrow>
     x = None \<and> a = Some z \<or> (\<exists>y. x = Some y \<and> f y = Some z)"
  by (cases x) auto

lemma case_sum_Some_iff:
  "(case x of Inl a \<Rightarrow> f a | Inr b \<Rightarrow> g b) = Some z \<longleftrightarrow>
     (\<exists>a. x = Inl a \<and> f a = Some z) \<or> (\<exists>b. x = Inr b \<and> g b = Some z)"
  by (cases x) auto

lemma if_Some_iff:
  "(if c then a else b) = Some z \<longleftrightarrow> c \<and> a = Some z \<or> \<not> c \<and> b = Some z"
  by auto

lemma case_prod_Some_iff:
  "(case x of (a, b) \<Rightarrow> f a b) = Some z \<longleftrightarrow> (\<exists>a b. x = (a, b) \<and> f a b = Some z)"
  by (cases x) auto

lemmas run_conv = bind_eq_Some_conv case_option_Some_iff case_sum_Some_iff if_Some_iff
  case_prod_Some_iff

section \<open>What holds of the result\<close>

text \<open>\<open>always P m\<close>: if \<open>m\<close> returns, its result satisfies \<open>P\<close>; the rules follow the do-notation.\<close>

definition always :: "('a \<Rightarrow> bool) \<Rightarrow> 'a option \<Rightarrow> bool" where
  "always P m \<longleftrightarrow> (\<forall>x. m = Some x \<longrightarrow> P x)"

named_theorems always_intro

lemma alwaysD: "always P m \<Longrightarrow> m = Some x \<Longrightarrow> P x"
  by (simp add: always_def)

lemma alwaysI: "(\<And>x. m = Some x \<Longrightarrow> P x) \<Longrightarrow> always P m"
  by (simp add: always_def)

lemma always_bind:
  "always P m \<Longrightarrow> (\<And>x. P x \<Longrightarrow> always Q (f x)) \<Longrightarrow> always Q (Option.bind m f)"
  by (cases m) (simp_all add: always_def)

lemma always_Some [always_intro]: "P x \<Longrightarrow> always P (Some x)"
  by (simp add: always_def)

lemma always_if [always_intro]:
  "(b \<Longrightarrow> always P m) \<Longrightarrow> (\<not> b \<Longrightarrow> always P n) \<Longrightarrow> always P (if b then m else n)"
  by simp

lemma always_prod [always_intro]:
  "(\<And>a b. x = (a, b) \<Longrightarrow> always P (f a b)) \<Longrightarrow> always P (case x of (a, b) \<Rightarrow> f a b)"
  by (cases x) simp

lemma always_option [always_intro]:
  "(x = None \<Longrightarrow> always P m) \<Longrightarrow> (\<And>a. x = Some a \<Longrightarrow> always P (f a)) \<Longrightarrow>
     always P (case x of None \<Rightarrow> m | Some a \<Rightarrow> f a)"
  by (cases x) simp_all

lemma always_bind_any: "(\<And>x. always Q (f x)) \<Longrightarrow> always Q (Option.bind m f)"
  by (cases m) (simp_all add: always_def)

lemma always_sum:
  "(\<And>a. x = Inl a \<Longrightarrow> always P (f a)) \<Longrightarrow> (\<And>b. x = Inr b \<Longrightarrow> always P (g b)) \<Longrightarrow>
     always P (case x of Inl a \<Rightarrow> f a | Inr b \<Rightarrow> g b)"
  by (cases x) simp_all

lemma bind_SomeE: "Option.bind x f = Some y \<Longrightarrow> (\<And>a. x = Some a \<Longrightarrow> f a = Some y \<Longrightarrow> P) \<Longrightarrow> P"
  by (cases x) simp_all

end
