(* ===== verification/Qmux.thy ===== *)
theory Qmux
  imports Prelude
begin

text \<open>
  The QMI wire format of \<^verbatim>\<open>net/quectel-cm/src\<close>: the packed headers of \<^verbatim>\<open>QCQMI.h\<close>, the TLV
  search \<open>GetTLV\<close> and the request composer \<open>ComposeQMUXMsg\<close> of \<^verbatim>\<open>QMIThread.c\<close>, with the TLV
  list they encode as the abstract view of a message.

  A message is the byte image of a \<^verbatim>\<open>QCQMIMSG\<close>: \<^verbatim>\<open>QMIHdr\<close> at offset 0 (IFType, Length at 1,
  CtlFlags at 3, QMIType at 4, ClientId at 5), \<^verbatim>\<open>QMUXHdr\<close> at 6 (CtlFlags, TransactionId at 7),
  \<^verbatim>\<open>QMUXMsgHdr\<close> at 9 (Type, Length at 11) and the TLVs from offset 13.
\<close>

section \<open>Layout constants\<close>

definition QMUX_TYPE_CTL :: u8 where "QMUX_TYPE_CTL = 0x00"
definition QMUX_TYPE_WDS :: u8 where "QMUX_TYPE_WDS = 0x01"
definition QMUX_TYPE_DMS :: u8 where "QMUX_TYPE_DMS = 0x02"
definition QMUX_TYPE_NAS :: u8 where "QMUX_TYPE_NAS = 0x03"
definition QMUX_TYPE_UIM :: u8 where "QMUX_TYPE_UIM = 0x0B"
definition QMUX_TYPE_WDS_IPV6 :: u8 where "QMUX_TYPE_WDS_IPV6 = 0x11"
definition QMUX_TYPE_WDS_ADMIN :: u8 where "QMUX_TYPE_WDS_ADMIN = 0x1A"

definition WDM_DEFAULT_BUFSIZE :: nat where "WDM_DEFAULT_BUFSIZE = 256"

section \<open>TLV search\<close>

text \<open>
  \<open>GetTLV_loop msg TLVType Length p TLVFind\<close> is the \<^verbatim>\<open>while\<close> loop with the cursor \<^verbatim>\<open>pTLVHdr\<close> as the
  offset \<open>p\<close>; \<open>Length\<close> is a \<^verbatim>\<open>USHORT\<close>, so the subtraction wraps.  The result is \<open>None\<close> for a
  read outside the message, \<open>Some None\<close> for the C result NULL and \<open>Some (Some p)\<close> for a
  pointer to the TLV at offset \<open>p\<close>.
\<close>

function GetTLV_loop :: "bytes \<Rightarrow> int \<Rightarrow> u16 \<Rightarrow> nat \<Rightarrow> int \<Rightarrow> nat option option" where
  "GetTLV_loop msg TLVType Length p TLVFind =
     (if 3 \<le> Length then
        (let TLVFind = TLVFind + 1;
             advance = (case rd16 msg (p + 1) of None \<Rightarrow> None
                        | Some l \<Rightarrow> GetTLV_loop msg TLVType (Length - (l + 3)) (p + unat l + 3) TLVFind)
         in if 0x1000 < TLVType then
              (if TLVFind + 0x1000 = TLVType then Some (Some p) else advance)
            else (case rd8 msg p of None \<Rightarrow> None
                  | Some t \<Rightarrow> if uint t = TLVType then Some (Some p) else advance))
      else Some None)"
  by pat_completeness auto
termination
  by (relation "measure (\<lambda>(msg, TLVType, Length, p, TLVFind). length msg - p)")
     (auto dest: rd16_SomeD)

declare GetTLV_loop.simps [simp del]

definition GetTLV :: "bytes \<Rightarrow> int \<Rightarrow> nat option option" where
  "GetTLV msg TLVType =
     (case rd16 msg 11 of None \<Rightarrow> None | Some Length \<Rightarrow> GetTLV_loop msg TLVType Length 13 0)"

section \<open>Request composition\<close>

definition GetQMUXTransactionId :: "int \<Rightarrow> u16 \<times> int" where
  "GetQMUXTransactionId TransactionId =
     (let t = TransactionId + 1; t = (if 0xFFFF < t then 1 else t) in (word_of_int t, t))"

type_synonym builder = "bytes \<Rightarrow> (u16 \<times> bytes) option"

text \<open>
  \<open>malloc_ok\<close> is the outcome of the \<^verbatim>\<open>malloc\<close> call; the inner \<open>None\<close> is the NULL pointer
  returned when it fails.
\<close>

definition ComposeQMUXMsg ::
  "bool \<Rightarrow> int \<Rightarrow> u8 \<Rightarrow> u16 \<Rightarrow> builder option \<Rightarrow> (bytes option \<times> int) option" where
  "ComposeQMUXMsg malloc_ok TransactionId QMIType Type customQmuxMsgFunction = do {
     let QMIBuf = replicate WDM_DEFAULT_BUFSIZE 0;
     QMIBuf \<leftarrow> poke 0 [0x01] QMIBuf;
     QMIBuf \<leftarrow> poke 3 [0x00] QMIBuf;
     QMIBuf \<leftarrow> poke 4 [QMIType] QMIBuf;
     QMIBuf \<leftarrow> poke 6 [0x00 OR 0x00] QMIBuf;
     let (tid, TransactionId) = GetQMUXTransactionId TransactionId;
     QMIBuf \<leftarrow> poke 7 (le16 tid) QMIBuf;
     QMIBuf \<leftarrow> poke 9 (le16 Type) QMIBuf;
     QMIBuf \<leftarrow> (case customQmuxMsgFunction of
         Some f \<Rightarrow> do { (n, QMIBuf) \<leftarrow> f QMIBuf; poke 11 (le16 (n - 4)) QMIBuf }
       | None \<Rightarrow> poke 11 (le16 0x0000) QMIBuf);
     mlen \<leftarrow> rd16 QMIBuf 11;
     QMIBuf \<leftarrow> poke 1 (le16 (mlen + 4 + 3 + 6 - 1)) QMIBuf;
     len \<leftarrow> rd16 QMIBuf 1;
     let Length = unat len + 1;
     if malloc_ok then do { m \<leftarrow> rdn QMIBuf 0 Length; Some (Some m, TransactionId) }
     else Some (None, TransactionId) }"

text \<open>
  The writers append TLVs behind a cursor: \<^verbatim>\<open>p = pTLV + TLVLength\<close>, the stores through \<open>p\<close>, then
  \<^verbatim>\<open>TLVLength += le16_to_cpu(p->TLVLength) + sizeof(QCQMICTL_TLV_HDR)\<close>.  \<open>data\<close> is everything the
  code stores behind the TLV header, which may be more than the length field announces (the
  terminating NUL of \<^verbatim>\<open>qstrcpy\<close>, the upper bytes of a \<^verbatim>\<open>BOOL\<close>).
\<close>

definition add_tlv :: "nat \<Rightarrow> u8 \<Rightarrow> u16 \<Rightarrow> bytes \<Rightarrow> u16 \<times> bytes \<Rightarrow> (u16 \<times> bytes) option" where
  "add_tlv pTLV ty len data = (\<lambda>(TLVLength, b). do {
     b \<leftarrow> poke (pTLV + unat TLVLength) (ty # le16 len @ data) b;
     Some (TLVLength + (len + 3), b) })"

definition qstrcpy :: "bytes \<Rightarrow> bytes" where
  "qstrcpy from = from @ [0]"

section \<open>Abstract view: a message is its list of TLVs\<close>

type_synonym tlv = "u8 \<times> bytes"

definition tlv_enc :: "tlv \<Rightarrow> bytes" where
  "tlv_enc tv = fst tv # le16 (of_nat (length (snd tv))) @ snd tv"

definition tlvs_enc :: "tlv list \<Rightarrow> bytes" where
  "tlvs_enc ts = concat (map tlv_enc ts)"

definition qmux_message :: "bytes \<Rightarrow> tlv list \<Rightarrow> bool" where
  "qmux_message m ts \<longleftrightarrow>
     (let n = length (tlvs_enc ts) in
      n < 65536 \<and> 13 + n \<le> length m
      \<and> take 2 (drop 11 m) = le16 (of_nat n) \<and> take n (drop 13 m) = tlvs_enc ts)"

text \<open>Position of the first TLV of a type, relative to the first TLV.\<close>

fun tlv_pos :: "tlv list \<Rightarrow> u8 \<Rightarrow> nat option" where
  "tlv_pos [] ty = None"
| "tlv_pos ((t, v) # ts) ty =
     (if t = ty then Some 0 else map_option (\<lambda>i. i + (3 + length v)) (tlv_pos ts ty))"

lemma length_tlv_enc [simp]: "length (tlv_enc tv) = 3 + length (snd tv)"
  by (simp add: tlv_enc_def)

lemma tlvs_enc_Nil [simp]: "tlvs_enc [] = []"
  by (simp add: tlvs_enc_def)

lemma tlvs_enc_Cons [simp]: "tlvs_enc (tv # ts) = tlv_enc tv @ tlvs_enc ts"
  by (simp add: tlvs_enc_def)

lemma tlvs_enc_append [simp]: "tlvs_enc (ts @ us) = tlvs_enc ts @ tlvs_enc us"
  by (simp add: tlvs_enc_def)

lemma rd8_tlv [codec]: "rd8 (pre @ tlv_enc tv @ post) (length pre) = Some (fst tv)"
  using rd8_append [of pre "tlv_enc tv @ post" 0] by (simp add: tlv_enc_def)

lemma rd16_tlv [codec]:
  "rd16 (pre @ tlv_enc tv @ post) (Suc (length pre)) = Some (of_nat (length (snd tv)))"
  using rd16_append [of "pre @ [fst tv]" "le16 (of_nat (length (snd tv))) @ snd tv @ post" 0]
  by (simp add: tlv_enc_def rd16_le16)

lemma rdn_tlv [codec]:
  "rdn (pre @ tlv_enc tv @ post) (length pre + 3) (length (snd tv)) = Some (snd tv)"
  using rdn_append [of "pre @ fst tv # le16 (of_nat (length (snd tv)))" "snd tv @ post" 0 "length (snd tv)"]
  by (simp add: tlv_enc_def rdn_prefix numeral_3_eq_3)

text \<open>The length left after one TLV does not wrap when the remaining TLVs fit.\<close>

lemma tlv_len_step:
  assumes "3 + a + b < 65536"
  shows "(of_nat (3 + a + b) :: u16) - (of_nat a + 3) = of_nat b"
    and "(3 :: u16) \<le> of_nat (3 + a + b)" and "unat (of_nat a :: u16) = a"
  using assms unat_of_nat16 [of "3 + a + b"] by (simp_all add: word_le_nat_alt unat_of_nat16)

text \<open>One iteration of the loop on a TLV that does not match.\<close>

lemma GetTLV_loop_skip:
  assumes "3 + length (snd tv) + n < 65536"
    and "TLVType \<le> 0x1000 \<and> uint (fst tv) \<noteq> TLVType \<or> 0x1000 < TLVType \<and> k + 1 + 0x1000 \<noteq> TLVType"
  shows "GetTLV_loop (pre @ tlv_enc tv @ post) TLVType (of_nat (3 + length (snd tv) + n)) (length pre) k
       = GetTLV_loop (pre @ tlv_enc tv @ post) TLVType (of_nat n) (length (pre @ tlv_enc tv)) (k + 1)"
  using tlv_len_step [OF assms(1)] assms(2)
  by (subst GetTLV_loop.simps) (auto simp: codec Let_def ac_simps)

lemma GetTLV_loop_hit:
  assumes "3 + length (snd tv) + n < 65536"
  shows "GetTLV_loop (pre @ tlv_enc tv @ post) (uint (fst tv)) (of_nat (3 + length (snd tv) + n)) (length pre) k
       = Some (Some (length pre))"
proof -
  have "uint (fst tv) < 256" using uint_lt2p [of "fst tv"] by simp
  then show ?thesis
    using tlv_len_step [OF assms] by (subst GetTLV_loop.simps) (auto simp: codec Let_def)
qed

lemma GetTLV_loop_type:
  assumes "length (tlvs_enc ts) < 65536"
  shows "GetTLV_loop (pre @ tlvs_enc ts @ post) (uint ty) (of_nat (length (tlvs_enc ts))) (length pre) k
       = Some (map_option (\<lambda>i. length pre + i) (tlv_pos ts ty))"
  using assms
proof (induction ts arbitrary: pre k)
  case Nil
  show ?case by (subst GetTLV_loop.simps) simp
next
  case (Cons tv ts)
  obtain t v where tv: "tv = (t, v)" by (cases tv)
  have ty: "uint ty \<le> 0x1000" using uint_lt2p [of ty] by simp
  have fits: "3 + length (snd tv) + length (tlvs_enc ts) < 65536" using Cons.prems by simp
  show ?case
  proof (cases "t = ty")
    case True
    with GetTLV_loop_hit [OF fits, of pre "tlvs_enc ts @ post" k] show ?thesis
      by (simp add: tv)
  next
    case False
    then have "uint (fst tv) \<noteq> uint ty" by (simp add: tv word_uint_eq_iff)
    then have "GetTLV_loop (pre @ tlvs_enc (tv # ts) @ post) (uint ty)
                 (of_nat (length (tlvs_enc (tv # ts)))) (length pre) k
             = GetTLV_loop ((pre @ tlv_enc tv) @ tlvs_enc ts @ post) (uint ty)
                 (of_nat (length (tlvs_enc ts))) (length (pre @ tlv_enc tv)) (k + 1)"
      using GetTLV_loop_skip [OF fits, of "uint ty" k pre "tlvs_enc ts @ post"] ty by simp
    also have "\<dots> = Some (map_option (\<lambda>i. length (pre @ tlv_enc tv) + i) (tlv_pos ts ty))"
      using Cons.prems by (intro Cons.IH) simp
    finally show ?thesis
      using False by (cases "tlv_pos ts ty") (simp_all add: tv)
  qed
qed

lemma tlv_pos_None_iff: "tlv_pos ts ty = None \<longleftrightarrow> map_of ts ty = None"
  by (induction ts ty rule: tlv_pos.induct) auto

lemma tlv_pos_SomeD:
  "tlv_pos ts ty = Some i \<Longrightarrow>
     \<exists>us v vs. ts = us @ (ty, v) # vs \<and> i = length (tlvs_enc us) \<and> map_of ts ty = Some v"
proof (induction ts ty arbitrary: i rule: tlv_pos.induct)
  case (1 ty)
  then show ?case by simp
next
  case (2 t v ts ty)
  show ?case
  proof (cases "t = ty")
    case True
    with "2.prems" show ?thesis by (intro exI [of _ "[]"] exI [of _ v] exI [of _ ts]) simp
  next
    case False
    with "2.prems" obtain j where j: "tlv_pos ts ty = Some j" and i: "i = j + (3 + length v)"
      by auto
    from "2.IH" [OF False j] obtain us w vs where
      "ts = us @ (ty, w) # vs" "j = length (tlvs_enc us)" "map_of ts ty = Some w" by blast
    with False i show ?thesis by (intro exI [of _ "(t, v) # us"] exI [of _ w] exI [of _ vs]) simp
  qed
qed

text \<open>A message that carries \<open>ts\<close>, split at its TLVs.\<close>

lemma qmux_messageE:
  assumes "qmux_message m ts"
  obtains hdr post where "length hdr = 13" "m = hdr @ tlvs_enc ts @ post"
    "rd16 m 11 = Some (of_nat (length (tlvs_enc ts)))" "length (tlvs_enc ts) < 65536"
proof -
  let ?n = "length (tlvs_enc ts)"
  have len: "13 + ?n \<le> length m" and small: "?n < 65536"
    and l: "take 2 (drop 11 m) = le16 (of_nat ?n)" and t: "take ?n (drop 13 m) = tlvs_enc ts"
    using assms by (auto simp: qmux_message_def Let_def)
  have "drop 11 m = le16 (of_nat ?n) @ drop 13 m"
    using append_take_drop_id [of 2 "drop 11 m"] l by simp
  then have m: "m = take 11 m @ le16 (of_nat ?n) @ drop 13 m"
    using append_take_drop_id [of 11 m] by simp
  have "length (take 11 m) = 11" using len by simp
  with rd16_append [of "take 11 m" "le16 (of_nat ?n) @ drop 13 m" 0]
  have "rd16 m 11 = Some (of_nat ?n)"
    unfolding m [symmetric] by (simp add: rd16_le16)
  moreover have "m = take 13 m @ tlvs_enc ts @ drop (13 + ?n) m"
    using append_take_drop_id [of 13 m] append_take_drop_id [of ?n "drop 13 m"] t
    by (simp add: add.commute)
  ultimately show ?thesis
    using that [of "take 13 m" "drop (13 + ?n) m"] len small by simp
qed

text \<open>The search agrees with the abstract lookup \<open>map_of\<close> and stays inside the message.\<close>

lemma GetTLV_absent:
  assumes "qmux_message m ts" and "map_of ts ty = None"
  shows "GetTLV m (uint ty) = Some None"
  using assms(1)
proof (rule qmux_messageE)
  fix hdr post
  assume "length hdr = 13" "m = hdr @ tlvs_enc ts @ post"
    "rd16 m 11 = Some (of_nat (length (tlvs_enc ts)))" "length (tlvs_enc ts) < 65536"
  with assms(2) GetTLV_loop_type [of ts hdr post ty 0] show ?thesis
    by (simp add: GetTLV_def tlv_pos_None_iff)
qed

lemma GetTLV_present:
  assumes "qmux_message m ts" and "map_of ts ty = Some v"
  obtains p where "GetTLV m (uint ty) = Some (Some p)" "rd8 m p = Some ty"
    "rd16 m (p + 1) = Some (of_nat (length v))" "rdn m (p + 3) (length v) = Some v"
  using assms(1)
proof (rule qmux_messageE)
  fix hdr post
  assume h: "length hdr = 13" "m = hdr @ tlvs_enc ts @ post"
    "rd16 m 11 = Some (of_nat (length (tlvs_enc ts)))" "length (tlvs_enc ts) < 65536"
  from assms(2) obtain i where i: "tlv_pos ts ty = Some i"
    using tlv_pos_None_iff by (metis option.exhaust option.simps(3))
  from tlv_pos_SomeD [OF i] assms(2) obtain us vs where
    ts: "ts = us @ (ty, v) # vs" and ii: "i = length (tlvs_enc us)" by auto
  let ?pre = "hdr @ tlvs_enc us"
  have m: "m = ?pre @ tlv_enc (ty, v) @ tlvs_enc vs @ post" using h(2) ts by simp
  have "GetTLV m (uint ty) = Some (Some (length ?pre))"
    using h i ii GetTLV_loop_type [of ts hdr post ty 0] by (simp add: GetTLV_def)
  then show ?thesis
    using that [of "length ?pre"] rd8_tlv [of ?pre "(ty, v)"] rd16_tlv [of ?pre "(ty, v)"]
      rdn_tlv [of ?pre "(ty, v)"] by (simp add: m)
qed

section \<open>Properties\<close>

text \<open>
  C1: On a well-formed message that carries the TLV list \<open>ts\<close>, \<open>GetTLV\<close> by type is the abstract
  lookup in \<open>ts\<close>: it returns NULL exactly when no TLV has the type, and otherwise a pointer to
  the first one, whose type, length and value lie inside the message.
\<close>

theorem GetTLV_refines_lookup:
  assumes "qmux_message m ts"
  shows "case map_of ts ty of
           None \<Rightarrow> GetTLV m (uint ty) = Some None
         | Some v \<Rightarrow> \<exists>p. GetTLV m (uint ty) = Some (Some p) \<and> rd8 m p = Some ty
              \<and> rd16 m (p + 1) = Some (of_nat (length v)) \<and> rdn m (p + 3) (length v) = Some v"
proof (cases "map_of ts ty")
  case None
  with GetTLV_absent [OF assms] show ?thesis by simp
next
  case (Some v)
  with GetTLV_present [OF assms Some] show ?thesis by fastforce
qed

theorem GetTLV_refines_lookup_witness:
  "\<exists>p. GetTLV (replicate 11 0 @ le16 9 @ tlvs_enc [(2, [0, 0]), (1, [7])]) 1 = Some (Some p)
     \<and> rdn (replicate 11 0 @ le16 9 @ tlvs_enc [(2, [0, 0]), (1, [7])]) (p + 3) 1 = Some [7]"
  using GetTLV_refines_lookup [of "replicate 11 0 @ le16 9 @ tlvs_enc [(2, [0, 0]), (1, [7])]"
      "[(2, [0, 0]), (1, [7])]" 1]
  by (auto simp: qmux_message_def)

text \<open>
  The search trusts the length field of a TLV: when a TLV announces more bytes than the message
  has left, the remaining length wraps around and the loop goes on reading behind the message.
\<close>

theorem GetTLV_length_overrun:
  assumes "length hdr = 11" and "0 < l" and "l \<le> 0xFFFD" and "TLVType \<le> 0x1000" and "uint t \<noteq> TLVType"
  shows "GetTLV (hdr @ le16 3 @ t # le16 l) TLVType = None"
proof -
  let ?m = "hdr @ le16 3 @ t # le16 l"
  have len: "rd16 ?m 11 = Some 3"
    using rd16_append [of hdr "le16 3 @ t # le16 l" 0] assms(1) by (simp add: rd16_le16)
  have ty: "rd8 ?m 13 = Some t"
    using rd8_append [of "hdr @ le16 3" "t # le16 l" 0] assms(1) by simp
  have tl: "rd16 ?m 14 = Some l"
    using rd16_append [of "hdr @ le16 3 @ [t]" "le16 l" 0] assms(1) by (simp add: rd16_le16 [of l "[]", simplified])
  have "unat l \<noteq> 0" using assms(2) by (simp add: unat_eq_zero word_neq_0_conv)
  then have out: "rd8 ?m (13 + unat l + 3) = None" "rd16 ?m (13 + unat l + 3 + 1) = None"
    using assms(1) by (auto simp: rd8_def rd16_def)
  have wrap: "3 \<le> 3 - (l + 3)"
  proof -
    have "0 < uint l" "uint l \<le> 0xFFFD" using assms(2,3) by (simp_all add: word_less_def word_le_def)
    then have "uint (- l) = 65536 - uint l"
      by (simp add: uint_word_ariths zmod_zminus1_eq_if)
    with \<open>uint l \<le> 0xFFFD\<close> have "3 \<le> - l" by (simp add: word_le_def)
    then show ?thesis by simp
  qed
  have "GetTLV ?m TLVType = GetTLV_loop ?m TLVType (3 - (l + 3)) (13 + unat l + 3) 1"
    using assms(4,5) ty tl by (simp add: GetTLV_def len GetTLV_loop.simps [of ?m _ 3])
  also have "\<dots> = None"
    using assms(4) out wrap by (subst GetTLV_loop.simps) (simp add: Let_def)
  finally show ?thesis .
qed

theorem GetTLV_length_overrun_witness:
  "GetTLV (replicate 11 0 @ le16 3 @ 2 # le16 4) 1 = None"
  using GetTLV_length_overrun [of "replicate 11 0" 4 1 2] by simp

end
