(* ===== verification/QmiTypes.thy ===== *)
theory QmiTypes
  imports Qmux
begin

text \<open>
  The data shared by the connection manager's parts: \<^verbatim>\<open>PROFILE_T\<close>, \<^verbatim>\<open>IPV4_T\<close>, \<^verbatim>\<open>IPV6_T\<close> and
  \<^verbatim>\<open>QMAP_SETTING\<close> of \<^verbatim>\<open>QMIThread.h\<close>.  A \<^verbatim>\<open>const char *\<close> field is a \<open>string option\<close>
  (\<open>None\<close> is NULL, the terminating NUL is left out); an \<^verbatim>\<open>int\<close> field is an \<open>int\<close> and a store
  into a narrower field truncates it explicitly.  Fields only used for logging, device paths and
  file descriptors are left out.
\<close>

definition IpFamilyV4 :: int where "IpFamilyV4 = 0x04"
definition IpFamilyV6 :: int where "IpFamilyV6 = 0x06"

record ipv4_t =
  v4_Address :: u32
  v4_Gateway :: u32
  v4_SubnetMask :: u32
  v4_DnsPrimary :: u32
  v4_DnsSecondary :: u32
  v4_Mtu :: u32

record ipv6_t =
  v6_Address :: bytes
  v6_Gateway :: bytes
  v6_SubnetMask :: bytes
  v6_DnsPrimary :: bytes
  v6_DnsSecondary :: bytes
  v6_PrefixLengthIPAddr :: u8
  v6_PrefixLengthGateway :: u8
  v6_Mtu :: u32

record qmap_setting =
  rx_urb_size :: u32
  ep_type :: u32
  iface_id :: u32
  MuxId :: u32
  ul_data_aggregation_max_datagrams :: u32
  ul_data_aggregation_max_size :: u32
  dl_minimum_padding :: u32

record profile =
  apn :: "string option"
  user :: "string option"
  pd :: "string option"
  auth :: int
  iptype :: int
  pincode :: "string option"
  proxy :: string
  pdp :: int
  profile_index :: int
  enable_bridge :: int
  enable_ipv4 :: u8
  enable_ipv6 :: u8
  no_dhcp :: u8
  logfile :: "string option"
  usblogfile :: "string option"
  expect_adapter :: string
  kill_pdp :: int
  replication_factor :: int
  qmapnet_adapter :: string
  qmap_mode :: int
  qmap_size :: int
  p_qmap_version :: int
  curIpFamily :: int
  rawIP :: int
  muxid :: int
  wda_client :: int
  udhcpc_ip :: u32
  ipv4 :: ipv4_t
  ipv6 :: ipv6_t
  PCSCFIpv4Addr1 :: u32
  PCSCFIpv4Addr2 :: u32
  PCSCFIpv6Addr1 :: bytes
  PCSCFIpv6Addr2 :: bytes
  reattach_flag :: u8
  hardware_interface :: int
  idProduct :: int
  loopback_state :: u8
  BaseBandVersion :: string
  old_apn :: string
  old_user :: string
  old_pd :: string
  old_auth :: int
  old_iptype :: int
  rmnet_size :: u32
  rmnet_rx_urb_size :: u32
  rmnet_ep_type :: u32
  rmnet_iface_id :: u32
  rmnet_qmap_version :: u32
  rmnet_dl_minimum_padding :: u32
  bring_up_by_apn_name :: int
  bring_up_by_apn_type :: int
  apn_type :: int

text \<open>All-zero values, as \<^verbatim>\<open>memset\<close> leaves them.\<close>

definition zero_ipv4 :: ipv4_t where
  "zero_ipv4 = \<lparr>v4_Address = 0, v4_Gateway = 0, v4_SubnetMask = 0, v4_DnsPrimary = 0,
     v4_DnsSecondary = 0, v4_Mtu = 0\<rparr>"

definition zero_ipv6 :: ipv6_t where
  "zero_ipv6 = \<lparr>v6_Address = replicate 16 0, v6_Gateway = replicate 16 0,
     v6_SubnetMask = replicate 16 0, v6_DnsPrimary = replicate 16 0,
     v6_DnsSecondary = replicate 16 0, v6_PrefixLengthIPAddr = 0, v6_PrefixLengthGateway = 0,
     v6_Mtu = 0\<rparr>"

definition zero_profile :: profile where
  "zero_profile = \<lparr>apn = None, user = None, pd = None, auth = 0, iptype = 0, pincode = None,
     proxy = '''', pdp = 0, profile_index = 0, enable_bridge = 0, enable_ipv4 = 0,
     enable_ipv6 = 0, no_dhcp = 0, logfile = None, usblogfile = None, expect_adapter = '''',
     kill_pdp = 0, replication_factor = 0, qmapnet_adapter = '''', qmap_mode = 0, qmap_size = 0,
     p_qmap_version = 0, curIpFamily = 0, rawIP = 0, muxid = 0,
     wda_client = 0, udhcpc_ip = 0, ipv4 = zero_ipv4, ipv6 = zero_ipv6, PCSCFIpv4Addr1 = 0,
     PCSCFIpv4Addr2 = 0, PCSCFIpv6Addr1 = replicate 16 0, PCSCFIpv6Addr2 = replicate 16 0,
     reattach_flag = 0, hardware_interface = 0, idProduct = 0, loopback_state = 0,
     BaseBandVersion = '''', old_apn = '''', old_user = '''',
     old_pd = '''', old_auth = 0, old_iptype = 0, rmnet_size = 0, rmnet_rx_urb_size = 0,
     rmnet_ep_type = 0, rmnet_iface_id = 0, rmnet_qmap_version = 0, rmnet_dl_minimum_padding = 0,
     bring_up_by_apn_name = 0,
     bring_up_by_apn_type = 0, apn_type = 0\<rparr>"

text \<open>The bytes of a C string, without its NUL, and the NULL-or-empty test the code repeats.\<close>

definition cbytes :: "string \<Rightarrow> bytes" where
  "cbytes s = map of_char s"

definition null_or_empty :: "string option \<Rightarrow> bool" where
  "null_or_empty s \<longleftrightarrow> (case s of None \<Rightarrow> True | Some t \<Rightarrow> t = [])"

lemma length_cbytes [simp]: "length (cbytes s) = length s"
  by (simp add: cbytes_def)

lemma null_or_empty_simps [simp]:
  "null_or_empty None" "null_or_empty (Some t) \<longleftrightarrow> t = []"
  by (simp_all add: null_or_empty_def)

end
