(* ===== verification/QmiBuilders.thy ===== *)
theory QmiBuilders
  imports QmiTypes
begin

text \<open>
  The request builders of \<^verbatim>\<open>QMIThread.c\<close>, the \<^verbatim>\<open>CUSTOMQMUX\<close> callbacks that \<open>ComposeQMUXMsg\<close>
  runs on its 256-byte stack buffer.  Each is a sequence of stores at the packed offsets of the
  message structs of \<^verbatim>\<open>QCQMUX.h\<close> and returns the \<^verbatim>\<open>USHORT\<close> size.  The contract of a builder is
  the locale \<open>qmux_builder\<close>: the buffer holds exactly an abstract TLV list, and the composer
  turns that into the frame \<open>qmi_frame\<close>.
\<close>

section \<open>Builders\<close>

definition WdsStartNwInterfaceReq_tlvs ::
  "bool \<Rightarrow> u8 \<Rightarrow> profile \<Rightarrow> string option \<Rightarrow> string option \<Rightarrow> int
   \<Rightarrow> u16 \<times> bytes \<Rightarrow> (u16 \<times> bytes) option" where
  "WdsStartNwInterfaceReq_tlvs s_is_cdma s_hdr_personality profile profile_user profile_pd profile_auth s = do {
     let pTLV = 13;
     s \<leftarrow> add_tlv pTLV 0x30 1 [if \<not> s_is_cdma then 0x01 else 0x02] s;
     s \<leftarrow> (if \<not> s_is_cdma
           then (case apn profile of None \<Rightarrow> Some s
                 | Some a \<Rightarrow> add_tlv pTLV 0x14 (of_nat (length a)) (qstrcpy (cbytes a)) s)
           else Some s);
     s \<leftarrow> (case profile_user of None \<Rightarrow> Some s
          | Some u \<Rightarrow> add_tlv pTLV 0x17 (of_nat (length u)) (qstrcpy (cbytes u)) s);
     s \<leftarrow> (case profile_pd of None \<Rightarrow> Some s
          | Some p \<Rightarrow> add_tlv pTLV 0x18 (of_nat (length p)) (qstrcpy (cbytes p)) s);
     s \<leftarrow> (if profile_user \<noteq> None \<and> profile_pd \<noteq> None
           then add_tlv pTLV 0x16 1 [word_of_int profile_auth] s else Some s);
     s \<leftarrow> add_tlv pTLV 0x19 1 [word_of_int (curIpFamily profile)] s;
     if idProduct profile \<noteq> 0x0316 then
       (if profile_index profile \<noteq> 0 \<and> \<not> s_is_cdma then
          (if s_is_cdma \<and> s_hdr_personality = 0x02 then add_tlv pTLV 0x32 1 [101] s
           else add_tlv pTLV 0x31 1 [word_of_int (profile_index profile)] s)
        else Some s)
     else do {
       s \<leftarrow> (if bring_up_by_apn_name profile \<noteq> 0
             then add_tlv pTLV 0x3C 1 (le32 (word_of_int (bring_up_by_apn_name profile))) s
             else Some s);
       s \<leftarrow> (if bring_up_by_apn_type profile \<noteq> 0
             then add_tlv pTLV 0x3D 1 (le32 (word_of_int (bring_up_by_apn_type profile))) s
             else Some s);
       (if apn_type profile \<noteq> 0
        then add_tlv pTLV 0x38 4 (le32 (word_of_int (apn_type profile))) s
        else Some s) } }"

text \<open>The credentials of the request: empty ones are replaced by the CDMA defaults.\<close>

definition start_credentials :: "bool \<Rightarrow> profile \<Rightarrow> string option \<times> string option \<times> int" where
  "start_credentials s_is_cdma profile =
     (if s_is_cdma \<and> null_or_empty (user profile) \<and> null_or_empty (pd profile)
      then (Some ''ctnet@mycdma.cn'', Some ''vnet.mobi'', 2)
      else (user profile, pd profile, auth profile))"

definition WdsStartNwInterfaceReq :: "bool \<Rightarrow> u8 \<Rightarrow> profile \<Rightarrow> builder" where
  "WdsStartNwInterfaceReq s_is_cdma s_hdr_personality profile b =
     (case start_credentials s_is_cdma profile of
      (profile_user, profile_pd, profile_auth) \<Rightarrow> do {
        b \<leftarrow> poke 11 (le16 0) b;
        s \<leftarrow> WdsStartNwInterfaceReq_tlvs s_is_cdma s_hdr_personality profile
               profile_user profile_pd profile_auth (0, b);
        Some (4 + fst s, snd s) })"

definition WdsStopNwInterfaceReq :: "u32 \<Rightarrow> u32 \<Rightarrow> int \<Rightarrow> builder" where
  "WdsStopNwInterfaceReq IPv4Handle IPv6Handle family b = do {
     b \<leftarrow> poke 13 [0x01] b;
     b \<leftarrow> poke 14 (le16 0x04) b;
     b \<leftarrow> poke 16 (le32 (if family = IpFamilyV4 then IPv4Handle else IPv6Handle)) b;
     Some (11, b) }"

definition WdsSetClientIPFamilyPref :: "u8 \<Rightarrow> builder" where
  "WdsSetClientIPFamilyPref IpPreference b = do {
     b \<leftarrow> poke 13 [0x01] b;
     b \<leftarrow> poke 14 (le16 0x01) b;
     b \<leftarrow> poke 16 [IpPreference] b;
     Some (8, b) }"

definition WdsSetAutoConnect :: "u8 \<Rightarrow> builder" where
  "WdsSetAutoConnect autoconnect_setting b = do {
     b \<leftarrow> poke 13 [0x01] b;
     b \<leftarrow> poke 14 (le16 0x01) b;
     b \<leftarrow> poke 16 [autoconnect_setting] b;
     Some (8, b) }"

definition WdsSetQMUXBindMuxDataPort :: "qmap_setting \<Rightarrow> builder" where
  "WdsSetQMUXBindMuxDataPort qmap_settings b = do {
     b \<leftarrow> poke 13 [0x10] b;
     b \<leftarrow> poke 14 (le16 0x08) b;
     b \<leftarrow> poke 16 (le32 (ep_type qmap_settings)) b;
     b \<leftarrow> poke 20 (le32 (iface_id qmap_settings)) b;
     b \<leftarrow> poke 24 [0x11] b;
     b \<leftarrow> poke 25 (le16 0x01) b;
     b \<leftarrow> poke 27 [ucast (MuxId qmap_settings)] b;
     b \<leftarrow> poke 28 [0x13] b;
     b \<leftarrow> poke 29 (le16 0x04) b;
     b \<leftarrow> poke 31 (le32 1) b;
     Some (26, b) }"

text \<open>A store through \<^verbatim>\<open>PQMIWDS_ADMIN_SET_DATA_FORMAT_TLV\<close>: type, length 4 and a 32-bit value.\<close>

definition poke_format_tlv :: "nat \<Rightarrow> u8 \<Rightarrow> u32 \<Rightarrow> bytes \<Rightarrow> bytes option" where
  "poke_format_tlv i ty v b = do {
     b \<leftarrow> poke i [ty] b;
     b \<leftarrow> poke (i + 1) (le16 4) b;
     poke (i + 3) (le32 v) b }"

definition WdaSetDataFormat :: "u32 \<Rightarrow> qmap_setting \<Rightarrow> builder" where
  "WdaSetDataFormat qmap_version qmap_settings b =
     (if rx_urb_size qmap_settings = 0 then do {
        b \<leftarrow> poke 13 [0x10] b;
        b \<leftarrow> poke 14 (le16 0x0001) b;
        b \<leftarrow> poke 16 [0] b;
        b \<leftarrow> poke_format_tlv 17 0x11 0x01 b;
        b \<leftarrow> poke_format_tlv 24 0x13 0x00 b;
        Some (4 + 4 + 7 + 7, b) }
      else do {
        b \<leftarrow> poke 13 [0x10] b;
        b \<leftarrow> poke 14 (le16 0x0001) b;
        b \<leftarrow> poke 16 [0] b;
        b \<leftarrow> poke_format_tlv 17 0x11 0x02 b;
        b \<leftarrow> poke_format_tlv 24 0x12 qmap_version b;
        b \<leftarrow> poke_format_tlv 31 0x13 qmap_version b;
        b \<leftarrow> poke_format_tlv 38 0x15 (rx_urb_size qmap_settings div 512) b;
        b \<leftarrow> poke_format_tlv 45 0x16 (rx_urb_size qmap_settings) b;
        b \<leftarrow> poke 52 [0x17] b;
        b \<leftarrow> poke 53 (le16 8) b;
        b \<leftarrow> poke 55 (le32 (ep_type qmap_settings)) b;
        b \<leftarrow> poke 59 (le32 (iface_id qmap_settings)) b;
        if ul_data_aggregation_max_datagrams qmap_settings = 0 then Some (54, b)
        else do {
          b \<leftarrow> poke_format_tlv 63 0x19 (dl_minimum_padding qmap_settings) b;
          b \<leftarrow> poke_format_tlv 70 0x1B (ul_data_aggregation_max_datagrams qmap_settings) b;
          b \<leftarrow> poke_format_tlv 77 0x1C (ul_data_aggregation_max_size qmap_settings) b;
          Some (75, b) } })"

definition DmsUIMVerifyPinReqSend :: "string \<Rightarrow> builder" where
  "DmsUIMVerifyPinReqSend pin b = do {
     b \<leftarrow> poke 13 [0x01] b;
     b \<leftarrow> poke 16 [0x01] b;
     b \<leftarrow> poke 17 [of_nat (length pin)] b;
     b \<leftarrow> poke 18 (qstrcpy (cbytes pin)) b;
     b \<leftarrow> poke 14 (le16 (2 + of_nat (length pin))) b;
     Some (10 + (of_nat (length pin) - 1), b) }"

definition QMI_UIM_EVENT_CARD_STATUS :: u32 where
  "QMI_UIM_EVENT_CARD_STATUS = 0x00000001"

definition UimEventRegReqSend :: builder where
  "UimEventRegReqSend b = do {
     b \<leftarrow> poke 13 [0x01] b;
     b \<leftarrow> poke 14 (le16 0x04) b;
     b \<leftarrow> poke 16 [ucast (QMI_UIM_EVENT_CARD_STATUS AND 0xff)] b;
     b \<leftarrow> poke 17 [ucast (drop_bit 8 QMI_UIM_EVENT_CARD_STATUS AND 0xff)] b;
     b \<leftarrow> poke 18 [ucast (drop_bit 16 QMI_UIM_EVENT_CARD_STATUS AND 0xff)] b;
     b \<leftarrow> poke 19 [ucast (drop_bit 24 QMI_UIM_EVENT_CARD_STATUS AND 0xff)] b;
     Some (11, b) }"

definition UimVerifyPinReqSend :: "string \<Rightarrow> builder" where
  "UimVerifyPinReqSend pin b = do {
     b \<leftarrow> poke 13 [0x01] b;
     b \<leftarrow> poke 14 (le16 0x02) b;
     b \<leftarrow> poke 16 [0x00] b;
     b \<leftarrow> poke 17 [0x00] b;
     b \<leftarrow> poke 18 [0x02] b;
     b \<leftarrow> poke 19 (le16 (2 + of_nat (length pin))) b;
     b \<leftarrow> poke 21 [0x01] b;
     b \<leftarrow> poke 22 [of_nat (length pin)] b;
     b \<leftarrow> poke 23 (qstrcpy (cbytes pin)) b;
     Some (15 + (of_nat (length pin) - 1), b) }"

definition WdsGetProfileListReqSend :: builder where
  "WdsGetProfileListReqSend b = do { b \<leftarrow> poke 11 (le16 (4 - 4)) b; Some (4, b) }"

definition WdsCreateProfileSettingsReqSend :: "profile \<Rightarrow> builder" where
  "WdsCreateProfileSettingsReqSend profile b = do {
     b \<leftarrow> poke 11 (le16 (12 - 4)) b;
     b \<leftarrow> poke 13 [0x01] b;
     b \<leftarrow> poke 14 (le16 0x01) b;
     b \<leftarrow> poke 16 [0x00] b;
     b \<leftarrow> poke 17 [0x25] b;
     b \<leftarrow> poke 18 (le16 0x01) b;
     b \<leftarrow> poke 20 [word_of_int (pdp profile)] b;
     Some (12, b) }"

definition WdsGetProfileSettingsReqSend :: "profile \<Rightarrow> builder" where
  "WdsGetProfileSettingsReqSend profile b = do {
     b \<leftarrow> poke 11 (le16 (9 - 4)) b;
     b \<leftarrow> poke 13 [0x01] b;
     b \<leftarrow> poke 14 (le16 0x02) b;
     b \<leftarrow> poke 16 [0x00] b;
     b \<leftarrow> poke 17 [word_of_int (profile_index profile)] b;
     Some (9, b) }"

definition WdsModifyProfileSettingsReq_tlvs ::
  "profile \<Rightarrow> u16 \<times> bytes \<Rightarrow> (u16 \<times> bytes) option" where
  "WdsModifyProfileSettingsReq_tlvs profile s = do {
     let pTLV = 18;
     s \<leftarrow> add_tlv pTLV 0x11 1 [word_of_int (iptype profile)] s;
     s \<leftarrow> (case apn profile of None \<Rightarrow> Some s
          | Some a \<Rightarrow> add_tlv pTLV 0x14 (of_nat (length a)) (qstrcpy (cbytes a)) s);
     s \<leftarrow> (case user profile of None \<Rightarrow> Some s
          | Some u \<Rightarrow> add_tlv pTLV 0x1B (of_nat (length u)) (qstrcpy (cbytes u)) s);
     s \<leftarrow> (case pd profile of None \<Rightarrow> Some s
          | Some p \<Rightarrow> add_tlv pTLV 0x1C (of_nat (length p)) (qstrcpy (cbytes p)) s);
     if user profile \<noteq> None \<and> pd profile \<noteq> None
     then add_tlv pTLV 0x1D 1 [word_of_int (auth profile)] s else Some s }"

definition WdsModifyProfileSettingsReq :: "profile \<Rightarrow> builder" where
  "WdsModifyProfileSettingsReq profile b = do {
     b \<leftarrow> poke 11 (le16 (9 - 4)) b;
     b \<leftarrow> poke 13 [0x01] b;
     b \<leftarrow> poke 14 (le16 0x02) b;
     b \<leftarrow> poke 16 [0x00] b;
     b \<leftarrow> poke 17 [word_of_int (profile_index profile)] b;
     s \<leftarrow> WdsModifyProfileSettingsReq_tlvs profile (0, b);
     Some (9 + fst s, snd s) }"

definition WdsGetRuntimeSettingReq :: builder where
  "WdsGetRuntimeSettingReq b = do {
     b \<leftarrow> poke 13 [0x10] b;
     b \<leftarrow> poke 14 (le16 0x04) b;
     b \<leftarrow> poke 16 (le32 (push_bit 4 1 OR push_bit 8 1 OR push_bit 13 1 OR push_bit 9 1
                       OR push_bit 11 1 OR push_bit 14 1)) b;
     Some (11, b) }"

definition DmsSetOperatingModeReq :: "u8 \<Rightarrow> builder" where
  "DmsSetOperatingModeReq OperatingMode b = do {
     b \<leftarrow> poke 13 [0x01] b;
     b \<leftarrow> poke 14 (le16 1) b;
     b \<leftarrow> poke 16 [OperatingMode] b;
     Some (8, b) }"

definition UimSetCardSlotReq :: "u8 \<Rightarrow> builder" where
  "UimSetCardSlotReq slot b = do {
     b \<leftarrow> poke 13 [0x01] b;
     b \<leftarrow> poke 14 (le16 1) b;
     b \<leftarrow> poke 16 [slot] b;
     Some (8, b) }"

definition WdaSetLoopBackReq :: builder where
  "WdaSetLoopBackReq b = do {
     b \<leftarrow> poke 13 [0x01] b;
     b \<leftarrow> poke 14 (le16 1) b;
     b \<leftarrow> poke 17 [0x10] b;
     b \<leftarrow> poke 18 (le16 4) b;
     Some (15, b) }"

section \<open>The frame a composed request is\<close>

definition qmi_frame :: "u8 \<Rightarrow> u16 \<Rightarrow> u16 \<Rightarrow> tlv list \<Rightarrow> bytes" where
  "qmi_frame QMIType tid Type ts =
     [0x01] @ le16 (of_nat (12 + length (tlvs_enc ts))) @ [0x00, QMIType, 0x00, 0x00] @ le16 tid
     @ le16 Type @ le16 (of_nat (length (tlvs_enc ts))) @ tlvs_enc ts"

lemma length_qmi_frame [simp]: "length (qmi_frame Q tid ty ts) = 13 + length (tlvs_enc ts)"
  by (simp add: qmi_frame_def)

lemma qmi_frame_message:
  assumes "length (tlvs_enc ts) < 65536"
  shows "qmux_message (qmi_frame Q tid ty ts) ts"
proof -
  have e: "qmi_frame Q tid ty ts =
    ([0x01] @ le16 (of_nat (12 + length (tlvs_enc ts))) @ [0x00, Q, 0x00, 0x00] @ le16 tid @ le16 ty)
    @ le16 (of_nat (length (tlvs_enc ts))) @ tlvs_enc ts" (is "_ = ?h @ ?l @ _")
    by (simp add: qmi_frame_def)
  have "length ?h = 11" by simp
  with assms show ?thesis
    unfolding qmux_message_def Let_def by (simp add: e)
qed

section \<open>Sequences of stores\<close>

text \<open>Adjacent stores are one store; stores to disjoint places commute.\<close>

lemma poke_merge:
  "j = i + length xs \<Longrightarrow>
     poke i xs b \<bind> (\<lambda>b. poke j ys b \<bind> f) = poke i (xs @ ys) b \<bind> f"
  by (auto simp: poke_def ac_simps)

lemma poke_merge_last:
  "j = i + length xs \<Longrightarrow> poke i xs b \<bind> poke j ys = poke i (xs @ ys) b"
  using poke_merge [of j i xs b ys Some] by simp

lemma poke_swap:
  assumes "i + length xs \<le> j" and "xs \<noteq> []"
  shows "poke j ys b \<bind> (\<lambda>b. poke i xs b \<bind> f) = poke i xs b \<bind> (\<lambda>b. poke j ys b \<bind> f)"
proof -
  have "i < j" using assms by (cases xs) auto
  with assms(1) show ?thesis by (auto simp: poke_def min_def drop_take)
qed

lemma poke_skip:
  "length h \<le> i \<Longrightarrow> poke i xs (h @ r) = map_option ((@) h) (poke (i - length h) xs r)"
  by (auto simp: poke_def)

lemma poke_zeros:
  "k + length xs \<le> n \<Longrightarrow>
     poke k xs (replicate n 0) = Some (replicate k 0 @ xs @ replicate (n - k - length xs) 0)"
  by (simp add: poke_def min_def)

section \<open>The contract of a builder\<close>

text \<open>
  On the zeroed buffer behind the 11 header bytes the composer has written, a builder keeps the
  header, leaves the encoding of \<open>ts\<close> at offset 13 and returns the size of \<^verbatim>\<open>QMUXMsgHdr\<close> plus the
  encoding.
\<close>

locale qmux_builder =
  fixes build :: builder and ts :: "tlv list"
  assumes build: "length hdr = 11 \<Longrightarrow>
      \<exists>l rest. build (hdr @ replicate 245 0)
               = Some (of_nat (4 + length (tlvs_enc ts)), hdr @ l @ tlvs_enc ts @ rest)
             \<and> length l = 2 \<and> length rest = 243 - length (tlvs_enc ts)"
    and fits: "length (tlvs_enc ts) \<le> 243"

definition compose_hdr :: "u8 \<Rightarrow> u16 \<Rightarrow> u16 \<Rightarrow> bytes" where
  "compose_hdr QMIType tid Type = [0x01, 0, 0, 0x00, QMIType, 0, 0x00] @ le16 tid @ le16 Type"

lemma length_compose_hdr [simp]: "length (compose_hdr Q tid ty) = 11"
  by (simp add: compose_hdr_def)

lemma compose_header_stores:
  "do { b \<leftarrow> poke 0 [0x01] (replicate 256 0);
        b \<leftarrow> poke 3 [0x00] b;
        b \<leftarrow> poke 4 [Q] b;
        b \<leftarrow> poke 6 [0x00] b;
        b \<leftarrow> poke 7 (le16 tid) b;
        b \<leftarrow> poke 9 (le16 ty) b;
        f b } = f (compose_hdr Q tid ty @ replicate 245 0)"
proof -
  have z: "replicate 256 (0 :: u8) = [0,0,0,0,0,0,0,0,0,0,0] @ replicate 245 0"
    by (simp add: numeral_eq_Suc)
  show ?thesis
    unfolding z compose_hdr_def
    by (simp add: poke_def le16_def)
qed

text \<open>What the composer does once the builder has left \<open>hdr @ l @ tlvs @ rest\<close>.\<close>

lemma compose_lengths:
  assumes "length l = 2" and "length rest = 243 - n" and "n = length tv" and "n \<le> 243"
  shows "do { b \<leftarrow> poke 11 (le16 (of_nat (4 + n) - 4)) (compose_hdr Q tid ty @ l @ tv @ rest);
              mlen \<leftarrow> rd16 b 11;
              b \<leftarrow> poke 1 (le16 (mlen + 4 + 3 + 6 - 1)) b;
              len \<leftarrow> rd16 b 1;
              rdn b 0 (unat len + 1) }
       = Some ([0x01] @ le16 (of_nat (12 + n)) @ [0x00, Q, 0x00, 0x00] @ le16 tid @ le16 ty
               @ le16 (of_nat n) @ tv)"
proof -
  let ?h = "compose_hdr Q tid ty" and ?n = "of_nat n :: u16"
  have 1: "poke 11 (le16 ?n) (?h @ l @ tv @ rest) = Some (?h @ le16 ?n @ tv @ rest)"
    using assms by (simp add: poke_def)
  have 2: "rd16 (?h @ le16 ?n @ tv @ rest) 11 = Some ?n"
    using rd16_append [of ?h "le16 ?n @ tv @ rest" 0] by (simp add: rd16_le16)
  let ?t = "[0x00, Q, 0x00, 0x00] @ le16 tid @ le16 ty @ le16 ?n @ tv"
  have 3: "poke 1 (le16 w) (?h @ le16 ?n @ tv @ rest) = Some ([0x01] @ le16 w @ ?t @ rest)" for w
    by (simp add: poke_def compose_hdr_def)
  have 4: "rd16 ([0x01] @ le16 w @ ?t @ rest) 1 = Some w" for w
    using rd16_append [of "[0x01]" "le16 w @ ?t @ rest" 0] by (simp add: rd16_le16)
  have "?n + 4 + 3 + 6 - 1 = of_nat (12 + n)" by simp
  moreover have "unat (of_nat (12 + n) :: u16) + 1 = length ([0x01] @ le16 w @ ?t)" for w
    using assms by (subst unat_of_nat16) auto
  moreover have "rdn (([0x01] @ le16 w @ ?t) @ rest) 0 (length ([0x01] @ le16 w @ ?t))
               = Some ([0x01] @ le16 w @ ?t)" for w
    by (rule rdn_prefix)
  ultimately show ?thesis
    using 1 2 3 4 by simp
qed

lemma ComposeQMUXMsg_stores:
  "GetQMUXTransactionId t = (tid, t') \<Longrightarrow>
   ComposeQMUXMsg ok t Q ty f = do {
     b \<leftarrow> (case f of
         Some f \<Rightarrow> do { (n, b) \<leftarrow> f (compose_hdr Q tid ty @ replicate 245 0); poke 11 (le16 (n - 4)) b }
       | None \<Rightarrow> poke 11 (le16 0) (compose_hdr Q tid ty @ replicate 245 0));
     mlen \<leftarrow> rd16 b 11;
     b \<leftarrow> poke 1 (le16 (mlen + 4 + 3 + 6 - 1)) b;
     len \<leftarrow> rd16 b 1;
     if ok then do { m \<leftarrow> rdn b 0 (unat len + 1); Some (Some m, t') } else Some (None, t') }"
  unfolding ComposeQMUXMsg_def WDM_DEFAULT_BUFSIZE_def Let_def or.left_neutral
  by (simp only: prod.case compose_header_stores)

context qmux_builder
begin

lemma compose_stores:
  assumes "GetQMUXTransactionId t = (tid, t')"
  obtains l rest where "length l = 2" "length rest = 243 - length (tlvs_enc ts)"
    "\<And>ok. ComposeQMUXMsg ok t Q ty (Some build) =
      do { b \<leftarrow> poke 11 (le16 (of_nat (4 + length (tlvs_enc ts)) - 4))
                 (compose_hdr Q tid ty @ l @ tlvs_enc ts @ rest);
           mlen \<leftarrow> rd16 b 11;
           b \<leftarrow> poke 1 (le16 (mlen + 4 + 3 + 6 - 1)) b;
           len \<leftarrow> rd16 b 1;
           if ok then do { m \<leftarrow> rdn b 0 (unat len + 1); Some (Some m, t') } else Some (None, t') }"
proof -
  obtain l rest where b: "build (compose_hdr Q tid ty @ replicate 245 0)
        = Some (of_nat (4 + length (tlvs_enc ts)), compose_hdr Q tid ty @ l @ tlvs_enc ts @ rest)"
      and l: "length l = 2" and r: "length rest = 243 - length (tlvs_enc ts)"
    using build [of "compose_hdr Q tid ty"] by auto
  show ?thesis
    by (rule that [OF l r]) (simp add: ComposeQMUXMsg_stores [OF assms] b)
qed

lemma compose:
  "ComposeQMUXMsg ok t Q ty (Some build)
     = Some (if ok then Some (qmi_frame Q (fst (GetQMUXTransactionId t)) ty ts) else None,
             snd (GetQMUXTransactionId t))"
proof -
  obtain tid t' where g: "GetQMUXTransactionId t = (tid, t')" by (cases "GetQMUXTransactionId t")
  from g obtain l rest where l: "length l = 2" and r: "length rest = 243 - length (tlvs_enc ts)"
    and c: "\<And>ok. ComposeQMUXMsg ok t Q ty (Some build) =
      do { b \<leftarrow> poke 11 (le16 (of_nat (4 + length (tlvs_enc ts)) - 4))
                 (compose_hdr Q tid ty @ l @ tlvs_enc ts @ rest);
           mlen \<leftarrow> rd16 b 11;
           b \<leftarrow> poke 1 (le16 (mlen + 4 + 3 + 6 - 1)) b;
           len \<leftarrow> rd16 b 1;
           if ok then do { m \<leftarrow> rdn b 0 (unat len + 1); Some (Some m, t') } else Some (None, t') }"
    by (rule compose_stores [where Q = Q and ty = ty]) blast
  from compose_lengths [OF l r refl fits, of Q tid ty] show ?thesis
    unfolding c by (cases ok) (auto simp: g qmi_frame_def bind_eq_Some_conv)
qed

lemma compose_message:
  "ComposeQMUXMsg ok t Q ty (Some build) = Some (Some m, t') \<Longrightarrow> qmux_message m ts"
  using fits by (auto simp: compose intro!: qmi_frame_message split: if_splits)

end

section \<open>The fixed-layout builders meet the contract\<close>

lemma builder_of_stores:
  assumes "\<And>b. build b = poke 13 (tlvs_enc ts @ over) b
                 \<bind> (\<lambda>b. Some (of_nat (4 + length (tlvs_enc ts)), b))"
    and "length (tlvs_enc ts @ over) \<le> 243"
  shows "qmux_builder build ts"
proof
  fix hdr :: bytes
  assume "length hdr = 11"
  then have "poke 13 (tlvs_enc ts @ over) (hdr @ replicate 245 0)
      = Some (hdr @ [0, 0] @ tlvs_enc ts @ over @ replicate (243 - length (tlvs_enc ts @ over)) 0)"
    using assms(2) by (simp add: poke_skip poke_zeros numeral_2_eq_2)
  then show "\<exists>l rest. build (hdr @ replicate 245 0)
      = Some (of_nat (4 + length (tlvs_enc ts)), hdr @ l @ tlvs_enc ts @ rest)
      \<and> length l = 2 \<and> length rest = 243 - length (tlvs_enc ts)"
    using assms(2) unfolding assms(1)
    by (intro exI [of _ "[0, 0]"] exI [of _ "over @ replicate (243 - length (tlvs_enc ts @ over)) 0"]) simp
qed (use assms(2) in simp)

lemma builder_of_stores_len:
  assumes "\<And>b. build b = poke 11 (le16 w @ tlvs_enc ts) b
                 \<bind> (\<lambda>b. Some (of_nat (4 + length (tlvs_enc ts)), b))"
    and "length (tlvs_enc ts) \<le> 243"
  shows "qmux_builder build ts"
proof
  fix hdr :: bytes
  assume "length hdr = 11"
  then have "poke 11 (le16 w @ tlvs_enc ts) (hdr @ replicate 245 0)
      = Some (hdr @ le16 w @ tlvs_enc ts @ replicate (243 - length (tlvs_enc ts)) 0)"
    using assms(2) by (simp add: poke_skip poke_zeros)
  then show "\<exists>l rest. build (hdr @ replicate 245 0)
      = Some (of_nat (4 + length (tlvs_enc ts)), hdr @ l @ tlvs_enc ts @ rest)
      \<and> length l = 2 \<and> length rest = 243 - length (tlvs_enc ts)"
    using assms(2) unfolding assms(1)
    by (intro exI [of _ "le16 w"] exI [of _ "replicate (243 - length (tlvs_enc ts)) 0"]) simp
qed (use assms(2) in simp)

lemmas stores = poke_merge poke_merge_last tlv_enc_def qstrcpy_def

interpretation stop_nw: qmux_builder "WdsStopNwInterfaceReq h4 h6 fam"
    "[(0x01, le32 (if fam = IpFamilyV4 then h4 else h6))]" for h4 h6 fam
  by (rule builder_of_stores [where over = "[]"]) (simp_all add: WdsStopNwInterfaceReq_def stores)

interpretation ip_pref: qmux_builder "WdsSetClientIPFamilyPref pref" "[(0x01, [pref])]" for pref
  by (rule builder_of_stores [where over = "[]"]) (simp_all add: WdsSetClientIPFamilyPref_def stores)

interpretation auto_connect: qmux_builder "WdsSetAutoConnect v" "[(0x01, [v])]" for v
  by (rule builder_of_stores [where over = "[]"]) (simp_all add: WdsSetAutoConnect_def stores)

interpretation bind_mux: qmux_builder "WdsSetQMUXBindMuxDataPort q"
    "[(0x10, le32 (ep_type q) @ le32 (iface_id q)), (0x11, [ucast (MuxId q)]), (0x13, le32 1)]" for q
  by (rule builder_of_stores [where over = "[]"]) (simp_all add: WdsSetQMUXBindMuxDataPort_def stores)

interpretation event_reg: qmux_builder UimEventRegReqSend "[(0x01, [0x01, 0x00, 0x00, 0x00])]"
  by (rule builder_of_stores [where over = "[]"])
    (simp_all add: UimEventRegReqSend_def QMI_UIM_EVENT_CARD_STATUS_def stores)

interpretation op_mode: qmux_builder "DmsSetOperatingModeReq v" "[(0x01, [v])]" for v
  by (rule builder_of_stores [where over = "[]"]) (simp_all add: DmsSetOperatingModeReq_def stores)

interpretation card_slot: qmux_builder "UimSetCardSlotReq v" "[(0x01, [v])]" for v
  by (rule builder_of_stores [where over = "[]"]) (simp_all add: UimSetCardSlotReq_def stores)

interpretation profile_list: qmux_builder WdsGetProfileListReqSend "[]"
  by (rule builder_of_stores_len [where w = 0]) (simp_all add: WdsGetProfileListReqSend_def stores)

interpretation create_profile: qmux_builder "WdsCreateProfileSettingsReqSend p"
    "[(0x01, [0x00]), (0x25, [word_of_int (pdp p)])]" for p
  by (rule builder_of_stores_len [where w = 8]) (simp_all add: WdsCreateProfileSettingsReqSend_def stores)

interpretation get_profile: qmux_builder "WdsGetProfileSettingsReqSend p"
    "[(0x01, [0x00, word_of_int (profile_index p)])]" for p
  by (rule builder_of_stores_len [where w = 5]) (simp_all add: WdsGetProfileSettingsReqSend_def stores)

interpretation runtime: qmux_builder WdsGetRuntimeSettingReq "[(0x10, le32 0x6B10)]"
  by (rule builder_of_stores [where over = "[]"]) (simp_all add: WdsGetRuntimeSettingReq_def stores)

definition format_tlvs :: "u32 \<Rightarrow> qmap_setting \<Rightarrow> tlv list" where
  "format_tlvs version q =
     (if rx_urb_size q = 0 then [(0x10, [0]), (0x11, le32 0x01), (0x13, le32 0x00)]
      else [(0x10, [0]), (0x11, le32 0x02), (0x12, le32 version), (0x13, le32 version),
            (0x15, le32 (rx_urb_size q div 512)), (0x16, le32 (rx_urb_size q)),
            (0x17, le32 (ep_type q) @ le32 (iface_id q))]
        @ (if ul_data_aggregation_max_datagrams q = 0 then []
           else [(0x19, le32 (dl_minimum_padding q)),
                 (0x1B, le32 (ul_data_aggregation_max_datagrams q)),
                 (0x1C, le32 (ul_data_aggregation_max_size q))]))"

interpretation data_format: qmux_builder "WdaSetDataFormat version q" "format_tlvs version q"
  for version q
  by (rule builder_of_stores [where over = "[]"])
    (simp_all add: WdaSetDataFormat_def poke_format_tlv_def format_tlvs_def stores)

interpretation loopback: qmux_builder WdaSetLoopBackReq "[(0x01, [0]), (0x10, [0, 0, 0, 0])]"
proof
  fix hdr :: bytes
  assume h: "length hdr = 11"
  have z: "replicate 245 (0 :: u8) = [0, 0, 0, 0, 0, 0, 0, 0, 0, 0, 0, 0, 0] @ replicate 232 0"
    by (simp add: numeral_eq_Suc)
  have "WdaSetLoopBackReq (hdr @ replicate 245 0)
      = Some (15, hdr @ [0, 0] @ [0x01, 1, 0, 0, 0x10, 4, 0, 0, 0, 0, 0] @ replicate 232 0)"
    unfolding z WdaSetLoopBackReq_def using h
    by (simp add: poke_skip poke_merge poke_def le16_def)
  then show "\<exists>l rest. WdaSetLoopBackReq (hdr @ replicate 245 0)
      = Some (of_nat (4 + length (tlvs_enc [(0x01, [0]), (0x10, [0, 0, 0, 0])])),
              hdr @ l @ tlvs_enc [(0x01, [0]), (0x10, [0, 0, 0, 0])] @ rest)
      \<and> length l = 2 \<and> length rest = 243 - length (tlvs_enc [(0x01, [0]), (0x10, [0, 0, 0, 0])])"
    by (intro exI [of _ "[0, 0]"] exI [of _ "replicate 232 0"]) (simp add: tlv_enc_def le16_def)
qed simp

text \<open>
  The PIN requests copy a string of any length; up to 200 characters it fits the buffer.
\<close>

lemma dms_pin_builder:
  "length pin \<le> 200 \<Longrightarrow>
     qmux_builder (DmsUIMVerifyPinReqSend pin) [(0x01, [0x01, of_nat (length pin)] @ cbytes pin)]"
  by (rule builder_of_stores [where over = "[0]"])
    (simp_all add: DmsUIMVerifyPinReqSend_def poke_swap [of 14 _ 18] poke_swap [of 14 _ 17]
      poke_swap [of 14 _ 16] stores le16_def)

lemma uim_pin_builder:
  "length pin \<le> 200 \<Longrightarrow>
     qmux_builder (UimVerifyPinReqSend pin)
       [(0x01, [0x00, 0x00]), (0x02, [0x01, of_nat (length pin)] @ cbytes pin)]"
  by (rule builder_of_stores [where over = "[0]"]) (simp_all add: UimVerifyPinReqSend_def stores)

section \<open>The cursor writers\<close>

text \<open>
  State of a cursor writer: behind a fixed prefix \<open>h\<close> the buffer holds the TLVs \<open>us\<close> written
  so far and \<^verbatim>\<open>TLVLength\<close> counts their bytes.
\<close>

definition has_tlvs :: "bytes \<Rightarrow> tlv list \<Rightarrow> u16 \<times> bytes \<Rightarrow> bool" where
  "has_tlvs h us s \<longleftrightarrow>
     fst s = of_nat (length (tlvs_enc us)) \<and> length (snd s) = 256
     \<and> (\<exists>rest. snd s = h @ tlvs_enc us @ rest)"

text \<open>\<open>f\<close> appends the TLVs \<open>ts\<close> provided \<open>k\<close> bytes are left behind the cursor.\<close>

definition tlv_writer :: "nat \<Rightarrow> (u16 \<times> bytes \<Rightarrow> (u16 \<times> bytes) option) \<Rightarrow> tlv list \<Rightarrow> nat \<Rightarrow> bool" where
  "tlv_writer pTLV f ts k \<longleftrightarrow>
     (\<forall>h us s. has_tlvs h us s \<and> length h = pTLV \<and> pTLV + length (tlvs_enc us) + k \<le> 256
        \<longrightarrow> (\<exists>s'. f s = Some s' \<and> has_tlvs h (us @ ts) s'))"

lemma tlv_writer_skip: "tlv_writer p Some [] 0"
  by (auto simp: tlv_writer_def)

lemma tlv_writer_add:
  assumes "len = of_nat (length v)"
  shows "tlv_writer p (add_tlv p ty len (v @ over)) [(ty, v)] (3 + length (v @ over))"
  unfolding tlv_writer_def
proof (intro allI impI)
  fix h us and s :: "u16 \<times> bytes"
  assume a: "has_tlvs h us s \<and> length h = p
      \<and> p + length (tlvs_enc us) + (3 + length (v @ over)) \<le> 256"
  then obtain rest where s: "s = (of_nat (length (tlvs_enc us)), (h @ tlvs_enc us) @ rest)"
      and len_s: "length (snd s) = 256"
    by (cases s) (auto simp: has_tlvs_def)
  let ?h = "h @ tlvs_enc us"
  have c: "p + unat (of_nat (length (tlvs_enc us)) :: u16) = length ?h"
    using a by (simp add: unat_of_nat16)
  have "poke (length ?h) (ty # le16 len @ v @ over) (?h @ rest)
      = Some (?h @ (ty # le16 len @ v @ over) @ drop (length (ty # le16 len @ v @ over)) rest)"
    using a len_s s by (simp add: poke_def numeral_3_eq_3)
  then show "\<exists>s'. add_tlv p ty len (v @ over) s = Some s' \<and> has_tlvs h (us @ [(ty, v)]) s'"
    using a len_s unfolding s add_tlv_def prod.case c
    by (auto simp: has_tlvs_def tlv_enc_def assms)
qed

lemma tlv_writer_bind:
  assumes "tlv_writer p f ts k" and "tlv_writer p g us k'"
  shows "tlv_writer p (\<lambda>s. f s \<bind> g) (ts @ us) (max k (length (tlvs_enc ts) + k'))"
  unfolding tlv_writer_def
proof (intro allI impI)
  fix h vs s
  assume a: "has_tlvs h vs s \<and> length h = p
      \<and> p + length (tlvs_enc vs) + max k (length (tlvs_enc ts) + k') \<le> 256"
  then have "p + length (tlvs_enc vs) + k \<le> 256" by linarith
  with assms(1) a obtain s1 where s1: "f s = Some s1" "has_tlvs h (vs @ ts) s1"
    unfolding tlv_writer_def by blast
  have "p + length (tlvs_enc (vs @ ts)) + k' \<le> 256" using a by (simp add: max_def split: if_splits)
  with assms(2) a s1(2) obtain s2 where "g s1 = Some s2" "has_tlvs h ((vs @ ts) @ us) s2"
    unfolding tlv_writer_def by blast
  with s1(1) show "\<exists>s'. f s \<bind> g = Some s' \<and> has_tlvs h (vs @ ts @ us) s'" by simp
qed

lemma tlv_writer_mono: "tlv_writer p f ts k \<Longrightarrow> k \<le> k' \<Longrightarrow> tlv_writer p f ts k'"
  unfolding tlv_writer_def by (intro allI impI) (drule spec, drule spec, drule spec, erule mp, auto)

lemma tlv_writerD:
  assumes "tlv_writer (length h) f ts k" and "length h + k \<le> 256" and "length (h @ rest) = 256"
  obtains rest' where "f (0, h @ rest) = Some (of_nat (length (tlvs_enc ts)), h @ tlvs_enc ts @ rest')"
    "length rest' = 256 - length h - length (tlvs_enc ts)"
proof -
  have "has_tlvs h [] (0, h @ rest)" using assms(3) by (simp add: has_tlvs_def)
  with assms(1,2) obtain s where s: "f (0, h @ rest) = Some s" and t: "has_tlvs h ts s"
    unfolding tlv_writer_def by fastforce
  from t obtain rest' where "s = (of_nat (length (tlvs_enc ts)), h @ tlvs_enc ts @ rest')"
      and "length (h @ tlvs_enc ts @ rest') = 256"
    by (cases s) (auto simp: has_tlvs_def)
  with s show ?thesis by (intro that [of rest']) auto
qed

lemma tlv_writer_fits:
  assumes "tlv_writer p f ts k" and "p + k \<le> 256"
  shows "p + length (tlvs_enc ts) \<le> 256"
proof -
  have "has_tlvs (replicate p 0) [] (0, replicate 256 0)"
    using assms(2) by (auto simp: has_tlvs_def intro!: exI [of _ "replicate (256 - p) 0"] simp flip: replicate_add)
  with assms obtain s where "has_tlvs (replicate p 0) ts s"
    unfolding tlv_writer_def by fastforce
  then show ?thesis by (cases s) (auto simp: has_tlvs_def)
qed

lemma builder_of_writer:
  assumes "\<And>b. build b = do { b \<leftarrow> poke 11 (le16 w @ tlvs_enc ps) b; s \<leftarrow> wr (0, b);
                              Some (of_nat (4 + length (tlvs_enc ps)) + fst s, snd s) }"
    and "tlv_writer (13 + length (tlvs_enc ps)) wr us k" and "length (tlvs_enc ps) + k \<le> 243"
  shows "qmux_builder build (ps @ us)"
proof
  fix hdr :: bytes
  assume h: "length hdr = 11"
  let ?h = "hdr @ le16 w @ tlvs_enc ps"
  obtain rest where
    "wr (0, ?h @ replicate (243 - length (tlvs_enc ps)) 0)
       = Some (of_nat (length (tlvs_enc us)), ?h @ tlvs_enc us @ rest)"
    "length rest = 256 - length ?h - length (tlvs_enc us)"
    using tlv_writerD [of ?h wr us k "replicate (243 - length (tlvs_enc ps)) 0"] assms(2,3) h by auto
  moreover have "poke 11 (le16 w @ tlvs_enc ps) (hdr @ replicate 245 0)
      = Some (?h @ replicate (243 - length (tlvs_enc ps)) 0)"
    using h assms(3) by (simp add: poke_skip poke_zeros)
  ultimately show "\<exists>l rest. build (hdr @ replicate 245 0)
      = Some (of_nat (4 + length (tlvs_enc (ps @ us))), hdr @ l @ tlvs_enc (ps @ us) @ rest)
      \<and> length l = 2 \<and> length rest = 243 - length (tlvs_enc (ps @ us))"
    unfolding assms(1) using h by (intro exI [of _ "le16 w"] exI [of _ rest]) (simp add: ac_simps)
qed (use tlv_writer_fits [OF assms(2)] assms(3) in simp)

definition str_tlv :: "u8 \<Rightarrow> string option \<Rightarrow> tlv list" where
  "str_tlv ty so = (case so of None \<Rightarrow> [] | Some a \<Rightarrow> [(ty, cbytes a)])"

definition opt_len :: "string option \<Rightarrow> nat" where
  "opt_len so = (case so of None \<Rightarrow> 0 | Some a \<Rightarrow> length a)"

lemma opt_len_simps [simp]: "opt_len None = 0" "opt_len (Some a) = length a"
  by (simp_all add: opt_len_def)

lemma length_str_tlv: "length (tlvs_enc (str_tlv ty so)) \<le> 3 + opt_len so"
  by (simp add: str_tlv_def opt_len_def split: option.split)

lemma tlv_writer_str:
  "tlv_writer p (\<lambda>s. case so of None \<Rightarrow> Some s
      | Some a \<Rightarrow> add_tlv p ty (of_nat (length a)) (qstrcpy (cbytes a)) s) (str_tlv ty so) (4 + opt_len so)"
proof (cases so)
  case None
  then show ?thesis
    using tlv_writer_mono [OF tlv_writer_skip, of 4 p] by (simp add: str_tlv_def)
next
  case (Some a)
  then show ?thesis
    using tlv_writer_add [of "of_nat (length a)" "cbytes a" p ty "[0]"]
    by (simp add: str_tlv_def qstrcpy_def)
qed

lemma tlv_writer_if:
  assumes "c \<Longrightarrow> tlv_writer p f ts k" and "\<not> c \<Longrightarrow> tlv_writer p g us k"
  shows "tlv_writer p (\<lambda>s. if c then f s else g s) (if c then ts else us) k"
  using assms by (cases c) simp_all

lemma tlv_writer_byte: "tlv_writer p (add_tlv p ty 1 [v]) [(ty, [v])] 7"
  by (rule tlv_writer_mono [OF tlv_writer_add [where v = "[v]" and over = "[]", simplified]]) simp_all

lemma tlv_writer_bool:
  "tlv_writer p (add_tlv p ty 1 (le32 w)) [(ty, [ucast w])] 7"
  using tlv_writer_add [of 1 "[ucast w]" p ty "tl (le32 w)"] by (simp add: le32_def)

lemma tlv_writer_int:
  "tlv_writer p (add_tlv p ty 4 (le32 w)) [(ty, le32 w)] 7"
  using tlv_writer_add [of 4 "le32 w" p ty "[]"] by simp

lemma tlv_writer_none: "tlv_writer p Some [] 7"
  by (rule tlv_writer_mono [OF tlv_writer_skip]) simp

lemmas tlv_writers = tlv_writer_byte tlv_writer_bool tlv_writer_int tlv_writer_none

definition modify_tlvs :: "profile \<Rightarrow> tlv list" where
  "modify_tlvs p =
     [(0x11, [word_of_int (iptype p)])]
     @ str_tlv 0x14 (apn p) @ str_tlv 0x1B (user p) @ str_tlv 0x1C (pd p)
     @ (if user p \<noteq> None \<and> pd p \<noteq> None then [(0x1D, [word_of_int (auth p)])] else [])"

lemma modify_profile_writer:
  assumes "opt_len (apn p) + opt_len (user p) + opt_len (pd p) \<le> 200"
  shows "tlv_writer 18 (WdsModifyProfileSettingsReq_tlvs p) (modify_tlvs p) 238"
  unfolding WdsModifyProfileSettingsReq_tlvs_def Let_def modify_tlvs_def
  apply (rule tlv_writer_mono)
   apply (rule tlv_writer_bind tlv_writer_str tlv_writer_if tlv_writers)+
  using assms length_str_tlv [of "0x14" "apn p"] length_str_tlv [of "0x1B" "user p"]
    length_str_tlv [of "0x1C" "pd p"]
  by simp

lemma modify_profile_builder:
  assumes "opt_len (apn p) + opt_len (user p) + opt_len (pd p) \<le> 200"
  shows "qmux_builder (WdsModifyProfileSettingsReq p)
           ([(0x01, [0x00, word_of_int (profile_index p)])] @ modify_tlvs p)"
proof (rule builder_of_writer [where w = 5])
  show "tlv_writer (13 + length (tlvs_enc [(0x01, [0x00, word_of_int (profile_index p)])]))
          (WdsModifyProfileSettingsReq_tlvs p) (modify_tlvs p) 238"
    using modify_profile_writer [OF assms] by simp
qed (simp_all add: WdsModifyProfileSettingsReq_def stores)

text \<open>The TLVs of the start request, with the credentials \<open>(u, pw, au)\<close> it sends.\<close>

fun start_tlvs_of :: "bool \<Rightarrow> profile \<Rightarrow> string option \<times> string option \<times> int \<Rightarrow> tlv list" where
  "start_tlvs_of cdma p (u, pw, au) =
     [(0x30, [if \<not> cdma then 0x01 else 0x02])]
     @ (if \<not> cdma then str_tlv 0x14 (apn p) else [])
     @ str_tlv 0x17 u @ str_tlv 0x18 pw
     @ (if u \<noteq> None \<and> pw \<noteq> None then [(0x16, [word_of_int au])] else [])
     @ [(0x19, [word_of_int (curIpFamily p)])]
     @ (if idProduct p \<noteq> 0x0316 then
          (if profile_index p \<noteq> 0 \<and> \<not> cdma then [(0x31, [word_of_int (profile_index p)])] else [])
        else (if bring_up_by_apn_name p \<noteq> 0
              then [(0x3C, [ucast (word_of_int (bring_up_by_apn_name p) :: u32)])] else [])
           @ (if bring_up_by_apn_type p \<noteq> 0
              then [(0x3D, [ucast (word_of_int (bring_up_by_apn_type p) :: u32)])] else [])
           @ (if apn_type p \<noteq> 0 then [(0x38, le32 (word_of_int (apn_type p)))] else []))"

definition start_tlvs :: "bool \<Rightarrow> profile \<Rightarrow> tlv list" where
  "start_tlvs cdma p = start_tlvs_of cdma p (start_credentials cdma p)"

lemma start_nw_writer:
  assumes "(if \<not> cdma then opt_len (apn p) else 0) + opt_len u + opt_len pw \<le> 200"
  shows "tlv_writer 13 (WdsStartNwInterfaceReq_tlvs cdma pers p u pw au)
           (start_tlvs_of cdma p (u, pw, au)) 243"
proof -
  have apn: "tlv_writer 13 (\<lambda>s. if \<not> cdma
        then (case apn p of None \<Rightarrow> Some s
              | Some a \<Rightarrow> add_tlv 13 0x14 (of_nat (length a)) (qstrcpy (cbytes a)) s)
        else Some s) (if \<not> cdma then str_tlv 0x14 (apn p) else [])
      (4 + (if \<not> cdma then opt_len (apn p) else 0))"
    using tlv_writer_str [of 13 "0x14" "apn p"] tlv_writer_mono [OF tlv_writer_skip, of 4 13]
    by (cases cdma) simp_all
  have idx: "tlv_writer 13 (\<lambda>s. if profile_index p \<noteq> 0 \<and> \<not> cdma then
          (if cdma \<and> pers = 0x02 then add_tlv 13 0x32 1 [101] s
           else add_tlv 13 0x31 1 [word_of_int (profile_index p)] s) else Some s)
       (if profile_index p \<noteq> 0 \<and> \<not> cdma then [(0x31, [word_of_int (profile_index p)])] else []) 15"
    by (rule tlv_writer_mono [where k = 7]) (use tlv_writers in \<open>cases cdma; auto\<close>)+
  have bring: "tlv_writer 13 (\<lambda>s. do {
       s \<leftarrow> (if bring_up_by_apn_name p \<noteq> 0
             then add_tlv 13 0x3C 1 (le32 (word_of_int (bring_up_by_apn_name p))) s else Some s);
       s \<leftarrow> (if bring_up_by_apn_type p \<noteq> 0
             then add_tlv 13 0x3D 1 (le32 (word_of_int (bring_up_by_apn_type p))) s else Some s);
       (if apn_type p \<noteq> 0 then add_tlv 13 0x38 4 (le32 (word_of_int (apn_type p))) s else Some s) })
     ((if bring_up_by_apn_name p \<noteq> 0
              then [(0x3C, [ucast (word_of_int (bring_up_by_apn_name p) :: u32)])] else [])
           @ (if bring_up_by_apn_type p \<noteq> 0
              then [(0x3D, [ucast (word_of_int (bring_up_by_apn_type p) :: u32)])] else [])
           @ (if apn_type p \<noteq> 0 then [(0x38, le32 (word_of_int (apn_type p)))] else [])) 15"
    by (rule tlv_writer_mono, (rule tlv_writer_bind tlv_writer_if tlv_writers)+) simp
  have lens: "length (tlvs_enc (if \<not> cdma then str_tlv 0x14 (apn p) else []))
        + length (tlvs_enc (str_tlv 0x17 u)) + length (tlvs_enc (str_tlv 0x18 pw)) \<le> 209"
      "length (tlvs_enc (if \<not> cdma then str_tlv 0x14 (apn p) else []))
        + length (tlvs_enc (str_tlv 0x17 u)) + opt_len pw \<le> 206"
      "length (tlvs_enc (if \<not> cdma then str_tlv 0x14 (apn p) else [])) + opt_len u \<le> 203"
      "(if \<not> cdma then opt_len (apn p) else 0) \<le> 200"
      "length (tlvs_enc (if u \<noteq> None \<and> pw \<noteq> None then [(0x16, [word_of_int au])] else [])) \<le> 4"
    using assms length_str_tlv [of "0x14" "apn p"] length_str_tlv [of "0x17" u]
      length_str_tlv [of "0x18" pw] by (simp_all split: if_splits)
  show ?thesis
    unfolding WdsStartNwInterfaceReq_tlvs_def Let_def start_tlvs_of.simps
    apply (rule tlv_writer_mono)
     apply (rule apn tlv_writer_str tlv_writer_if [OF idx bring] tlv_writer_bind
        tlv_writer_if [OF tlv_writer_byte tlv_writer_none] tlv_writer_byte)+
    unfolding tlvs_enc_append length_append tlvs_enc_Cons tlvs_enc_Nil length_tlv_enc list.size snd_conv
    using lens by (intro max.boundedI; linarith)
qed

lemma start_nw_builder:
  assumes "start_credentials cdma p = (u, pw, au)"
    and "(if \<not> cdma then opt_len (apn p) else 0) + opt_len u + opt_len pw \<le> 200"
  shows "qmux_builder (WdsStartNwInterfaceReq cdma pers p) (start_tlvs cdma p)"
proof -
  have "qmux_builder (WdsStartNwInterfaceReq cdma pers p) ([] @ start_tlvs cdma p)"
  proof (rule builder_of_writer [where w = 0])
    show "tlv_writer (13 + length (tlvs_enc [])) (WdsStartNwInterfaceReq_tlvs cdma pers p u pw au)
            (start_tlvs cdma p) 243"
      using start_nw_writer [OF assms(2)] by (simp add: start_tlvs_def assms(1))
  qed (simp_all add: WdsStartNwInterfaceReq_def assms(1))
  then show ?thesis by simp
qed

section \<open>Properties\<close>





text \<open>
  The APN is copied into the 256-byte stack buffer without a check: an APN of more than 235
  characters makes the start request write past the end of the buffer.
\<close>

theorem start_request_apn_overflow:
  assumes "apn p = Some a" and "235 < length a"
  shows "ComposeQMUXMsg ok t Q ty (Some (WdsStartNwInterfaceReq False pers p)) = None"
proof -
  obtain tid t' where g: "GetQMUXTransactionId t = (tid, t')" by (cases "GetQMUXTransactionId t")
  let ?h = "compose_hdr Q tid ty"
  have "poke 11 (le16 0) (?h @ replicate 245 0) = Some (?h @ le16 0 @ replicate 243 0)"
    by (simp add: poke_skip poke_zeros)
  moreover have "add_tlv 13 0x30 1 [1] (0, ?h @ le16 0 @ replicate 243 0)
      = Some (4, ?h @ le16 0 @ (0x30 # le16 1 @ [1]) @ replicate 239 0)"
    by (simp add: add_tlv_def poke_skip poke_zeros)
  moreover have "add_tlv 13 0x14 l (qstrcpy (cbytes a)) (4, ?h @ le16 0 @ (0x30 # le16 1 @ [1]) @ replicate 239 0)
      = None" for l
    using assms(2) by (simp add: add_tlv_def poke_def qstrcpy_def)
  ultimately have "WdsStartNwInterfaceReq False pers p (?h @ replicate 245 0) = None"
    using assms(1) by (simp add: WdsStartNwInterfaceReq_def WdsStartNwInterfaceReq_tlvs_def
        start_credentials_def)
  then show ?thesis by (simp add: ComposeQMUXMsg_stores [OF g])
qed

theorem start_request_apn_overflow_witness:
  "ComposeQMUXMsg True 0 QMUX_TYPE_WDS 0x0020
     (Some (WdsStartNwInterfaceReq False 0 (zero_profile\<lparr>apn := Some (replicate 236 CHR ''a'')\<rparr>))) = None"
  using start_request_apn_overflow [of "zero_profile\<lparr>apn := Some (replicate 236 CHR ''a'')\<rparr>"]
  by simp

text \<open>
  The data-format request carries the URB size, the aggregation versions and the endpoint of
  the settings; with no URB size it selects Ethernet framing with aggregation off.
\<close>

theorem compose_data_format:
  "ComposeQMUXMsg True t QMUX_TYPE_WDS_ADMIN 0x0020 (Some (WdaSetDataFormat version q))
   = Some (Some (qmi_frame QMUX_TYPE_WDS_ADMIN (fst (GetQMUXTransactionId t)) 0x0020
                  (format_tlvs version q)), snd (GetQMUXTransactionId t))"
  by (simp add: data_format.compose)

end
