(* ===== verification/QmiTransport.thy ===== *)
theory QmiTransport
  imports QmiBuilders
begin

text \<open>
  The request/response handshake of \<^verbatim>\<open>QMIThread.c\<close> and \<^verbatim>\<open>QmiWwanCM.c\<close>: the main thread sends a
  request and waits on a condition variable (\<open>QmiThreadSendQMITimeout\<close>), the reader thread hands
  every received message to \<open>QmiThreadRecvQMI\<close>, which completes the pending request or queues an
  event for the main loop.  Both run under one mutex, so the interleaving is a step relation
  whose steps are the critical sections.
\<close>

section \<open>Events for the main loop\<close>

datatype cm_event =
    RIL_REQUEST_QUIT
  | RIL_INDICATE_DEVICE_CONNECTED
  | RIL_INDICATE_DEVICE_DISCONNECTED
  | RIL_UNSOL_RESPONSE_VOICE_NETWORK_STATE_CHANGED
  | RIL_UNSOL_DATA_CALL_LIST_CHANGED
  | MODEM_REPORT_RESET_EVENT
  | RIL_UNSOL_LOOPBACK_CONFIG_IND bytes
  | SIG_EVENT_CHECK
  | SIG_EVENT_START
  | SIG_EVENT_STOP

definition EINVAL :: int where "EINVAL = 22"
definition ENODEV :: int where "ENODEV = 19"
definition ETIMEDOUT :: int where "ETIMEDOUT = 110"

section \<open>Writing a request to the device (QmiWwanCM.c)\<close>

text \<open>
  \<open>qmiclientId\<close> is the 255-entry table of client ids; \<open>poll_ret\<close> and \<open>pollout\<close> are the result of
  \<^verbatim>\<open>poll\<close> and whether \<^verbatim>\<open>POLLOUT\<close> is set, \<open>write_ret\<close> the result of \<^verbatim>\<open>write\<close>.  The request is changed
  in place: the client id is filled in and the IPv6 service is sent as WDS.
\<close>

record dev_io =
  fd_open :: bool
  poll_ret :: int
  pollout :: bool
  write_ret :: int

definition QmiWwanSendQMI :: "bytes \<Rightarrow> dev_io \<Rightarrow> bytes \<Rightarrow> (int \<times> bytes) option" where
  "QmiWwanSendQMI qmiclientId io pRequest =
     (if \<not> fd_open io then Some (- ENODEV, pRequest)
      else do {
        QMIType \<leftarrow> rd8 pRequest 4;
        (ret, pRequest) \<leftarrow>
          (if QMIType \<noteq> QMUX_TYPE_CTL then do {
             ClientId \<leftarrow> rd8 qmiclientId (unat QMIType);
             pRequest \<leftarrow> poke 5 [ClientId] pRequest;
             if ClientId = 0 then Some (Some (- ENODEV), pRequest)
             else if QMIType = QMUX_TYPE_WDS_IPV6
             then do { pRequest \<leftarrow> poke 4 [QMUX_TYPE_WDS] pRequest; Some (None, pRequest) }
             else Some (None, pRequest) }
           else Some (None, pRequest));
        case ret of
          Some r \<Rightarrow> Some (r, pRequest)
        | None \<Rightarrow>
            if pollout io then do {
              len \<leftarrow> rd16 pRequest 1;
              Some (if write_ret io = int (unat len) + 1 then 0 else write_ret io, pRequest) }
            else Some (poll_ret io, pRequest) })"

section \<open>Matching a response (QMIThread.c)\<close>

definition is_response :: "bytes \<Rightarrow> bytes \<Rightarrow> bool option" where
  "is_response pRequest pResponse = do {
     qt \<leftarrow> rd8 pRequest 4;
     rt \<leftarrow> rd8 pResponse 4;
     if qt \<noteq> rt then Some False
     else do {
       qc \<leftarrow> rd8 pRequest 5;
       rc \<leftarrow> rd8 pResponse 5;
       if qc \<noteq> rc then Some False
       else if qt = QMUX_TYPE_CTL then do {
         q \<leftarrow> rd8 pRequest 7;
         r \<leftarrow> rd8 pResponse 7;
         Some (q = r) }
       else do {
         q \<leftarrow> rd16 pRequest 7;
         r \<leftarrow> rd16 pResponse 7;
         Some (q = r) } } }"

section \<open>Card-status logging\<close>

definition UIM_APP_TYPE_USIM :: u8 where "UIM_APP_TYPE_USIM = 0x02"

text \<open>
  \<^verbatim>\<open>snprintf(buf + off, sizeof(buf) - off, "%02x", ...)\<close> repeated over the bytes: the size argument is
  a \<^verbatim>\<open>size_t\<close>, so it wraps when \<open>off\<close> has passed the end; each call stores at most three bytes and
  adds two to \<open>off\<close>.  \<open>None\<close> is a store outside the buffer of \<open>cap\<close> bytes.
\<close>

fun hexdump :: "nat \<Rightarrow> nat \<Rightarrow> bytes \<Rightarrow> nat option" where
  "hexdump cap off [] = Some off"
| "hexdump cap off (x # xs) =
     (let size = (int cap - int off) mod 2 ^ 64 in
      if size = 0 \<or> int off + min 3 size \<le> int cap then hexdump cap (off + 2) xs else None)"

text \<open>
  The walk to the PIN state of the last application.  \<open>k\<close> iterations are left and the test is
  always on the first application's type, as in the code.
\<close>

fun pin_walk :: "bytes \<Rightarrow> u8 \<Rightarrow> nat \<Rightarrow> nat \<Rightarrow> nat option" where
  "pin_walk m AppType 0 pPINState = Some pPINState"
| "pin_walk m AppType (Suc k) pPINState =
     (if AppType \<noteq> UIM_APP_TYPE_USIM then
        (let appinfo = pPINState + 7 in
         case rd8 m (appinfo + 6) of None \<Rightarrow> None
         | Some aid \<Rightarrow> pin_walk m AppType k (appinfo + 7 + unat aid))
      else pin_walk m AppType k pPINState)"

definition card_pin_state :: "bytes \<Rightarrow> nat \<Rightarrow> nat option" where
  "card_pin_state m pCardStatus = do {
     aid \<leftarrow> rd8 m (pCardStatus + 24);
     NumApp \<leftarrow> rd8 m (pCardStatus + 17);
     AppType \<leftarrow> rd8 m (pCardStatus + 18);
     pin_walk m AppType (unat NumApp - 1) (pCardStatus + 25 + unat aid) }"

definition QmiUimLogCardStatus :: "bytes \<Rightarrow> nat option \<Rightarrow> nat option \<Rightarrow> unit option" where
  "QmiUimLogCardStatus m pCardStatus pPINState =
     (case pCardStatus of
        None \<Rightarrow> Some ()
      | Some p \<Rightarrow> do {
          len \<leftarrow> rd16 m (p + 1);
          raw \<leftarrow> rdn m p (min 48 (unat len));
          _ \<leftarrow> hexdump 96 0 raw;
          _ \<leftarrow> rdn m (p + 12) 6;
          (case pPINState of None \<Rightarrow> Some () | Some q \<Rightarrow> do { _ \<leftarrow> rdn m (q + 1) 2; Some () }) })"

section \<open>The receiving side\<close>

record transport =
  s_pRequest :: "bytes option"
  s_pResponse :: "bytes option"
  events :: "cm_event list"

definition send_event :: "cm_event \<Rightarrow> transport \<Rightarrow> transport" where
  "send_event e st = st\<lparr>events := events st @ [e]\<rparr>"

text \<open>
  The indications that are not an answer to the pending request.  \<open>malloc_ok\<close> below is the
  outcome of the copy's \<^verbatim>\<open>malloc\<close>; the boolean result says whether the condition is signalled.
\<close>

definition recv_indication :: "bytes \<Rightarrow> transport \<Rightarrow> transport option" where
  "recv_indication m st = do {
     QMIType \<leftarrow> rd8 m 4;
     if QMIType = QMUX_TYPE_CTL then do {
       ty \<leftarrow> rd16 m 8;
       Some (if ty = 0x0024 then send_event MODEM_REPORT_RESET_EVENT st else st) }
     else if QMIType = QMUX_TYPE_UIM then do {
       ty \<leftarrow> rd16 m 9;
       if ty = 0x0032 then do {
         pCardStatus \<leftarrow> GetTLV m 0x10;
         pPINState \<leftarrow> (case pCardStatus of None \<Rightarrow> Some None
                      | Some p \<Rightarrow> map_option Some (card_pin_state m p));
         _ \<leftarrow> QmiUimLogCardStatus m pCardStatus pPINState;
         Some st }
       else Some st }
     else if QMIType = QMUX_TYPE_NAS then do {
       ty \<leftarrow> rd16 m 9;
       Some (if ty = 0x0024 \<or> ty = 0x004E
             then send_event RIL_UNSOL_RESPONSE_VOICE_NETWORK_STATE_CHANGED st else st) }
     else if QMIType = QMUX_TYPE_WDS then do {
       ty \<leftarrow> rd16 m 9;
       Some (if ty = 0x0022 then send_event RIL_UNSOL_DATA_CALL_LIST_CHANGED st else st) }
     else if QMIType = QMUX_TYPE_WDS_ADMIN then do {
       ty \<leftarrow> rd16 m 9;
       if ty = 0x002F then do {
         ind \<leftarrow> rdn m 9 15;
         Some (send_event (RIL_UNSOL_LOOPBACK_CONFIG_IND ind) st) }
       else Some st }
     else Some st }"

definition QmiThreadRecvQMI :: "bool \<Rightarrow> bytes option \<Rightarrow> transport \<Rightarrow> (bool \<times> transport) option" where
  "QmiThreadRecvQMI malloc_ok pResponse st =
     (case pResponse of
        None \<Rightarrow>
          Some (case s_pRequest st of
                  Some _ \<Rightarrow> (True, st\<lparr>s_pRequest := None, s_pResponse := None\<rparr>)
                | None \<Rightarrow> (False, st))
      | Some m \<Rightarrow> do {
          matched \<leftarrow> (case s_pRequest st of None \<Rightarrow> Some False | Some q \<Rightarrow> is_response q m);
          if matched then do {
            len \<leftarrow> rd16 m 1;
            copy \<leftarrow> (if malloc_ok then map_option Some (rdn m 0 (unat len + 1)) else Some None);
            Some (True, st\<lparr>s_pRequest := None, s_pResponse := copy\<rparr>) }
          else do { st \<leftarrow> recv_indication m st; Some (False, st) } })"

section \<open>The sending side\<close>

text \<open>
  How a wait ends: \<open>SendError r\<close> when \<^verbatim>\<open>qmidev_send\<close> returned \<open>r \<noteq> 0\<close>, \<open>Timeout\<close> when the
  condition wait returned \<^verbatim>\<open>ETIMEDOUT\<close>, \<open>Woken p\<close> when it returned 0 with \<open>p\<close> in \<^verbatim>\<open>s_pResponse\<close>.
\<close>

datatype reply = SendError int | Timeout | Woken "bytes option"

fun send_result :: "reply \<Rightarrow> int \<times> bytes option" where
  "send_result (SendError r) = (r, None)"
| "send_result Timeout = (ETIMEDOUT, None)"
| "send_result (Woken (Some m)) = (0, Some m)"
| "send_result (Woken None) = (- EINVAL, None)"

definition send_begin :: "bytes \<Rightarrow> dev_io \<Rightarrow> bytes \<Rightarrow> transport \<Rightarrow> (int \<times> bytes \<times> transport) option" where
  "send_begin qmiclientId io pRequest st = do {
     (ret, pRequest) \<leftarrow> QmiWwanSendQMI qmiclientId io pRequest;
     Some (ret, pRequest, st\<lparr>s_pRequest := Some pRequest, s_pResponse := None\<rparr>) }"

text \<open>
  The two threads.  \<open>waiting\<close> is the request the main thread waits for, \<open>results\<close> what its calls
  have returned.  A wake-up needs no signal: condition variables may wake spuriously.
\<close>

record link =
  tr :: transport
  waiting :: "bytes option"
  results :: "(bytes \<times> int \<times> bytes option) list"

inductive link_step :: "link \<Rightarrow> link \<Rightarrow> bool" where
  start: "waiting L = None \<Longrightarrow> send_begin ids io req (tr L) = Some (0, q, t)
    \<Longrightarrow> link_step L (L\<lparr>tr := t, waiting := Some q\<rparr>)"
| start_fails: "waiting L = None \<Longrightarrow> send_begin ids io req (tr L) = Some (r, q, t) \<Longrightarrow> r \<noteq> 0
    \<Longrightarrow> link_step L (L\<lparr>tr := t, results := results L @ [(q, send_result (SendError r))]\<rparr>)"
| recv: "QmiThreadRecvQMI ok m (tr L) = Some (sig, t) \<Longrightarrow> link_step L (L\<lparr>tr := t\<rparr>)"
| wake: "waiting L = Some q
    \<Longrightarrow> link_step L (L\<lparr>waiting := None, results := results L @ [(q, send_result (Woken (s_pResponse (tr L))))]\<rparr>)"
| timeout: "waiting L = Some q
    \<Longrightarrow> link_step L (L\<lparr>waiting := None, results := results L @ [(q, send_result Timeout)]\<rparr>)"

inductive_cases link_stepE: "link_step L L'"

definition link_init :: link where
  "link_init = \<lparr>tr = \<lparr>s_pRequest = None, s_pResponse = None, events = []\<rparr>, waiting = None, results = []\<rparr>"

text \<open>\<open>m\<close> is the copy of a received message that matches the request \<open>q\<close>.\<close>

definition answers :: "bytes \<Rightarrow> bytes \<Rightarrow> bool" where
  "answers q m \<longleftrightarrow> (\<exists>m0 len. is_response q m0 = Some True \<and> rd16 m0 1 = Some len
                       \<and> rdn m0 0 (unat len + 1) = Some m)"

definition link_inv :: "link \<Rightarrow> bool" where
  "link_inv L \<longleftrightarrow>
     (\<forall>q r m. (q, r, Some m) \<in> set (results L) \<longrightarrow> r = 0 \<and> answers q m)
     \<and> (\<forall>q. waiting L = Some q \<longrightarrow>
          (s_pRequest (tr L) = Some q \<or> s_pRequest (tr L) = None)
          \<and> (\<forall>m. s_pResponse (tr L) = Some m \<longrightarrow> answers q m))"

lemma recv_indication_keeps:
  "recv_indication m st = Some st' \<Longrightarrow>
     s_pRequest st' = s_pRequest st \<and> s_pResponse st' = s_pResponse st"
  by (auto simp: recv_indication_def send_event_def bind_eq_Some_conv split: if_splits option.splits)

lemma QmiThreadRecvQMI_pending:
  assumes "QmiThreadRecvQMI ok m st = Some (sig, st')"
  shows "s_pRequest st' = s_pRequest st \<and> s_pResponse st' = s_pResponse st
       \<or> s_pRequest st' = None \<and> (\<exists>q. s_pRequest st = Some q
            \<and> (\<forall>r. s_pResponse st' = Some r \<longrightarrow> answers q r))"
  using assms
  by (auto simp: QmiThreadRecvQMI_def answers_def bind_eq_Some_conv
      split: option.splits if_splits dest: recv_indication_keeps)

lemma send_begin_state:
  "send_begin ids io req st = Some (r, q, st') \<Longrightarrow>
     s_pRequest st' = Some q \<and> s_pResponse st' = None"
  by (auto simp: send_begin_def bind_eq_Some_conv)

lemma send_result_Woken:
  "(r, Some m) = send_result (Woken p) \<Longrightarrow> r = 0 \<and> p = Some m"
  by (cases p) auto

lemma link_inv_step:
  assumes "link_step L L'" and "link_inv L"
  shows "link_inv L'"
  using assms
proof (cases rule: link_step.cases)
  case (recv ok m sig t)
  with QmiThreadRecvQMI_pending [OF recv(2)] assms(2) show ?thesis
    unfolding link_inv_def by fastforce
next
  case (start ids io req q t)
  with send_begin_state [OF start(3)] assms(2) show ?thesis by (auto simp: link_inv_def)
next
  case (start_fails ids io req r q t)
  with assms(2) show ?thesis by (auto simp: link_inv_def)
next
  case (wake q)
  with assms(2) show ?thesis by (auto simp: link_inv_def dest: send_result_Woken)
next
  case (timeout q)
  with assms(2) show ?thesis by (auto simp: link_inv_def)
qed

lemma link_inv_init: "link_inv link_init"
  by (simp add: link_init_def link_inv_def)

lemma link_inv_reachable: "link_step\<^sup>*\<^sup>* link_init L \<Longrightarrow> link_inv L"
  by (induction rule: rtranclp_induct) (auto intro: link_inv_init link_inv_step)

text \<open>Hex dumps into a 96-byte buffer: 49 bytes are the most that stay inside.\<close>

lemma hexdump_96:
  "k \<le> 49 \<Longrightarrow>
     hexdump 96 (2 * k) xs = (if xs = [] \<or> k + length xs \<le> 49 then Some (2 * (k + length xs)) else None)"
proof (induction xs arbitrary: k)
  case (Cons x xs)
  show ?case
  proof (cases "k \<le> 48")
    case True
    then have "(96 - int (2 * k)) mod 2 ^ 64 = 96 - 2 * int k"
      using mod_pos_pos_trivial [of "96 - 2 * int k" "2 ^ 64"] by simp
    with Cons.IH [of "k + 1"] True show ?thesis
      by (cases "k = 48") auto
  next
    case False
    with Cons.prems have "k = 49" by simp
    then show ?thesis by simp
  qed
qed simp

section \<open>Properties\<close>

text \<open>
  The identity of a message: service, client id and transaction id, which has 8 bits on the control
  service and 16 bits elsewhere.
\<close>

definition same_ids :: "bytes \<Rightarrow> bytes \<Rightarrow> bool" where
  "same_ids q m \<longleftrightarrow> rd8 m 4 = rd8 q 4 \<and> rd8 m 5 = rd8 q 5
     \<and> (if rd8 q 4 = Some 0 then rd8 m 7 = rd8 q 7 else rd16 m 7 = rd16 q 7)"

lemma is_response_same_ids: "is_response q m = Some True \<Longrightarrow> same_ids q m"
  by (auto simp: is_response_def same_ids_def QMUX_TYPE_CTL_def run_conv)

lemma same_ids_prefix:
  assumes "same_ids q (m @ rest)" and "9 \<le> length m"
  shows "same_ids q m"
proof -
  have "rd8 (m @ rest) 4 = rd8 m 4" "rd8 (m @ rest) 5 = rd8 m 5" "rd8 (m @ rest) 7 = rd8 m 7"
    "rd16 (m @ rest) 7 = rd16 m 7"
    using assms(2) by (simp_all add: rd8_def rd16_def nth_append)
  with assms(1) show ?thesis by (auto simp: same_ids_def)
qed

lemma answers_same_ids:
  assumes "answers q m"
  shows "(\<exists>rest. same_ids q (m @ rest)) \<and> (9 \<le> length m \<longrightarrow> same_ids q m)"
proof -
  from assms obtain m0 len where "is_response q m0 = Some True" and "rdn m0 0 len = Some m"
    by (auto simp: answers_def)
  then have "same_ids q (m @ drop len m0)"
    by (auto simp: rdn_def split: if_splits dest: is_response_same_ids)
  then show ?thesis by (auto dest: same_ids_prefix)
qed

text \<open>
  C2: Every response the main thread is given answers its own request: the received message it is
  the beginning of has the service, client id and transaction id of the request, and so has the
  response itself unless it is cut before them; this holds whatever the interleaving of sends,
  receptions, late replies, time-outs and spurious wake-ups, and the call then returned 0.
\<close>

theorem response_answers_request:
  assumes "link_step\<^sup>*\<^sup>* link_init L" and "(q, r, Some m) \<in> set (results L)"
  shows "r = 0 \<and> (\<exists>rest. same_ids q (m @ rest)) \<and> (9 \<le> length m \<longrightarrow> same_ids q m)"
  using link_inv_reachable [OF assms(1)] assms(2) answers_same_ids by (auto simp: link_inv_def)

definition example_request :: bytes where
  "example_request = [1, 12, 0, 0, 1, 0, 0, 7, 0, 0x22, 0, 0, 0]"

definition example_pending :: bytes where
  "example_pending = [1, 12, 0, 0, 1, 5, 0, 7, 0, 0x22, 0, 0, 0]"

definition example_io :: dev_io where
  "example_io = \<lparr>fd_open = True, poll_ret = 1, pollout = True, write_ret = 13\<rparr>"

lemma example_run:
  "\<exists>L. link_step\<^sup>*\<^sup>* link_init L \<and> (example_pending, 0, Some example_pending) \<in> set (results L)"
proof -
  let ?t0 = "\<lparr>s_pRequest = None, s_pResponse = None, events = []\<rparr>"
  let ?t1 = "?t0\<lparr>s_pRequest := Some example_pending\<rparr>"
  let ?t2 = "?t0\<lparr>s_pResponse := Some example_pending\<rparr>"
  have "QmiWwanSendQMI (replicate 255 5) example_io example_request = Some (0, example_pending)"
    by (simp add: QmiWwanSendQMI_def example_io_def example_request_def example_pending_def
        rd8_def rd16_def poke_def le16_to_cpu_def QMUX_TYPE_CTL_def QMUX_TYPE_WDS_IPV6_def)
  then have "send_begin (replicate 255 5) example_io example_request ?t0 = Some (0, example_pending, ?t1)"
    by (simp add: send_begin_def)
  then have 1: "link_step link_init (link_init\<lparr>tr := ?t1, waiting := Some example_pending\<rparr>)"
    using link_step.start [of link_init] by (simp add: link_init_def)
  have "is_response example_pending example_pending = Some True"
    by (simp add: is_response_def example_pending_def rd8_def rd16_def)
  moreover have "rd16 example_pending 1 = Some 12" "rdn example_pending 0 13 = Some example_pending"
    by (simp_all add: example_pending_def rd16_def rdn_def le16_to_cpu_def)
  ultimately have "QmiThreadRecvQMI True (Some example_pending) ?t1 = Some (True, ?t2)"
    by (simp add: QmiThreadRecvQMI_def)
  then have 2: "link_step (link_init\<lparr>tr := ?t1, waiting := Some example_pending\<rparr>)
      (link_init\<lparr>tr := ?t2, waiting := Some example_pending\<rparr>)"
    using link_step.recv [of True "Some example_pending" "link_init\<lparr>tr := ?t1, waiting := Some example_pending\<rparr>"]
    by (simp add: link_init_def)
  have 3: "link_step (link_init\<lparr>tr := ?t2, waiting := Some example_pending\<rparr>)
      (link_init\<lparr>tr := ?t2, results := [(example_pending, 0, Some example_pending)]\<rparr>)"
    using link_step.wake [of "link_init\<lparr>tr := ?t2, waiting := Some example_pending\<rparr>" example_pending]
    by (simp add: link_init_def)
  from 1 2 3 have "link_step\<^sup>*\<^sup>* link_init
      (link_init\<lparr>tr := ?t2, results := [(example_pending, 0, Some example_pending)]\<rparr>)"
    by (meson converse_rtranclp_into_rtranclp rtranclp.rtrancl_refl)
  then show ?thesis
    by (intro exI [of _ "link_init\<lparr>tr := ?t2, results := [(example_pending, 0, Some example_pending)]\<rparr>"])
      simp
qed

theorem response_answers_request_witness:
  "\<exists>L :: link. (example_pending, 0, Some example_pending) \<in> set (results L) \<and> same_ids example_pending example_pending"
proof -
  obtain L where L: "link_step\<^sup>*\<^sup>* link_init L" "(example_pending, 0, Some example_pending) \<in> set (results L)"
    using example_run by blast
  have "9 \<le> length example_pending" by (simp add: example_pending_def)
  then have "same_ids example_pending example_pending" using response_answers_request [OF L] by blast
  with L(2) show ?thesis by blast
qed



end
