(* ===== verification/QmiCall.thy ===== *)
theory QmiCall
  imports QmiTransport
begin

text \<open>
  The module state of \<^verbatim>\<open>QMIThread.c\<close> (its \<^verbatim>\<open>static\<close> variables) and the pattern all its requests
  share: compose a message, send it, wait, and run the macro \<open>qmi_rsp_check_and_return\<close> on the
  reply.  What the environment contributes is part of the state: \<open>mallocs\<close> are the outcomes of
  the coming \<^verbatim>\<open>malloc\<close> calls (all succeed once the list is used up) and \<open>replies\<close> the ends of the
  coming waits (time-outs once it is used up); \<open>sent\<close> logs the requests and \<open>driver_settings\<close>
  what \<^verbatim>\<open>ql_set_driver_qmap_setting\<close> hands to the network driver.
\<close>

section \<open>State\<close>

record qmi =
  WdsConnectionIPv4Handle :: u32
  WdsConnectionIPv6Handle :: u32
  s_is_cdma :: bool
  s_5g_type :: u32
  s_hdr_personality :: u8
  s_9x07 :: bool
  qmap_version :: u32
  TransactionId :: int
  g_pdn_conflict :: u16
  mallocs :: "bool list"
  replies :: "reply list"
  sent :: "bytes list"
  driver_settings :: "qmap_setting list"

definition qmi_init :: "reply list \<Rightarrow> qmi" where
  "qmi_init rs = \<lparr>WdsConnectionIPv4Handle = 0, WdsConnectionIPv6Handle = 0, s_is_cdma = False,
     s_5g_type = 0, s_hdr_personality = 0, s_9x07 = True, qmap_version = 0x05, TransactionId = 0,
     g_pdn_conflict = 0, mallocs = [], replies = rs, sent = [],
     driver_settings = []\<rparr>"

section \<open>One request\<close>

definition qmi_compose ::
  "u8 \<Rightarrow> u16 \<Rightarrow> builder option \<Rightarrow> qmi \<Rightarrow> (bytes option \<times> qmi) option" where
  "qmi_compose QMIType Type fn st = do {
     let ok = (case mallocs st of [] \<Rightarrow> True | b # _ \<Rightarrow> b);
     (m, t) \<leftarrow> ComposeQMUXMsg ok (TransactionId st) QMIType Type fn;
     Some (m, st\<lparr>TransactionId := t, mallocs := tl (mallocs st)\<rparr>) }"

definition QmiThreadSendQMI :: "bytes option \<Rightarrow> qmi \<Rightarrow> (int \<times> bytes option) \<times> qmi" where
  "QmiThreadSendQMI pRequest st =
     (case pRequest of
        None \<Rightarrow> ((- EINVAL, None), st)
      | Some m \<Rightarrow>
          (send_result (case replies st of [] \<Rightarrow> Timeout | r # _ \<Rightarrow> r),
           st\<lparr>replies := tl (replies st), sent := sent st @ [m]\<rparr>))"

text \<open>
  \<open>QMUXResult\<close> and \<open>QMUXError\<close> are read at their fixed place in \<^verbatim>\<open>QMUXMsgHdrResp\<close>.  The check
  returns \<open>Inl err\<close> for an early return with \<open>err\<close> and \<open>Inr m\<close> to go on with the response \<open>m\<close>.
\<close>

definition QMUXResult :: "bytes \<Rightarrow> u16 option" where "QMUXResult m = rd16 m 16"
definition QMUXError :: "bytes \<Rightarrow> u16 option" where "QMUXError m = rd16 m 18"

definition qmi_rsp_check_and_return :: "int \<times> bytes option \<Rightarrow> (int + bytes) option" where
  "qmi_rsp_check_and_return er =
     (case er of (err, pResponse) \<Rightarrow>
      case pResponse of
        None \<Rightarrow> Some (Inl err)
      | Some m \<Rightarrow>
          if err < 0 then Some (Inl err)
          else do {
            result \<leftarrow> QMUXResult m;
            error \<leftarrow> QMUXError m;
            Some (if result \<noteq> 0 \<or> error \<noteq> 0 then Inl (uint error) else Inr m) })"

definition qmi_call :: "u8 \<Rightarrow> u16 \<Rightarrow> builder option \<Rightarrow> qmi \<Rightarrow> ((int + bytes) \<times> qmi) option" where
  "qmi_call QMIType Type fn st = do {
     (pRequest, st) \<leftarrow> qmi_compose QMIType Type fn st;
     let (er, st) = QmiThreadSendQMI pRequest st;
     r \<leftarrow> qmi_rsp_check_and_return er;
     Some (r, st) }"

text \<open>The value of a TLV the code reads a byte, a 16-bit or a 32-bit field from.\<close>

definition tlv8 :: "bytes \<Rightarrow> nat \<Rightarrow> nat \<Rightarrow> u8 option" where
  "tlv8 m p i = rd8 m (p + 3 + i)"

definition service_of :: "int \<Rightarrow> u8" where
  "service_of family = (if family = IpFamilyV4 then QMUX_TYPE_WDS else QMUX_TYPE_WDS_IPV6)"

section \<open>Frame lemmas\<close>

text \<open>What a request can change of the module state besides the script and the log.\<close>

definition same_link :: "qmi \<Rightarrow> qmi \<Rightarrow> bool" where
  "same_link st st' \<longleftrightarrow>
     WdsConnectionIPv4Handle st' = WdsConnectionIPv4Handle st
     \<and> WdsConnectionIPv6Handle st' = WdsConnectionIPv6Handle st
     \<and> s_is_cdma st' = s_is_cdma st \<and> s_5g_type st' = s_5g_type st
     \<and> s_hdr_personality st' = s_hdr_personality st \<and> s_9x07 st' = s_9x07 st
     \<and> qmap_version st' = qmap_version st \<and> g_pdn_conflict st' = g_pdn_conflict st"

lemma same_link_refl [simp, intro]: "same_link st st"
  by (simp add: same_link_def)

lemma same_link_trans: "same_link a b \<Longrightarrow> same_link b c \<Longrightarrow> same_link a c"
  by (simp add: same_link_def)

lemma qmi_compose_same: "qmi_compose Q ty fn st = Some (m, st') \<Longrightarrow> same_link st st'"
  by (auto simp: qmi_compose_def same_link_def bind_eq_Some_conv Let_def)

lemma QmiThreadSendQMI_same: "QmiThreadSendQMI m st = (er, st') \<Longrightarrow> same_link st st'"
  by (auto simp: QmiThreadSendQMI_def same_link_def split: option.splits)

lemma qmi_callE:
  assumes "qmi_call Q ty fn st = Some (r, st')"
  obtains m st1 er where "qmi_compose Q ty fn st = Some (m, st1)"
    "QmiThreadSendQMI m st1 = (er, st')" "qmi_rsp_check_and_return er = Some r"
proof -
  from assms obtain m st1 where c: "qmi_compose Q ty fn st = Some (m, st1)"
      and r: "qmi_rsp_check_and_return (fst (QmiThreadSendQMI m st1)) = Some r"
      and s: "st' = snd (QmiThreadSendQMI m st1)"
    by (auto simp: qmi_call_def bind_eq_Some_conv split_beta Let_def)
  from that [OF c, of "fst (QmiThreadSendQMI m st1)"] r s show ?thesis by simp
qed

lemma qmi_call_same: "qmi_call Q ty fn st = Some (r, st') \<Longrightarrow> same_link st st'"
  by (elim qmi_callE) (auto dest!: qmi_compose_same QmiThreadSendQMI_same intro: same_link_trans)

lemma send_result_response: "send_result r = (e, Some m) \<Longrightarrow> e = 0"
  by (cases r rule: send_result.cases) auto

text \<open>A response that reaches the caller is one that reports no error.\<close>

lemma qmi_call_Inr:
  "qmi_call Q ty fn st = Some (Inr m, st') \<Longrightarrow> QMUXResult m = Some 0 \<and> QMUXError m = Some 0"
  by (elim qmi_callE)
    (auto simp: qmi_rsp_check_and_return_def bind_eq_Some_conv split: prod.splits option.splits if_splits)

lemma qmi_call_no_builder:
  "ComposeQMUXMsg True t Q ty None
     = Some (Some (qmi_frame Q (fst (GetQMUXTransactionId t)) ty []), snd (GetQMUXTransactionId t))"
proof -
  obtain tid t' where g: "GetQMUXTransactionId t = (tid, t')" by (cases "GetQMUXTransactionId t")
  have "poke 11 (le16 0) (compose_hdr Q tid ty @ replicate 245 0)
      = poke 11 (le16 (of_nat (4 + 0) - 4)) (compose_hdr Q tid ty @ [0, 0] @ [] @ replicate 243 0)"
    by (simp add: poke_def numeral_eq_Suc)
  with compose_lengths [of "[0, 0]" "replicate 243 0" 0 "[]" Q tid ty] show ?thesis
    by (auto simp: ComposeQMUXMsg_stores [OF g] g qmi_frame_def bind_eq_Some_conv)
qed

lemma qmi_call_reply:
  assumes "mallocs st = []" and "replies st = Woken (Some m) # rs"
    and "ComposeQMUXMsg True (TransactionId st) Q ty fn = Some (Some f, t)"
    and "QMUXResult m = Some 0" and "QMUXError m = Some 0"
  shows "qmi_call Q ty fn st = Some (Inr m, st\<lparr>TransactionId := t, replies := rs, sent := sent st @ [f]\<rparr>)"
  using assms
  by (simp add: qmi_call_def qmi_compose_def QmiThreadSendQMI_def qmi_rsp_check_and_return_def)

section \<open>Responses\<close>

text \<open>A response frame: the result TLV first, then \<open>ts\<close>.\<close>

definition rsp_frame :: "u8 \<Rightarrow> u16 \<Rightarrow> u16 \<Rightarrow> u16 \<Rightarrow> u16 \<Rightarrow> tlv list \<Rightarrow> bytes" where
  "rsp_frame QMIType tid Type result error ts =
     qmi_frame QMIType tid Type ((0x02, le16 result @ le16 error) # ts)"

lemma rsp_frame_fields:
  "QMUXResult (rsp_frame Q tid ty r e ts) = Some r" "QMUXError (rsp_frame Q tid ty r e ts) = Some e"
proof -
  let ?n = "of_nat (length (tlvs_enc ((0x02, le16 r @ le16 e) # ts))) :: u16"
  let ?n12 = "of_nat (12 + length (tlvs_enc ((0x02, le16 r @ le16 e) # ts))) :: u16"
  let ?h = "[0x01] @ le16 ?n12 @ [0x00, Q, 0x00, 0x00] @ le16 tid @ le16 ty @ le16 ?n @ [0x02] @ le16 4"
  have f: "rsp_frame Q tid ty r e ts = ?h @ le16 r @ le16 e @ tlvs_enc ts"
    by (simp add: rsp_frame_def qmi_frame_def tlv_enc_def)
  show "QMUXResult (rsp_frame Q tid ty r e ts) = Some r"
    using rd16_append [of ?h "le16 r @ le16 e @ tlvs_enc ts" 0] by (simp add: f QMUXResult_def rd16_le16)
  show "QMUXError (rsp_frame Q tid ty r e ts) = Some e"
    using rd16_append [of "?h @ le16 r" "le16 e @ tlvs_enc ts" 0] by (simp add: f QMUXError_def rd16_le16)
qed

lemma rsp_frame_message:
  "length (tlvs_enc ts) < 60000 \<Longrightarrow>
     qmux_message (rsp_frame Q tid ty r e ts) ((0x02, le16 r @ le16 e) # ts)"
  by (simp add: rsp_frame_def qmi_frame_message)

text \<open>The first request without a builder on a fresh module state.\<close>

lemma qmi_call_init:
  "qmi_call Q ty None (qmi_init (Woken (Some (rsp_frame Q' tid ty' 0 0 ts)) # rs))
     = Some (Inr (rsp_frame Q' tid ty' 0 0 ts),
             (qmi_init rs)\<lparr>TransactionId := 1, sent := [qmi_frame Q 1 ty []]\<rparr>)"
  by (subst qmi_call_reply [OF _ _ qmi_call_no_builder])
    (simp_all add: qmi_init_def rsp_frame_fields GetQMUXTransactionId_def)

end
