(* ===== verification/QmiSim.thy ===== *)
theory QmiSim
  imports QmiCall
begin

text \<open>
  The SIM requests of \<^verbatim>\<open>QMIThread.c\<close>: PIN status, card status, PIN entry and the registration for
  card-status indications.
\<close>

section \<open>Model\<close>

datatype SIM_Status = SIM_ABSENT | SIM_NOT_READY | SIM_READY | SIM_PIN | SIM_PUK
  | SIM_NETWORK_PERSONALIZATION | SIM_BAD

fun sim_code :: "SIM_Status \<Rightarrow> nat" where
  "sim_code SIM_ABSENT = 0"
| "sim_code SIM_NOT_READY = 1"
| "sim_code SIM_READY = 2"
| "sim_code SIM_PIN = 3"
| "sim_code SIM_PUK = 4"
| "sim_code SIM_NETWORK_PERSONALIZATION = 5"
| "sim_code SIM_BAD = 6"

definition SIM_Status_String :: "string list" where
  "SIM_Status_String = [''SIM_ABSENT'', ''SIM_NOT_READY'', ''SIM_READY'', ''SIM_PIN'', ''SIM_PUK'',
     ''SIM_NETWORK_PERSONALIZATION'']"

definition QMI_PIN_STATUS_NOT_INIT :: u8 where "QMI_PIN_STATUS_NOT_INIT = 0"
definition QMI_PIN_STATUS_NOT_VERIF :: u8 where "QMI_PIN_STATUS_NOT_VERIF = 1"
definition QMI_PIN_STATUS_VERIFIED :: u8 where "QMI_PIN_STATUS_VERIFIED = 2"
definition QMI_PIN_STATUS_DISABLED :: u8 where "QMI_PIN_STATUS_DISABLED = 3"
definition QMI_PIN_STATUS_BLOCKED :: u8 where "QMI_PIN_STATUS_BLOCKED = 4"
definition QMI_PIN_STATUS_PERM_BLOCKED :: u8 where "QMI_PIN_STATUS_PERM_BLOCKED = 5"

lemmas pin_status_defs = QMI_PIN_STATUS_NOT_INIT_def QMI_PIN_STATUS_NOT_VERIF_def
  QMI_PIN_STATUS_VERIFIED_def QMI_PIN_STATUS_DISABLED_def QMI_PIN_STATUS_BLOCKED_def
  QMI_PIN_STATUS_PERM_BLOCKED_def

definition requestGetPINStatus :: "SIM_Status \<Rightarrow> qmi \<Rightarrow> (int \<times> SIM_Status \<times> qmi) option" where
  "requestGetPINStatus pSIMStatus st = do {
     (r, st) \<leftarrow> (if s_9x07 st then qmi_call QMUX_TYPE_UIM 0x002F None st
                else qmi_call QMUX_TYPE_DMS 0x002B None st);
     case r of
       Inl err \<Rightarrow> Some (err, pSIMStatus, st)
     | Inr m \<Rightarrow> do {
         pPin1Status \<leftarrow> GetTLV m 0x11;
         sim \<leftarrow> (case pPin1Status of
                  None \<Rightarrow> Some pSIMStatus
                | Some p \<Rightarrow> do {
                    PINStatus \<leftarrow> tlv8 m p 0;
                    Some (if PINStatus = QMI_PIN_STATUS_NOT_VERIF then SIM_PIN
                          else if PINStatus = QMI_PIN_STATUS_BLOCKED then SIM_PUK
                          else if PINStatus = QMI_PIN_STATUS_PERM_BLOCKED then SIM_BAD
                          else pSIMStatus) });
         Some (0, sim, st) } }"

definition sim_decide :: "u8 \<Rightarrow> u8 \<Rightarrow> SIM_Status" where
  "sim_decide CardState PIN1State =
     (if CardState = 0x01 \<and> (PIN1State = QMI_PIN_STATUS_VERIFIED \<or> PIN1State = QMI_PIN_STATUS_DISABLED)
      then SIM_READY
      else if CardState = 0x01 then
        (let s = (if PIN1State = QMI_PIN_STATUS_NOT_VERIF then SIM_PIN else SIM_ABSENT) in
         if PIN1State = QMI_PIN_STATUS_BLOCKED then SIM_PUK
         else if PIN1State = QMI_PIN_STATUS_PERM_BLOCKED then SIM_BAD
         else if PIN1State = QMI_PIN_STATUS_NOT_INIT \<or> PIN1State = QMI_PIN_STATUS_VERIFIED
                 \<or> PIN1State = QMI_PIN_STATUS_DISABLED then SIM_READY
         else s)
      else SIM_ABSENT)"

text \<open>
  Card state and PIN state out of the card-status TLV at \<open>p\<close>, with the reads and the hex dump into
  \<^verbatim>\<open>csRaw[96]\<close> that only feed the log line.
\<close>

definition card_status_read :: "bytes \<Rightarrow> nat \<Rightarrow> (u8 \<times> u8) option" where
  "card_status_read m p = do {
     q \<leftarrow> card_pin_state m p;
     CardState \<leftarrow> rd8 m (p + 12);
     PIN1State \<leftarrow> (if CardState = 0x01 then do {
                      UnivPIN \<leftarrow> rd8 m q;
                      if UnivPIN = 1 then rd8 m (p + 13) else rd8 m (q + 1) }
                    else Some QMI_PIN_STATUS_NOT_VERIF);
     _ \<leftarrow> rdn m (p + 13) 5;
     _ \<leftarrow> rdn m (q + 1) 2;
     TLVLength \<leftarrow> rd16 m (p + 1);
     raw \<leftarrow> rdn m p (min 96 (unat TLVLength));
     _ \<leftarrow> hexdump 96 0 raw;
     Some (CardState, PIN1State) }"

definition requestGetSIMStatus :: "SIM_Status \<Rightarrow> qmi \<Rightarrow> (int \<times> SIM_Status \<times> qmi) option" where
  "requestGetSIMStatus pSIMStatus st = do {
     (r, st) \<leftarrow> (if s_9x07 st then qmi_call QMUX_TYPE_UIM 0x002F None st
                else qmi_call QMUX_TYPE_DMS 0x0044 None st);
     case r of
       Inl err \<Rightarrow> Some (err, pSIMStatus, st)
     | Inr m \<Rightarrow> do {
         (sim, st) \<leftarrow>
           (if s_9x07 st then do {
              pCardStatus \<leftarrow> GetTLV m 0x10;
              (CardState, PIN1State) \<leftarrow>
                (case pCardStatus of
                   None \<Rightarrow> Some (0x01, QMI_PIN_STATUS_NOT_VERIF)
                 | Some p \<Rightarrow> card_status_read m p);
              Some (sim_decide CardState PIN1State, st) }
            else do {
              UIMState \<leftarrow> rd8 m 23;
              if UIMState = 0x00 then Some (SIM_READY, st)
              else if UIMState = 0x01 then do {
                (err, sim, st) \<leftarrow> requestGetPINStatus SIM_ABSENT st;
                Some (sim, st) }
              else Some (SIM_ABSENT, st) });
         if sim_code sim < length SIM_Status_String then Some (0, sim, st) else None } }"

definition requestEnterSimPin :: "string \<Rightarrow> qmi \<Rightarrow> (int \<times> qmi) option" where
  "requestEnterSimPin pPinCode st = do {
     (r, st) \<leftarrow> (if s_9x07 st
                then qmi_call QMUX_TYPE_UIM 0x0026 (Some (UimVerifyPinReqSend pPinCode)) st
                else qmi_call QMUX_TYPE_DMS 0x0028 (Some (DmsUIMVerifyPinReqSend pPinCode)) st);
     case r of Inl err \<Rightarrow> Some (err, st) | Inr m \<Rightarrow> Some (0, st) }"

definition requestUIMCardStatusEvent :: "u8 \<Rightarrow> qmi \<Rightarrow> qmi option" where
  "requestUIMCardStatusEvent cid st =
     (if \<not> s_9x07 st \<or> cid = 0 then Some st
      else do {
        (pRequest, st) \<leftarrow> qmi_compose QMUX_TYPE_UIM 0x002E (Some UimEventRegReqSend) st;
        case pRequest of
          None \<Rightarrow> Some st
        | Some _ \<Rightarrow>
            (case QmiThreadSendQMI pRequest st of
               ((err, pResponse), st) \<Rightarrow>
                 (case pResponse of
                    None \<Rightarrow> Some st
                  | Some m \<Rightarrow> if err = 0 then do { _ \<leftarrow> QMUXResult m; _ \<leftarrow> QMUXError m; Some st }
                              else Some st)) })"

section \<open>The card-status TLV of a card with one application\<close>

record card =
  index4 :: bytes
  NumSlot :: u8
  CardState :: u8
  UPINState :: u8
  UPINRetries :: u8
  UPUKRetries :: u8
  ErrorCode :: u8
  app6 :: bytes
  AID :: bytes
  UnivPIN :: u8
  PIN1State :: u8
  PIN1Retries :: u8
  pin4 :: bytes

definition card_wf :: "card \<Rightarrow> bool" where
  "card_wf c \<longleftrightarrow> length (index4 c) = 8 \<and> length (app6 c) = 6 \<and> length (AID c) \<le> 16 \<and> length (pin4 c) = 4"

definition card_value :: "card \<Rightarrow> bytes" where
  "card_value c = index4 c @ [NumSlot c, CardState c, UPINState c, UPINRetries c, UPUKRetries c,
     ErrorCode c, 1] @ app6 c @ [of_nat (length (AID c))] @ AID c
     @ [UnivPIN c, PIN1State c, PIN1Retries c] @ pin4 c"

lemma length_card_value:
  "card_wf c \<Longrightarrow> length (card_value c) = 29 + length (AID c)"
  by (simp add: card_wf_def card_value_def)

lemma card_value_nth:
  assumes "card_wf c"
  shows "card_value c ! 9 = CardState c" "card_value c ! 10 = UPINState c" "card_value c ! 14 = 1"
    "card_value c ! 21 = of_nat (length (AID c))" "card_value c ! (22 + length (AID c)) = UnivPIN c"
    "card_value c ! (23 + length (AID c)) = PIN1State c"
  using assms by (simp_all add: card_wf_def card_value_def nth_append)

definition effective_pin :: "card \<Rightarrow> u8" where
  "effective_pin c =
     (if CardState c = 1 then (if UnivPIN c = 1 then UPINState c else PIN1State c)
      else QMI_PIN_STATUS_NOT_VERIF)"

lemma card_status_read_one_app:
  assumes wf: "card_wf c" and v: "rdn m (p + 3) (length (card_value c)) = Some (card_value c)"
    and len: "rd16 m (p + 1) = Some (of_nat (length (card_value c)))"
  shows "card_status_read m p = Some (CardState c, effective_pin c)"
proof -
  let ?n = "length (card_value c)" and ?q = "p + 25 + length (AID c)"
  have n: "?n = 29 + length (AID c)" "length (AID c) \<le> 16"
    using wf length_card_value [OF wf] by (auto simp: card_wf_def)
  have rd: "rd8 m j = Some (card_value c ! i)" if "j = p + 3 + i" "i < ?n" for i j
    using rd8_part [OF v that(2)] that(1) by simp
  have "rd8 m (p + 24) = Some (of_nat (length (AID c)))" "rd8 m (p + 17) = Some 1"
    "rd8 m (p + 12) = Some (CardState c)" "rd8 m (p + 13) = Some (UPINState c)"
    using rd [of "p + 24" 21] rd [of "p + 17" 14] rd [of "p + 12" 9] rd [of "p + 13" 10] n
      card_value_nth [OF wf] by simp_all
  moreover have "rd8 m (p + 18) = Some (card_value c ! 15)" using n by (intro rd) simp_all
  moreover have "rd8 m ?q = Some (UnivPIN c)" "rd8 m (?q + 1) = Some (PIN1State c)"
    using rd [of ?q "22 + length (AID c)"] rd [of "?q + 1" "23 + length (AID c)"] n card_value_nth [OF wf]
    by simp_all
  moreover have aid: "unat (of_nat (length (AID c)) :: u8) = length (AID c)"
    using n(2) by (simp add: unat_of_nat)
  ultimately have q: "card_pin_state m p = Some ?q"
    by (simp add: card_pin_state_def)
  have "rdn m (p + 3 + 10) 5 \<noteq> None" "rdn m (p + 3 + (23 + length (AID c))) 2 \<noteq> None"
    using rdn_part [OF v, of 10 5] rdn_part [OF v, of "23 + length (AID c)" 2] n by simp_all
  then obtain x y where "rdn m (p + 13) 5 = Some x" "rdn m (?q + 1) 2 = Some y"
    by (auto simp: ac_simps)
  moreover have "rdn m p ?n = Some (take ?n (drop p m))"
    using v by (simp add: rdn_def split: if_splits)
  moreover have "hexdump 96 0 (take ?n (drop p m)) = Some (2 * length (take ?n (drop p m)))"
    using hexdump_96 [of 0 "take ?n (drop p m)"] n by (simp add: min_le_iff_disj)
  moreover have "unat (of_nat ?n :: u16) = ?n" "min 96 ?n = ?n"
    using n unat_of_nat16 [of ?n] by simp_all
  ultimately show ?thesis
    using q len \<open>rd8 m (p + 12) = _\<close> \<open>rd8 m (p + 13) = _\<close> \<open>rd8 m ?q = _\<close> \<open>rd8 m (?q + 1) = _\<close>
    unfolding card_status_read_def effective_pin_def
    by (simp del: add_Suc_right One_nat_def)
qed

section \<open>Properties\<close>

text \<open>
  C10: For a card with one application the reported SIM state follows the PIN that applies (the
  universal PIN when the application uses it, else PIN1): ready when it is not initialised, verified
  or disabled, a PIN to enter when it is not verified, a PUK when it is blocked, and no SIM in every
  other case and without a present card; the one exception is a permanently blocked PIN, for which
  the log line indexes the name table out of bounds.
\<close>

theorem sim_status_one_app:
  assumes "s_9x07 st" and "qmi_call QMUX_TYPE_UIM 0x002F None st = Some (Inr m, st')"
    and "qmux_message m ts" and "map_of ts 0x10 = Some (card_value c)" and "card_wf c"
  shows "requestGetSIMStatus s0 st =
     (if CardState c \<noteq> 1 then Some (0, SIM_ABSENT, st')
      else if effective_pin c \<in> {0, 2, 3} then Some (0, SIM_READY, st')
      else if effective_pin c = 1 then Some (0, SIM_PIN, st')
      else if effective_pin c = 4 then Some (0, SIM_PUK, st')
      else if effective_pin c = 5 then None
      else Some (0, SIM_ABSENT, st'))"
proof -
  obtain p where p: "GetTLV m (uint (0x10 :: u8)) = Some (Some p)"
    and l: "rd16 m (p + 1) = Some (of_nat (length (card_value c)))"
    and v: "rdn m (p + 3) (length (card_value c)) = Some (card_value c)"
    by (rule GetTLV_present [OF assms(3,4)])
  have "s_9x07 st'" using qmi_call_same [OF assms(2)] assms(1) by (simp add: same_link_def)
  then have "requestGetSIMStatus s0 st =
     (let s = sim_decide (CardState c) (effective_pin c) in
      if s = SIM_BAD then None else Some (0, s, st'))"
    using assms(1,2) p card_status_read_one_app [OF assms(5) v l]
    by (cases "sim_decide (CardState c) (effective_pin c)")
      (simp_all add: requestGetSIMStatus_def SIM_Status_String_def Let_def)
  then show ?thesis by (auto simp: sim_decide_def pin_status_defs Let_def)
qed

definition example_card :: card where
  "example_card = \<lparr>index4 = replicate 8 0, NumSlot = 1, CardState = 1, UPINState = 0,
     UPINRetries = 0, UPUKRetries = 0, ErrorCode = 0, app6 = [2, 7, 0, 0, 0, 0],
     AID = [0xA0, 0, 0, 0, 0x87], UnivPIN = 0, PIN1State = 3, PIN1Retries = 3, pin4 = [10, 0, 0, 0]\<rparr>"

lemma example_card_wf: "card_wf example_card"
  by (simp add: card_wf_def example_card_def)

theorem sim_status_one_app_witness:
  "\<exists>st'. requestGetSIMStatus SIM_ABSENT
      (qmi_init [Woken (Some (rsp_frame QMUX_TYPE_UIM 1 0x002F 0 0 [(0x10, card_value example_card)]))])
     = Some (0, SIM_READY, st')"
proof -
  have "length (card_value example_card) = 34"
    using length_card_value [OF example_card_wf] by (simp add: example_card_def)
  then have "qmux_message (rsp_frame QMUX_TYPE_UIM 1 0x002F 0 0 [(0x10, card_value example_card)])
      [(0x02, le16 0 @ le16 0), (0x10, card_value example_card)]"
    by (intro rsp_frame_message) simp
  from sim_status_one_app [OF _ qmi_call_init this, where c = example_card] show ?thesis
    by (simp add: qmi_init_def example_card_wf) (simp add: example_card_def effective_pin_def)
qed

text \<open>
  A card-status TLV of 50 bytes or more, as a card with two applications sends it, overflows
  the log buffer \<^verbatim>\<open>csRaw[96]\<close> of the SIM status request: the loop dumps up to 96 bytes as two
  characters each, and the size argument wraps around.
\<close>

theorem sim_status_log_overflow:
  assumes "s_9x07 st" and "qmi_call QMUX_TYPE_UIM 0x002F None st = Some (Inr m, st')"
    and "GetTLV m 0x10 = Some (Some p)" and "rd16 m (p + 1) = Some len" and "50 \<le> unat len"
  shows "requestGetSIMStatus s0 st = None"
proof -
  have "hexdump 96 0 raw = None" if "length raw = min 96 (unat len)" for raw
    using hexdump_96 [of 0 raw] that assms(5) by auto
  then have "card_status_read m p = None"
    using assms(4) by (auto simp: card_status_read_def rdn_def split: bind_splits)
  moreover have "s_9x07 st'" using qmi_call_same [OF assms(2)] assms(1) by (simp add: same_link_def)
  ultimately show ?thesis
    using assms(1-3) by (simp add: requestGetSIMStatus_def)
qed

theorem sim_status_log_overflow_witness:
  "requestGetSIMStatus SIM_ABSENT
      (qmi_init [Woken (Some (rsp_frame QMUX_TYPE_UIM 1 0x002F 0 0 [(0x10, replicate 60 1)]))]) = None"
proof -
  let ?m = "rsp_frame QMUX_TYPE_UIM 1 0x002F 0 0 [(0x10, replicate 60 1)]"
  have "qmux_message ?m [(0x02, le16 0 @ le16 0), (0x10, replicate 60 1)]"
    by (intro rsp_frame_message) simp
  then obtain p where p: "GetTLV ?m (uint (0x10 :: u8)) = Some (Some p)"
      "rd16 ?m (p + 1) = Some (of_nat (length (replicate 60 (1 :: u8))))"
    by (rule GetTLV_present [where v = "replicate 60 1" and ty = "0x10"]) simp_all
  then show ?thesis
    using sim_status_log_overflow [OF _ qmi_call_init, where p = p and len = 60]
    by (simp add: qmi_init_def)
qed

end
