(* ===== verification/QmiReg.thy ===== *)
theory QmiReg
  imports QmiCall
begin

text \<open>
  Network registration in \<^verbatim>\<open>QMIThread.c\<close>: the walk over the system-info TLVs
  (\<open>requestRegistrationState2\<close>), the serving-system variant, the home network request and the
  CDMA country and network code conversions.
\<close>

section \<open>Numbers\<close>

text \<open>\<^verbatim>\<open>atoi\<close> of the C library on a byte string: leading white space, a sign, decimal digits.\<close>

definition c_isspace :: "u8 \<Rightarrow> bool" where
  "c_isspace c \<longleftrightarrow> c = 32 \<or> 9 \<le> c \<and> c \<le> 13"

definition c_isdigit :: "u8 \<Rightarrow> bool" where
  "c_isdigit c \<longleftrightarrow> 48 \<le> c \<and> c \<le> 57"

fun atoi_digits :: "int \<Rightarrow> bytes \<Rightarrow> int" where
  "atoi_digits acc [] = acc"
| "atoi_digits acc (c # cs) = (if c_isdigit c then atoi_digits (acc * 10 + (uint c - 48)) cs else acc)"

definition c_atoi :: "bytes \<Rightarrow> int" where
  "c_atoi bs =
     (case dropWhile c_isspace (takeWhile (\<lambda>c. c \<noteq> 0) bs) of
        [] \<Rightarrow> 0
      | c # cs \<Rightarrow> if c = 45 then - atoi_digits 0 cs
                  else if c = 43 then atoi_digits 0 cs else atoi_digits 0 (c # cs))"

definition char2ushort :: "bytes \<Rightarrow> u16" where
  "char2ushort str =
     (let temp = map (\<lambda>c. if c = 0xFF then 0 else c) (str @ [0]) in word_of_int (c_atoi temp))"

definition quectel_convert_cdma_mcc_2_ascii_mcc :: "u16 \<Rightarrow> u16" where
  "quectel_convert_cdma_mcc_2_ascii_mcc mcc =
     (if mcc = 0x3FF then 3
      else let buf = unat mcc + 111;
               d3 = buf mod 10;
               buf = (if d3 = 0 then (buf - 10) div 10 else buf div 10);
               d2 = buf mod 10;
               buf = (if d2 = 0 then (buf - 10) div 10 else buf div 10);
               d1 = (if buf = 10 then 0 else buf)
           in if d1 < 10 \<and> d2 < 10 \<and> d3 < 10 then of_nat (d1 * 100 + d2 * 10 + d3) else 0)"

definition quectel_convert_cdma_mnc_2_ascii_mnc :: "u16 \<Rightarrow> u16" where
  "quectel_convert_cdma_mnc_2_ascii_mnc imsi_11_12 =
     (if imsi_11_12 = 0x7F then 7
      else let buf = unat imsi_11_12 + 11;
               d2 = buf mod 10;
               buf = (if d2 = 0 then (buf - 10) div 10 else buf div 10);
               d1 = (if buf = 10 then 0 else buf)
           in if d1 < 10 \<and> d2 < 10 then of_nat (d1 * 10 + d2) else 0)"

section \<open>Home network\<close>

text \<open>Both callers pass NULL for the system ids, so only the country and network code are read.\<close>

definition requestGetHomeNetwork :: "qmi \<Rightarrow> (int \<times> u16 \<times> u16 \<times> qmi) option" where
  "requestGetHomeNetwork st = do {
     (r, st) \<leftarrow> qmi_call QMUX_TYPE_NAS 0x0025 None st;
     case r of
       Inl err \<Rightarrow> Some (err, 0, 0, st)
     | Inr m \<Rightarrow> do {
         pHomeNetwork \<leftarrow> GetTLV m 0x01;
         (mcc, mnc) \<leftarrow> (case pHomeNetwork of
             None \<Rightarrow> Some (0, 0)
           | Some p \<Rightarrow> do { mcc \<leftarrow> rd16 m (p + 3); mnc \<leftarrow> rd16 m (p + 5); Some (mcc, mnc) });
         _ \<leftarrow> GetTLV m 0x10;
         Some (0, mcc, mnc, st) } }"

section \<open>System info\<close>

definition WWAN_DATA_CLASS_GPRS :: u32 where "WWAN_DATA_CLASS_GPRS = 0x00000001"
definition WWAN_DATA_CLASS_EDGE :: u32 where "WWAN_DATA_CLASS_EDGE = 0x00000002"
definition WWAN_DATA_CLASS_UMTS :: u32 where "WWAN_DATA_CLASS_UMTS = 0x00000004"
definition WWAN_DATA_CLASS_HSDPA :: u32 where "WWAN_DATA_CLASS_HSDPA = 0x00000008"
definition WWAN_DATA_CLASS_HSUPA :: u32 where "WWAN_DATA_CLASS_HSUPA = 0x00000010"
definition WWAN_DATA_CLASS_LTE :: u32 where "WWAN_DATA_CLASS_LTE = 0x00000020"
definition WWAN_DATA_CLASS_5G_NSA :: u32 where "WWAN_DATA_CLASS_5G_NSA = 0x00000040"
definition WWAN_DATA_CLASS_5G_SA :: u32 where "WWAN_DATA_CLASS_5G_SA = 0x00000080"
definition WWAN_DATA_CLASS_1XRTT :: u32 where "WWAN_DATA_CLASS_1XRTT = 0x00010000"
definition WWAN_DATA_CLASS_1XEVDO :: u32 where "WWAN_DATA_CLASS_1XEVDO = 0x00020000"
definition WWAN_DATA_CLASS_1XEVDO_REVA :: u32 where "WWAN_DATA_CLASS_1XEVDO_REVA = 0x00040000"
definition WWAN_DATA_CLASS_1XEVDV :: u32 where "WWAN_DATA_CLASS_1XEVDV = 0x00080000"
definition WWAN_DATA_CLASS_3XRTT :: u32 where "WWAN_DATA_CLASS_3XRTT = 0x00100000"
definition WWAN_DATA_CLASS_1XEVDO_REVB :: u32 where "WWAN_DATA_CLASS_1XEVDO_REVB = 0x00200000"
definition WWAN_DATA_CLASS_UMB :: u32 where "WWAN_DATA_CLASS_UMB = 0x00400000"

definition DEVICE_CLASS_CDMA :: u8 where "DEVICE_CLASS_CDMA = 1"
definition DEVICE_CLASS_GSM :: u8 where "DEVICE_CLASS_GSM = 2"

definition class2str :: "(u32 \<times> string) list" where
  "class2str = [(0, ''UNKNOWN''), (WWAN_DATA_CLASS_GPRS, ''GPRS''), (WWAN_DATA_CLASS_EDGE, ''EDGE''),
     (WWAN_DATA_CLASS_UMTS, ''UMTS''), (WWAN_DATA_CLASS_HSDPA, ''HSDPA''),
     (WWAN_DATA_CLASS_HSUPA, ''HSUPA''), (WWAN_DATA_CLASS_LTE, ''LTE''),
     (WWAN_DATA_CLASS_5G_NSA, ''5G_NSA''), (WWAN_DATA_CLASS_5G_SA, ''5G_SA''),
     (WWAN_DATA_CLASS_1XRTT, ''1XRTT''), (WWAN_DATA_CLASS_1XEVDO, ''1XEVDO''),
     (WWAN_DATA_CLASS_1XEVDO_REVA, ''1XEVDO_REVA''), (WWAN_DATA_CLASS_1XEVDV, ''1XEVDV''),
     (WWAN_DATA_CLASS_3XRTT, ''3XRTT''), (WWAN_DATA_CLASS_1XEVDO_REVB, ''1XEVDO_REVB''),
     (WWAN_DATA_CLASS_UMB, ''UMB''), (0x80000000, ''CUSTOM'')]"

definition wwan_data_class2str :: "u32 \<Rightarrow> string" where
  "wwan_data_class2str c = (case map_of class2str c of Some s \<Rightarrow> s | None \<Rightarrow> ''UNKNOWN'')"

text \<open>The local variables of the walk.\<close>

record reg2 =
  PSAttached :: u8
  is_lte :: bool
  DataCapList :: u32
  DeviceClass :: u8
  endc_available_valid :: bool
  endc_available :: u8
  restrict_dcnr_valid :: bool
  restrict_dcnr :: u8
  reg_mcc :: u16
  reg_mnc :: u16
  DataCapStr :: string

definition reg2_start :: reg2 where
  "reg2_start = \<lparr>PSAttached = 0, is_lte = False, DataCapList = 0, DeviceClass = 0,
     endc_available_valid = False, endc_available = 0, restrict_dcnr_valid = False,
     restrict_dcnr = 1, reg_mcc = 0, reg_mnc = 0, DataCapStr = ''UNKNOW''\<rparr>"

text \<open>
  The service-status TLVs (0x10 to 0x14 and 0x4A): the status byte is at offset 3.
\<close>

definition service_status :: "u8 \<Rightarrow> reg2 \<Rightarrow> qmi \<Rightarrow> reg2 \<times> qmi" where
  "service_status ty s st =
     (if ty = 0x10 then
        (s\<lparr>DataCapList := WWAN_DATA_CLASS_1XRTT OR WWAN_DATA_CLASS_1XEVDO OR
             WWAN_DATA_CLASS_1XEVDO_REVA OR WWAN_DATA_CLASS_1XEVDV OR WWAN_DATA_CLASS_1XEVDO_REVB,
           DeviceClass := DEVICE_CLASS_CDMA\<rparr>, st\<lparr>s_is_cdma := \<not> is_lte s\<rparr>)
      else if ty = 0x11 then
        (s\<lparr>DataCapList := WWAN_DATA_CLASS_3XRTT OR WWAN_DATA_CLASS_UMB,
           DeviceClass := DEVICE_CLASS_CDMA\<rparr>, st\<lparr>s_is_cdma := \<not> is_lte s\<rparr>)
      else if ty = 0x12 then
        (s\<lparr>DataCapList := WWAN_DATA_CLASS_GPRS OR WWAN_DATA_CLASS_EDGE,
           DeviceClass := DEVICE_CLASS_GSM\<rparr>, st)
      else if ty = 0x13 then
        (s\<lparr>DataCapList := WWAN_DATA_CLASS_UMTS, DeviceClass := DEVICE_CLASS_GSM\<rparr>, st)
      else if ty = 0x14 then
        (s\<lparr>DataCapList := WWAN_DATA_CLASS_LTE, DeviceClass := DEVICE_CLASS_GSM, is_lte := True\<rparr>,
         st\<lparr>s_is_cdma := False\<rparr>)
      else
        (s\<lparr>DataCapList := DataCapList s OR WWAN_DATA_CLASS_5G_SA, DeviceClass := DEVICE_CLASS_GSM,
           is_lte := True\<rparr>, st\<lparr>s_is_cdma := False\<rparr>))"

text \<open>
  Service domain and network identity of a system-info TLV at \<open>p\<close>: \<open>nid\<close> is the offset of
  \<^verbatim>\<open>NetworkIdValid\<close>.  The domain test reads the byte behind the valid flag.
\<close>

definition srv_domain_ps :: "bytes \<Rightarrow> nat \<Rightarrow> bool option" where
  "srv_domain_ps m p = do {
     SrvDomainValid \<leftarrow> rd8 m (p + 3);
     if SrvDomainValid = 0x01 then do { SrvDomain \<leftarrow> rd8 m (p + 4); Some (SrvDomain AND 0x02 \<noteq> 0) }
     else Some False }"

definition network_id :: "bytes \<Rightarrow> nat \<Rightarrow> nat \<Rightarrow> reg2 \<Rightarrow> reg2 option" where
  "network_id m p nid s = do {
     NetworkIdValid \<leftarrow> rd8 m (p + nid);
     if NetworkIdValid = 0x01 then do {
       MCC \<leftarrow> rdn m (p + nid + 1) 3;
       MNC \<leftarrow> rdn m (p + nid + 4) 3;
       Some (s\<lparr>reg_mcc := char2ushort MCC, reg_mnc := char2ushort MNC\<rparr>) }
     else Some s }"

definition reg2_tlv :: "bytes \<Rightarrow> nat \<Rightarrow> reg2 \<Rightarrow> qmi \<Rightarrow> (reg2 \<times> qmi) option" where
  "reg2_tlv m p s st = do {
     ty \<leftarrow> rd8 m p;
     if ty \<in> {0x10, 0x11, 0x12, 0x13, 0x14, 0x4A} then do {
       SrvStatus \<leftarrow> rd8 m (p + 3);
       Some (if SrvStatus = 0x02 then service_status ty s st else (s, st)) }
     else if ty = 0x4E then do {
       v \<leftarrow> rd8 m (p + 3);
       Some (s\<lparr>endc_available_valid := True, endc_available := v\<rparr>, st) }
     else if ty = 0x4F then do {
       v \<leftarrow> rd8 m (p + 3);
       Some (s\<lparr>restrict_dcnr_valid := True, restrict_dcnr := v\<rparr>, st) }
     else if ty = 0x24 then do {
       SrvStatus \<leftarrow> rd8 m (p + 3);
       Some (if SrvStatus = 0x02 then s\<lparr>DataCapStr := ''TD-SCDMA''\<rparr> else s, st) }
     else if ty = 0x15 then do {
       ps \<leftarrow> srv_domain_ps m p;
       let (s, st) = (if ps then (s\<lparr>PSAttached := 1\<rparr>, st\<lparr>s_is_cdma := \<not> is_lte s\<rparr>) else (s, st));
       s \<leftarrow> network_id m p 38 s;
       Some (s, st) }
     else if ty = 0x16 then do {
       ps \<leftarrow> srv_domain_ps m p;
       let (s, st) = (if ps then (s\<lparr>PSAttached := 1\<rparr>, st\<lparr>s_is_cdma := \<not> is_lte s\<rparr>) else (s, st));
       st \<leftarrow> (if PSAttached s \<noteq> 0 then do {
                HdrPersonalityValid \<leftarrow> rd8 m (p + 13);
                if HdrPersonalityValid = 0x01 then do {
                  HdrPersonality \<leftarrow> rd8 m (p + 14);
                  Some (if HdrPersonality = 0x03 then st\<lparr>s_hdr_personality := 0x02\<rparr> else st) }
                else Some st }
              else Some st);
       (err, cdma_mcc, cdma_mnc, st) \<leftarrow> requestGetHomeNetwork st;
       Some (if err = 0 \<and> cdma_mcc \<noteq> 0
             then s\<lparr>reg_mcc := quectel_convert_cdma_mcc_2_ascii_mcc cdma_mcc,
                    reg_mnc := quectel_convert_cdma_mnc_2_ascii_mnc cdma_mnc\<rparr> else s, st) }
     else if ty \<in> {0x17, 0x18, 0x25, 0x4B} then do {
       ps \<leftarrow> srv_domain_ps m p;
       s \<leftarrow> network_id m p 22 (if ps then s\<lparr>PSAttached := 1\<rparr> else s);
       Some (s, st) }
     else if ty = 0x19 then do {
       ps \<leftarrow> srv_domain_ps m p;
       let (s, st) = (if ps then (s\<lparr>PSAttached := 1, is_lte := True\<rparr>, st\<lparr>s_is_cdma := False\<rparr>)
                      else (s, st));
       s \<leftarrow> network_id m p 22 s;
       Some (s, st) }
     else Some (s, st) }"

function reg2_loop :: "bytes \<Rightarrow> int \<Rightarrow> nat \<Rightarrow> reg2 \<Rightarrow> qmi \<Rightarrow> (reg2 \<times> qmi) option" where
  "reg2_loop m remainingLen p s st =
     (if 0 < remainingLen then
        (case reg2_tlv m p s st of None \<Rightarrow> None
         | Some (s, st) \<Rightarrow>
             (case rd16 m (p + 1) of None \<Rightarrow> None
              | Some l \<Rightarrow> reg2_loop m (remainingLen - (uint l + 3)) (p + 3 + unat l) s st))
      else Some (s, st))"
  by pat_completeness auto
termination
  by (relation "measure (\<lambda>(m, remainingLen, p, s, st). length m - p)") (auto dest: rd16_SomeD)

declare reg2_loop.simps [simp del]

text \<open>The data class the walk ends with: the 5G type for the state and the name for the log.\<close>

definition reg2_caps :: "reg2 \<Rightarrow> u32" where
  "reg2_caps s =
     (if DataCapList s AND WWAN_DATA_CLASS_LTE \<noteq> 0 \<and> endc_available_valid s \<and> restrict_dcnr_valid s
         \<and> endc_available s \<noteq> 0 \<and> restrict_dcnr s = 0
      then DataCapList s OR WWAN_DATA_CLASS_5G_NSA else DataCapList s)"

definition first_class :: "u32 \<Rightarrow> u32 list \<Rightarrow> string \<Rightarrow> string" where
  "first_class caps cs dflt =
     (case filter (\<lambda>c. caps AND c \<noteq> 0) cs of [] \<Rightarrow> dflt | c # _ \<Rightarrow> wwan_data_class2str c)"

definition reg2_class :: "reg2 \<Rightarrow> qmi \<Rightarrow> string \<times> qmi" where
  "reg2_class s st =
     (let caps = reg2_caps s in
      if DeviceClass s = DEVICE_CLASS_CDMA then
        (if s_hdr_personality st = 2 then ''eHRPD''
         else first_class caps [WWAN_DATA_CLASS_1XEVDO_REVB, WWAN_DATA_CLASS_1XEVDO_REVA,
                WWAN_DATA_CLASS_1XEVDO, WWAN_DATA_CLASS_1XRTT, WWAN_DATA_CLASS_3XRTT,
                WWAN_DATA_CLASS_UMB] (DataCapStr s), st)
      else if caps AND WWAN_DATA_CLASS_5G_SA \<noteq> 0
      then (wwan_data_class2str WWAN_DATA_CLASS_5G_SA, st\<lparr>s_5g_type := WWAN_DATA_CLASS_5G_SA\<rparr>)
      else if caps AND WWAN_DATA_CLASS_5G_NSA \<noteq> 0
      then (wwan_data_class2str WWAN_DATA_CLASS_5G_NSA, st\<lparr>s_5g_type := WWAN_DATA_CLASS_5G_NSA\<rparr>)
      else if caps AND WWAN_DATA_CLASS_LTE \<noteq> 0 then (wwan_data_class2str WWAN_DATA_CLASS_LTE, st)
      else if caps AND WWAN_DATA_CLASS_HSDPA \<noteq> 0 \<and> caps AND WWAN_DATA_CLASS_HSUPA \<noteq> 0
      then (''HSDPA_HSUPA'', st)
      else (first_class caps [WWAN_DATA_CLASS_HSDPA, WWAN_DATA_CLASS_HSUPA, WWAN_DATA_CLASS_UMTS,
              WWAN_DATA_CLASS_EDGE, WWAN_DATA_CLASS_GPRS] (DataCapStr s), st))"

text \<open>Result: the return code, \<^verbatim>\<open>*pPSAttachedState\<close>, the logged country and network code and class.\<close>

definition requestRegistrationState2 ::
  "qmi \<Rightarrow> (int \<times> u8 \<times> (u16 \<times> u16 \<times> string) \<times> qmi) option" where
  "requestRegistrationState2 st = do {
     (r, st) \<leftarrow> qmi_call QMUX_TYPE_NAS 0x004D None st;
     case r of
       Inl err \<Rightarrow> Some (err, 0, (0, 0, ''''), st)
     | Inr m \<Rightarrow> do {
         len \<leftarrow> rd16 m 11;
         (s, st) \<leftarrow> reg2_loop m (uint len) 13 reg2_start
                     (st\<lparr>s_is_cdma := False, s_5g_type := 0, s_hdr_personality := 0\<rparr>);
         let (str, st) = reg2_class s st;
         Some (0, PSAttached s, (reg_mcc s, reg_mnc s, str), st) } }"

section \<open>Serving system\<close>

definition serving_data_cap :: "bytes \<Rightarrow> string option" where
  "serving_data_cap m = do {
     pDataCap \<leftarrow> GetTLV m 0x11;
     case pDataCap of
       None \<Rightarrow> Some ''UNKNOW''
     | Some p \<Rightarrow> do {
         n \<leftarrow> rd8 m (p + 3);
         if n = 0 then Some ''UNKNOW''
         else do {
           c0 \<leftarrow> rd8 m (p + 4);
           c0 \<leftarrow> (if n = 2 \<and> c0 = 0x06 then do {
                    c1 \<leftarrow> rd8 m (p + 5);
                    Some (if c1 = 0x08 \<or> c1 = 0x0A then c1 else c0) }
                  else Some c0);
           Some (case map_of [(0x01, ''GPRS''), (0x02, ''EDGE''), (0x03, ''HSDPA''), (0x04, ''HSUPA''),
                   (0x05, ''UMTS''), (0x06, ''1XRTT''), (0x07, ''1XEVDO''), (0x08, ''1XEVDO_REVA''),
                   (0x09, ''GPRS''), (0x0A, ''1XEVDO_REVB''), (0x0B, ''LTE''), (0x0C, ''HSDPA''),
                   (0x0D, ''HSDPA'')] c0 of Some t \<Rightarrow> t | None \<Rightarrow> ''UNKNOW'') } } }"

definition requestRegistrationState ::
  "u8 \<Rightarrow> qmi \<Rightarrow> (int \<times> u8 \<times> (u16 \<times> u16 \<times> string) \<times> qmi) option" where
  "requestRegistrationState PSAttachedState st =
     (if s_9x07 st then requestRegistrationState2 st
      else do {
        (r, st) \<leftarrow> qmi_call QMUX_TYPE_NAS 0x0024 None st;
        case r of
          Inl err \<Rightarrow> Some (err, PSAttachedState, (0, 0, ''''), st)
        | Inr m \<Rightarrow> do {
            pCurrentPlmn \<leftarrow> GetTLV m 0x12;
            (mcc, mnc) \<leftarrow> (case pCurrentPlmn of
                None \<Rightarrow> Some (0, 0)
              | Some p \<Rightarrow> do { a \<leftarrow> rd16 m (p + 3); b \<leftarrow> rd16 m (p + 5); Some (a, b) });
            pServingSystem \<leftarrow> GetTLV m 0x01;
            (ps, reg, inuse, rif) \<leftarrow> (case pServingSystem of
                None \<Rightarrow> Some (0, 0, 0, 0)
              | Some p \<Rightarrow> do {
                  reg \<leftarrow> rd8 m (p + 3);
                  if reg = 0x01 then do {
                    ps \<leftarrow> rd8 m (p + 5);
                    inuse \<leftarrow> rd8 m (p + 7);
                    rif \<leftarrow> (if inuse \<noteq> 0 then rd8 m (p + 8) else Some 0);
                    Some (ps, reg, inuse, rif) }
                  else Some (0x02, reg, 0, 0) });
            str \<leftarrow> serving_data_cap m;
            let str = (if reg = 0x01 \<and> inuse \<noteq> 0 \<and> rif = 0x09 then ''TD-SCDMA'' else str);
            let st = st\<lparr>s_is_cdma := False\<rparr>;
            if reg = 0x01 \<and> inuse \<noteq> 0 \<and> (rif = 0x01 \<or> rif = 0x02) then do {
              (err, cdma_mcc, cdma_mnc, st) \<leftarrow> requestGetHomeNetwork (st\<lparr>s_is_cdma := True\<rparr>);
              let (mcc, mnc) = (if err = 0 \<and> cdma_mcc \<noteq> 0
                then (quectel_convert_cdma_mcc_2_ascii_mcc cdma_mcc,
                      quectel_convert_cdma_mnc_2_ascii_mnc cdma_mnc) else (mcc, mnc));
              pTLV \<leftarrow> GetTLV m 0x23;
              pers \<leftarrow> (case pTLV of None \<Rightarrow> Some 0 | Some p \<Rightarrow> rd8 m (p + 3));
              Some (0, ps, (mcc, mnc, if pers = 2 then ''eHRPD'' else str), st\<lparr>s_hdr_personality := pers\<rparr>) }
            else Some (0, ps, (mcc, mnc, str), st) } })"

section \<open>Lemmas on the walk\<close>

text \<open>The TLVs that report a packet-switched service domain and those that report LTE or 5G.\<close>

definition ps_tlv :: "tlv \<Rightarrow> bool" where
  "ps_tlv tv \<longleftrightarrow> fst tv \<in> {0x15, 0x16, 0x17, 0x18, 0x19, 0x25, 0x4B}
     \<and> snd tv ! 0 = 1 \<and> snd tv ! 1 AND 2 \<noteq> 0"

definition lte_tlv :: "tlv \<Rightarrow> bool" where
  "lte_tlv tv \<longleftrightarrow> fst tv \<in> {0x14, 0x4A} \<and> snd tv ! 0 = 2 \<or> fst tv = 0x19 \<and> ps_tlv tv"

definition reg_tlv_wf :: "tlv \<Rightarrow> bool" where
  "reg_tlv_wf tv \<longleftrightarrow>
     (fst tv \<in> {0x10, 0x11, 0x12, 0x13, 0x14, 0x4A, 0x15, 0x16, 0x17, 0x18, 0x19, 0x25, 0x4B}
      \<longrightarrow> 2 \<le> length (snd tv))"

lemma network_id_keeps:
  "network_id m p nid s = Some s' \<Longrightarrow> PSAttached s' = PSAttached s \<and> is_lte s' = is_lte s"
  by (auto simp: network_id_def bind_eq_Some_conv split: if_splits)

lemma requestGetHomeNetwork_same:
  "requestGetHomeNetwork st = Some (err, a, b, st') \<Longrightarrow> same_link st st'"
  by (auto simp: requestGetHomeNetwork_def run_conv dest: qmi_call_same)

lemma rd8_tlv_value:
  assumes "i < length v"
  shows "rd8 (pre @ tlv_enc (t, v) @ post) (length pre + 3 + i) = Some (v ! i)"
proof -
  have "pre @ tlv_enc (t, v) @ post = (pre @ [t] @ le16 (of_nat (length v))) @ v @ post"
    by (simp add: tlv_enc_def)
  moreover have "rd8 (v @ post) i = Some (v ! i)" using assms by (simp add: rd8_def nth_append)
  ultimately show ?thesis
    using rd8_append [of "pre @ [t] @ le16 (of_nat (length v))" "v @ post" i] by (simp add: numeral_3_eq_3)
qed

lemma srv_domain_ps_tlv:
  assumes "2 \<le> length v"
  shows "srv_domain_ps (pre @ tlv_enc (t, v) @ post) (length pre) = Some (v ! 0 = 1 \<and> v ! 1 AND 2 \<noteq> 0)"
proof -
  have "0 < length v" "1 < length v" using assms by auto
  then show ?thesis
    using rd8_tlv_value [of 0 v pre t post] rd8_tlv_value [of 1 v pre t post]
    by (simp add: srv_domain_ps_def add.commute)
qed

lemma service_status_effect:
  "service_status ty s st = (s', st') \<Longrightarrow>
     PSAttached s' = PSAttached s
     \<and> is_lte s' = (is_lte s \<or> ty \<notin> {0x10, 0x11, 0x12, 0x13})
     \<and> ((is_lte s \<longrightarrow> \<not> s_is_cdma st) \<longrightarrow> (is_lte s' \<longrightarrow> \<not> s_is_cdma st'))"
  by (auto simp: service_status_def split: if_splits)

text \<open>What one TLV contributes to the attach state, the LTE flag and the CDMA flag.\<close>

lemma reg2_tlv_effect:
  assumes "reg2_tlv (pre @ tlv_enc tv @ post) (length pre) s st = Some (s', st')" and "reg_tlv_wf tv"
  shows "PSAttached s' = (if ps_tlv tv then 1 else PSAttached s)"
    and "is_lte s' = (is_lte s \<or> lte_tlv tv)"
    and "(is_lte s \<longrightarrow> \<not> s_is_cdma st) \<longrightarrow> (is_lte s' \<longrightarrow> \<not> s_is_cdma st')"
proof -
  obtain t v where tv: "tv = (t, v)" by (cases tv)
  let ?m = "pre @ tlv_enc (t, v) @ post" and ?p = "length pre"
  have t: "rd8 ?m ?p = Some t" by (simp add: rd8_tlv)
  have v0: "2 \<le> length v \<Longrightarrow> rd8 ?m (?p + 3) = Some (v ! 0)"
    using rd8_tlv_value [of 0 v pre t post] by (cases v) simp_all
  note run = assms(1) [unfolded tv reg2_tlv_def]
  have same: "requestGetHomeNetwork st1 = Some (e, a, b, st2) \<Longrightarrow> s_is_cdma st2 = s_is_cdma st1" for st1 e a b st2
    by (auto dest: requestGetHomeNetwork_same simp: same_link_def)
  consider (status) "t \<in> {0x10, 0x11, 0x12, 0x13, 0x14, 0x4A}"
    | (info) "t \<in> {0x15, 0x16, 0x17, 0x18, 0x19, 0x25, 0x4B}"
    | (other) "t \<notin> {0x10, 0x11, 0x12, 0x13, 0x14, 0x4A, 0x15, 0x16, 0x17, 0x18, 0x19, 0x25, 0x4B}"
    by auto
  then have "PSAttached s' = (if ps_tlv tv then 1 else PSAttached s) \<and> is_lte s' = (is_lte s \<or> lte_tlv tv)
      \<and> ((is_lte s \<longrightarrow> \<not> s_is_cdma st) \<longrightarrow> (is_lte s' \<longrightarrow> \<not> s_is_cdma st'))"
  proof cases
    case status
    then have two: "2 \<le> length v" using assms(2) by (auto simp: tv reg_tlv_wf_def)
    have run': "(if v ! 0 = 0x02 then service_status t s st else (s, st)) = (s', st')"
      using run unfolding t bind.bind_lunit if_P [OF status] v0 [OF two] by simp
    have ps: "\<not> ps_tlv tv" "lte_tlv tv \<longleftrightarrow> v ! 0 = 2 \<and> t \<notin> {0x10, 0x11, 0x12, 0x13}"
      using status by (auto simp: tv ps_tlv_def lte_tlv_def)
    show ?thesis
    proof (cases "v ! 0 = 2")
      case True
      with run' service_status_effect [of t s st s' st'] ps show ?thesis by simp
    next
      case False
      with run' ps show ?thesis by simp
    qed
  next
    case info
    then have "2 \<le> length v" using assms(2) by (auto simp: tv reg_tlv_wf_def)
    note d = srv_domain_ps_tlv [OF this, of pre t post]
    from info have "t = 0x15 \<or> t = 0x16 \<or> t = 0x17 \<or> t = 0x18 \<or> t = 0x19 \<or> t = 0x25 \<or> t = 0x4B"
      by simp
    then show ?thesis
      using run t d unfolding tv ps_tlv_def lte_tlv_def
      by (elim disjE; simp; cases "v ! 0 = 1 \<and> v ! Suc 0 AND 2 \<noteq> 0")
        (auto simp: run_conv dest!: network_id_keeps same split: if_splits)
  next
    case other
    then show ?thesis
      using run t by (simp add: tv ps_tlv_def lte_tlv_def run_conv) (auto split: if_splits)
  qed
  then show "PSAttached s' = (if ps_tlv tv then 1 else PSAttached s)"
    and "is_lte s' = (is_lte s \<or> lte_tlv tv)"
    and "(is_lte s \<longrightarrow> \<not> s_is_cdma st) \<longrightarrow> (is_lte s' \<longrightarrow> \<not> s_is_cdma st')" by auto
qed

lemma reg2_loop_effect:
  assumes "length (tlvs_enc ts) < 65536" and "\<forall>tv \<in> set ts. reg_tlv_wf tv"
    and "reg2_loop (pre @ tlvs_enc ts @ post) (int (length (tlvs_enc ts))) (length pre) s st = Some (s', st')"
    and "is_lte s \<longrightarrow> \<not> s_is_cdma st"
  shows "PSAttached s' = (if \<exists>tv \<in> set ts. ps_tlv tv then 1 else PSAttached s)
       \<and> is_lte s' = (is_lte s \<or> (\<exists>tv \<in> set ts. lte_tlv tv))
       \<and> (is_lte s' \<longrightarrow> \<not> s_is_cdma st')"
  using assms
proof (induction ts arbitrary: pre s st)
  case Nil
  then show ?case by (simp add: reg2_loop.simps)
next
  case (Cons tv ts)
  let ?m = "pre @ tlvs_enc (tv # ts) @ post"
  have m: "?m = pre @ tlv_enc tv @ tlvs_enc ts @ post" by simp
  have len: "rd16 ?m (length pre + 1) = Some (of_nat (length (snd tv)))"
    using rd16_tlv [of pre tv "tlvs_enc ts @ post"] by simp
  have small: "length (snd tv) < 65536" using Cons.prems(1) by simp
  obtain s1 st1 where one: "reg2_tlv ?m (length pre) s st = Some (s1, st1)"
    and rest: "reg2_loop ?m (int (length (tlvs_enc (tv # ts))) - (int (length (snd tv)) + 3))
                 (length pre + 3 + length (snd tv)) s1 st1 = Some (s', st')"
  proof -
    have R: "0 < int (length (tlvs_enc (tv # ts)))" by simp
    note run = Cons.prems(3) [unfolded reg2_loop.simps [of ?m _ "length pre"] if_P [OF R]]
    obtain s1 st1 where "reg2_tlv ?m (length pre) s st = Some (s1, st1)"
        "reg2_loop ?m (int (length (tlvs_enc (tv # ts))) - (uint (of_nat (length (snd tv)) :: u16) + 3))
           (length pre + 3 + unat (of_nat (length (snd tv)) :: u16)) s1 st1 = Some (s', st')"
      using run unfolding len run_conv by force
    with small that show ?thesis by (simp add: unat_of_nat16 uint_nat)
  qed
  have wf: "reg_tlv_wf tv" using Cons.prems(2) by simp
  note eff = reg2_tlv_effect [OF one [unfolded m] wf]
  have "reg2_loop ((pre @ tlv_enc tv) @ tlvs_enc ts @ post) (int (length (tlvs_enc ts)))
      (length (pre @ tlv_enc tv)) s1 st1 = Some (s', st')"
    using rest by (simp add: ac_simps)
  moreover have "length (tlvs_enc ts) < 65536" "\<forall>tv \<in> set ts. reg_tlv_wf tv"
    using Cons.prems(1,2) by simp_all
  moreover have "is_lte s1 \<longrightarrow> \<not> s_is_cdma st1" using eff(3) Cons.prems(4) by blast
  ultimately have "PSAttached s' = (if \<exists>tv \<in> set ts. ps_tlv tv then 1 else PSAttached s1)
       \<and> is_lte s' = (is_lte s1 \<or> (\<exists>tv \<in> set ts. lte_tlv tv)) \<and> (is_lte s' \<longrightarrow> \<not> s_is_cdma st')"
    by (intro Cons.IH)
  then show ?case using eff(1,2) by simp
qed

text \<open>Peeling the last digit off an encoded number, a zero digit being sent as ten.\<close>

lemma cdma_digit:
  assumes "d < (10 :: nat)"
  shows "(k * 10 + (if d = 0 then 10 else d)) mod 10 = d"
    and "(if d = 0 then (k * 10 + (if d = 0 then 10 else d) - 10) div 10
          else (k * 10 + (if d = 0 then 10 else d)) div 10) = k"
  using assms by auto

section \<open>Properties\<close>

text \<open>
  C9: On a well-formed system-info response the modem is reported as attached exactly when one of
  the system-info TLVs carries the packet-switched domain bit, and it is never treated as CDMA once
  a TLV reports LTE or 5G service, whatever the order of the TLVs.
\<close>

theorem registration_attach_state:
  assumes "qmi_call QMUX_TYPE_NAS 0x004D None st = Some (Inr m, st1)" and "qmux_message m ts"
    and "\<forall>tv \<in> set ts. reg_tlv_wf tv"
    and "requestRegistrationState2 st = Some (err, attached, log, st')"
  shows "err = 0 \<and> attached = (if \<exists>tv \<in> set ts. ps_tlv tv then 1 else 0)
       \<and> ((\<exists>tv \<in> set ts. lte_tlv tv) \<longrightarrow> \<not> s_is_cdma st')"
proof -
  obtain hdr post where h: "length hdr = 13" "m = hdr @ tlvs_enc ts @ post"
      "rd16 m 11 = Some (of_nat (length (tlvs_enc ts)))" "length (tlvs_enc ts) < 65536"
    by (rule qmux_messageE [OF assms(2)])
  let ?st = "st1\<lparr>s_is_cdma := False, s_5g_type := 0, s_hdr_personality := 0\<rparr>"
  have u: "uint (of_nat (length (tlvs_enc ts)) :: u16) = int (length (tlvs_enc ts))"
    using h(4) by (simp add: uint_nat unat_of_nat16)
  from assms(4) obtain s st2 where
    loop: "reg2_loop m (int (length (tlvs_enc ts))) 13 reg2_start ?st = Some (s, st2)"
    and r: "err = 0" "attached = PSAttached s" "st' = snd (reg2_class s st2)"
    unfolding requestRegistrationState2_def assms(1)
    by (auto simp: h(3) u bind_eq_Some_conv Let_def split_beta)
  from reg2_loop_effect [OF h(4) assms(3), of hdr post reg2_start ?st s st2] loop h(1,2)
  have "PSAttached s = (if \<exists>tv \<in> set ts. ps_tlv tv then 1 else 0)"
    "is_lte s = (\<exists>tv \<in> set ts. lte_tlv tv)" "is_lte s \<longrightarrow> \<not> s_is_cdma st2"
    by (simp_all add: reg2_start_def)
  moreover have "s_is_cdma (snd (reg2_class s st2)) = s_is_cdma st2"
    by (simp add: reg2_class_def Let_def)
  ultimately show ?thesis using r by auto
qed

theorem registration_attach_state_witness:
  "\<exists>log st'. requestRegistrationState2
      (qmi_init [Woken (Some (rsp_frame QMUX_TYPE_NAS 1 0x004D 0 0
         [(0x14, [2, 2, 1]), (0x10, [2, 2, 0]), (0x19, [1, 3] @ replicate 24 0)]))])
     = Some (0, 1, log, st') \<and> \<not> s_is_cdma st'"
proof -
  let ?ts = "[(0x14, [2, 2, 1]), (0x10, [2, 2, 0]), (0x19, [1, 3] @ replicate 24 0)] :: tlv list"
  let ?m = "rsp_frame QMUX_TYPE_NAS 1 0x004D 0 0 ?ts"
  have msg: "qmux_message ?m ((0x02, le16 0 @ le16 0) # ?ts)"
    by (intro rsp_frame_message) simp
  have wf: "\<forall>tv \<in> set ((0x02, le16 0 @ le16 0) # ?ts). reg_tlv_wf tv"
    by (simp add: reg_tlv_wf_def)
  have "requestRegistrationState2 (qmi_init [Woken (Some ?m)]) \<noteq> None"
    by code_simp
  then obtain err att log st' where r: "requestRegistrationState2 (qmi_init [Woken (Some ?m)]) = Some (err, att, log, st')"
    by auto
  have e: "\<exists>tv \<in> set ((0x02, le16 0 @ le16 0) # ?ts). ps_tlv tv" "\<exists>tv \<in> set ((0x02, le16 0 @ le16 0) # ?ts). lte_tlv tv"
    by (simp_all add: ps_tlv_def lte_tlv_def)
  have "err = 0 \<and> att = 1 \<and> \<not> s_is_cdma st'"
    using registration_attach_state [OF qmi_call_init msg wf r] unfolding if_P [OF e(1)] using e(2) by blast
  with r show ?thesis by blast
qed

text \<open>
  The CDMA country-code conversion inverts the CDMA encoding (a zero digit is sent as ten and
  111 is subtracted), for every three-digit code; likewise the network-code conversion for every
  two-digit code.
\<close>

theorem cdma_code_roundtrip:
  assumes "d1 < 10" "d2 < 10" "d3 < (10 :: nat)"
  shows "quectel_convert_cdma_mcc_2_ascii_mcc
           (of_nat ((if d1 = 0 then 10 else d1) * 100 + (if d2 = 0 then 10 else d2) * 10
                    + (if d3 = 0 then 10 else d3) - 111)) = of_nat (d1 * 100 + d2 * 10 + d3)
       \<and> quectel_convert_cdma_mnc_2_ascii_mnc
           (of_nat ((if d1 = 0 then 10 else d1) * 10 + (if d2 = 0 then 10 else d2) - 11))
         = of_nat (d1 * 10 + d2)"
proof -
  let ?e = "\<lambda>d :: nat. if d = 0 then 10 else d"
  have le: "?e d1 * 100 + ?e d2 * 10 + ?e d3 \<le> 1110" "111 \<le> ?e d1 * 100 + ?e d2 * 10 + ?e d3"
    "?e d1 * 10 + ?e d2 \<le> 110" "11 \<le> ?e d1 * 10 + ?e d2"
    using assms by auto
  define c3 :: u16 where "c3 = of_nat (?e d1 * 100 + ?e d2 * 10 + ?e d3 - 111)"
  define c2 :: u16 where "c2 = of_nat (?e d1 * 10 + ?e d2 - 11)"
  have u3: "unat c3 = ?e d1 * 100 + ?e d2 * 10 + ?e d3 - 111"
    unfolding c3_def by (rule unat_of_nat16) (use le in simp)
  have u2: "unat c2 = ?e d1 * 10 + ?e d2 - 11"
    unfolding c2_def by (rule unat_of_nat16) (use le in simp)
  have "unat c3 \<noteq> 1023" "unat c2 \<noteq> 127" using u3 u2 le by linarith+
  then have ne: "c3 \<noteq> 0x3FF" "c2 \<noteq> 0x7F" by auto
  have n3: "unat c3 + 111 = (?e d1 * 10 + ?e d2) * 10 + ?e d3"
    using u3 le(2) by (simp only: distrib_right mult.assoc; simp)
  have n2: "unat c2 + 11 = ?e d1 * 10 + ?e d2" using u2 le by linarith
  have "quectel_convert_cdma_mcc_2_ascii_mcc c3 = of_nat (d1 * 100 + d2 * 10 + d3)"
    using ne(1) assms
    unfolding quectel_convert_cdma_mcc_2_ascii_mcc_def Let_def n3 cdma_digit [OF assms(3)]
      cdma_digit [OF assms(2)] by simp
  moreover have "quectel_convert_cdma_mnc_2_ascii_mnc c2 = of_nat (d1 * 10 + d2)"
    using ne(2) assms
    unfolding quectel_convert_cdma_mnc_2_ascii_mnc_def Let_def n2 cdma_digit [OF assms(2)] by simp
  ultimately show ?thesis unfolding c3_def c2_def by blast
qed

theorem cdma_code_roundtrip_witness:
  "quectel_convert_cdma_mcc_2_ascii_mcc (of_nat (4 * 100 + 6 * 10 + 10 - 111)) = of_nat 460"
  using cdma_code_roundtrip [of 4 6 0] by simp

end
