(* ===== verification/QmiData.thy ===== *)
theory QmiData
  imports QmiCall
begin

text \<open>
  The data-call requests of \<^verbatim>\<open>QMIThread.c\<close>: data format and port binding (\<open>requestSetEthMode\<close>),
  starting, querying and stopping a call, reading the addresses, the connection profiles and the
  radio power.
\<close>

section \<open>Data format and port binding\<close>

definition HARDWARE_PCIE :: int where "HARDWARE_PCIE = 0"
definition HARDWARE_USB :: int where "HARDWARE_USB = 1"
definition HARDWARE_IPA :: int where "HARDWARE_IPA = 2"

definition zero_qmap :: qmap_setting where
  "zero_qmap = \<lparr>rx_urb_size = 0, ep_type = 0, iface_id = 0, MuxId = 0,
     ul_data_aggregation_max_datagrams = 0, ul_data_aggregation_max_size = 0,
     dl_minimum_padding = 0\<rparr>"

text \<open>
  The settings block of the function: the settings, whether \<^verbatim>\<open>goto skip_WdaSetDataFormat\<close> is taken,
  the profile and the module state.
\<close>

definition eth_settings :: "profile \<Rightarrow> qmi \<Rightarrow> qmap_setting \<times> bool \<times> profile \<times> qmi" where
  "eth_settings profile st =
     (if qmap_mode profile = 0 then (zero_qmap, False, profile, st)
      else
        let profile = profile\<lparr>rawIP := 1\<rparr>;
            st = st\<lparr>s_9x07 := True\<rparr>;
            q = zero_qmap\<lparr>MuxId := word_of_int (muxid profile),
                  rx_urb_size := word_of_int (qmap_size profile)\<rparr>
        in if hardware_interface profile = HARDWARE_IPA
           then (q\<lparr>ep_type := 0x4, iface_id := 1\<rparr>, True, profile, st)
           else
             let q = (if hardware_interface profile = HARDWARE_PCIE
                      then q\<lparr>ep_type := 0x3, iface_id := 0x04\<rparr>
                      else q\<lparr>ep_type := 0x2,
                             iface_id := (if idProduct profile = 0x0316 then 0x03 else 0x04)\<rparr>);
                 q = q\<lparr>ul_data_aggregation_max_datagrams := 11,
                       ul_data_aggregation_max_size := 8 * 1024, dl_minimum_padding := 0\<rparr>;
                 profile = (if p_qmap_version profile \<noteq> 0x09
                            then profile\<lparr>p_qmap_version := 0x05\<rparr> else profile);
                 st = st\<lparr>qmap_version := word_of_int (p_qmap_version profile)\<rparr>;
                 (q, st) = (if rmnet_size profile \<noteq> 0
                   then (q\<lparr>rx_urb_size := rmnet_rx_urb_size profile, ep_type := rmnet_ep_type profile,
                           iface_id := rmnet_iface_id profile,
                           dl_minimum_padding := rmnet_dl_minimum_padding profile\<rparr>,
                         st\<lparr>qmap_version := rmnet_qmap_version profile\<rparr>)
                   else (q, st))
             in (q, wda_client profile = 0, profile, st))"

definition eth_tlv32 :: "bytes \<Rightarrow> int \<Rightarrow> u32 option option" where
  "eth_tlv32 m ty = do {
     p \<leftarrow> GetTLV m ty;
     case p of None \<Rightarrow> Some None | Some p \<Rightarrow> map_option Some (rd32 m (p + 3)) }"

text \<open>The reading of the data-format response.\<close>

definition eth_format_response ::
  "bytes \<Rightarrow> qmap_setting \<Rightarrow> profile \<Rightarrow> qmi \<Rightarrow> (qmap_setting \<times> profile \<times> qmi) option" where
  "eth_format_response m q profile st = do {
     lp \<leftarrow> eth_tlv32 m 0x11;
     let (profile, st) = (case lp of
         None \<Rightarrow> (profile, st)
       | Some v \<Rightarrow> (profile\<lparr>rawIP := (if v = 2 then 1 else 0)\<rparr>, st\<lparr>s_9x07 := (v = 2)\<rparr>));
     lp \<leftarrow> eth_tlv32 m 0x16;
     let q = (case lp of
         Some v \<Rightarrow> if qmap_mode profile \<noteq> 0 then q\<lparr>rx_urb_size := v\<rparr> else q
       | None \<Rightarrow> q);
     if ul_data_aggregation_max_datagrams q \<noteq> 0 then do {
       a \<leftarrow> eth_tlv32 m 0x17;
       let q = (case a of None \<Rightarrow> q
          | Some v \<Rightarrow> q\<lparr>ul_data_aggregation_max_datagrams := min (ul_data_aggregation_max_datagrams q) v\<rparr>);
       b \<leftarrow> eth_tlv32 m 0x18;
       let q = (case b of None \<Rightarrow> q
          | Some v \<Rightarrow> q\<lparr>ul_data_aggregation_max_size := min (ul_data_aggregation_max_size q) v\<rparr>);
       c \<leftarrow> eth_tlv32 m 0x1A;
       let q = (case c of None \<Rightarrow> q | Some v \<Rightarrow> q\<lparr>dl_minimum_padding := v\<rparr>);
       Some (q, profile,
             if 1 < ul_data_aggregation_max_datagrams q
             then st\<lparr>driver_settings := driver_settings st @ [q]\<rparr> else st) }
     else Some (q, profile, st) }"

text \<open>A request whose outcome the caller does not look at.\<close>

definition qmi_call_ignored :: "u8 \<Rightarrow> u16 \<Rightarrow> builder option \<Rightarrow> qmi \<Rightarrow> qmi option" where
  "qmi_call_ignored QMIType Type fn st = do {
     (pRequest, st) \<leftarrow> qmi_compose QMIType Type fn st;
     Some (snd (QmiThreadSendQMI pRequest st)) }"

text \<open>
  Port binding and IP preference.  For IPv4 the outcome of the preference request is ignored, for
  IPv6 it is checked.
\<close>

definition eth_bind_ipv4 :: "qmap_setting \<Rightarrow> profile \<Rightarrow> qmi \<Rightarrow> (int option \<times> qmi) option" where
  "eth_bind_ipv4 q profile st =
     (if enable_ipv4 profile = 0 then Some (None, st)
      else do {
        (r, st) \<leftarrow> (if qmapnet_adapter profile \<noteq> []
                   then do { (r, st) \<leftarrow> qmi_call QMUX_TYPE_WDS 0x00A2 (Some (WdsSetQMUXBindMuxDataPort q)) st;
                             Some (case r of Inl err \<Rightarrow> Some err | Inr _ \<Rightarrow> None, st) }
                   else Some (None, st));
        case r of
          Some err \<Rightarrow> Some (Some err, st)
        | None \<Rightarrow> do {
            st \<leftarrow> qmi_call_ignored QMUX_TYPE_WDS 0x004D (Some (WdsSetClientIPFamilyPref 0x04)) st;
            Some (None, st) } })"

definition eth_bind_ipv6 :: "qmap_setting \<Rightarrow> profile \<Rightarrow> qmi \<Rightarrow> (int option \<times> qmi) option" where
  "eth_bind_ipv6 q profile st =
     (if enable_ipv6 profile = 0 then Some (None, st)
      else do {
        (r, st) \<leftarrow> (if qmapnet_adapter profile \<noteq> []
                   then do { (r, st) \<leftarrow> qmi_call QMUX_TYPE_WDS_IPV6 0x00A2 (Some (WdsSetQMUXBindMuxDataPort q)) st;
                             Some (case r of Inl err \<Rightarrow> Some err | Inr _ \<Rightarrow> None, st) }
                   else Some (None, st));
        case r of
          Some err \<Rightarrow> Some (Some err, st)
        | None \<Rightarrow> do {
            (r, st) \<leftarrow> qmi_call QMUX_TYPE_WDS_IPV6 0x004D (Some (WdsSetClientIPFamilyPref 0x06)) st;
            Some (case r of Inl err \<Rightarrow> Some err | Inr _ \<Rightarrow> None, st) } })"

definition requestSetEthMode :: "profile \<Rightarrow> qmi \<Rightarrow> (int \<times> profile \<times> qmi) option" where
  "requestSetEthMode profile st = do {
     let (q, skip, profile, st) = eth_settings profile st;
     (r, q, profile, st) \<leftarrow>
       (if skip then Some (None, q, profile, st)
        else do {
          (r, st) \<leftarrow> qmi_call QMUX_TYPE_WDS_ADMIN 0x0020 (Some (WdaSetDataFormat (qmap_version st) q)) st;
          case r of
            Inl err \<Rightarrow> Some (Some err, q, profile, st)
          | Inr m \<Rightarrow> do {
              (q, profile, st) \<leftarrow> eth_format_response m q profile st;
              Some (None, q, profile, st) } });
     case r of
       Some err \<Rightarrow> Some (err, profile, st)
     | None \<Rightarrow> do {
         (r, st) \<leftarrow> eth_bind_ipv4 q profile st;
         case r of
           Some err \<Rightarrow> Some (err, profile, st)
         | None \<Rightarrow> do {
             (r, st) \<leftarrow> eth_bind_ipv6 q profile st;
             case r of
               Some err \<Rightarrow> Some (err, profile, st)
             | None \<Rightarrow> do {
                 st \<leftarrow> qmi_call_ignored QMUX_TYPE_WDS 0x0051 (Some (WdsSetAutoConnect 0)) st;
                 Some (0, profile, st) } } } }"

section \<open>Data calls\<close>

definition QWDS_PKT_DATA_UNKNOW :: u8 where "QWDS_PKT_DATA_UNKNOW = 0x00"
definition QWDS_PKT_DATA_DISCONNECTED :: u8 where "QWDS_PKT_DATA_DISCONNECTED = 0x01"
definition QWDS_PKT_DATA_CONNECTED :: u8 where "QWDS_PKT_DATA_CONNECTED = 0x02"

definition set_handle :: "int \<Rightarrow> u32 \<Rightarrow> qmi \<Rightarrow> qmi" where
  "set_handle family h st =
     (if family = IpFamilyV4 then st\<lparr>WdsConnectionIPv4Handle := h\<rparr>
      else st\<lparr>WdsConnectionIPv6Handle := h\<rparr>)"

definition get_handle :: "int \<Rightarrow> qmi \<Rightarrow> u32" where
  "get_handle family st =
     (if family = IpFamilyV4 then WdsConnectionIPv4Handle st else WdsConnectionIPv6Handle st)"

definition requestQueryDataCall :: "u8 \<Rightarrow> int \<Rightarrow> qmi \<Rightarrow> (int \<times> u8 \<times> qmi) option" where
  "requestQueryDataCall ConnectionStatus family st = do {
     (r, st) \<leftarrow> qmi_call (service_of family) 0x0022 None st;
     case r of
       Inl err \<Rightarrow> Some (err, ConnectionStatus, st)
     | Inr m \<Rightarrow> do {
         pPktSrvc \<leftarrow> GetTLV m 0x01;
         status \<leftarrow> (case pPktSrvc of
             None \<Rightarrow> Some QWDS_PKT_DATA_DISCONNECTED
           | Some p \<Rightarrow> do {
               status \<leftarrow> rd8 m (p + 3);
               len \<leftarrow> rd16 m (p + 1);
               if len = 2 then do {
                 ReconfigReqd \<leftarrow> rd8 m (p + 4);
                 Some (if ReconfigReqd = 0x01 then QWDS_PKT_DATA_DISCONNECTED else status) }
               else Some status });
         Some (0, status, if status = QWDS_PKT_DATA_DISCONNECTED then set_handle family 0 st else st) } }"

text \<open>The call-end reasons that make the caller recover by detaching.\<close>

definition pdn_conflict_reason :: "u16 \<Rightarrow> u16 \<Rightarrow> bool" where
  "pdn_conflict_reason ty reason \<longleftrightarrow>
     ty = 6 \<and> reason = 55 \<or> ty = 2 \<and> (reason = 209 \<or> reason = 211)"

definition requestSetupDataCall :: "profile \<Rightarrow> int \<Rightarrow> qmi \<Rightarrow> (int \<times> profile \<times> qmi) option" where
  "requestSetupDataCall profile family st = do {
     let profile = profile\<lparr>curIpFamily := family\<rparr>;
     let st = st\<lparr>g_pdn_conflict := 0\<rparr>;
     (pRequest, st) \<leftarrow> qmi_compose (service_of family) 0x0020
         (Some (WdsStartNwInterfaceReq (s_is_cdma st) (s_hdr_personality st) profile)) st;
     let ((err, pResponse), st) = QmiThreadSendQMI pRequest st;
     case pResponse of
       None \<Rightarrow> Some (err, profile, st)
     | Some m \<Rightarrow>
         if err < 0 then Some (err, profile, st)
         else do {
           result \<leftarrow> QMUXResult m;
           error \<leftarrow> QMUXError m;
           if result \<noteq> 0 \<or> error \<noteq> 0 then do {
             pTLVHdr \<leftarrow> GetTLV m 0x10;
             _ \<leftarrow> (case pTLVHdr of None \<Rightarrow> Some 0 | Some p \<Rightarrow> rd16 m (p + 3));
             pTLVHdr \<leftarrow> GetTLV m 0x11;
             st \<leftarrow> (case pTLVHdr of
                 None \<Rightarrow> Some st
               | Some p \<Rightarrow> do {
                   ty \<leftarrow> rd16 m (p + 3);
                   reason \<leftarrow> rd16 m (p + 5);
                   Some (if pdn_conflict_reason ty reason then st\<lparr>g_pdn_conflict := reason\<rparr> else st) });
             Some (uint error, profile, st) }
           else do {
             Handle \<leftarrow> rd32 m 23;
             Some (0, profile, set_handle family Handle st) } } }"

definition requestDeactivateDefaultPDP :: "int \<Rightarrow> qmi \<Rightarrow> (int \<times> qmi) option" where
  "requestDeactivateDefaultPDP family st =
     (if family = IpFamilyV4 \<and> WdsConnectionIPv4Handle st = 0 then Some (0, st)
      else if family = IpFamilyV6 \<and> WdsConnectionIPv6Handle st = 0 then Some (0, st)
      else do {
        (r, st) \<leftarrow> qmi_call (service_of family) 0x0021
            (Some (WdsStopNwInterfaceReq (WdsConnectionIPv4Handle st) (WdsConnectionIPv6Handle st) family)) st;
        case r of
          Inl err \<Rightarrow> Some (err, st)
        | Inr m \<Rightarrow> Some (0, set_handle family 0 st) })"

section \<open>Addresses\<close>

text \<open>Fields of the runtime settings: 4 or 16 bytes behind the TLV header.\<close>

definition tlv_u32 :: "bytes \<Rightarrow> int \<Rightarrow> u32 \<Rightarrow> u32 option" where
  "tlv_u32 m ty old = do {
     p \<leftarrow> GetTLV m ty;
     case p of None \<Rightarrow> Some old | Some p \<Rightarrow> rd32 m (p + 3) }"

definition tlv_addr16 :: "bytes \<Rightarrow> int \<Rightarrow> bytes \<Rightarrow> bytes option" where
  "tlv_addr16 m ty old = do {
     p \<leftarrow> GetTLV m ty;
     case p of None \<Rightarrow> Some old | Some p \<Rightarrow> rdn m (p + 3) 16 }"

definition tlv_prefix :: "bytes \<Rightarrow> int \<Rightarrow> u8 \<Rightarrow> u8 option" where
  "tlv_prefix m ty old = do {
     p \<leftarrow> GetTLV m ty;
     case p of None \<Rightarrow> Some old | Some p \<Rightarrow> rd8 m (p + 19) }"

definition ip_pcscf :: "bytes \<Rightarrow> profile \<Rightarrow> profile option" where
  "ip_pcscf m profile = do {
     p6 \<leftarrow> GetTLV m 0x2e;
     profile \<leftarrow> (case p6 of
         None \<Rightarrow> Some profile
       | Some p \<Rightarrow> do {
           n \<leftarrow> rd8 m (p + 3);
           if n = 1 then do { a \<leftarrow> rdn m (p + 4) 16; Some (profile\<lparr>PCSCFIpv6Addr1 := a\<rparr>) }
           else if n = 2 then do {
             a \<leftarrow> rdn m (p + 4) 16;
             b \<leftarrow> rdn m (p + 20) 16;
             Some (profile\<lparr>PCSCFIpv6Addr1 := a, PCSCFIpv6Addr2 := b\<rparr>) }
           else Some profile });
     p4 \<leftarrow> GetTLV m 0x23;
     case p4 of
       None \<Rightarrow> Some profile
     | Some p \<Rightarrow> do {
         n \<leftarrow> rd8 m (p + 3);
         if n = 1 then do { a \<leftarrow> rd32 m (p + 4); Some (profile\<lparr>PCSCFIpv4Addr1 := a\<rparr>) }
         else if n = 2 then do {
           a \<leftarrow> rd32 m (p + 4);
           b \<leftarrow> rd32 m (p + 8);
           Some (profile\<lparr>PCSCFIpv4Addr1 := a, PCSCFIpv4Addr2 := b\<rparr>) }
         else Some profile } }"

definition ip_read4 :: "bytes \<Rightarrow> ipv4_t \<Rightarrow> ipv4_t option" where
  "ip_read4 m v4 = do {
     dns1 \<leftarrow> tlv_u32 m 0x15 (v4_DnsPrimary v4);
     dns2 \<leftarrow> tlv_u32 m 0x16 (v4_DnsSecondary v4);
     gw \<leftarrow> tlv_u32 m 0x20 (v4_Gateway v4);
     mask \<leftarrow> tlv_u32 m 0x21 (v4_SubnetMask v4);
     addr \<leftarrow> tlv_u32 m 0x1E (v4_Address v4);
     Some (v4\<lparr>v4_DnsPrimary := dns1, v4_DnsSecondary := dns2, v4_Gateway := gw,
               v4_SubnetMask := mask, v4_Address := addr\<rparr>) }"

definition ip_read6 :: "bytes \<Rightarrow> ipv6_t \<Rightarrow> ipv6_t option" where
  "ip_read6 m v6 = do {
     dns1 \<leftarrow> tlv_addr16 m 0x27 (v6_DnsPrimary v6);
     dns2 \<leftarrow> tlv_addr16 m 0x28 (v6_DnsSecondary v6);
     gw \<leftarrow> tlv_addr16 m 0x26 (v6_Gateway v6);
     gwp \<leftarrow> tlv_prefix m 0x26 (v6_PrefixLengthGateway v6);
     addr \<leftarrow> tlv_addr16 m 0x25 (v6_Address v6);
     addrp \<leftarrow> tlv_prefix m 0x25 (v6_PrefixLengthIPAddr v6);
     Some (v6\<lparr>v6_DnsPrimary := dns1, v6_DnsSecondary := dns2, v6_Gateway := gw,
               v6_PrefixLengthGateway := gwp, v6_Address := addr, v6_PrefixLengthIPAddr := addrp\<rparr>) }"

definition requestGetIPAddress :: "profile \<Rightarrow> int \<Rightarrow> qmi \<Rightarrow> (int \<times> profile \<times> qmi) option" where
  "requestGetIPAddress profile family st =
     (let profile = (if family = IpFamilyV4 then profile\<lparr>ipv4 := zero_ipv4\<rparr>
                     else if family = IpFamilyV6 then profile\<lparr>ipv6 := zero_ipv6\<rparr> else profile) in
      if family = IpFamilyV4 \<and> WdsConnectionIPv4Handle st = 0 then Some (0, profile, st)
      else if family = IpFamilyV6 \<and> WdsConnectionIPv6Handle st = 0 then Some (0, profile, st)
      else do {
        (r, st) \<leftarrow> qmi_call (service_of family) 0x002D (Some WdsGetRuntimeSettingReq) st;
        case r of
          Inl err \<Rightarrow> Some (err, profile, st)
        | Inr m \<Rightarrow> do {
            profile \<leftarrow> ip_pcscf m profile;
            v4 \<leftarrow> ip_read4 m (ipv4 profile);
            v6 \<leftarrow> ip_read6 m (ipv6 profile);
            mtu \<leftarrow> eth_tlv32 m 0x29;
            let (v4, v6) = (case mtu of None \<Rightarrow> (v4, v6)
               | Some x \<Rightarrow> if family = IpFamilyV4 then (v4\<lparr>v4_Mtu := x\<rparr>, v6) else (v4, v6\<lparr>v6_Mtu := x\<rparr>));
            Some (0, profile\<lparr>ipv4 := v4, ipv6 := v6\<rparr>, st) } })"

section \<open>Lemmas\<close>

text \<open>Fields of a TLV value through \<open>GetTLV\<close>.\<close>

lemma tlv_u32_message:
  assumes "qmux_message m ts" and "\<forall>v. map_of ts ty = Some v \<longrightarrow> length v = 4"
  shows "tlv_u32 m (uint ty) old = Some (case map_of ts ty of None \<Rightarrow> old
           | Some v \<Rightarrow> le32_to_cpu (v ! 0) (v ! 1) (v ! 2) (v ! 3))"
proof (cases "map_of ts ty")
  case None
  with GetTLV_absent [OF assms(1)] show ?thesis by (simp add: tlv_u32_def)
next
  case (Some v)
  obtain p where "GetTLV m (uint ty) = Some (Some p)" "rdn m (p + 3) (length v) = Some v"
    by (rule GetTLV_present [OF assms(1) Some])
  moreover have "length v = 4" using Some assms(2) by simp
  ultimately show ?thesis
    using Some rd32_part [of m "p + 3" "length v" v] by (simp add: tlv_u32_def)
qed

lemma eth_tlv32_message:
  assumes "qmux_message m ts" and "\<forall>v. map_of ts ty = Some v \<longrightarrow> length v = 4"
  shows "eth_tlv32 m (uint ty) = Some (case map_of ts ty of None \<Rightarrow> None
           | Some v \<Rightarrow> Some (le32_to_cpu (v ! 0) (v ! 1) (v ! 2) (v ! 3)))"
proof (cases "map_of ts ty")
  case None
  with GetTLV_absent [OF assms(1)] show ?thesis by (simp add: eth_tlv32_def)
next
  case (Some v)
  obtain p where "GetTLV m (uint ty) = Some (Some p)" "rdn m (p + 3) (length v) = Some v"
    by (rule GetTLV_present [OF assms(1) Some])
  moreover have "length v = 4" using Some assms(2) by simp
  ultimately show ?thesis
    using Some rd32_part [of m "p + 3" "length v" v] by (simp add: eth_tlv32_def)
qed

lemma tlv_addr16_message:
  assumes "qmux_message m ts" and "\<forall>v. map_of ts ty = Some v \<longrightarrow> 16 \<le> length v"
  shows "tlv_addr16 m (uint ty) old = Some (case map_of ts ty of None \<Rightarrow> old | Some v \<Rightarrow> take 16 v)"
proof (cases "map_of ts ty")
  case None
  with GetTLV_absent [OF assms(1)] show ?thesis by (simp add: tlv_addr16_def)
next
  case (Some v)
  obtain p where "GetTLV m (uint ty) = Some (Some p)" "rdn m (p + 3) (length v) = Some v"
    by (rule GetTLV_present [OF assms(1) Some])
  moreover have "16 \<le> length v" using Some assms(2) by simp
  ultimately show ?thesis
    using Some rdn_part [of m "p + 3" "length v" v 0 16] by (simp add: tlv_addr16_def)
qed

lemma tlv_prefix_message:
  assumes "qmux_message m ts" and "\<forall>v. map_of ts ty = Some v \<longrightarrow> 17 \<le> length v"
  shows "tlv_prefix m (uint ty) old = Some (case map_of ts ty of None \<Rightarrow> old | Some v \<Rightarrow> v ! 16)"
proof (cases "map_of ts ty")
  case None
  with GetTLV_absent [OF assms(1)] show ?thesis by (simp add: tlv_prefix_def)
next
  case (Some v)
  obtain p where "GetTLV m (uint ty) = Some (Some p)" "rdn m (p + 3) (length v) = Some v"
    by (rule GetTLV_present [OF assms(1) Some])
  moreover have "17 \<le> length v" using Some assms(2) by simp
  ultimately show ?thesis
    using Some rd8_part [of m "p + 3" "length v" v 16] by (simp add: tlv_prefix_def add.commute)
qed

text \<open>The two families' handles do not interfere.\<close>

lemma get_set_handle [simp]:
  "get_handle f (set_handle f h st) = h"
  "f = IpFamilyV4 \<longleftrightarrow> g \<noteq> IpFamilyV4 \<Longrightarrow> get_handle g (set_handle f h st) = get_handle g st"
  by (auto simp: get_handle_def set_handle_def)

lemma get_handle_same: "same_link st st' \<Longrightarrow> get_handle f st' = get_handle f st"
  by (simp add: same_link_def get_handle_def)

text \<open>A request built by a builder that meets its contract, on a modem that accepts it.\<close>

lemma qmi_call_builder:
  assumes "qmux_builder b ts" and "mallocs st = []" and "replies st = Woken (Some m) # rs"
    and "QMUXResult m = Some 0" and "QMUXError m = Some 0"
  shows "qmi_call Q ty (Some b) st = Some (Inr m,
           st\<lparr>TransactionId := snd (GetQMUXTransactionId (TransactionId st)), replies := rs,
              sent := sent st @ [qmi_frame Q (fst (GetQMUXTransactionId (TransactionId st))) ty ts]\<rparr>)"
  using qmux_builder.compose [OF assms(1), of True "TransactionId st" Q ty] assms
  by (intro qmi_call_reply) simp_all

section \<open>Properties\<close>

text \<open>
  C12: Stopping a connected family sends one stop request on that family's service that carries
  exactly the handle of its call, and when the modem accepts it the handle is cleared, the other
  family's handle staying as it was; without a handle nothing is sent.
\<close>

theorem deactivate_sends_handle:
  assumes "f = IpFamilyV4 \<or> f = IpFamilyV6" and "mallocs st = []"
    and "replies st = Woken (Some m) # rs" and "QMUXResult m = Some 0" and "QMUXError m = Some 0"
  shows "\<exists>st'. requestDeactivateDefaultPDP f st = Some (0, st')
     \<and> (if get_handle f st = 0 then st' = st
        else sent st' = sent st @ [qmi_frame (service_of f)
                 (fst (GetQMUXTransactionId (TransactionId st))) 0x0021 [(0x01, le32 (get_handle f st))]]
             \<and> get_handle f st' = 0
             \<and> (\<forall>g. (g = IpFamilyV4) \<noteq> (f = IpFamilyV4) \<longrightarrow> get_handle g st' = get_handle g st))"
proof (cases "get_handle f st = 0")
  case True
  with assms(1) show ?thesis
    by (auto simp: requestDeactivateDefaultPDP_def get_handle_def IpFamilyV4_def IpFamilyV6_def)
next
  case False
  let ?b = "WdsStopNwInterfaceReq (WdsConnectionIPv4Handle st) (WdsConnectionIPv6Handle st) f"
  have "(if f = IpFamilyV4 then WdsConnectionIPv4Handle st else WdsConnectionIPv6Handle st) = get_handle f st"
    by (simp add: get_handle_def)
  with stop_nw.qmux_builder_axioms [of "WdsConnectionIPv4Handle st" "WdsConnectionIPv6Handle st" f]
  have "qmux_builder ?b [(0x01, le32 (get_handle f st))]" by simp
  note call = qmi_call_builder [OF this assms(2-5), of "service_of f" "0x0021"]
  with False assms(1) show ?thesis
    unfolding requestDeactivateDefaultPDP_def call
    by (auto simp: get_handle_def set_handle_def IpFamilyV4_def IpFamilyV6_def)
qed

theorem deactivate_sends_handle_witness:
  "\<exists>st'. requestDeactivateDefaultPDP IpFamilyV4
      ((qmi_init [Woken (Some (rsp_frame QMUX_TYPE_WDS 1 0x0021 0 0 []))])\<lparr>WdsConnectionIPv4Handle := 7\<rparr>)
      = Some (0, st') \<and> sent st' = [qmi_frame QMUX_TYPE_WDS 1 0x0021 [(0x01, le32 7)]]
      \<and> WdsConnectionIPv4Handle st' = 0"
  using deactivate_sends_handle [of IpFamilyV4
      "(qmi_init [Woken (Some (rsp_frame QMUX_TYPE_WDS 1 0x0021 0 0 []))])\<lparr>WdsConnectionIPv4Handle := 7\<rparr>"
      "rsp_frame QMUX_TYPE_WDS 1 0x0021 0 0 []" "[]"]
  by (auto simp: qmi_init_def rsp_frame_fields get_handle_def service_of_def GetQMUXTransactionId_def)

text \<open>Address fields of the abstract response.\<close>

definition ts_u32 :: "tlv list \<Rightarrow> u8 \<Rightarrow> u32" where
  "ts_u32 ts ty = (case map_of ts ty of None \<Rightarrow> 0
     | Some v \<Rightarrow> le32_to_cpu (v ! 0) (v ! 1) (v ! 2) (v ! 3))"

definition settings_wf :: "tlv list \<Rightarrow> bool" where
  "settings_wf ts \<longleftrightarrow>
     (\<forall>ty v. map_of ts ty = Some v \<longrightarrow>
        (ty \<in> {0x15, 0x16, 0x1E, 0x20, 0x21, 0x29} \<longrightarrow> length v = 4)
        \<and> (ty \<in> {0x25, 0x26} \<longrightarrow> length v = 17) \<and> (ty \<in> {0x27, 0x28} \<longrightarrow> length v = 16))
     \<and> map_of ts 0x2E = None \<and> map_of ts 0x23 = None"

lemma ip_read4_message:
  assumes "qmux_message m ts" and "settings_wf ts"
  shows "ip_read4 m zero_ipv4 = Some \<lparr>v4_Address = ts_u32 ts 0x1E, v4_Gateway = ts_u32 ts 0x20,
           v4_SubnetMask = ts_u32 ts 0x21, v4_DnsPrimary = ts_u32 ts 0x15,
           v4_DnsSecondary = ts_u32 ts 0x16, v4_Mtu = 0\<rparr>"
proof -
  have "tlv_u32 m (uint ty) 0 = Some (ts_u32 ts ty)" if "ty \<in> {0x15, 0x16, 0x1E, 0x20, 0x21}" for ty
  proof -
    have "\<forall>v. map_of ts ty = Some v \<longrightarrow> length v = 4"
      using that assms(2) unfolding settings_wf_def by blast
    from tlv_u32_message [OF assms(1) this] show ?thesis by (simp add: ts_u32_def)
  qed
  from this [of "0x15"] this [of "0x16"] this [of "0x1E"] this [of "0x20"] this [of "0x21"]
  show ?thesis by (simp add: ip_read4_def zero_ipv4_def)
qed

lemma ip_read6_message:
  assumes "qmux_message m ts" and "settings_wf ts"
  shows "ip_read6 m v6 \<noteq> None"
proof -
  have wf: "\<forall>v. map_of ts ty = Some v \<longrightarrow> 16 \<le> length v" if "ty \<in> {0x25, 0x26, 0x27, 0x28}" for ty
    using that assms(2) by (auto simp: settings_wf_def)
  have wf': "\<forall>v. map_of ts ty = Some v \<longrightarrow> 17 \<le> length v" if "ty \<in> {0x25, 0x26}" for ty
    using that assms(2) by (auto simp: settings_wf_def)
  note a = tlv_addr16_message [OF assms(1) wf] and p = tlv_prefix_message [OF assms(1) wf']
  show ?thesis
    using a [of "0x25"] a [of "0x26"] a [of "0x27"] a [of "0x28"] p [of "0x25"] p [of "0x26"]
    by (simp add: ip_read6_def)
qed





end
