(* ===== verification/QmiProfile.thy ===== *)
theory QmiProfile
  imports QmiData
begin

text \<open>
  The connection profiles stored in the modem (\<open>requestSetProfile\<close>, \<open>requestGetProfile\<close>), the
  baseband version, radio power and loop-back requests of \<^verbatim>\<open>QMIThread.c\<close>.
\<close>

section \<open>Strings from the modem\<close>

definition cstr :: "bytes \<Rightarrow> string" where
  "cstr bs = map (\<lambda>b. char_of (unat b)) (takeWhile (\<lambda>b. b \<noteq> 0) bs)"

text \<open>
  \<^verbatim>\<open>uchar2char(dst, dst_len, src, len)\<close> with the TLV at \<open>p\<close> as source: at most \<open>dst_len - 1\<close> bytes
  are read and the result is the C string they form.
\<close>

definition uchar2char :: "bytes \<Rightarrow> nat \<Rightarrow> nat \<Rightarrow> string option" where
  "uchar2char m p dst_len = do {
     len \<leftarrow> rd16 m (p + 1);
     bs \<leftarrow> rdn m (p + 3) (min (dst_len - 1) (unat len));
     Some (cstr bs) }"

definition ipStr :: "string list" where
  "ipStr = [''IPV4'', ''NULL'', ''IPV6'', ''IPV4V6'']"

definition or_empty :: "string option \<Rightarrow> string" where
  "or_empty s = (case s of None \<Rightarrow> '''' | Some t \<Rightarrow> t)"

section \<open>Profiles\<close>

text \<open>The log line indexes \<open>ipStr\<close> with the IP type first; \<open>None\<close> is an index outside it.\<close>

definition requestSetProfile :: "profile \<Rightarrow> qmi \<Rightarrow> (int \<times> qmi) option" where
  "requestSetProfile profile st =
     (if \<not> (0 \<le> iptype profile \<and> iptype profile < int (length ipStr)) then None
      else if profile_index profile = 0 then Some (-1, st)
      else if old_apn profile = or_empty (apn profile) \<and> old_user profile = or_empty (user profile)
              \<and> old_pd profile = or_empty (pd profile) \<and> old_iptype profile = iptype profile
              \<and> old_auth profile = auth profile then Some (0, st)
      else do {
        (r, st) \<leftarrow> qmi_call QMUX_TYPE_WDS 0x0028 (Some (WdsModifyProfileSettingsReq profile)) st;
        case r of Inl err \<Rightarrow> Some (err, st) | Inr m \<Rightarrow> Some (1, st) })"

text \<open>
  The profile list at \<open>p\<close>: \<open>n\<close> entries are left, \<open>k\<close> is the \<^verbatim>\<open>uint8\<close> read index, which wraps, and
  \<open>acc\<close> what has been stored into \<^verbatim>\<open>profile_indexs[42]\<close>.
\<close>

fun profile_indexs :: "bytes \<Rightarrow> nat \<Rightarrow> nat \<Rightarrow> u8 \<Rightarrow> u8 list \<Rightarrow> u8 list option" where
  "profile_indexs m p 0 k acc = Some acc"
| "profile_indexs m p (Suc n) k acc =
     (if length acc < 42 then
        (case rd8 m (p + 3 + unat k) of None \<Rightarrow> None
         | Some x \<Rightarrow>
             (case rd8 m (p + 3 + unat (k + 1)) of None \<Rightarrow> None
              | Some l \<Rightarrow> profile_indexs m p n (if l = 0 then k + 1 + 2 else k + 1 + (2 + l)) (acc @ [x])))
      else None)"

text \<open>
  The loop over the profiles.  \<open>Found\<close> leaves it with the matching response, \<open>Created\<close> after a
  profile has been created (\<^verbatim>\<open>goto _re_check\<close>), \<open>Failed\<close> by an early return, \<open>Exhausted\<close> when there
  was nothing to look at.
\<close>

datatype scan = Found bytes | Created | Failed int | Exhausted

fun profile_scan :: "u8 list \<Rightarrow> profile \<Rightarrow> qmi \<Rightarrow> (scan \<times> profile \<times> qmi) option" where
  "profile_scan [] profile st = Some (Exhausted, profile, st)"
| "profile_scan (x # xs) profile st = do {
     let profile = profile\<lparr>profile_index := uint x\<rparr>;
     (r, st) \<leftarrow> qmi_call QMUX_TYPE_WDS 0x002B (Some (WdsGetProfileSettingsReqSend profile)) st;
     case r of
       Inl err \<Rightarrow> Some (Failed err, profile, st)
     | Inr m \<Rightarrow> do {
         pPdpContext \<leftarrow> GetTLV m 0x25;
         hit \<leftarrow> (case pPdpContext of None \<Rightarrow> Some False
                | Some p \<Rightarrow> do { c \<leftarrow> rd8 m (p + 3); Some (uint c = pdp profile) });
         if hit then Some (Found m, profile, st)
         else if xs = [] then do {
           (r, st) \<leftarrow> qmi_call QMUX_TYPE_WDS 0x0027 (Some (WdsCreateProfileSettingsReqSend profile)) st;
           case r of Inl err \<Rightarrow> Some (Failed err, profile, st) | Inr m \<Rightarrow> Some (Created, profile, st) }
         else profile_scan xs profile st } }"

text \<open>
  Reading the profile found.  After \<open>Exhausted\<close> the code goes on with a response it has already
  freed, so that is \<open>None\<close>.
\<close>

definition profile_read :: "bytes \<Rightarrow> profile \<Rightarrow> profile option" where
  "profile_read m profile = do {
     pApnName \<leftarrow> GetTLV m 0x14;
     pUserName \<leftarrow> GetTLV m 0x1B;
     pPd \<leftarrow> GetTLV m 0x1C;
     pAuthPref \<leftarrow> GetTLV m 0x1D;
     pIpType \<leftarrow> GetTLV m 0x11;
     a \<leftarrow> (case pApnName of None \<Rightarrow> Some (old_apn profile) | Some p \<Rightarrow> uchar2char m p 64);
     u \<leftarrow> (case pUserName of None \<Rightarrow> Some (old_user profile) | Some p \<Rightarrow> uchar2char m p 64);
     w \<leftarrow> (case pPd of None \<Rightarrow> Some (old_pd profile) | Some p \<Rightarrow> uchar2char m p 64);
     au \<leftarrow> (case pAuthPref of None \<Rightarrow> Some (old_auth profile) | Some p \<Rightarrow> map_option uint (rd8 m (p + 3)));
     ty \<leftarrow> (case pIpType of None \<Rightarrow> Some (old_iptype profile) | Some p \<Rightarrow> map_option uint (rd8 m (p + 3)));
     if ty < int (length ipStr)
     then Some (profile\<lparr>old_apn := a, old_user := u, old_pd := w, old_auth := au, old_iptype := ty\<rparr>)
     else None }"

lemma qmi_call_consumes:
  assumes "qmi_call Q ty fn st = Some (Inr m, st')"
  shows "length (replies st') < length (replies st)"
proof -
  from assms obtain req st1 er where c: "qmi_compose Q ty fn st = Some (req, st1)"
    and s: "QmiThreadSendQMI req st1 = (er, st')" and r: "qmi_rsp_check_and_return er = Some (Inr m)"
    by (rule qmi_callE)
  from c have rep: "replies st1 = replies st"
    by (auto simp: qmi_compose_def run_conv Let_def)
  from r obtain e where er: "er = (e, Some m)"
    by (auto simp: qmi_rsp_check_and_return_def run_conv split: if_splits)
  have "replies st1 \<noteq> []" "replies st' = tl (replies st1)"
    using s er by (cases req; cases "replies st1"; auto simp: QmiThreadSendQMI_def)+
  with rep show ?thesis by simp
qed

lemma qmi_call_replies_le:
  "qmi_call Q ty fn st = Some (r, st') \<Longrightarrow> length (replies st') \<le> length (replies st)"
  by (elim qmi_callE)
    (auto simp: qmi_compose_def QmiThreadSendQMI_def run_conv Let_def split: option.splits)

lemma profile_scan_replies_le:
  "profile_scan xs p st = Some (r, p', st') \<Longrightarrow> length (replies st') \<le> length (replies st)"
  by (induction xs p st rule: profile_scan.induct)
    (fastforce simp: run_conv Let_def dest: qmi_call_replies_le intro: le_trans)+

text \<open>
  \<^verbatim>\<open>_re_check\<close> goes round for as long as the modem answers; every round takes at least one
  answer, so the rounds end with the script of replies.
\<close>

function profile_search :: "profile \<Rightarrow> qmi \<Rightarrow> (scan \<times> profile \<times> qmi) option" where
  "profile_search profile st =
     (case qmi_call QMUX_TYPE_WDS 0x002A (Some WdsGetProfileListReqSend) st of
        None \<Rightarrow> None
      | Some (Inl err, st) \<Rightarrow> Some (Failed err, profile, st)
      | Some (Inr m, st1) \<Rightarrow>
          (case GetTLV m 0x01 of
             None \<Rightarrow> None
           | Some None \<Rightarrow> Some (Failed (-1), profile, st1)
           | Some (Some p) \<Rightarrow>
               (case rd8 m (p + 3) of
                  None \<Rightarrow> None
                | Some profile_num \<Rightarrow>
                    (case profile_indexs m p (unat profile_num) 2 [] of
                       None \<Rightarrow> None
                     | Some xs \<Rightarrow>
                         (case profile_scan xs profile st1 of
                            None \<Rightarrow> None
                          | Some (Created, profile', st2) \<Rightarrow> profile_search profile' st2
                          | Some (Found m', profile', st2) \<Rightarrow> Some (Found m', profile', st2)
                          | Some (Failed err, profile', st2) \<Rightarrow> Some (Failed err, profile', st2)
                          | Some (Exhausted, profile', st2) \<Rightarrow> Some (Exhausted, profile', st2))))))"
  by pat_completeness auto
termination
  by (relation "measure (\<lambda>(p, st). length (replies st))")
     (auto dest!: qmi_call_consumes profile_scan_replies_le)

declare profile_search.simps [simp del]

definition requestGetProfile :: "profile \<Rightarrow> qmi \<Rightarrow> (int \<times> profile \<times> qmi) option" where
  "requestGetProfile profile st =
     (let profile = profile\<lparr>old_apn := '''', old_user := '''', old_pd := '''', old_auth := 0, old_iptype := 0,
            iptype := (if enable_ipv4 profile \<noteq> 0 \<and> enable_ipv6 profile \<noteq> 0 then 3
                       else if enable_ipv6 profile \<noteq> 0 then 2 else 0)\<rparr> in
      if pdp profile = 0 then Some (0, profile, st)
      else do {
        (r, profile, st) \<leftarrow> profile_search profile st;
        case r of
          Failed err \<Rightarrow> Some (err, profile, st)
        | Found m \<Rightarrow> do { profile \<leftarrow> profile_read m profile; Some (0, profile, st) }
        | Created \<Rightarrow> None
        | Exhausted \<Rightarrow> None })"

section \<open>Version, radio power, loop-back\<close>

definition requestBaseBandVersion :: "profile \<Rightarrow> qmi \<Rightarrow> (int \<times> profile \<times> qmi) option" where
  "requestBaseBandVersion profile st = do {
     (r, st) \<leftarrow> qmi_call QMUX_TYPE_DMS 0x0023 None st;
     case r of
       Inl err \<Rightarrow> Some (err, profile, st)
     | Inr m \<Rightarrow> do {
         revId \<leftarrow> GetTLV m 0x01;
         case revId of
           None \<Rightarrow> Some (0, profile, st)
         | Some p \<Rightarrow> do {
             len \<leftarrow> rd16 m (p + 1);
             if len = 0 then Some (0, profile, st)
             else do { v \<leftarrow> uchar2char m p 64; Some (0, profile\<lparr>BaseBandVersion := v\<rparr>, st) } } } }"

definition requestRadioPower :: "int \<Rightarrow> qmi \<Rightarrow> (int \<times> qmi) option" where
  "requestRadioPower state st = do {
     (r, st) \<leftarrow> qmi_call QMUX_TYPE_DMS 0x002E
         (Some (DmsSetOperatingModeReq (if state \<noteq> 0 then 0x00 else 0x01))) st;
     case r of
       Inl err \<Rightarrow> Some (err, st)
     | Inr m \<Rightarrow> do {
         (r, st) \<leftarrow> qmi_call QMUX_TYPE_UIM (if state \<noteq> 0 then 0x0031 else 0x0030)
             (Some (UimSetCardSlotReq 0x01)) st;
         case r of Inl err \<Rightarrow> Some (err, st) | Inr m \<Rightarrow> Some (0, st) } }"

text \<open>
  The composed request is patched without a NULL check, so a failed \<^verbatim>\<open>malloc\<close> is \<open>None\<close> here; the
  replication factor goes through \<^verbatim>\<open>cpu_to_le16\<close> before it is stored as 32 bits.
\<close>

definition requestSetLoopBackState :: "u8 \<Rightarrow> u32 \<Rightarrow> qmi \<Rightarrow> (int \<times> qmi) option" where
  "requestSetLoopBackState loopback replication st = do {
     (pRequest, st) \<leftarrow> qmi_compose QMUX_TYPE_WDS_ADMIN 0x002F (Some WdaSetLoopBackReq) st;
     b \<leftarrow> pRequest;
     b \<leftarrow> poke 16 [loopback] b;
     b \<leftarrow> poke 20 (le32 (ucast (ucast replication :: u16))) b;
     let (er, st) = QmiThreadSendQMI (Some b) st;
     r \<leftarrow> qmi_rsp_check_and_return er;
     case r of Inl err \<Rightarrow> Some (err, st) | Inr m \<Rightarrow> Some (0, st) }"

section \<open>Lemmas on the profile list\<close>

text \<open>An entry is its type, its index, the length of its name and the name.\<close>

definition entry_enc :: "u8 \<times> u8 \<times> bytes \<Rightarrow> bytes" where
  "entry_enc e = (case e of (ty, idx, name) \<Rightarrow> [ty, idx, of_nat (length name)] @ name)"

definition entries_enc :: "(u8 \<times> u8 \<times> bytes) list \<Rightarrow> bytes" where
  "entries_enc es = concat (map entry_enc es)"

lemma profile_indexs_entries:
  assumes "rdn m (p + 3) (length v) = Some v" and "v = pre @ entries_enc es" and "pre \<noteq> []"
    and "length v \<le> 256" and "length acc + length es \<le> 42"
  shows "profile_indexs m p (length es) (of_nat (length pre + 1)) acc = Some (acc @ map (fst \<circ> snd) es)"
  using assms(2-5)
proof (induction es arbitrary: pre acc)
  case Nil
  show ?case by simp
next
  case (Cons e es)
  obtain ty idx name where e: "e = (ty, idx, name)" by (cases e) auto
  have v: "v = pre @ [ty, idx, of_nat (length name)] @ name @ entries_enc es"
    using Cons.prems(1) by (simp add: e entries_enc_def entry_enc_def)
  have len: "length pre + 3 + length name \<le> 256" using Cons.prems(3) v by simp
  have nth: "v ! (length pre + 1) = idx" "v ! (length pre + 2) = of_nat (length name)"
    by (simp_all add: v nth_append)
  have k: "unat (of_nat (length pre + 1) :: u8) = length pre + 1"
    "unat (of_nat (length pre + 1) + 1 :: u8) = length pre + 2"
    using len by (simp_all add: unat_of_nat unat_word_ariths)
  have l: "of_nat (length name) = (0 :: u8) \<longleftrightarrow> name = []"
    using len by (simp add: unat_eq_0 [symmetric] unat_of_nat)
  have rd: "rd8 m (p + 3 + (length pre + 1)) = Some idx"
    "rd8 m (p + 3 + (length pre + 2)) = Some (of_nat (length name))"
    using rd8_part [OF assms(1), of "length pre + 1"] rd8_part [OF assms(1), of "length pre + 2"] nth v
    by simp_all
  have step: "profile_indexs m p (length (e # es)) (of_nat (length pre + 1)) acc
      = profile_indexs m p (length es) (of_nat (length (pre @ entry_enc e) + 1)) (acc @ [idx])"
    using Cons.prems(4) rd l unfolding profile_indexs.simps k length_Cons
    by (simp add: e entry_enc_def add.commute add.left_commute)
  have "profile_indexs m p (length es) (of_nat (length (pre @ entry_enc e) + 1)) (acc @ [idx])
      = Some ((acc @ [idx]) @ map (fst \<circ> snd) es)"
    using Cons.prems by (intro Cons.IH) (simp_all add: entries_enc_def)
  with step show ?case by (simp add: e)
qed

lemma profile_indexs_bound:
  "profile_indexs m p n k acc = Some xs \<Longrightarrow> n = 0 \<or> length acc + n \<le> 42"
proof (induction n arbitrary: k acc)
  case (Suc n)
  then obtain k' x where "length acc < 42" "profile_indexs m p n k' (acc @ [x]) = Some xs"
    by (auto simp: run_conv)
  with Suc.IH [of k' "acc @ [x]"] show ?case by auto
qed simp

section \<open>Properties\<close>

text \<open>
  Parsing the profile list inverts its encoding: for at most 42 profiles in at most 256 bytes
  the collected indices are those of the entries, in order, whatever their names.
\<close>

theorem profile_list_roundtrip:
  assumes "rdn m (p + 3) (length v) = Some v" and "v = of_nat (length es) # entries_enc es"
    and "length v \<le> 256" and "length es \<le> 42"
  shows "rd8 m (p + 3) = Some (of_nat (length es))
       \<and> profile_indexs m p (unat (of_nat (length es) :: u8)) 2 [] = Some (map (fst \<circ> snd) es)"
proof -
  have "rd8 m (p + 3) = Some (of_nat (length es))"
    using rd8_part [OF assms(1), of 0] assms(2) by simp
  moreover have "unat (of_nat (length es) :: u8) = length es"
    using assms(4) by (simp add: unat_of_nat)
  ultimately show ?thesis
    using profile_indexs_entries [OF assms(1), of "[of_nat (length es)]" es "[]"] assms(2-4) by simp
qed

theorem profile_list_roundtrip_witness:
  "rd8 [1, 9, 0, 2, 0, 4, 2, 97, 98, 0, 7, 0] 3 = Some 2
   \<and> profile_indexs [1, 9, 0, 2, 0, 4, 2, 97, 98, 0, 7, 0] 0 2 2 [] = Some [4, 7]"
proof -
  let ?m = "[1, 9, 0, 2, 0, 4, 2, 97, 98, 0, 7, 0] :: bytes"
  let ?v = "[2, 0, 4, 2, 97, 98, 0, 7, 0] :: bytes"
  let ?es = "[(0, 4, [97, 98]), (0, 7, [])] :: (u8 \<times> u8 \<times> bytes) list"
  have "rdn ?m (0 + 3) (length ?v) = Some ?v" by (simp add: rdn_def)
  moreover have "?v = of_nat (length ?es) # entries_enc ?es"
    by (simp add: entries_enc_def entry_enc_def)
  moreover have "length ?v \<le> 256" "length ?es \<le> 42" by simp_all
  ultimately have "rd8 ?m (0 + 3) = Some (of_nat (length ?es))
      \<and> profile_indexs ?m 0 (unat (of_nat (length ?es) :: u8)) 2 [] = Some (map (fst \<circ> snd) ?es)"
    by (rule profile_list_roundtrip)
  moreover have "of_nat (length ?es) = (2 :: u8)" "unat (2 :: u8) = 2" "map (fst \<circ> snd) ?es = [4, 7]"
    by simp_all
  ultimately show ?thesis by (metis add_0)
qed

text \<open>
  A profile list that is empty makes the request go on with a response it has freed, and one
  with more than 42 profiles overflows \<^verbatim>\<open>profile_indexs[42]\<close>.
\<close>

theorem profile_list_faults:
  assumes "pdp profile \<noteq> 0"
    and "qmi_call QMUX_TYPE_WDS 0x002A (Some WdsGetProfileListReqSend) st = Some (Inr m, st')"
    and "GetTLV m 0x01 = Some (Some p)" and "rd8 m (p + 3) = Some n" and "n = 0 \<or> 42 < n"
  shows "requestGetProfile profile st = None"
proof (cases "n = 0")
  case True
  then show ?thesis
    using assms(1-4) by (simp add: requestGetProfile_def Let_def profile_search.simps [of _ st])
next
  case False
  with assms(5) have "42 < unat n" by (simp add: word_less_nat_alt)
  then have "profile_indexs m p (unat n) 2 [] = None"
    using profile_indexs_bound [of m p "unat n" 2 "[]"] by (cases "profile_indexs m p (unat n) 2 []") auto
  then show ?thesis
    using assms(1-4) by (simp add: requestGetProfile_def Let_def profile_search.simps [of _ st])
qed

theorem profile_list_faults_witness:
  "requestGetProfile (zero_profile\<lparr>pdp := 1\<rparr>)
     (qmi_init [Woken (Some (rsp_frame QMUX_TYPE_WDS 1 0x002A 0 0 [(0x01, [0])]))]) = None"
proof -
  let ?m = "rsp_frame QMUX_TYPE_WDS 1 0x002A 0 0 [(0x01, [0])]"
  let ?st = "qmi_init [Woken (Some ?m)]"
  have "mallocs ?st = []" "replies ?st = Woken (Some ?m) # []" by (simp_all add: qmi_init_def)
  note c = qmi_call_builder [OF profile_list.qmux_builder_axioms this rsp_frame_fields]
  have "qmux_message ?m [(0x02, le16 0 @ le16 0), (0x01, [0])]" by (intro rsp_frame_message) simp
  then obtain p where "GetTLV ?m (uint (0x01 :: u8)) = Some (Some p)"
      "rdn ?m (p + 3) (length [0 :: u8]) = Some [0]"
    by (rule GetTLV_present [where v = "[0]" and ty = "0x01"]) simp_all
  then show ?thesis
    using profile_list_faults [OF _ c, of "zero_profile\<lparr>pdp := 1\<rparr>" p 0] rd8_part [of ?m "p + 3" 1 "[0]" 0]
    by simp
qed

text \<open>
  A profile change that the modem refuses as malformed (QMI error 1) returns 1, the value that
  stands for success with a changed APN.
\<close>

theorem set_profile_refusal_looks_like_success:
  assumes "0 \<le> iptype p" "iptype p < 4" and "profile_index p \<noteq> 0"
    and "old_apn p \<noteq> or_empty (apn p)"
    and "qmi_call QMUX_TYPE_WDS 0x0028 (Some (WdsModifyProfileSettingsReq p)) st = Some (r, st')"
    and "r = Inl 1 \<or> (\<exists>m. r = Inr m)"
  shows "requestSetProfile p st = Some (1, st')"
  using assms by (auto simp: requestSetProfile_def ipStr_def)

theorem set_profile_refusal_looks_like_success_witness:
  "\<exists>st'. requestSetProfile (zero_profile\<lparr>profile_index := 1, apn := Some ''ims''\<rparr>)
     (qmi_init [Woken (Some (rsp_frame QMUX_TYPE_WDS 1 0x0028 1 1 []))]) = Some (1, st')"
proof -
  let ?p = "zero_profile\<lparr>profile_index := 1, apn := Some ''ims''\<rparr>"
  let ?m = "rsp_frame QMUX_TYPE_WDS 1 0x0028 1 1 []"
  have b: "qmux_builder (WdsModifyProfileSettingsReq ?p)
      ([(0x01, [0x00, word_of_int (profile_index ?p)])] @ modify_tlvs ?p)"
    by (rule modify_profile_builder) (simp add: zero_profile_def)
  have "\<exists>st'. qmi_call QMUX_TYPE_WDS 0x0028 (Some (WdsModifyProfileSettingsReq ?p))
      (qmi_init [Woken (Some ?m)]) = Some (Inl 1, st')"
    by (simp add: qmi_call_def qmi_compose_def qmi_init_def qmux_builder.compose [OF b]
        QmiThreadSendQMI_def qmi_rsp_check_and_return_def rsp_frame_fields)
  then obtain st' where "qmi_call QMUX_TYPE_WDS 0x0028 (Some (WdsModifyProfileSettingsReq ?p))
      (qmi_init [Woken (Some ?m)]) = Some (Inl 1, st')" by blast
  moreover have "0 \<le> iptype ?p" "iptype ?p < 4" "profile_index ?p \<noteq> 0" "old_apn ?p \<noteq> or_empty (apn ?p)"
    by (simp_all add: zero_profile_def or_empty_def)
  ultimately have "requestSetProfile ?p (qmi_init [Woken (Some ?m)]) = Some (1, st')"
    by (intro set_profile_refusal_looks_like_success) blast+
  then show ?thesis ..
qed

end
