(* ===== verification/ConnManager.thy ===== *)
theory ConnManager
  imports QmiSim QmiReg QmiProfile
begin

text \<open>
  The connection manager: the start-up and the event loop \<open>qmi_main\<close> of \<^verbatim>\<open>main.c\<close>.  The loop talks to
  the modem through \<^verbatim>\<open>struct request_ops\<close> and \<^verbatim>\<open>struct qmi_device_ops\<close>, records of function pointers
  here over a state \<open>'s\<close> of the request layer, and to the rest of the system through signals, the
  alarm clock and the DHCP client, which are fields of the loop's state.  \<open>None\<close> is a memory fault of
  a request (or a start-up that never returns).
\<close>

section \<open>The request interface\<close>

datatype ops_kind = qmi_ops_kind | mbim_ops_kind | atc_ops_kind

text \<open>
  An optional pointer is an \<open>option\<close>; \<open>ops_kind\<close> stands for the comparisons with the addresses of the
  three tables, \<open>op_pdn_conflict\<close> and \<open>op_clear_pdn_conflict\<close> for the global \<^verbatim>\<open>g_pdn_conflict\<close>.
\<close>

record 's request_ops =
  ops_kind :: ops_kind
  op_requestBaseBandVersion :: "(profile \<Rightarrow> 's \<Rightarrow> (int \<times> profile \<times> 's) option) option"
  op_requestSetEthMode :: "(profile \<Rightarrow> 's \<Rightarrow> (int \<times> profile \<times> 's) option) option"
  op_requestSetLoopBackState :: "(u8 \<Rightarrow> u32 \<Rightarrow> 's \<Rightarrow> (int \<times> 's) option) option"
  op_requestGetSIMStatus :: "(SIM_Status \<Rightarrow> 's \<Rightarrow> (int \<times> SIM_Status \<times> 's) option) option"
  op_requestEnterSimPin :: "(string \<Rightarrow> 's \<Rightarrow> (int \<times> 's) option) option"
  op_requestSetProfile :: "(profile \<Rightarrow> 's \<Rightarrow> (int \<times> 's) option) option"
  op_requestGetProfile :: "(profile \<Rightarrow> 's \<Rightarrow> (int \<times> profile \<times> 's) option) option"
  op_requestRegistrationState :: "u8 \<Rightarrow> 's \<Rightarrow> (int \<times> u8 \<times> 's) option"
  op_requestSetupDataCall :: "profile \<Rightarrow> int \<Rightarrow> 's \<Rightarrow> (int \<times> profile \<times> 's) option"
  op_requestQueryDataCall :: "u8 \<Rightarrow> int \<Rightarrow> 's \<Rightarrow> (int \<times> u8 \<times> 's) option"
  op_requestDeactivateDefaultPDP :: "profile \<Rightarrow> int \<Rightarrow> 's \<Rightarrow> (int \<times> profile \<times> 's) option"
  op_requestGetIPAddress :: "profile \<Rightarrow> int \<Rightarrow> 's \<Rightarrow> (int \<times> profile \<times> 's) option"
  op_print_requests :: "('s \<Rightarrow> (int \<times> 's) option) list"
  op_sim_requests :: "('s \<Rightarrow> (int \<times> 's) option) list"
  op_pdn_conflict :: "'s \<Rightarrow> u16"
  op_clear_pdn_conflict :: "'s \<Rightarrow> 's"

text \<open>
  \<open>op_print_requests\<close> holds those of the signal, cell and coexistence requests that a table has, and
  \<open>op_sim_requests\<close> its ICCID and IMSI requests, in the order the loop makes them.
\<close>

record 's qmi_device_ops =
  dev_init :: "(profile \<Rightarrow> 's \<Rightarrow> (int \<times> profile \<times> 's) option) option"
  dev_deinit :: "('s \<Rightarrow> 's option) option"

definition qmi_request_ops :: "qmi request_ops" where
  "qmi_request_ops = \<lparr>
     ops_kind = qmi_ops_kind,
     op_requestBaseBandVersion = Some requestBaseBandVersion,
     op_requestSetEthMode = Some requestSetEthMode,
     op_requestSetLoopBackState = Some requestSetLoopBackState,
     op_requestGetSIMStatus = Some requestGetSIMStatus,
     op_requestEnterSimPin = Some requestEnterSimPin,
     op_requestSetProfile = Some requestSetProfile,
     op_requestGetProfile = Some requestGetProfile,
     op_requestRegistrationState =
       (\<lambda>ps st. do { (err, ps, net, st) \<leftarrow> requestRegistrationState ps st; Some (err, ps, st) }),
     op_requestSetupDataCall = requestSetupDataCall,
     op_requestQueryDataCall = requestQueryDataCall,
     op_requestDeactivateDefaultPDP =
       (\<lambda>p family st. do { (err, st) \<leftarrow> requestDeactivateDefaultPDP family st; Some (err, p, st) }),
     op_requestGetIPAddress = requestGetIPAddress,
     op_print_requests = [],
     op_sim_requests = [],
     op_pdn_conflict = g_pdn_conflict,
     op_clear_pdn_conflict = (\<lambda>st. st\<lparr>g_pdn_conflict := 0\<rparr>)\<rparr>"

section \<open>State of the loop\<close>

datatype effect =
    Udhcpc_start profile
  | Udhcpc_stop profile
  | ToDevice cm_event
  | ConflictFile u16

record cm_env =
  QCM_DIAL_BY_PROFILE :: bool
  QCM_V6_FIRST :: bool
  QCM_EXIT_ON_PDN_CONFLICT :: bool

text \<open>
  The locals of \<open>qmi_main\<close> and the statics of \<^verbatim>\<open>main.c\<close>.  \<open>signals\<close> is the signal socket pair,
  \<open>cm_alarm\<close> the pending \<^verbatim>\<open>alarm\<close> in seconds (0 is none); \<open>running\<close> falls at \<^verbatim>\<open>__main_quit\<close>.
\<close>

record 's cm =
  cm_profile :: profile
  requests :: 's
  PSAttachedState :: u8
  IPv4ConnectionStatus :: u8
  IPv6ConnectionStatus :: u8
  SetupCallFail :: u32
  SetupCallAllowTime :: u64
  s_link :: int
  g_donot_exit_when_modem_hangup :: bool
  signals :: "cm_event list"
  cm_alarm :: u32
  effects :: "effect list"
  running :: bool

definition emit :: "effect \<Rightarrow> 's cm \<Rightarrow> 's cm" where
  "emit e c = c\<lparr>effects := effects c @ [e]\<rparr>"

definition send_signo_to_main :: "cm_event \<Rightarrow> 's cm \<Rightarrow> 's cm" where
  "send_signo_to_main s c = c\<lparr>signals := signals c @ [s]\<rparr>"

definition usbnet_link_change :: "int \<Rightarrow> 's cm \<Rightarrow> 's cm" where
  "usbnet_link_change lnk c =
     (if s_link c = lnk then c
      else let p = cm_profile c;
               p = (if bit lnk 4 then p else p\<lparr>ipv4 := zero_ipv4\<rparr>);
               p = (if bit lnk 6 then p else p\<lparr>ipv6 := zero_ipv6\<rparr>) in
           emit (if lnk \<noteq> 0 then Udhcpc_start p else Udhcpc_stop p) (c\<lparr>s_link := lnk, cm_profile := p\<rparr>))"

text \<open>\<^verbatim>\<open>goto __main_quit\<close>\<close>

definition main_quit :: "'s cm \<Rightarrow> 's cm" where
  "main_quit c = (usbnet_link_change 0 c)\<lparr>running := False\<rparr>"

section \<open>Requests of the loop\<close>

definition cm_setup :: "'s request_ops \<Rightarrow> int \<Rightarrow> 's cm \<Rightarrow> (int \<times> 's cm) option" where
  "cm_setup ops family c = do {
     (err, p, s) \<leftarrow> op_requestSetupDataCall ops (cm_profile c) family (requests c);
     Some (err, c\<lparr>cm_profile := p, requests := s\<rparr>) }"

definition cm_getip :: "'s request_ops \<Rightarrow> int \<Rightarrow> 's cm \<Rightarrow> (int \<times> 's cm) option" where
  "cm_getip ops family c = do {
     (err, p, s) \<leftarrow> op_requestGetIPAddress ops (cm_profile c) family (requests c);
     Some (err, c\<lparr>cm_profile := p, requests := s\<rparr>) }"

definition cm_deactivate :: "'s request_ops \<Rightarrow> int \<Rightarrow> 's cm \<Rightarrow> 's cm option" where
  "cm_deactivate ops family c = do {
     (err, p, s) \<leftarrow> op_requestDeactivateDefaultPDP ops (cm_profile c) family (requests c);
     Some (c\<lparr>cm_profile := p, requests := s\<rparr>) }"

definition cm_query4 :: "'s request_ops \<Rightarrow> 's cm \<Rightarrow> (int \<times> 's cm) option" where
  "cm_query4 ops c = do {
     (err, status, s) \<leftarrow> op_requestQueryDataCall ops (IPv4ConnectionStatus c) IpFamilyV4 (requests c);
     Some (err, c\<lparr>IPv4ConnectionStatus := status, requests := s\<rparr>) }"

definition cm_query6 :: "'s request_ops \<Rightarrow> 's cm \<Rightarrow> (int \<times> 's cm) option" where
  "cm_query6 ops c = do {
     (err, status, s) \<leftarrow> op_requestQueryDataCall ops (IPv6ConnectionStatus c) IpFamilyV6 (requests c);
     Some (err, c\<lparr>IPv6ConnectionStatus := status, requests := s\<rparr>) }"

definition cm_registration :: "'s request_ops \<Rightarrow> 's cm \<Rightarrow> 's cm option" where
  "cm_registration ops c = do {
     (err, ps, s) \<leftarrow> op_requestRegistrationState ops (PSAttachedState c) (requests c);
     Some (c\<lparr>PSAttachedState := ps, requests := s\<rparr>) }"

definition check_ipv4_address :: "'s request_ops \<Rightarrow> 's cm \<Rightarrow> (bool \<times> 's cm) option" where
  "check_ipv4_address ops c =
     (if ops_kind ops = mbim_ops_kind then Some (True, c)
      else if ops_kind ops = atc_ops_kind \<and> udhcpc_ip (cm_profile c) = 0 then Some (True, c)
      else let oldAddress = (if ops_kind ops = atc_ops_kind then udhcpc_ip (cm_profile c)
                             else v4_Address (ipv4 (cm_profile c))) in do {
        (err, c) \<leftarrow> cm_getip ops IpFamilyV4 c;
        Some (err = 0 \<and> v4_Address (ipv4 (cm_profile c)) = oldAddress, c) })"

section \<open>SIG\_EVENT\_START\<close>

text \<open>The IPv4 call with its two retries; the first result is \<^verbatim>\<open>pdn_conflict_v4\<close>.\<close>

definition retry_auth :: "'s request_ops \<Rightarrow> int \<times> 's cm \<Rightarrow> (int \<times> 's cm) option" where
  "retry_auth ops ec = (case ec of (qmierr, c) \<Rightarrow>
     if qmierr > 0 \<and> \<not> null_or_empty (user (cm_profile c)) \<and> \<not> null_or_empty (pd (cm_profile c))
     then let old_auto = auth (cm_profile c) in do {
       (qmierr, c) \<leftarrow> cm_setup ops IpFamilyV4
           (c\<lparr>cm_profile := (cm_profile c)\<lparr>auth := (if old_auto = 1 then 2 else 1)\<rparr>\<rparr>);
       Some (qmierr, if qmierr \<noteq> 0 then c\<lparr>cm_profile := (cm_profile c)\<lparr>auth := old_auto\<rparr>\<rparr> else c) }
     else Some (qmierr, c))"

definition retry_profile :: "'s request_ops \<Rightarrow> cm_env \<Rightarrow> int \<times> 's cm \<Rightarrow> (int \<times> 's cm) option" where
  "retry_profile ops env ec = (case ec of (qmierr, c) \<Rightarrow>
     if qmierr \<noteq> 0 \<and> op_pdn_conflict ops (requests c) \<noteq> 0 \<and> apn (cm_profile c) \<noteq> None
        \<and> profile_index (cm_profile c) \<noteq> 0 \<and> QCM_EXIT_ON_PDN_CONFLICT env
     then let old_apn = apn (cm_profile c) in do {
       (qmierr, c) \<leftarrow> cm_setup ops IpFamilyV4 (c\<lparr>cm_profile := (cm_profile c)\<lparr>apn := None\<rparr>\<rparr>);
       Some (qmierr, c\<lparr>cm_profile := (cm_profile c)\<lparr>apn := old_apn\<rparr>\<rparr>) }
     else Some (qmierr, c))"

definition start_v4 :: "'s request_ops \<Rightarrow> cm_env \<Rightarrow> 's cm \<Rightarrow> (u16 \<times> 's cm) option" where
  "start_v4 ops env c =
     (if enable_ipv4 (cm_profile c) \<noteq> 0 \<and> IPv4ConnectionStatus c \<noteq> QWDS_PKT_DATA_CONNECTED then do {
        (qmierr, c) \<leftarrow> cm_setup ops IpFamilyV4 c;
        (qmierr, c) \<leftarrow> retry_auth ops (qmierr, c);
        (qmierr, c) \<leftarrow> retry_profile ops env (qmierr, c);
        if qmierr \<noteq> 0 then Some (op_pdn_conflict ops (requests c), c)
        else do {
          (qmierr, c) \<leftarrow> cm_getip ops IpFamilyV4 c;
          Some (0, if qmierr = 0 then c\<lparr>IPv4ConnectionStatus := QWDS_PKT_DATA_CONNECTED\<rparr> else c) } }
      else Some (0, c))"

definition start_v6 :: "'s request_ops \<Rightarrow> cm_env \<Rightarrow> 's cm \<Rightarrow> 's cm option" where
  "start_v6 ops env c =
     (if enable_ipv6 (cm_profile c) \<noteq> 0 \<and> IPv6ConnectionStatus c \<noteq> QWDS_PKT_DATA_CONNECTED then
        (if enable_ipv4 (cm_profile c) \<noteq> 0 \<and> ops_kind ops \<noteq> qmi_ops_kind
         then Some (c\<lparr>IPv6ConnectionStatus := IPv4ConnectionStatus c\<rparr>)
         else do {
           (qmierr, c) \<leftarrow> cm_setup ops IpFamilyV6 c;
           let c = (if qmierr \<noteq> 0 \<and> op_pdn_conflict ops (requests c) \<noteq> 0 \<and> enable_ipv4 (cm_profile c) \<noteq> 0
                       \<and> IPv4ConnectionStatus c = QWDS_PKT_DATA_CONNECTED \<and> QCM_EXIT_ON_PDN_CONFLICT env
                    then c\<lparr>cm_profile := (cm_profile c)\<lparr>enable_ipv6 := 0\<rparr>,
                           requests := op_clear_pdn_conflict ops (requests c)\<rparr>
                    else c);
           if qmierr = 0 then do {
             (qmierr, c) \<leftarrow> cm_getip ops IpFamilyV6 c;
             Some (if qmierr = 0 then c\<lparr>IPv6ConnectionStatus := QWDS_PKT_DATA_CONNECTED\<rparr> else c) }
           else Some c })
      else Some c)"

text \<open>The two passes of the loop over \<^verbatim>\<open>pass\<close>.\<close>

definition start_calls :: "'s request_ops \<Rightarrow> cm_env \<Rightarrow> 's cm \<Rightarrow> (u16 \<times> 's cm) option" where
  "start_calls ops env c =
     (let v6_first = (enable_ipv4 (cm_profile c) \<noteq> 0 \<and> enable_ipv6 (cm_profile c) \<noteq> 0
                      \<and> ops_kind ops = qmi_ops_kind \<and> QCM_V6_FIRST env) in
      if v6_first then do { c \<leftarrow> start_v6 ops env c; start_v4 ops env c }
      else do {
        (conflict, c) \<leftarrow> start_v4 ops env c;
        c \<leftarrow> start_v6 ops env c;
        Some (conflict, c) })"

definition v4_down :: "'s cm \<Rightarrow> bool" where
  "v4_down c \<longleftrightarrow> enable_ipv4 (cm_profile c) \<noteq> 0 \<and> IPv4ConnectionStatus c = QWDS_PKT_DATA_DISCONNECTED"

definition v6_down :: "'s cm \<Rightarrow> bool" where
  "v6_down c \<longleftrightarrow> enable_ipv6 (cm_profile c) \<noteq> 0 \<and> IPv6ConnectionStatus c = QWDS_PKT_DATA_DISCONNECTED"

definition call_up :: "'s cm \<Rightarrow> bool" where
  "call_up c \<longleftrightarrow> IPv4ConnectionStatus c = QWDS_PKT_DATA_CONNECTED
     \<or> IPv6ConnectionStatus c = QWDS_PKT_DATA_CONNECTED"

definition dev_shutdown :: "'s qmi_device_ops \<Rightarrow> 's cm \<Rightarrow> 's cm option" where
  "dev_shutdown dev c = do {
     let c = usbnet_link_change 0 c;
     s \<leftarrow> (case dev_deinit dev of None \<Rightarrow> Some (requests c) | Some f \<Rightarrow> f (requests c));
     Some (main_quit (emit (ToDevice RIL_REQUEST_QUIT) (c\<lparr>requests := s\<rparr>))) }"

definition allow_time :: "u64 list" where "allow_time = [5, 10, 20, 40, 60]"

text \<open>
  The back-off ladder; \<open>clk k\<close> is the \<open>k\<close>-th reading of \<^verbatim>\<open>clock_msec\<close> while the event is handled.
  \<^verbatim>\<open>unsigned long\<close> has 64 bits.
\<close>

definition start_backoff :: "(nat \<Rightarrow> u64) \<Rightarrow> 's cm \<Rightarrow> 's cm" where
  "start_backoff clk c =
     (if v4_down c \<or> v6_down c then
        let t = (if unat (SetupCallFail c) < length allow_time then allow_time ! unat (SetupCallFail c) else 60) in
        c\<lparr>SetupCallFail := SetupCallFail c + 1, cm_alarm := ucast t, SetupCallAllowTime := t * 1000 + clk 2\<rparr>
      else if call_up c then c\<lparr>SetupCallFail := 0, SetupCallAllowTime := clk 2\<rparr>
      else c)"

definition sig_start ::
  "'s request_ops \<Rightarrow> 's qmi_device_ops \<Rightarrow> cm_env \<Rightarrow> (nat \<Rightarrow> u64) \<Rightarrow> 's cm \<Rightarrow> 's cm option" where
  "sig_start ops dev env clk c =
     (if PSAttachedState c \<noteq> 1 \<and> loopback_state (cm_profile c) = 0 then Some c
      else if SetupCallAllowTime c > clk 0
      then Some (c\<lparr>cm_alarm := ucast ((SetupCallAllowTime c - clk 1 + 999) div 1000)\<rparr>)
      else do {
        (pdn_conflict_v4, c) \<leftarrow> start_calls ops env c;
        let pdn_conflict = (if enable_ipv4 (cm_profile c) \<noteq> 0 then pdn_conflict_v4
                            else op_pdn_conflict ops (requests c));
        if pdn_conflict \<noteq> 0 \<and> QCM_EXIT_ON_PDN_CONFLICT env
           \<and> (if enable_ipv4 (cm_profile c) \<noteq> 0 then IPv4ConnectionStatus c else IPv6ConnectionStatus c)
               = QWDS_PKT_DATA_DISCONNECTED
        then dev_shutdown dev (emit (ConflictFile pdn_conflict) c)
        else Some (start_backoff clk c) })"

section \<open>SIG\_EVENT\_CHECK\<close>

fun run_prints :: "('s \<Rightarrow> (int \<times> 's) option) list \<Rightarrow> 's \<Rightarrow> 's option" where
  "run_prints [] s = Some s"
| "run_prints (f # fs) s = (case f s of None \<Rightarrow> None | Some (err, s) \<Rightarrow> run_prints fs s)"

definition check_v4 :: "'s request_ops \<Rightarrow> 's cm \<Rightarrow> 's cm option" where
  "check_v4 ops c =
     (if enable_ipv4 (cm_profile c) \<noteq> 0 \<and> IPv4ConnectionStatus c \<noteq> QWDS_PKT_DATA_DISCONNECTED then do {
        (err, c) \<leftarrow> cm_query4 ops c;
        if err = 0 then do {
          c \<leftarrow> (if IPv4ConnectionStatus c = QWDS_PKT_DATA_CONNECTED \<and> v4_Address (ipv4 (cm_profile c)) = 0
               then do {
                 (qmierr, c) \<leftarrow> cm_getip ops IpFamilyV4 c;
                 Some (if qmierr \<noteq> 0 then c\<lparr>IPv4ConnectionStatus := QWDS_PKT_DATA_DISCONNECTED\<rparr> else c) }
               else Some c);
          if IPv4ConnectionStatus c = QWDS_PKT_DATA_CONNECTED then do {
            (same, c) \<leftarrow> check_ipv4_address ops c;
            if same then Some c
            else do {
              c \<leftarrow> cm_deactivate ops IpFamilyV4 c;
              Some (c\<lparr>IPv4ConnectionStatus := QWDS_PKT_DATA_DISCONNECTED\<rparr>) } }
          else Some c }
        else Some (c\<lparr>IPv4ConnectionStatus := QWDS_PKT_DATA_DISCONNECTED\<rparr>) }
      else Some (c\<lparr>IPv4ConnectionStatus := QWDS_PKT_DATA_DISCONNECTED\<rparr>))"

definition check_v6 :: "'s request_ops \<Rightarrow> 's cm \<Rightarrow> 's cm option" where
  "check_v6 ops c =
     (if enable_ipv6 (cm_profile c) \<noteq> 0 \<and> IPv6ConnectionStatus c \<noteq> QWDS_PKT_DATA_DISCONNECTED then
        (if enable_ipv4 (cm_profile c) \<noteq> 0 \<and> ops_kind ops \<noteq> qmi_ops_kind
         then Some (c\<lparr>IPv6ConnectionStatus := IPv4ConnectionStatus c\<rparr>)
         else do { (err, c) \<leftarrow> cm_query6 ops c; Some c })
      else Some (c\<lparr>IPv6ConnectionStatus := QWDS_PKT_DATA_DISCONNECTED\<rparr>))"

definition link_word :: "'s cm \<Rightarrow> int" where
  "link_word c = (if IPv4ConnectionStatus c = QWDS_PKT_DATA_CONNECTED then 2 ^ 4 else 0)
     + (if IPv6ConnectionStatus c = QWDS_PKT_DATA_CONNECTED then 2 ^ 6 else 0)"

definition check_link :: "'s cm \<Rightarrow> 's cm" where
  "check_link c =
     (if IPv4ConnectionStatus c = QWDS_PKT_DATA_DISCONNECTED
         \<and> IPv6ConnectionStatus c = QWDS_PKT_DATA_DISCONNECTED then usbnet_link_change 0 c
      else if call_up c then usbnet_link_change (link_word c) c
      else c)"

definition sig_check :: "'s request_ops \<Rightarrow> 's cm \<Rightarrow> 's cm option" where
  "sig_check ops c = do {
     s \<leftarrow> run_prints (op_print_requests ops) (requests c);
     let c = c\<lparr>requests := s\<rparr>;
     c \<leftarrow> (if PSAttachedState c \<noteq> 1 then cm_registration ops c else Some c);
     c \<leftarrow> check_v4 ops c;
     c \<leftarrow> check_v6 ops c;
     let c = check_link c;
     Some (if v4_down c \<or> v6_down c then send_signo_to_main SIG_EVENT_START c else c) }"

section \<open>SIG\_EVENT\_STOP\<close>

definition sig_stop :: "'s request_ops \<Rightarrow> 's qmi_device_ops \<Rightarrow> 's cm \<Rightarrow> 's cm option" where
  "sig_stop ops dev c = do {
     c \<leftarrow> (if enable_ipv4 (cm_profile c) \<noteq> 0 \<and> IPv4ConnectionStatus c = QWDS_PKT_DATA_CONNECTED
          then cm_deactivate ops IpFamilyV4 c else Some c);
     c \<leftarrow> (if enable_ipv6 (cm_profile c) \<noteq> 0 \<and> IPv6ConnectionStatus c = QWDS_PKT_DATA_CONNECTED
             \<and> \<not> (enable_ipv4 (cm_profile c) \<noteq> 0 \<and> ops_kind ops \<noteq> qmi_ops_kind)
          then cm_deactivate ops IpFamilyV6 c else Some c);
     dev_shutdown dev c }"

section \<open>Events\<close>

text \<open>Every signal read cancels the alarm first.\<close>

definition handle_signal ::
  "'s request_ops \<Rightarrow> 's qmi_device_ops \<Rightarrow> cm_env \<Rightarrow> (nat \<Rightarrow> u64) \<Rightarrow> cm_event \<Rightarrow> 's cm \<Rightarrow> 's cm option" where
  "handle_signal ops dev env clk signo c =
     (let c = c\<lparr>cm_alarm := 0\<rparr> in
      case signo of
        SIG_EVENT_START \<Rightarrow> sig_start ops dev env clk c
      | SIG_EVENT_CHECK \<Rightarrow> sig_check ops c
      | SIG_EVENT_STOP \<Rightarrow> sig_stop ops dev c
      | _ \<Rightarrow> Some c)"

text \<open>
  The loop-back indication is followed by the message, whose two TLV values lie at 7 and 11; a
  short one is not taken.
\<close>

definition handle_device ::
  "'s request_ops \<Rightarrow> (nat \<Rightarrow> u64) \<Rightarrow> cm_event \<Rightarrow> 's cm \<Rightarrow> 's cm option" where
  "handle_device ops clk ev c =
     (case ev of
        RIL_INDICATE_DEVICE_DISCONNECTED \<Rightarrow> Some (main_quit (usbnet_link_change 0 c))
      | RIL_UNSOL_RESPONSE_VOICE_NETWORK_STATE_CHANGED \<Rightarrow> do {
          c \<leftarrow> cm_registration ops c;
          Some (if PSAttachedState c = 1
                then (if v4_down c \<or> v6_down c then send_signo_to_main SIG_EVENT_START c else c)
                else c\<lparr>SetupCallAllowTime := clk 0\<rparr>) }
      | RIL_UNSOL_DATA_CALL_LIST_CHANGED \<Rightarrow>
          Some (send_signo_to_main SIG_EVENT_CHECK
                  (if call_up c then c\<lparr>SetupCallAllowTime := clk 0 + 1000\<rparr> else c))
      | MODEM_REPORT_RESET_EVENT \<Rightarrow>
          Some (main_quit ((emit (ToDevice RIL_REQUEST_QUIT) c)\<lparr>g_donot_exit_when_modem_hangup := True\<rparr>))
      | RIL_UNSOL_LOOPBACK_CONFIG_IND ind \<Rightarrow>
          (if length ind = 15 then do {
             l \<leftarrow> rd8 ind 7;
             r \<leftarrow> rd32 ind 11;
             let c = c\<lparr>cm_profile := (cm_profile c)\<lparr>loopback_state := l, replication_factor := sint r\<rparr>\<rparr>;
             Some (if l \<noteq> 0 then send_signo_to_main SIG_EVENT_START c else c) }
           else Some c)
      | _ \<Rightarrow> Some c)"

text \<open>
  One round of the loop.  \<open>poll\<close> times out, fails, or reports the signal and the device descriptor;
  \<open>ev\<close> is what reading the device descriptor gives.
\<close>

record revents =
  poll_err :: bool
  poll_hup :: bool
  poll_in :: bool

datatype poll_result = PollTimeout | PollError | PollReady revents revents

definition poll_flags :: "revents \<Rightarrow> 's cm \<Rightarrow> 's cm" where
  "poll_flags r c =
     (if poll_err r \<or> poll_hup r then
        let c = emit (ToDevice RIL_REQUEST_QUIT) c in if poll_hup r then main_quit c else c
      else c)"

definition main_poll ::
  "'s request_ops \<Rightarrow> 's qmi_device_ops \<Rightarrow> cm_env \<Rightarrow> (nat \<Rightarrow> u64) \<Rightarrow> poll_result \<Rightarrow> cm_event option
     \<Rightarrow> 's cm \<Rightarrow> 's cm option" where
  "main_poll ops dev env clk r ev c =
     (case r of
        PollTimeout \<Rightarrow> Some (send_signo_to_main SIG_EVENT_CHECK c)
      | PollError \<Rightarrow> Some (main_quit c)
      | PollReady rs rd \<Rightarrow> do {
          let c = poll_flags rs c;
          c \<leftarrow> (if running c \<and> poll_in rs then
                 (case signals c of
                    [] \<Rightarrow> Some c
                  | signo # rest \<Rightarrow> handle_signal ops dev env clk signo (c\<lparr>signals := rest\<rparr>))
               else Some c);
          if running c then
            (let c = poll_flags rd c in
             if running c \<and> poll_in rd then
               (case ev of None \<Rightarrow> Some c | Some e \<Rightarrow> handle_device ops clk e c)
             else Some c)
          else Some c })"

text \<open>\<open>ql_sigaction\<close>: the alarm, and the termination signals.\<close>

definition ql_sigaction :: "bool \<Rightarrow> 's cm \<Rightarrow> 's cm" where
  "ql_sigaction is_alarm c =
     (if is_alarm then send_signo_to_main SIG_EVENT_START c
      else emit (ToDevice SIG_EVENT_STOP)
             (send_signo_to_main SIG_EVENT_STOP (c\<lparr>g_donot_exit_when_modem_hangup := False\<rparr>)))"

inductive cm_step :: "'s request_ops \<Rightarrow> 's qmi_device_ops \<Rightarrow> cm_env \<Rightarrow> 's cm \<Rightarrow> 's cm \<Rightarrow> bool"
  for ops dev env where
  poll: "cm_step ops dev env c c'" if "running c" and "main_poll ops dev env clk r ev c = Some c'"
| alarm: "cm_step ops dev env c (ql_sigaction True (c\<lparr>cm_alarm := 0\<rparr>))" if "cm_alarm c \<noteq> 0"
| signal: "cm_step ops dev env c (ql_sigaction False c)"

section \<open>Start-up\<close>

text \<open>
  \<open>sim_wait\<close> asks again for as long as the modem answers \<^verbatim>\<open>QMI_ERR_OP_DEVICE_UNSUPPORTED\<close>, which the
  source does not bound.
\<close>

definition QMI_ERR_OP_DEVICE_UNSUPPORTED :: int where "QMI_ERR_OP_DEVICE_UNSUPPORTED = 0x0019"
definition QMI_ERR_INVALID_QMI_CMD :: int where "QMI_ERR_INVALID_QMI_CMD = 0x0047"

partial_function (option) sim_wait ::
  "(SIM_Status \<Rightarrow> 's \<Rightarrow> (int \<times> SIM_Status \<times> 's) option) \<Rightarrow> SIM_Status \<Rightarrow> 's \<Rightarrow> (SIM_Status \<times> 's) option" where
  "sim_wait get SIMStatus s =
     (case get SIMStatus s of
        None \<Rightarrow> None
      | Some (qmierr, SIMStatus, s) \<Rightarrow>
          if qmierr = QMI_ERR_OP_DEVICE_UNSUPPORTED then sim_wait get SIMStatus s
          else Some (SIMStatus, s))"

declare sim_wait.simps [code]

definition start_sim :: "'s request_ops \<Rightarrow> profile \<Rightarrow> 's \<Rightarrow> 's option" where
  "start_sim ops profile s =
     (case op_requestGetSIMStatus ops of
        None \<Rightarrow> Some s
      | Some get \<Rightarrow> do {
          (SIMStatus, s) \<leftarrow> sim_wait get SIM_ABSENT s;
          s \<leftarrow> (case (pincode profile, op_requestEnterSimPin ops) of
            (Some pin, Some enter) \<Rightarrow>
              if SIMStatus = SIM_PIN then do { (err, s) \<leftarrow> enter pin s; Some s } else Some s
          | _ \<Rightarrow> Some s);
          if SIMStatus = SIM_READY then run_prints (op_sim_requests ops) s else Some s })"

definition dial_by_profile :: "cm_env \<Rightarrow> int \<Rightarrow> profile \<Rightarrow> profile" where
  "dial_by_profile env ret profile =
     (if (ret = 0 \<or> ret = 1) \<and> profile_index profile \<noteq> 0 \<and> apn profile \<noteq> None
         \<and> null_or_empty (user profile) \<and> QCM_DIAL_BY_PROFILE env
      then profile\<lparr>apn := None\<rparr> else profile)"

definition start_profile :: "'s request_ops \<Rightarrow> cm_env \<Rightarrow> profile \<Rightarrow> 's \<Rightarrow> (profile \<times> 's) option" where
  "start_profile ops env profile s =
     (if idProduct profile = 0x0316 then Some (profile, s)
      else do {
        (profile, s) \<leftarrow> (case op_requestGetProfile ops of
            None \<Rightarrow> Some (profile, s)
          | Some f \<Rightarrow> do { (err, profile, s) \<leftarrow> f profile s; Some (profile, s) });
        case op_requestSetProfile ops of
          None \<Rightarrow> Some (profile, s)
        | Some f \<Rightarrow>
            if apn profile \<noteq> None \<or> user profile \<noteq> None \<or> pd profile \<noteq> None then do {
              (ret, s) \<leftarrow> f profile s;
              Some (dial_by_profile env ret profile, s) }
            else Some (profile, s) })"

definition start_loopback :: "'s request_ops \<Rightarrow> profile \<Rightarrow> 's \<Rightarrow> (profile \<times> 's) option" where
  "start_loopback ops profile s =
     (case op_requestSetLoopBackState ops of
        Some f \<Rightarrow>
          if loopback_state profile \<noteq> 0 then do {
            (qmierr, s) \<leftarrow> f (loopback_state profile) (of_int (replication_factor profile)) s;
            Some (if qmierr \<noteq> QMI_ERR_INVALID_QMI_CMD then profile\<lparr>loopback_state := 0\<rparr> else profile, s) }
          else Some (profile, s)
      | None \<Rightarrow> Some (profile, s))"

definition run_opt ::
  "(profile \<Rightarrow> 's \<Rightarrow> (int \<times> profile \<times> 's) option) option \<Rightarrow> profile \<Rightarrow> 's \<Rightarrow> (int \<times> profile \<times> 's) option" where
  "run_opt f profile s = (case f of None \<Rightarrow> Some (0, profile, s) | Some g \<Rightarrow> g profile s)"

text \<open>
  From the first event of the reader thread to the loop.  \<open>first\<close> is the event read; \<open>lnk\<close> is
  \<^verbatim>\<open>s_link\<close>, which survives a restart after a modem reset.  The early returns leave \<open>running\<close> false.
\<close>

definition qmi_main_start ::
  "'s request_ops \<Rightarrow> 's qmi_device_ops \<Rightarrow> cm_env \<Rightarrow> u64 \<Rightarrow> cm_event option \<Rightarrow> int \<Rightarrow> profile \<Rightarrow> 's \<Rightarrow> 's cm option" where
  "qmi_main_start ops dev env now first lnk profile s =
     (let c = \<lparr>cm_profile = profile, requests = s, PSAttachedState = 0,
          IPv4ConnectionStatus = QWDS_PKT_DATA_UNKNOW, IPv6ConnectionStatus = QWDS_PKT_DATA_UNKNOW,
          SetupCallFail = 0, SetupCallAllowTime = now, s_link = lnk,
          g_donot_exit_when_modem_hangup = False, signals = [], cm_alarm = 0, effects = [],
          running = True\<rparr> in
      if first \<noteq> Some RIL_INDICATE_DEVICE_CONNECTED then Some (c\<lparr>running := False\<rparr>)
      else do {
        (err, profile, s) \<leftarrow> run_opt (dev_init dev) profile s;
        if err \<noteq> 0 then Some (c\<lparr>cm_profile := profile, requests := s, running := False\<rparr>)
        else do {
          (_, profile, s) \<leftarrow> run_opt (op_requestBaseBandVersion ops) profile s;
          (_, profile, s) \<leftarrow> run_opt (op_requestSetEthMode ops) profile s;
          (profile, s) \<leftarrow> start_loopback ops profile s;
          s \<leftarrow> start_sim ops profile s;
          (profile, s) \<leftarrow> start_profile ops env profile s;
          c \<leftarrow> cm_registration ops (c\<lparr>cm_profile := profile, requests := s\<rparr>);
          c \<leftarrow> (if enable_ipv4 profile \<noteq> 0 \<and> ops_kind ops = atc_ops_kind then do {
                 (err, c) \<leftarrow> cm_query4 ops c;
                 if err = 0 \<and> IPv4ConnectionStatus c = QWDS_PKT_DATA_CONNECTED
                 then cm_deactivate ops IpFamilyV4 c else Some c }
               else Some c);
          Some (send_signo_to_main SIG_EVENT_CHECK c) } })"

end
