(* ===== verification/ConnLaws.thy ===== *)
theory ConnLaws
  imports ConnManager
begin

text \<open>
  What the event loop relies on from a table of requests, the locale \<open>data_call_ops\<close>: data-call
  requests leave the user's settings alone, and the conflict code they record is one that stands for
  an existing PDN.  The loop's properties are proved once over these laws; the interpretation
  discharges them for the QMI requests.
\<close>

section \<open>Frames\<close>

definition user_settings :: "profile \<Rightarrow> string option \<times> string option \<times> string option \<times> int \<times> int \<times> u8 \<times> u8 \<times> u8" where
  "user_settings p = (apn p, user p, pd p, auth p, profile_index p, enable_ipv4 p, enable_ipv6 p, loopback_state p)"

definition conflict_codes :: "u16 set" where "conflict_codes = {55, 209, 211}"

text \<open>The part of the loop's state that no request changes.\<close>

definition loop_rest :: "'s cm \<Rightarrow> (u8 \<times> u32 \<times> u64 \<times> int \<times> bool) \<times> cm_event list \<times> u32 \<times> effect list \<times> bool" where
  "loop_rest c = ((PSAttachedState c, SetupCallFail c, SetupCallAllowTime c, s_link c,
     g_donot_exit_when_modem_hangup c), signals c, cm_alarm c, effects c, running c)"

definition statuses :: "'s cm \<Rightarrow> u8 \<times> u8" where
  "statuses c = (IPv4ConnectionStatus c, IPv6ConnectionStatus c)"

lemma cm_setup_kept:
  "cm_setup ops f c = Some (e, c') \<Longrightarrow> loop_rest c' = loop_rest c \<and> statuses c' = statuses c"
  by (auto simp: cm_setup_def run_conv loop_rest_def statuses_def)

lemma cm_getip_kept:
  "cm_getip ops f c = Some (e, c') \<Longrightarrow> loop_rest c' = loop_rest c \<and> statuses c' = statuses c"
  by (auto simp: cm_getip_def run_conv loop_rest_def statuses_def)

lemma cm_deactivate_kept:
  "cm_deactivate ops f c = Some c' \<Longrightarrow> loop_rest c' = loop_rest c \<and> statuses c' = statuses c"
  by (auto simp: cm_deactivate_def run_conv loop_rest_def statuses_def)

lemma loop_rest_profile [simp]: "loop_rest (c\<lparr>cm_profile := p\<rparr>) = loop_rest c"
  and statuses_profile [simp]: "statuses (c\<lparr>cm_profile := p\<rparr>) = statuses c"
  and loop_rest_requests [simp]: "loop_rest (c\<lparr>requests := s\<rparr>) = loop_rest c"
  and statuses_requests [simp]: "statuses (c\<lparr>requests := s\<rparr>) = statuses c"
  and loop_rest_v4 [simp]: "loop_rest (c\<lparr>IPv4ConnectionStatus := v\<rparr>) = loop_rest c"
  and statuses_v4 [simp]: "statuses (c\<lparr>IPv4ConnectionStatus := v\<rparr>) = (v, snd (statuses c))"
  and loop_rest_v6 [simp]: "loop_rest (c\<lparr>IPv6ConnectionStatus := v\<rparr>) = loop_rest c"
  and statuses_v6 [simp]: "statuses (c\<lparr>IPv6ConnectionStatus := v\<rparr>) = (fst (statuses c), v)"
  by (simp_all add: loop_rest_def statuses_def)

lemma status_sel:
  "IPv4ConnectionStatus c = fst (statuses c)" "IPv6ConnectionStatus c = snd (statuses c)"
  by (simp_all add: statuses_def)

lemmas kept = cm_setup_kept cm_getip_kept cm_deactivate_kept

lemma retry_auth_kept:
  "retry_auth ops (e, c) = Some (e', c') \<Longrightarrow> loop_rest c' = loop_rest c \<and> statuses c' = statuses c"
  by (auto simp: retry_auth_def run_conv Let_def dest!: cm_setup_kept)

lemma retry_profile_kept:
  "retry_profile ops env (e, c) = Some (e', c') \<Longrightarrow> loop_rest c' = loop_rest c \<and> statuses c' = statuses c"
  by (auto simp: retry_profile_def run_conv Let_def dest!: cm_setup_kept)

lemma start_v4E:
  assumes "start_v4 ops env c = Some (k, c')"
  obtains (idle) "c' = c" "k = 0"
  | (refused) e1 c1 e2 c2 e3 where "cm_setup ops IpFamilyV4 c = Some (e1, c1)" "retry_auth ops (e1, c1) = Some (e2, c2)"
      "retry_profile ops env (e2, c2) = Some (e3, c')" "e3 \<noteq> 0" "k = op_pdn_conflict ops (requests c')"
  | (up) e1 c1 e2 c2 c3 e4 c4 where "cm_setup ops IpFamilyV4 c = Some (e1, c1)" "retry_auth ops (e1, c1) = Some (e2, c2)"
      "retry_profile ops env (e2, c2) = Some (0, c3)" "k = 0" "cm_getip ops IpFamilyV4 c3 = Some (e4, c4)"
      "c' = (if e4 = 0 then c4\<lparr>IPv4ConnectionStatus := QWDS_PKT_DATA_CONNECTED\<rparr> else c4)"
      "enable_ipv4 (cm_profile c) \<noteq> 0"
  using assms unfolding start_v4_def by (auto simp: run_conv split: if_splits)

lemma start_v4_kept:
  "start_v4 ops env c = Some (k, c') \<Longrightarrow> loop_rest c' = loop_rest c
     \<and> snd (statuses c') = snd (statuses c)
     \<and> (fst (statuses c') = fst (statuses c)
        \<or> fst (statuses c') = QWDS_PKT_DATA_CONNECTED \<and> enable_ipv4 (cm_profile c) \<noteq> 0)"
  by (elim start_v4E) (auto dest!: cm_setup_kept retry_auth_kept retry_profile_kept cm_getip_kept)

lemma start_v6_kept:
  "start_v6 ops env c = Some c' \<Longrightarrow> loop_rest c' = loop_rest c
     \<and> fst (statuses c') = fst (statuses c)
     \<and> (snd (statuses c') = snd (statuses c)
        \<or> enable_ipv6 (cm_profile c) \<noteq> 0 \<and> snd (statuses c') \<in> {fst (statuses c), QWDS_PKT_DATA_CONNECTED})"
  by (auto simp: start_v6_def run_conv Let_def status_sel dest!: cm_setup_kept cm_getip_kept)

lemma start_calls_kept:
  "start_calls ops env c = Some (k, c') \<Longrightarrow> loop_rest c' = loop_rest c"
  by (auto simp: start_calls_def run_conv Let_def dest!: start_v4_kept start_v6_kept)


section \<open>The loop invariant\<close>

text \<open>Only enabled families are ever connected, and the link word is one the loop can compute.\<close>

definition cm_inv :: "'s cm \<Rightarrow> bool" where
  "cm_inv c \<longleftrightarrow> (IPv4ConnectionStatus c = QWDS_PKT_DATA_CONNECTED \<longrightarrow> enable_ipv4 (cm_profile c) \<noteq> 0)
     \<and> (IPv6ConnectionStatus c = QWDS_PKT_DATA_CONNECTED \<longrightarrow> enable_ipv6 (cm_profile c) \<noteq> 0)
     \<and> s_link c \<in> {-1, 0, 16, 64, 80}"

lemma cm_inv_cong:
  assumes "cm_inv c" and "statuses c' = statuses c" and "s_link c' = s_link c"
    and "enable_ipv4 (cm_profile c') = enable_ipv4 (cm_profile c)"
    and "enable_ipv6 (cm_profile c') = enable_ipv6 (cm_profile c)"
  shows "cm_inv c'"
  using assms by (simp add: cm_inv_def statuses_def)

lemma cm_inv_upd [simp]:
  "cm_inv (c\<lparr>requests := s\<rparr>) = cm_inv c" "cm_inv (c\<lparr>signals := sg\<rparr>) = cm_inv c"
  "cm_inv (c\<lparr>cm_alarm := a\<rparr>) = cm_inv c" "cm_inv (c\<lparr>running := r\<rparr>) = cm_inv c"
  "cm_inv (c\<lparr>SetupCallAllowTime := t\<rparr>) = cm_inv c" "cm_inv (c\<lparr>SetupCallFail := n\<rparr>) = cm_inv c"
  "cm_inv (c\<lparr>PSAttachedState := ps\<rparr>) = cm_inv c" "cm_inv (c\<lparr>g_donot_exit_when_modem_hangup := g\<rparr>) = cm_inv c"
  "cm_inv (send_signo_to_main sg' c) = cm_inv c" "cm_inv (emit e c) = cm_inv c"
  "cm_inv (ql_sigaction al c) = cm_inv c"
  by (simp_all add: cm_inv_def send_signo_to_main_def emit_def ql_sigaction_def)

lemma usbnet_link_change_simps [simp]:
  "statuses (usbnet_link_change l c) = statuses c" "s_link (usbnet_link_change l c) = l"
  "enable_ipv4 (cm_profile (usbnet_link_change l c)) = enable_ipv4 (cm_profile c)"
  "enable_ipv6 (cm_profile (usbnet_link_change l c)) = enable_ipv6 (cm_profile c)"
  "running (usbnet_link_change l c) = running c" "signals (usbnet_link_change l c) = signals c"
  by (simp_all add: usbnet_link_change_def statuses_def emit_def Let_def)

lemma usbnet_link_change_inv:
  "cm_inv c \<Longrightarrow> l \<in> {0, 16, 64, 80} \<Longrightarrow> cm_inv (usbnet_link_change l c)"
  by (auto simp: cm_inv_def status_sel)

lemma main_quit_inv [simp]: "cm_inv c \<Longrightarrow> cm_inv (main_quit c)"
  by (simp add: main_quit_def usbnet_link_change_inv)

lemma dev_shutdown_running: "dev_shutdown dev c = Some c' \<Longrightarrow> \<not> running c'"
  by (auto simp: dev_shutdown_def run_conv Let_def main_quit_def)

lemma dev_shutdown_inv: "cm_inv c \<Longrightarrow> dev_shutdown dev c = Some c' \<Longrightarrow> cm_inv c'"
  by (auto simp: dev_shutdown_def run_conv Let_def usbnet_link_change_inv)

lemma start_backoff_inv [simp]: "cm_inv (start_backoff clk c) = cm_inv c"
  by (simp add: start_backoff_def Let_def)

lemma cm_registration_inv: "cm_inv c \<Longrightarrow> cm_registration ops c = Some c' \<Longrightarrow> cm_inv c'"
  by (auto simp: cm_registration_def run_conv)

lemma check_link_inv: "cm_inv c \<Longrightarrow> cm_inv (check_link c)"
  by (auto simp: check_link_def link_word_def usbnet_link_change_inv)

text \<open>The invariant through the do-notation.\<close>

lemmas cm_bind = always_bind [where P = cm_inv]

lemma cm_bind2:
  "always (cm_inv \<circ> snd) m \<Longrightarrow> (\<And>e c. cm_inv c \<Longrightarrow> always Q (f e c)) \<Longrightarrow>
     always Q (Option.bind m (\<lambda>(e, c). f e c))"
  by (rule always_bind [where P = "cm_inv \<circ> snd"]) auto

lemma cm_bind_pure:
  "(\<And>x. always Q (f x)) \<Longrightarrow> always Q (Option.bind m f)"
  by (rule always_bind [where P = "\<lambda>_. True"]) (simp_all add: always_def)

section \<open>The laws\<close>

text \<open>Everything of the settings but the authentication and the IPv6 switch, which the loop itself changes.\<close>

definition fixed_settings :: "profile \<Rightarrow> string option \<times> string option \<times> string option \<times> int \<times> u8 \<times> u8" where
  "fixed_settings p = (apn p, user p, pd p, profile_index p, enable_ipv4 p, loopback_state p)"

locale data_call_ops =
  fixes ops :: "'s request_ops"
  assumes setup_settings:
      "op_requestSetupDataCall ops p f s = Some (e, p', s') \<Longrightarrow> user_settings p' = user_settings p"
    and setup_conflict:
      "op_requestSetupDataCall ops p f s = Some (e, p', s') \<Longrightarrow> op_pdn_conflict ops s' \<in> insert 0 conflict_codes"
    and getip_settings:
      "op_requestGetIPAddress ops p f s = Some (e, p', s') \<Longrightarrow> user_settings p' = user_settings p"
    and getip_conflict:
      "op_requestGetIPAddress ops p f s = Some (e, p', s') \<Longrightarrow> op_pdn_conflict ops s' = op_pdn_conflict ops s"
    and deactivate_settings:
      "op_requestDeactivateDefaultPDP ops p f s = Some (e, p', s') \<Longrightarrow> user_settings p' = user_settings p"
    and clear_conflict: "op_pdn_conflict ops (op_clear_pdn_conflict ops s) = 0"
begin

lemma cm_setup_settings:
  "cm_setup ops f c = Some (e, c') \<Longrightarrow> user_settings (cm_profile c') = user_settings (cm_profile c)"
  by (auto simp: cm_setup_def run_conv dest: setup_settings)

lemma cm_setup_conflict:
  "cm_setup ops f c = Some (e, c') \<Longrightarrow> op_pdn_conflict ops (requests c') \<in> insert 0 conflict_codes"
  by (auto simp: cm_setup_def run_conv dest!: setup_conflict)

lemma cm_getip_settings:
  "cm_getip ops f c = Some (e, c') \<Longrightarrow> user_settings (cm_profile c') = user_settings (cm_profile c)"
  by (auto simp: cm_getip_def run_conv dest: getip_settings)

lemma cm_getip_conflict:
  "cm_getip ops f c = Some (e, c') \<Longrightarrow> op_pdn_conflict ops (requests c') = op_pdn_conflict ops (requests c)"
  by (auto simp: cm_getip_def run_conv dest: getip_conflict)

lemma cm_deactivate_settings:
  "cm_deactivate ops f c = Some c' \<Longrightarrow> user_settings (cm_profile c') = user_settings (cm_profile c)"
  by (auto simp: cm_deactivate_def run_conv dest: deactivate_settings)

text \<open>A retry with the other authentication keeps it only when the call comes up.\<close>

lemma retry_auth_settings:
  assumes "retry_auth ops (e, c) = Some (e', c')"
  shows "fixed_settings (cm_profile c') = fixed_settings (cm_profile c)
      \<and> enable_ipv6 (cm_profile c') = enable_ipv6 (cm_profile c)
      \<and> (auth (cm_profile c') = auth (cm_profile c)
         \<or> e' = 0 \<and> e > 0 \<and> auth (cm_profile c') = (if auth (cm_profile c) = 1 then 2 else 1))"
  using assms
  by (cases "e' = 0")
    (auto simp: retry_auth_def run_conv Let_def fixed_settings_def user_settings_def
      dest!: cm_setup_settings)

lemma retry_auth_conflict:
  assumes "retry_auth ops (e, c) = Some (e', c')" "op_pdn_conflict ops (requests c) \<in> insert 0 conflict_codes"
  shows "op_pdn_conflict ops (requests c') \<in> insert 0 conflict_codes"
  using assms by (auto simp: retry_auth_def run_conv Let_def dest!: cm_setup_conflict split: if_splits)

text \<open>The retry without the APN puts the APN back.\<close>

lemma retry_profile_settings:
  assumes "retry_profile ops env (e, c) = Some (e', c')"
  shows "user_settings (cm_profile c') = user_settings (cm_profile c)"
  using assms
  by (auto simp: retry_profile_def run_conv Let_def user_settings_def dest!: cm_setup_settings split: if_splits)

lemma retry_profile_conflict:
  assumes "retry_profile ops env (e, c) = Some (e', c')" "op_pdn_conflict ops (requests c) \<in> insert 0 conflict_codes"
  shows "op_pdn_conflict ops (requests c') \<in> insert 0 conflict_codes"
  using assms by (auto simp: retry_profile_def run_conv Let_def dest!: cm_setup_conflict split: if_splits)

lemma user_fixed:
  "user_settings p' = user_settings p \<Longrightarrow> fixed_settings p' = fixed_settings p
     \<and> enable_ipv6 p' = enable_ipv6 p \<and> auth p' = auth p"
  by (simp add: user_settings_def fixed_settings_def)

lemma start_v4_settings:
  assumes "start_v4 ops env c = Some (k, c')"
  shows "fixed_settings (cm_profile c') = fixed_settings (cm_profile c)
      \<and> enable_ipv6 (cm_profile c') = enable_ipv6 (cm_profile c)
      \<and> auth (cm_profile c') \<in> {auth (cm_profile c), if auth (cm_profile c) = 1 then 2 else 1}"
proof -
  have upd: "cm_profile (if b then d\<lparr>IPv4ConnectionStatus := v\<rparr> else d) = cm_profile d" for b d v by simp
  show ?thesis
    using assms
    by (elim start_v4E)
      (auto simp: upd dest!: cm_setup_settings [THEN user_fixed] retry_auth_settings
        retry_profile_settings [THEN user_fixed] cm_getip_settings [THEN user_fixed])
qed

lemma start_v4_conflict:
  assumes "start_v4 ops env c = Some (k, c')"
  shows "k \<in> insert 0 conflict_codes"
  using assms
  by (auto simp: start_v4_def run_conv simp del: insert_iff
      dest!: cm_setup_conflict retry_auth_conflict retry_profile_conflict)

lemma start_v6_settings:
  assumes "start_v6 ops env c = Some c'"
  shows "fixed_settings (cm_profile c') = fixed_settings (cm_profile c)
      \<and> auth (cm_profile c') = auth (cm_profile c)
      \<and> (enable_ipv6 (cm_profile c') = enable_ipv6 (cm_profile c)
         \<or> enable_ipv6 (cm_profile c') = 0 \<and> IPv6ConnectionStatus c' \<noteq> QWDS_PKT_DATA_CONNECTED
            \<and> IPv4ConnectionStatus c = QWDS_PKT_DATA_CONNECTED)"
proof (cases "enable_ipv6 (cm_profile c) \<noteq> 0 \<and> IPv6ConnectionStatus c \<noteq> QWDS_PKT_DATA_CONNECTED
    \<and> \<not> (enable_ipv4 (cm_profile c) \<noteq> 0 \<and> ops_kind ops \<noteq> qmi_ops_kind)")
  case act: True
  then obtain e c1 where c1: "cm_setup ops IpFamilyV6 c = Some (e, c1)"
    using assms by (auto simp: start_v6_def run_conv Let_def)
  note k = cm_setup_kept [OF c1] and u = cm_setup_settings [OF c1, THEN user_fixed]
  show ?thesis
  proof (cases "e = 0")
    case True
    with act c1 assms obtain e2 c2 where "cm_getip ops IpFamilyV6 c1 = Some (e2, c2)"
        "cm_profile c' = cm_profile c2"
      by (auto simp: start_v6_def run_conv Let_def)
    then show ?thesis using cm_getip_settings [THEN user_fixed, of IpFamilyV6 c1 e2 c2] u by simp
  next
    case False
    with act c1 assms k have "c' = c1 \<or> IPv4ConnectionStatus c = QWDS_PKT_DATA_CONNECTED
        \<and> IPv6ConnectionStatus c' \<noteq> QWDS_PKT_DATA_CONNECTED \<and> cm_profile c' = (cm_profile c1)\<lparr>enable_ipv6 := 0\<rparr>"
      by (auto simp: start_v6_def run_conv Let_def status_sel split: if_splits)
    with u show ?thesis by (auto simp: fixed_settings_def)
  qed
next
  case False
  with assms show ?thesis by (auto simp: start_v6_def split: if_splits)
qed

lemma start_calls_settings:
  assumes "start_calls ops env c = Some (k, c')"
  shows "fixed_settings (cm_profile c') = fixed_settings (cm_profile c)"
  using assms
  by (auto simp: start_calls_def run_conv Let_def dest!: start_v4_settings start_v6_settings)

lemma start_calls_conflict:
  assumes "start_calls ops env c = Some (k, c')"
  shows "k \<in> insert 0 conflict_codes"
  using assms by (auto simp: start_calls_def run_conv Let_def simp del: insert_iff dest!: start_v4_conflict)

lemma start_calls_v4_up:
  assumes "start_calls ops env c = Some (k, c')" and "IPv4ConnectionStatus c = QWDS_PKT_DATA_CONNECTED"
  shows "IPv4ConnectionStatus c' = QWDS_PKT_DATA_CONNECTED \<and> k = 0"
proof -
  have idle: "start_v4 ops env d = Some (0, d)" if "IPv4ConnectionStatus d = QWDS_PKT_DATA_CONNECTED" for d
    using that by (simp add: start_v4_def)
  show ?thesis
    using assms idle
    by (auto simp: start_calls_def run_conv Let_def status_sel dest!: start_v6_kept split: if_splits)
qed

text \<open>An established IPv4 call survives every start event, whatever becomes of IPv6.\<close>

lemma start_keeps_v4:
  assumes "sig_start ops dev env clk c = Some c'" and "enable_ipv4 (cm_profile c) \<noteq> 0"
    and "IPv4ConnectionStatus c = QWDS_PKT_DATA_CONNECTED"
  shows "IPv4ConnectionStatus c' = QWDS_PKT_DATA_CONNECTED \<and> running c' = running c
      \<and> s_link c' = s_link c \<and> effects c' = effects c
      \<and> fixed_settings (cm_profile c') = fixed_settings (cm_profile c)"
proof (cases "(PSAttachedState c \<noteq> 1 \<and> loopback_state (cm_profile c) = 0) \<or> SetupCallAllowTime c > clk 0")
  case True
  with assms show ?thesis by (auto simp: sig_start_def split: if_splits)
next
  case False
  with assms(1) obtain k c1 where c1: "start_calls ops env c = Some (k, c1)"
    by (auto simp: sig_start_def run_conv)
  note up = start_calls_v4_up [OF c1 assms(3)] and u = start_calls_settings [OF c1]
  from u assms(2) have "enable_ipv4 (cm_profile c1) \<noteq> 0" by (simp add: fixed_settings_def)
  with False assms(1) c1 up have "c' = start_backoff clk c1" by (auto simp: sig_start_def)
  with up u start_calls_kept [OF c1] show ?thesis
    by (auto simp: start_backoff_def Let_def loop_rest_def)
qed

lemma start_v6_conflict:
  assumes "start_v6 ops env c = Some c'" and "op_pdn_conflict ops (requests c) \<in> insert 0 conflict_codes"
  shows "op_pdn_conflict ops (requests c') \<in> insert 0 conflict_codes"
proof (cases "enable_ipv6 (cm_profile c) \<noteq> 0 \<and> IPv6ConnectionStatus c \<noteq> QWDS_PKT_DATA_CONNECTED
    \<and> \<not> (enable_ipv4 (cm_profile c) \<noteq> 0 \<and> ops_kind ops \<noteq> qmi_ops_kind)")
  case act: True
  then obtain e c1 where c1: "cm_setup ops IpFamilyV6 c = Some (e, c1)"
    using assms(1) by (auto simp: start_v6_def run_conv Let_def)
  then have k: "op_pdn_conflict ops (requests c1) \<in> insert 0 conflict_codes" by (rule cm_setup_conflict)
  show ?thesis
  proof (cases "e = 0")
    case True
    with act c1 assms(1) obtain e2 c2 where "cm_getip ops IpFamilyV6 c1 = Some (e2, c2)"
        "requests c' = requests c2"
      by (auto simp: start_v6_def run_conv Let_def)
    with k show ?thesis using cm_getip_conflict [of IpFamilyV6 c1 e2 c2] by simp
  next
    case False
    with act c1 assms(1) have "requests c' \<in> {requests c1, op_clear_pdn_conflict ops (requests c1)}"
      by (auto simp: start_v6_def run_conv Let_def split: if_splits)
    with k show ?thesis using clear_conflict by auto
  qed
next
  case False
  with assms show ?thesis by (auto simp: start_v6_def split: if_splits)
qed

lemma dev_shutdown_result:
  assumes "dev_shutdown dev c = Some c'"
  shows "\<not> running c'" and "s_link c' = 0" and "set (effects c) \<subseteq> set (effects c')"
    and "ToDevice RIL_REQUEST_QUIT \<in> set (effects c')"
  using assms
  by (auto simp: dev_shutdown_def run_conv Let_def main_quit_def usbnet_link_change_def emit_def)

text \<open>The loop gives up on a start event only for a recorded conflict, and says so to the caller.\<close>

lemma start_quits_on_conflict:
  assumes "sig_start ops dev env clk c = Some c'" and "running c" and "\<not> running c'"
    and "op_pdn_conflict ops (requests c) \<in> insert 0 conflict_codes"
  shows "QCM_EXIT_ON_PDN_CONFLICT env \<and> (\<exists>r \<in> conflict_codes. ConflictFile r \<in> set (effects c')) \<and> s_link c' = 0"
proof -
  from assms(1-3) have act: "PSAttachedState c = 1 \<or> loopback_state (cm_profile c) \<noteq> 0" "\<not> SetupCallAllowTime c > clk 0"
    by (auto simp: sig_start_def split: if_splits)
  with assms(1) obtain k c1 where c1: "start_calls ops env c = Some (k, c1)"
    by (auto simp: sig_start_def run_conv split: if_splits)
  have k: "k \<in> insert 0 conflict_codes" by (rule start_calls_conflict [OF c1])
  have r: "running c1" using start_calls_kept [OF c1] assms(2) by (simp add: loop_rest_def)
  let ?r = "if enable_ipv4 (cm_profile c1) \<noteq> 0 then k else op_pdn_conflict ops (requests c1)"
  from act assms(1,3) c1 r have q: "?r \<noteq> 0" "QCM_EXIT_ON_PDN_CONFLICT env"
      "dev_shutdown dev (emit (ConflictFile ?r) c1) = Some c'"
    by (auto simp: sig_start_def Let_def start_backoff_def split: if_splits)
  have "op_pdn_conflict ops (requests c1) \<in> insert 0 conflict_codes" if "enable_ipv4 (cm_profile c1) = 0"
  proof -
    from that start_calls_settings [OF c1] have "enable_ipv4 (cm_profile c) = 0" by (simp add: fixed_settings_def)
    then have "start_v6 ops env c = Some c1"
      using c1 by (auto simp: start_calls_def start_v4_def run_conv)
    then show ?thesis by (rule start_v6_conflict) (rule assms(4))
  qed
  with k q(1) have "?r \<in> conflict_codes" by auto
  with q dev_shutdown_result [OF q(3)] show ?thesis by (auto simp: emit_def)
qed

text \<open>Every handler keeps the invariant.\<close>

lemma fixed_enable: "fixed_settings p' = fixed_settings p \<Longrightarrow> enable_ipv4 p' = enable_ipv4 p"
  by (simp add: fixed_settings_def)

lemma cm_inv_alt:
  "cm_inv c \<longleftrightarrow> (fst (statuses c) = QWDS_PKT_DATA_CONNECTED \<longrightarrow> enable_ipv4 (cm_profile c) \<noteq> 0)
     \<and> (snd (statuses c) = QWDS_PKT_DATA_CONNECTED \<longrightarrow> enable_ipv6 (cm_profile c) \<noteq> 0)
     \<and> s_link c \<in> {-1, 0, 16, 64, 80}"
  by (simp add: cm_inv_def statuses_def)

lemma start_v4_inv:
  assumes "cm_inv c" and "start_v4 ops env c = Some (k, c')"
  shows "cm_inv c'"
proof -
  note kept = start_v4_kept [OF assms(2)] and u = start_v4_settings [OF assms(2)]
  have "s_link c' = s_link c" using kept by (simp add: loop_rest_def)
  moreover have "enable_ipv4 (cm_profile c') = enable_ipv4 (cm_profile c)" using u fixed_enable by blast
  ultimately show ?thesis using assms(1) kept u unfolding cm_inv_alt by auto
qed

lemma start_v6_inv:
  assumes "cm_inv c" and "start_v6 ops env c = Some c'"
  shows "cm_inv c'"
proof -
  note kept = start_v6_kept [OF assms(2)] and u = start_v6_settings [OF assms(2)]
  have "s_link c' = s_link c" using kept by (simp add: loop_rest_def)
  moreover have "enable_ipv4 (cm_profile c') = enable_ipv4 (cm_profile c)" using u fixed_enable by blast
  ultimately show ?thesis using assms(1) kept u unfolding cm_inv_alt status_sel by auto
qed

lemma start_calls_inv:
  assumes "cm_inv c" and "start_calls ops env c = Some (k, c')"
  shows "cm_inv c'"
proof -
  from assms(2) consider c1 where "start_v6 ops env c = Some c1" "start_v4 ops env c1 = Some (k, c')"
    | c1 where "start_v4 ops env c = Some (k, c1)" "start_v6 ops env c1 = Some c'"
    by (auto simp: start_calls_def run_conv Let_def split: if_splits)
  then show ?thesis using assms(1) start_v4_inv start_v6_inv by cases blast+
qed

lemma sig_startE:
  assumes "sig_start ops dev env clk c = Some c'"
  obtains (idle) "c' = c" | (wait) a where "c' = c\<lparr>cm_alarm := a\<rparr>"
  | (conflict) k r c1 where "start_calls ops env c = Some (k, c1)" "dev_shutdown dev (emit (ConflictFile r) c1) = Some c'"
  | (backoff) k c1 where "start_calls ops env c = Some (k, c1)" "c' = start_backoff clk c1"
  using assms unfolding sig_start_def by (auto simp: run_conv Let_def split: if_splits)

lemma sig_start_inv:
  assumes "cm_inv c" and "sig_start ops dev env clk c = Some c'"
  shows "cm_inv c'"
  using assms(2)
proof (cases rule: sig_startE)
  case (conflict k r c1)
  with assms(1) show ?thesis using start_calls_inv dev_shutdown_inv cm_inv_upd(10) by blast
next
  case (backoff k c1)
  with assms(1) show ?thesis using start_calls_inv by simp
qed (use assms(1) in simp_all)

lemma cm_getip_inv: "cm_inv c \<Longrightarrow> always (cm_inv \<circ> snd) (cm_getip ops f c)"
proof (intro alwaysI, clarsimp)
  fix e c'
  assume "cm_inv c" "cm_getip ops f c = Some (e, c')"
  then show "cm_inv c'"
    using cm_getip_kept [of ops f c e c'] cm_getip_settings [of f c e c'] cm_inv_cong [of c c']
    by (simp add: user_settings_def loop_rest_def)
qed

lemma cm_deactivate_inv: "cm_inv c \<Longrightarrow> always cm_inv (cm_deactivate ops f c)"
proof (intro alwaysI)
  fix c'
  assume "cm_inv c" "cm_deactivate ops f c = Some c'"
  then show "cm_inv c'"
    using cm_deactivate_kept [of ops f c c'] cm_deactivate_settings [of f c c'] cm_inv_cong [of c c']
    by (simp add: user_settings_def loop_rest_def)
qed

lemma cm_inv_disconnected:
  "cm_inv c \<Longrightarrow> cm_inv (c\<lparr>IPv4ConnectionStatus := QWDS_PKT_DATA_DISCONNECTED\<rparr>)"
  "cm_inv c \<Longrightarrow> cm_inv (c\<lparr>IPv6ConnectionStatus := QWDS_PKT_DATA_DISCONNECTED\<rparr>)"
  by (simp_all add: cm_inv_def QWDS_PKT_DATA_DISCONNECTED_def QWDS_PKT_DATA_CONNECTED_def)

lemma cm_query4_inv:
  "cm_inv c \<Longrightarrow> enable_ipv4 (cm_profile c) \<noteq> 0 \<Longrightarrow> always (cm_inv \<circ> snd) (cm_query4 ops c)"
  by (auto simp: cm_query4_def run_conv cm_inv_def intro!: alwaysI)

lemma cm_query6_inv:
  "cm_inv c \<Longrightarrow> enable_ipv6 (cm_profile c) \<noteq> 0 \<Longrightarrow> always (cm_inv \<circ> snd) (cm_query6 ops c)"
  by (auto simp: cm_query6_def run_conv cm_inv_def intro!: alwaysI)

lemma cm_registration_always: "cm_inv c \<Longrightarrow> always cm_inv (cm_registration ops c)"
  by (intro alwaysI) (rule cm_registration_inv)

lemma check_ipv4_address_inv: "cm_inv c \<Longrightarrow> always (cm_inv \<circ> snd) (check_ipv4_address ops c)"
  unfolding check_ipv4_address_def Let_def
  by (intro always_intro cm_bind2 cm_getip_inv) simp_all

lemma check_v4_inv: "cm_inv c \<Longrightarrow> always cm_inv (check_v4 ops c)"
  unfolding check_v4_def
  by (intro always_intro cm_bind cm_bind2 cm_query4_inv cm_getip_inv check_ipv4_address_inv cm_deactivate_inv)
    (simp_all add: cm_inv_disconnected)

lemma check_v6_inv: "cm_inv c \<Longrightarrow> always cm_inv (check_v6 ops c)"
  unfolding check_v6_def
  by (intro always_intro cm_bind2 cm_query6_inv) (simp_all add: cm_inv_disconnected, simp add: cm_inv_def)

lemma sig_check_inv: "cm_inv c \<Longrightarrow> always cm_inv (sig_check ops c)"
  unfolding sig_check_def Let_def
  by (rule cm_bind_pure, intro always_intro cm_bind cm_registration_always check_v4_inv check_v6_inv)
    (simp_all add: check_link_inv)

lemma sig_stop_inv: "cm_inv c \<Longrightarrow> always cm_inv (sig_stop ops dev c)"
  unfolding sig_stop_def
  by (intro always_intro cm_bind cm_deactivate_inv alwaysI [OF dev_shutdown_inv]) assumption+

lemma sig_start_always: "cm_inv c \<Longrightarrow> always cm_inv (sig_start ops dev env clk c)"
  by (intro alwaysI) (rule sig_start_inv)

lemma handle_signal_inv: "cm_inv c \<Longrightarrow> always cm_inv (handle_signal ops dev env clk e c)"
  unfolding handle_signal_def Let_def
  by (cases e) (simp_all add: always_Some sig_check_inv sig_stop_inv sig_start_always)

lemma handle_device_inv: "cm_inv c \<Longrightarrow> always cm_inv (handle_device ops clk e c)"
proof (cases e)
  case RIL_UNSOL_RESPONSE_VOICE_NETWORK_STATE_CHANGED
  moreover assume "cm_inv c"
  ultimately show ?thesis
    unfolding handle_device_def cm_event.case
    by (auto intro!: always_Some cm_bind cm_registration_always)
next
  case (RIL_UNSOL_LOOPBACK_CONFIG_IND ind)
  moreover assume "cm_inv c"
  moreover have "cm_inv (c\<lparr>cm_profile := (cm_profile c)\<lparr>loopback_state := l, replication_factor := r\<rparr>\<rparr>) = cm_inv c" for l r
    by (simp add: cm_inv_def)
  ultimately show ?thesis
    unfolding handle_device_def Let_def by (auto intro!: always_Some cm_bind_pure)
qed (auto simp: handle_device_def usbnet_link_change_inv intro!: always_Some)

lemma poll_flags_inv: "cm_inv c \<Longrightarrow> cm_inv (poll_flags r c)"
  by (simp add: poll_flags_def Let_def)

lemma main_poll_inv: "cm_inv c \<Longrightarrow> always cm_inv (main_poll ops dev env clk r ev c)"
proof (cases r)
  case (PollReady rs rd)
  moreover assume "cm_inv c"
  ultimately show ?thesis
    unfolding main_poll_def poll_result.case Let_def
    by (auto intro!: cm_bind handle_signal_inv handle_device_inv always_Some poll_flags_inv
        split: list.split option.split)
qed (simp_all add: main_poll_def always_Some)

lemma cm_step_inv: "cm_step ops dev env c c' \<Longrightarrow> cm_inv c \<Longrightarrow> cm_inv c'"
  by (induction rule: cm_step.induct) (auto dest: alwaysD [OF main_poll_inv])

lemma cm_steps_inv: "(cm_step ops dev env)\<^sup>*\<^sup>* c c' \<Longrightarrow> cm_inv c \<Longrightarrow> cm_inv c'"
  by (induction rule: rtranclp_induct) (auto intro: cm_step_inv)

end

section \<open>The QMI requests keep the laws\<close>

lemma conflict_reason_codes: "pdn_conflict_reason ty r \<Longrightarrow> r \<in> conflict_codes"
  by (auto simp: pdn_conflict_reason_def conflict_codes_def)

lemma set_handle_conflict [simp]: "g_pdn_conflict (set_handle f h st) = g_pdn_conflict st"
  by (simp add: set_handle_def)

lemma requestSetupDataCall_result:
  assumes "requestSetupDataCall p f st = Some (e, p', st')"
  shows "p' = p\<lparr>curIpFamily := f\<rparr>" and "g_pdn_conflict st' \<in> insert 0 conflict_codes"
proof -
  let ?p = "p\<lparr>curIpFamily := f\<rparr>"
  from assms obtain m st1 er' st2 where c: "qmi_compose (service_of f) 0x0020
        (Some (WdsStartNwInterfaceReq (s_is_cdma st) (s_hdr_personality st) ?p)) (st\<lparr>g_pdn_conflict := 0\<rparr>) = Some (m, st1)"
      and s': "QmiThreadSendQMI m st1 = (er', st2)"
    by (fastforce simp: requestSetupDataCall_def Let_def bind_eq_Some_conv split_beta)
  obtain er rsp where s: "QmiThreadSendQMI m st1 = ((er, rsp), st2)" using s' by (cases er') simp
  have z: "g_pdn_conflict st2 = 0"
    using qmi_compose_same [OF c] QmiThreadSendQMI_same [OF s] by (simp add: same_link_def)
  show "p' = ?p" "g_pdn_conflict st' \<in> insert 0 conflict_codes"
    using assms c s z conflict_reason_codes
    by (auto simp: requestSetupDataCall_def Let_def run_conv split: if_splits)
qed

lemma ip_pcscf_settings: "ip_pcscf m p = Some p' \<Longrightarrow> user_settings p' = user_settings p"
  by (auto simp: ip_pcscf_def run_conv user_settings_def)

lemma requestGetIPAddress_result:
  assumes "requestGetIPAddress p f st = Some (e, p', st')"
  shows "user_settings p' = user_settings p" and "g_pdn_conflict st' = g_pdn_conflict st"
proof -
  let ?p = "if f = IpFamilyV4 then p\<lparr>ipv4 := zero_ipv4\<rparr> else if f = IpFamilyV6 then p\<lparr>ipv6 := zero_ipv6\<rparr> else p"
  have base: "user_settings ?p = user_settings p" by (simp add: user_settings_def)
  have upd: "user_settings (q\<lparr>ipv4 := a, ipv6 := b\<rparr>) = user_settings q" for q a b
    by (simp add: user_settings_def)
  show "user_settings p' = user_settings p"
    using assms base ip_pcscf_settings [of _ ?p] unfolding requestGetIPAddress_def Let_def [of ?p]
    by (auto simp: run_conv upd split_beta Let_def simp del: split_paired_Ex)
  show "g_pdn_conflict st' = g_pdn_conflict st"
    using assms unfolding requestGetIPAddress_def Let_def
    by (auto simp: run_conv same_link_def dest!: qmi_call_same)
qed

interpretation qmi_ops: data_call_ops qmi_request_ops
proof unfold_locales
  fix p f s e p' s'
  show "user_settings p' = user_settings p"
    if "op_requestSetupDataCall qmi_request_ops p f s = Some (e, p', s')"
    using requestSetupDataCall_result(1) [of p f s e p' s'] that by (simp add: qmi_request_ops_def user_settings_def)
  show "op_pdn_conflict qmi_request_ops s' \<in> insert 0 conflict_codes"
    if "op_requestSetupDataCall qmi_request_ops p f s = Some (e, p', s')"
    using requestSetupDataCall_result(2) [of p f s e p' s'] that by (simp add: qmi_request_ops_def)
  show "user_settings p' = user_settings p"
    if "op_requestGetIPAddress qmi_request_ops p f s = Some (e, p', s')"
    using requestGetIPAddress_result(1) [of p f s e p' s'] that by (simp add: qmi_request_ops_def)
  show "op_pdn_conflict qmi_request_ops s' = op_pdn_conflict qmi_request_ops s"
    if "op_requestGetIPAddress qmi_request_ops p f s = Some (e, p', s')"
    using requestGetIPAddress_result(2) [of p f s e p' s'] that by (simp add: qmi_request_ops_def)
  show "user_settings p' = user_settings p"
    if "op_requestDeactivateDefaultPDP qmi_request_ops p f s = Some (e, p', s')"
    using that by (auto simp: qmi_request_ops_def run_conv)
  show "op_pdn_conflict qmi_request_ops (op_clear_pdn_conflict qmi_request_ops s) = 0"
    by (simp add: qmi_request_ops_def)
qed

end
