(* ===== verification/ConnProps.thy ===== *)
theory ConnProps
  imports ConnLaws
begin

text \<open>
  The properties of the connection manager: the loop invariant over every interleaving of events and
  signals, what a start and a check event leave behind, and when the loop gives up.
\<close>

section \<open>Lemmas\<close>

lemma cm_registration_kept:
  "cm_registration ops c = Some c' \<Longrightarrow> statuses c' = statuses c \<and> s_link c' = s_link c \<and> cm_profile c' = cm_profile c
     \<and> signals c' = signals c \<and> running c' = running c"
  by (auto simp: cm_registration_def run_conv statuses_def)

context data_call_ops
begin

lemma query_enabled_inv:
  "cm_query4 ops c = Some (e, c') \<Longrightarrow> enable_ipv4 (cm_profile c) \<noteq> 0 \<Longrightarrow> cm_inv c \<Longrightarrow> cm_inv c'"
  by (auto simp: cm_query4_def run_conv cm_inv_def)

lemma start_inv:
  assumes "qmi_main_start ops dev env now first lnk p s = Some c" and "lnk \<in> {-1, 0, 16, 64, 80}"
  shows "cm_inv c"
proof -
  have base: "cm_inv c1" if "statuses c1 = (QWDS_PKT_DATA_UNKNOW, QWDS_PKT_DATA_UNKNOW)" "s_link c1 = lnk"
    for c1 :: "'s cm"
    using that assms(2) by (simp add: cm_inv_def statuses_def QWDS_PKT_DATA_UNKNOW_def QWDS_PKT_DATA_CONNECTED_def)
  have reg: "cm_inv c1 \<and> cm_profile c1 = p1"
    if "cm_registration ops \<lparr>cm_profile = p1, requests = s1, PSAttachedState = 0,
        IPv4ConnectionStatus = QWDS_PKT_DATA_UNKNOW, IPv6ConnectionStatus = QWDS_PKT_DATA_UNKNOW,
        SetupCallFail = 0, SetupCallAllowTime = now, s_link = lnk, g_donot_exit_when_modem_hangup = False,
        signals = [], cm_alarm = 0, effects = [], running = True\<rparr> = Some c1" for p1 s1 c1
    using cm_registration_kept [OF that] base [of c1] by (auto simp: statuses_def)
  have deact: "cm_inv c2" if "cm_deactivate ops f c1 = Some c2" "cm_inv c1" for c1 c2 f
    using alwaysD [OF cm_deactivate_inv that(1)] that(2) by blast
  show ?thesis
    using assms(1)
    by (auto simp: qmi_main_start_def Let_def run_conv send_signo_to_main_def
        dest!: reg dest: query_enabled_inv deact simp: base statuses_def)
qed

end

lemma start_backoff_down [simp]:
  "v4_down (start_backoff clk c) = v4_down c" "v6_down (start_backoff clk c) = v6_down c"
  by (simp_all add: start_backoff_def v4_down_def v6_down_def Let_def)

lemma ladder_value:
  "(if n < length allow_time then allow_time ! n else 60) = of_nat ([5, 10, 20, 40, 60] ! min n 4)"
proof (cases "n < 5")
  case True
  then consider "n = 0" | "n = 1" | "n = 2" | "n = 3" | "n = 4" by linarith
  then show ?thesis by cases (simp_all add: allow_time_def)
qed (simp add: allow_time_def min_def)

section \<open>Example states\<close>

definition example_dev :: "qmi qmi_device_ops" where
  "example_dev = \<lparr>dev_init = None, dev_deinit = None\<rparr>"

definition example_env :: cm_env where
  "example_env = \<lparr>QCM_DIAL_BY_PROFILE = True, QCM_V6_FIRST = False, QCM_EXIT_ON_PDN_CONFLICT = True\<rparr>"

text \<open>Both families enabled and the modem answering with the given replies.\<close>

definition example_cm :: "u8 \<Rightarrow> reply list \<Rightarrow> qmi cm" where
  "example_cm v4 rs = \<lparr>cm_profile = zero_profile\<lparr>enable_ipv4 := 1, enable_ipv6 := 1\<rparr>, requests = qmi_init rs,
     PSAttachedState = 1, IPv4ConnectionStatus = v4, IPv6ConnectionStatus = QWDS_PKT_DATA_DISCONNECTED,
     SetupCallFail = 0, SetupCallAllowTime = 0, s_link = 16, g_donot_exit_when_modem_hangup = False,
     signals = [], cm_alarm = 0, effects = [], running = True\<rparr>"

text \<open>The refusal of a call as a second PDN for the APN (type 6, reason 55).\<close>

definition refusal :: reply where
  "refusal = Woken (Some (rsp_frame QMUX_TYPE_WDS 1 0x0020 1 14 [(0x11, [6, 0, 55, 0])]))"

section \<open>Properties\<close>

text \<open>
  C30: Over every interleaving of poll results, modem events, alarms and termination signals, only
  enabled address families are ever connected, and the link state handed to the DHCP client is one
  of: unknown, none, IPv4, IPv6, both.
\<close>

theorem loop_invariant:
  assumes "qmi_main_start qmi_request_ops dev env now first lnk p s = Some c0"
    and "lnk \<in> {-1, 0, 16, 64, 80}" and "(cm_step qmi_request_ops dev env)\<^sup>*\<^sup>* c0 c"
  shows "(IPv4ConnectionStatus c = QWDS_PKT_DATA_CONNECTED \<longrightarrow> enable_ipv4 (cm_profile c) \<noteq> 0)
       \<and> (IPv6ConnectionStatus c = QWDS_PKT_DATA_CONNECTED \<longrightarrow> enable_ipv6 (cm_profile c) \<noteq> 0)
       \<and> s_link c \<in> {-1, 0, 16, 64, 80}"
  using qmi_ops.cm_steps_inv [OF assms(3) qmi_ops.start_inv [OF assms(1,2)]] by (simp add: cm_inv_def)

theorem loop_invariant_witness:
  "\<exists>c0. qmi_main_start qmi_request_ops example_dev example_env 0 (Some RIL_INDICATE_DEVICE_CONNECTED) (-1)
          zero_profile (qmi_init []) = Some c0
      \<and> s_link (ql_sigaction False c0) \<in> {-1, 0, 16, 64, 80}"
proof -
  have "qmi_main_start qmi_request_ops example_dev example_env 0 (Some RIL_INDICATE_DEVICE_CONNECTED) (-1)
      zero_profile (qmi_init []) \<noteq> None"
    by code_simp
  then obtain c0 where c0: "qmi_main_start qmi_request_ops example_dev example_env 0
      (Some RIL_INDICATE_DEVICE_CONNECTED) (-1) zero_profile (qmi_init []) = Some c0" by blast
  have "(cm_step qmi_request_ops example_dev example_env)\<^sup>*\<^sup>* c0 (ql_sigaction False c0)"
    by (rule r_into_rtranclp) (rule cm_step.signal)
  from loop_invariant [OF c0 _ this] c0 show ?thesis by simp
qed

text \<open>
  A start attempt that leaves an enabled family down arms the alarm with the rung of the back-off
  ladder for the number of failures so far (5, 10, 20, 40, then 60 seconds), counts the failure and
  allows the next attempt exactly that much later.
\<close>

theorem start_backoff_ladder:
  assumes "sig_start ops dev env clk c = Some c'" and "running c'"
    and "PSAttachedState c = 1 \<or> loopback_state (cm_profile c) \<noteq> 0" and "SetupCallAllowTime c \<le> clk 0"
    and "v4_down c' \<or> v6_down c'"
  shows "cm_alarm c' = of_nat ([5, 10, 20, 40, 60] ! min (unat (SetupCallFail c)) 4)
       \<and> SetupCallFail c' = SetupCallFail c + 1
       \<and> SetupCallAllowTime c' = of_nat ([5, 10, 20, 40, 60] ! min (unat (SetupCallFail c)) 4) * 1000 + clk 2"
proof -
  have guards: "\<not> (PSAttachedState c \<noteq> 1 \<and> loopback_state (cm_profile c) = 0)" "\<not> clk 0 < SetupCallAllowTime c"
    using assms(3,4) by auto
  with assms(1) obtain k c1 where c1: "start_calls ops env c = Some (k, c1)"
    by (auto simp: sig_start_def run_conv)
  with assms(1,2) guards have c': "c' = start_backoff clk c1"
    using dev_shutdown_running by (auto simp: sig_start_def Let_def split: if_splits)
  have f: "SetupCallFail c1 = SetupCallFail c" using start_calls_kept [OF c1] by (simp add: loop_rest_def)
  let ?n = "[5, 10, 20, 40, 60] ! min (unat (SetupCallFail c)) 4 :: nat"
  have "min (unat (SetupCallFail c)) 4 \<in> {0, 1, 2, 3, 4}" by (auto simp: min_def)
  then have "ucast (of_nat ?n :: u64) = (of_nat ?n :: u32)" by auto
  moreover from assms(5) have "v4_down c1 \<or> v6_down c1" by (simp add: c')
  ultimately show ?thesis
    unfolding c' start_backoff_def by (simp only: if_True Let_def ladder_value f) simp
qed

theorem start_backoff_ladder_witness:
  "\<exists>c'. sig_start qmi_request_ops example_dev example_env (\<lambda>_. 7) (example_cm QWDS_PKT_DATA_DISCONNECTED []) = Some c'
      \<and> cm_alarm c' = 5 \<and> SetupCallAllowTime c' = 5007"
proof -
  let ?c = "example_cm QWDS_PKT_DATA_DISCONNECTED []"
  have "map_option (\<lambda>c. running c \<and> v4_down c) (sig_start qmi_request_ops example_dev example_env (\<lambda>_. 7) ?c) = Some True"
    by code_simp
  then obtain c' where c': "sig_start qmi_request_ops example_dev example_env (\<lambda>_. 7) ?c = Some c'"
      and "running c'" "v4_down c'" by auto
  then show ?thesis using start_backoff_ladder [OF c'] by (simp add: example_cm_def)
qed

text \<open>
  A check event that finds every family either connected or disconnected hands the DHCP client
  exactly the connected families, and asks for a start exactly when an enabled family is down.
\<close>

theorem check_matches_link:
  assumes "sig_check ops c = Some c'"
    and "{IPv4ConnectionStatus c', IPv6ConnectionStatus c'} \<subseteq> {QWDS_PKT_DATA_CONNECTED, QWDS_PKT_DATA_DISCONNECTED}"
  shows "s_link c' = (if IPv4ConnectionStatus c' = QWDS_PKT_DATA_CONNECTED then 16 else 0)
                   + (if IPv6ConnectionStatus c' = QWDS_PKT_DATA_CONNECTED then 64 else 0)
       \<and> (\<exists>sigs. signals c' = sigs @ (if v4_down c' \<or> v6_down c' then [SIG_EVENT_START] else []))"
proof -
  from assms(1) obtain c3 where c': "c' = (if v4_down (check_link c3) \<or> v6_down (check_link c3)
      then send_signo_to_main SIG_EVENT_START (check_link c3) else check_link c3)"
    by (auto simp: sig_check_def run_conv Let_def)
  have same: "IPv4ConnectionStatus c' = IPv4ConnectionStatus c3" "IPv6ConnectionStatus c' = IPv6ConnectionStatus c3"
      "s_link c' = s_link (check_link c3)"
    by (simp_all add: c' send_signo_to_main_def check_link_def usbnet_link_change_def emit_def Let_def)
  have "s_link (check_link c3) = link_word c3"
    using assms(2) same
    by (auto simp: check_link_def call_up_def link_word_def QWDS_PKT_DATA_CONNECTED_def QWDS_PKT_DATA_DISCONNECTED_def)
  moreover have "v4_down c' = v4_down (check_link c3)" "v6_down c' = v6_down (check_link c3)"
    by (simp_all add: c' send_signo_to_main_def v4_down_def v6_down_def)
  ultimately show ?thesis using same by (auto simp: link_word_def c' send_signo_to_main_def)
qed

theorem check_matches_link_witness:
  "\<exists>c'. sig_check qmi_request_ops (example_cm QWDS_PKT_DATA_CONNECTED
          [Woken (Some (rsp_frame QMUX_TYPE_WDS 1 0x0022 0 0 [(0x01, [2])]))]) = Some c'
      \<and> IPv4ConnectionStatus c' = QWDS_PKT_DATA_CONNECTED \<and> s_link c' = 16"
proof -
  let ?c = "example_cm QWDS_PKT_DATA_CONNECTED [Woken (Some (rsp_frame QMUX_TYPE_WDS 1 0x0022 0 0 [(0x01, [2])]))]"
  have "map_option statuses (sig_check qmi_request_ops ?c) = Some (QWDS_PKT_DATA_CONNECTED, QWDS_PKT_DATA_DISCONNECTED)"
    by code_simp
  then obtain c' where c': "sig_check qmi_request_ops ?c = Some c'"
      and "IPv4ConnectionStatus c' = QWDS_PKT_DATA_CONNECTED" "IPv6ConnectionStatus c' = QWDS_PKT_DATA_DISCONNECTED"
    by (auto simp: statuses_def)
  then show ?thesis
    using check_matches_link [OF c'] by (simp add: QWDS_PKT_DATA_CONNECTED_def QWDS_PKT_DATA_DISCONNECTED_def)
qed

text \<open>
  An established IPv4 call survives every start event over QMI, whatever becomes of the IPv6
  call: it stays connected, the loop keeps running, the DHCP client is not touched and the APN,
  credentials and profile stay as they were.
\<close>

theorem start_keeps_ipv4:
  assumes "sig_start qmi_request_ops dev env clk c = Some c'" and "enable_ipv4 (cm_profile c) \<noteq> 0"
    and "IPv4ConnectionStatus c = QWDS_PKT_DATA_CONNECTED"
  shows "IPv4ConnectionStatus c' = QWDS_PKT_DATA_CONNECTED \<and> running c' = running c
       \<and> s_link c' = s_link c \<and> effects c' = effects c
       \<and> fixed_settings (cm_profile c') = fixed_settings (cm_profile c)"
  by (rule qmi_ops.start_keeps_v4) (rule assms)+

theorem start_keeps_ipv4_witness:
  "\<exists>c'. sig_start qmi_request_ops example_dev example_env (\<lambda>_. 7) (example_cm QWDS_PKT_DATA_CONNECTED [refusal]) = Some c'
      \<and> IPv4ConnectionStatus c' = QWDS_PKT_DATA_CONNECTED \<and> running c'"
proof -
  let ?c = "example_cm QWDS_PKT_DATA_CONNECTED [refusal]"
  have "sig_start qmi_request_ops example_dev example_env (\<lambda>_. 7) ?c \<noteq> None" by code_simp
  then obtain c' where c': "sig_start qmi_request_ops example_dev example_env (\<lambda>_. 7) ?c = Some c'" by blast
  have "enable_ipv4 (cm_profile ?c) \<noteq> 0" "IPv4ConnectionStatus ?c = QWDS_PKT_DATA_CONNECTED" "running ?c"
    by (simp_all add: example_cm_def)
  with start_keeps_ipv4 [OF c'] c' show ?thesis by simp
qed

text \<open>
  A start event ends the loop over QMI only when \<^verbatim>\<open>QCM_EXIT_ON_PDN_CONFLICT\<close> is set, and then
  one of the conflict codes 55, 209, 211 has been left for the caller and the link is down.
\<close>

theorem start_exit_leaves_conflict:
  assumes "sig_start qmi_request_ops dev env clk c = Some c'" and "running c" and "\<not> running c'"
    and "g_pdn_conflict (requests c) \<in> {0, 55, 209, 211}"
  shows "QCM_EXIT_ON_PDN_CONFLICT env \<and> s_link c' = 0
       \<and> (ConflictFile 55 \<in> set (effects c') \<or> ConflictFile 209 \<in> set (effects c')
          \<or> ConflictFile 211 \<in> set (effects c'))"
proof -
  have "op_pdn_conflict qmi_request_ops (requests c) \<in> insert 0 conflict_codes"
    using assms(4) by (simp add: qmi_request_ops_def conflict_codes_def)
  from qmi_ops.start_quits_on_conflict [OF assms(1-3) this] show ?thesis
    by (auto simp: conflict_codes_def)
qed

theorem start_exit_leaves_conflict_witness:
  "\<exists>c'. sig_start qmi_request_ops example_dev example_env (\<lambda>_. 7)
          (example_cm QWDS_PKT_DATA_DISCONNECTED [refusal, refusal]) = Some c'
      \<and> s_link c' = 0 \<and> \<not> running c'"
proof -
  let ?c = "example_cm QWDS_PKT_DATA_DISCONNECTED [refusal, refusal]"
  have "map_option running (sig_start qmi_request_ops example_dev example_env (\<lambda>_. 7) ?c) = Some False" by code_simp
  then obtain c' where c': "sig_start qmi_request_ops example_dev example_env (\<lambda>_. 7) ?c = Some c'" "\<not> running c'"
    by auto
  have "running ?c" "g_pdn_conflict (requests ?c) \<in> {0, 55, 209, 211}"
    by (simp_all add: example_cm_def qmi_init_def)
  with start_exit_leaves_conflict [OF c'(1)] c' show ?thesis by blast
qed

end
