(* ===== verification/UserInput.thy ===== *)
theory UserInput
  imports QmiReg
begin

text \<open>
  The command line of \<^verbatim>\<open>quectel-CM\<close>: \<open>parse_user_input\<close> of \<^verbatim>\<open>main.c\<close>.  An argument is a string without
  its NUL; a plain \<^verbatim>\<open>char\<close> is unsigned, as on the target.
\<close>

section \<open>C strings\<close>

text \<open>\<open>s[i]\<close> up to the terminating NUL; reading behind it does not occur here.\<close>

definition cchar :: "string \<Rightarrow> nat \<Rightarrow> char" where
  "cchar s i = (if i < length s then s ! i else CHR 0x00)"

definition c_tolower :: "char \<Rightarrow> char" where
  "c_tolower c = (if 65 \<le> (of_char c :: nat) \<and> (of_char c :: nat) \<le> 90 then char_of ((of_char c :: nat) + 32) else c)"

definition strcaseeq :: "string \<Rightarrow> string \<Rightarrow> bool" where
  "strcaseeq a b \<longleftrightarrow> map c_tolower a = map c_tolower b"

definition digit_arg :: "string \<Rightarrow> int" where
  "digit_arg s = of_char (cchar s 0) - 48"

section \<open>Options\<close>

definition has_more_argv :: "string list \<Rightarrow> bool" where
  "has_more_argv args \<longleftrightarrow> (case args of [] \<Rightarrow> False | a # _ \<Rightarrow> cchar a 0 \<noteq> CHR ''-'')"

text \<open>An optional argument of an option: \<open>f\<close> is applied to it when there is one.\<close>

definition opt_arg :: "(string \<Rightarrow> profile \<Rightarrow> profile) \<Rightarrow> string list \<times> profile \<Rightarrow> string list \<times> profile" where
  "opt_arg f st = (case st of (args, p) \<Rightarrow> if has_more_argv args then (tl args, f (hd args) p) else (args, p))"

definition auth_of :: "string \<Rightarrow> int option" where
  "auth_of a =
     (if a = ''0'' \<or> strcaseeq a ''none'' then Some 0
      else if a = ''1'' \<or> strcaseeq a ''pap'' then Some 1
      else if a = ''2'' \<or> strcaseeq a ''chap'' then Some 2
      else if a = ''3'' \<or> strcaseeq a ''MsChapV2'' then Some 3
      else None)"

definition parse_s :: "string list \<Rightarrow> profile \<Rightarrow> (string list \<times> profile) option" where
  "parse_s args p =
     (let st = (args, p\<lparr>apn := Some '''', user := Some '''', pd := Some ''''\<rparr>);
          st = opt_arg (\<lambda>a p. p\<lparr>apn := Some a\<rparr>) st;
          st = opt_arg (\<lambda>a p. p\<lparr>user := Some a\<rparr>) st;
          st = opt_arg (\<lambda>a p. if a \<noteq> '''' then p\<lparr>pd := Some a, auth := 2\<rparr> else p\<lparr>pd := Some a\<rparr>) st in
      case st of (args, p) \<Rightarrow>
        if has_more_argv args then
          (case auth_of (hd args) of None \<Rightarrow> None | Some v \<Rightarrow> Some (tl args, p\<lparr>auth := v\<rparr>))
        else Some (args, p))"

definition proxy_names :: "string list" where
  "proxy_names = [''quectel-qmi-proxy'', ''quectel-mbim-proxy'', ''qmi-proxy'', ''mbim-proxy'', ''quectel-atc-proxy'']"

definition parse_p :: "string list \<Rightarrow> profile \<Rightarrow> (string list \<times> profile) option" where
  "parse_p args p =
     (if has_more_argv args then
        let arg = hd args in
        if arg \<in> set proxy_names then Some (tl args, p\<lparr>proxy := take 31 arg\<rparr>)
        else if 999 < c_atoi (cbytes arg) \<and> c_atoi (cbytes arg) < 10000 then Some (tl args, p\<lparr>pincode := Some arg\<rparr>)
        else None
      else Some (args, p))"

definition set_apn_mode :: "string \<Rightarrow> profile \<Rightarrow> profile" where
  "set_apn_mode a p =
     (if digit_arg a = 1 then p\<lparr>bring_up_by_apn_name := 1\<rparr>
      else if digit_arg a = 2 then p\<lparr>bring_up_by_apn_type := 2\<rparr> else p)"

definition set_replication :: "string \<Rightarrow> profile \<Rightarrow> profile" where
  "set_replication a p =
     (let n = c_atoi (cbytes a); p = p\<lparr>replication_factor := n\<rparr> in
      if n > 0 then p\<lparr>loopback_state := 1\<rparr> else p)"

text \<open>The switch; \<open>None\<close> is the usage message.  The boolean is \<^verbatim>\<open>debug_qmi\<close>.\<close>

definition parse_opt :: "char \<Rightarrow> string list \<Rightarrow> profile \<times> bool \<Rightarrow> (string list \<times> profile \<times> bool) option" where
  "parse_opt c args ps = (case ps of (p, dbg) \<Rightarrow>
     let take_arg = (\<lambda>f. (case opt_arg f (args, p) of (args, p) \<Rightarrow> Some (args, p, dbg)));
         keep_dbg = map_option (\<lambda>(args, p). (args, p, dbg)) in
     if c = CHR ''s'' then keep_dbg (parse_s args p)
     else if c = CHR ''p'' then keep_dbg (parse_p args p)
     else if c = CHR ''m'' then take_arg (\<lambda>a p. p\<lparr>muxid := digit_arg a + 0x80\<rparr>)
     else if c = CHR ''n'' then take_arg (\<lambda>a p. p\<lparr>pdp := digit_arg a\<rparr>)
     else if c = CHR ''f'' then take_arg (\<lambda>a p. p\<lparr>logfile := Some a\<rparr>)
     else if c = CHR ''i'' then take_arg (\<lambda>a p. p\<lparr>expect_adapter := take 31 a\<rparr>)
     else if c = CHR ''v'' then Some (args, p, True)
     else if c = CHR ''l'' then take_arg set_replication
     else if c = CHR ''4'' then Some (args, p\<lparr>enable_ipv4 := 1\<rparr>, dbg)
     else if c = CHR ''6'' then Some (args, p\<lparr>enable_ipv6 := 1\<rparr>, dbg)
     else if c = CHR ''d'' then Some (args, p\<lparr>no_dhcp := 1\<rparr>, dbg)
     else if c = CHR ''u'' then take_arg (\<lambda>a p. p\<lparr>usblogfile := Some a\<rparr>)
     else if c = CHR ''b'' then Some (args, p\<lparr>enable_bridge := 1\<rparr>, dbg)
     else if c = CHR ''k'' then take_arg (\<lambda>a p. p\<lparr>kill_pdp := digit_arg a\<rparr>)
     else if c = CHR ''a'' then take_arg set_apn_mode
     else if c = CHR ''y'' then take_arg (\<lambda>a p. p\<lparr>apn_type := digit_arg a\<rparr>)
     else None)"

lemma opt_arg_length: "length (fst (opt_arg f (args, p))) \<le> length args"
  by (simp add: opt_arg_def)

lemma parse_s_length: "parse_s args p = Some (args', p') \<Longrightarrow> length args' \<le> length args"
  by (auto simp: parse_s_def opt_arg_def Let_def split: if_splits option.splits)

lemma parse_p_length: "parse_p args p = Some (args', p') \<Longrightarrow> length args' \<le> length args"
  by (auto simp: parse_p_def Let_def split: if_splits)

lemma parse_opt_length:
  assumes "parse_opt c args ps = Some (args', ps')"
  shows "length args' \<le> length args"
proof -
  obtain p dbg where ps: "ps = (p, dbg)" by (cases ps)
  have opt: "length args' \<le> length args"
    if "(case opt_arg f (args, p) of (args, p) \<Rightarrow> Some (args, p, dbg)) = Some (args', ps')" for f
    using that opt_arg_length [of f args p] by (auto split: prod.splits)
  show ?thesis
    using assms unfolding parse_opt_def ps prod.case Let_def
    by (auto dest: opt parse_s_length parse_p_length split: if_split_asm)
qed

function parse_opts :: "string list \<Rightarrow> profile \<times> bool \<Rightarrow> (profile \<times> bool) option" where
  "parse_opts [] ps = Some ps"
| "parse_opts (a # args) ps =
     (if cchar a 0 \<noteq> CHR ''-'' then None
      else case parse_opt (cchar a 1) args ps of
             None \<Rightarrow> None
           | Some (args', ps') \<Rightarrow> parse_opts args' ps')"
  by pat_completeness auto
termination
  by (relation "measure (\<lambda>(args, ps). length args)") (auto dest!: parse_opt_length)

text \<open>
  The result is \<open>None\<close> after the usage message (the C function returns 0) and the profile and
  \<^verbatim>\<open>debug_qmi\<close> otherwise.  \<open>argv\<close> is not empty.
\<close>

definition parse_user_input :: "string list \<Rightarrow> profile \<Rightarrow> (profile \<times> bool) option" where
  "parse_user_input argv p =
     (let p = p\<lparr>pdp := 1, profile_index := 1\<rparr>;
          argv = (if last argv = ''&'' then butlast argv else argv) in
      case parse_opts (tl argv) (p, False) of
        None \<Rightarrow> None
      | Some (p, dbg) \<Rightarrow>
          Some (if enable_ipv4 p \<noteq> 1 \<and> enable_ipv6 p \<noteq> 1 then p\<lparr>enable_ipv4 := 1\<rparr> else p, dbg))"

section \<open>What a command line means\<close>

text \<open>An option with the arguments it takes, how it is written, and what it does to the profile.\<close>

datatype cm_option = Dial string string string nat | Flag char | Arg char string

fun render :: "cm_option \<Rightarrow> string list" where
  "render (Dial a u w n) = [''-s'', a, u, w, [char_of (48 + n)]]"
| "render (Flag c) = [[CHR ''-'', c]]"
| "render (Arg c s) = [[CHR ''-'', c], s]"

fun flag_meaning :: "char \<Rightarrow> profile \<times> bool \<Rightarrow> profile \<times> bool" where
  "flag_meaning c (p, dbg) =
     (if c = CHR ''4'' then (p\<lparr>enable_ipv4 := 1\<rparr>, dbg)
      else if c = CHR ''6'' then (p\<lparr>enable_ipv6 := 1\<rparr>, dbg)
      else if c = CHR ''d'' then (p\<lparr>no_dhcp := 1\<rparr>, dbg)
      else if c = CHR ''b'' then (p\<lparr>enable_bridge := 1\<rparr>, dbg)
      else (p, True))"

fun arg_meaning :: "char \<Rightarrow> string \<Rightarrow> profile \<Rightarrow> profile" where
  "arg_meaning c s p =
     (if c = CHR ''p'' then (if s \<in> set proxy_names then p\<lparr>proxy := s\<rparr> else p\<lparr>pincode := Some s\<rparr>)
      else if c = CHR ''m'' then p\<lparr>muxid := digit_arg s + 0x80\<rparr>
      else if c = CHR ''n'' then p\<lparr>pdp := digit_arg s\<rparr>
      else if c = CHR ''f'' then p\<lparr>logfile := Some s\<rparr>
      else if c = CHR ''i'' then p\<lparr>expect_adapter := s\<rparr>
      else if c = CHR ''l'' then set_replication s p
      else if c = CHR ''u'' then p\<lparr>usblogfile := Some s\<rparr>
      else if c = CHR ''k'' then p\<lparr>kill_pdp := digit_arg s\<rparr>
      else if c = CHR ''a'' then set_apn_mode s p
      else p\<lparr>apn_type := digit_arg s\<rparr>)"

fun meaning :: "cm_option \<Rightarrow> profile \<times> bool \<Rightarrow> profile \<times> bool" where
  "meaning (Dial a u w n) (p, dbg) = (p\<lparr>apn := Some a, user := Some u, pd := Some w, auth := int n\<rparr>, dbg)"
| "meaning (Flag c) ps = flag_meaning c ps"
| "meaning (Arg c s) (p, dbg) = (arg_meaning c s p, dbg)"

definition plain :: "string \<Rightarrow> bool" where
  "plain s \<longleftrightarrow> cchar s 0 \<noteq> CHR ''-''"

fun option_wf :: "cm_option \<Rightarrow> bool" where
  "option_wf (Dial a u w n) \<longleftrightarrow> plain a \<and> plain u \<and> plain w \<and> n < 4"
| "option_wf (Flag c) \<longleftrightarrow> c \<in> set ''46dbv''"
| "option_wf (Arg c s) \<longleftrightarrow> c \<in> set ''pmnfilukay'' \<and> plain s \<and> (c = CHR ''i'' \<longrightarrow> length s \<le> 31)
     \<and> (c = CHR ''p'' \<longrightarrow> s \<in> set proxy_names \<or> 999 < c_atoi (cbytes s) \<and> c_atoi (cbytes s) < 10000)"

section \<open>Lemmas\<close>

lemma render_dash: "\<exists>c args. render opt = (CHR ''-'' # c) # args"
  by (cases opt) auto

lemma no_more_argv [simp]: "\<not> has_more_argv (concat (map render opts))"
proof (cases opts)
  case (Cons o1 os)
  obtain c args where "render o1 = (CHR ''-'' # c) # args" using render_dash by blast
  then show ?thesis by (simp add: Cons has_more_argv_def cchar_def)
qed (simp add: has_more_argv_def)

lemma has_more_plain [simp]: "has_more_argv (s # args) = plain s"
  by (simp add: has_more_argv_def plain_def)

lemma auth_digit:
  assumes "n < 4"
  shows "auth_of [char_of (48 + n)] = Some (int n)" and "plain [char_of (48 + n)]"
proof -
  have "list_all (\<lambda>n. auth_of [char_of (48 + n)] = Some (int n) \<and> plain [char_of (48 + n)]) [0, 1, 2, 3]"
    by code_simp
  moreover from assms have "n \<in> set [0, 1, 2, 3]" by auto
  ultimately show "auth_of [char_of (48 + n)] = Some (int n)" "plain [char_of (48 + n)]"
    unfolding list_all_iff by blast+
qed

lemma parse_dial:
  assumes "option_wf (Dial a u w n)" and "\<not> has_more_argv rest"
  shows "parse_s (a # u # w # [char_of (48 + n)] # rest) p
       = Some (rest, fst (meaning (Dial a u w n) (p, dbg)))"
  using assms auth_digit [of n] by (simp add: parse_s_def opt_arg_def Let_def)

lemma proxy_short: "s \<in> set proxy_names \<Longrightarrow> take 31 s = s"
  by (auto simp: proxy_names_def)

lemma parse_option:
  assumes "option_wf opt" and "\<not> has_more_argv rest"
  shows "parse_opts (render opt @ rest) ps = parse_opts rest (meaning opt ps)"
proof -
  obtain p dbg where ps: "ps = (p, dbg)" by (cases ps)
  show ?thesis
  proof (cases opt)
    case (Dial a u w n)
    then show ?thesis using parse_dial [of a u w n rest p dbg] assms
      by (simp add: ps cchar_def parse_opt_def)
  next
    case (Flag c)
    then show ?thesis using assms by (auto simp: ps cchar_def parse_opt_def)
  next
    case (Arg c s)
    then have "c \<in> {CHR ''p'', CHR ''m'', CHR ''n'', CHR ''f'', CHR ''i'', CHR ''l'', CHR ''u'', CHR ''k'', CHR ''a'', CHR ''y''}"
      and s: "plain s" "c = CHR ''i'' \<longrightarrow> length s \<le> 31"
        "c = CHR ''p'' \<longrightarrow> s \<in> set proxy_names \<or> 999 < c_atoi (cbytes s) \<and> c_atoi (cbytes s) < 10000"
      using assms(1) by auto
    then show ?thesis
      unfolding insert_iff empty_iff
      by (elim disjE) (simp_all add: Arg ps cchar_def parse_opt_def opt_arg_def parse_p_def proxy_short Let_def, blast)
  qed
qed

lemma parse_options:
  assumes "\<forall>opt \<in> set opts. option_wf opt"
  shows "parse_opts (concat (map render opts)) ps = Some (fold meaning opts ps)"
  using assms by (induction opts arbitrary: ps) (simp_all add: parse_option)

lemma unat_of_char_byte: "unat (of_char c :: u8) = of_char c"
proof -
  have "unat (of_nat (of_char c) :: u8) = of_char c"
    using nat_of_char_less_256 [of c] by (simp only: unat_of_nat) simp
  then show ?thesis by (simp only: of_nat_of_char)
qed

lemma digit_zero: "c_isdigit (of_char c) \<Longrightarrow> (of_char c = (48 :: u8)) = (c = CHR ''0'')"
proof -
  have "(of_char c = (48 :: u8)) = ((of_char c :: nat) = of_char (CHR ''0''))"
    unfolding word_unat_eq_iff unat_of_char_byte by simp
  then show ?thesis by (simp only: of_char_eq_iff)
qed

lemma digit_value:
  assumes "c_isdigit b"
  shows "0 \<le> uint b - 48" "uint b - 48 \<le> 9" "uint b - 48 = 0 \<longleftrightarrow> b = 48"
    "b \<noteq> 0" "b \<noteq> 45" "b \<noteq> 43" "\<not> c_isspace b"
proof -
  have u: "48 \<le> uint b" "uint b \<le> 57" using assms by (simp_all add: c_isdigit_def word_le_def)
  then show "0 \<le> uint b - 48" "uint b - 48 \<le> 9" by simp_all
  show "uint b - 48 = 0 \<longleftrightarrow> b = 48" by (simp add: word_uint_eq_iff)
  show "b \<noteq> 0" "b \<noteq> 45" "b \<noteq> 43" "\<not> c_isspace b"
    using u by (auto simp: c_isspace_def word_le_def)
qed

lemma atoi_four_digits:
  assumes "\<forall>c \<in> set [a, b, c, d]. c_isdigit c"
  shows "c_atoi [a, b, c, d] = (uint a - 48) * 1000 + (uint b - 48) * 100 + (uint c - 48) * 10 + (uint d - 48)"
  using assms digit_value(4-7) [of a] digit_value(4) [of b] digit_value(4) [of c] digit_value(4) [of d]
  by (simp add: c_atoi_def)

lemma four_digits_range:
  fixes x y z w :: int
  assumes "0 \<le> x" "x \<le> 9" "0 \<le> y" "y \<le> 9" "0 \<le> z" "z \<le> 9" "0 \<le> w" "w \<le> 9"
  shows "999 < x * 1000 + y * 100 + z * 10 + w \<longleftrightarrow> x \<noteq> 0" "x * 1000 + y * 100 + z * 10 + w < 10000"
proof -
  show "x * 1000 + y * 100 + z * 10 + w < 10000" using assms by linarith
  show "999 < x * 1000 + y * 100 + z * 10 + w \<longleftrightarrow> x \<noteq> 0" using assms by linarith
qed

section \<open>Properties\<close>



text \<open>
  Of the four-digit PINs, \<^verbatim>\<open>-p\<close> takes exactly those that do not start with a zero; a PIN such as
  0123 ends the program with the usage message.
\<close>

theorem pin_option_four_digits:
  assumes "length pin = 4" and "\<forall>c \<in> set pin. c_isdigit (of_char c)"
  shows "parse_user_input [prog, ''-p'', pin] p
       = (if hd pin = CHR ''0'' then None
          else parse_user_input [prog] (p\<lparr>pincode := Some pin\<rparr>))"
proof -
  from assms(1) obtain a b c d where pin: "pin = [a, b, c, d]"
    by (auto simp: length_Suc_conv numeral_eq_Suc)
  let ?n = "c_atoi (cbytes pin)"
  have dg: "\<forall>x \<in> set (cbytes pin). c_isdigit x" using assms(2) by (auto simp: cbytes_def)
  then have n: "?n = (uint (of_char a :: u8) - 48) * 1000 + (uint (of_char b :: u8) - 48) * 100
      + (uint (of_char c :: u8) - 48) * 10 + (uint (of_char d :: u8) - 48)"
    using atoi_four_digits [of "of_char a" "of_char b" "of_char c" "of_char d"] by (simp add: pin cbytes_def)
  have ds: "c_isdigit (of_char a)" "c_isdigit (of_char b)" "c_isdigit (of_char c)" "c_isdigit (of_char d)"
    using assms(2) by (simp_all add: pin)
  note v = ds [THEN digit_value(1)] ds [THEN digit_value(2)]
  have range: "999 < ?n \<longleftrightarrow> a \<noteq> CHR ''0''" "?n < 10000"
    using four_digits_range [OF v(1,5,2,6,3,7,4,8)] digit_value(3) [OF ds(1)] digit_zero [OF ds(1)]
    unfolding n by simp_all
  have "a \<noteq> CHR ''-''" "a \<noteq> CHR ''&''" using ds(1) by (auto simp: c_isdigit_def)
  then have more: "has_more_argv [pin]" "pin \<noteq> ''&''" by (simp_all add: pin plain_def cchar_def)
  have proxy: "pin \<notin> set proxy_names" by (simp add: pin proxy_names_def)
  show ?thesis
    using range more proxy
    by (simp add: parse_user_input_def parse_opt_def parse_p_def cchar_def pin Let_def)
qed

theorem pin_option_four_digits_witness:
  "parse_user_input [''qcm'', ''-p'', ''0123''] zero_profile = None"
  using pin_option_four_digits [of "''0123''" "''qcm''" zero_profile] by (simp add: c_isdigit_def)

end
