(* ===== verification/QmiCtl.thy ===== *)
theory QmiCtl
  imports QmiSim QmiProfile
begin

text \<open>
  The control service and the reader thread of \<^verbatim>\<open>QmiWwanCM.c\<close>: control requests, the table of client
  ids with its initialisation and release, and the thread that reads the device and hands messages
  to the handshake.
\<close>

section \<open>Control requests\<close>

definition GetQCTLTransactionId :: "int \<Rightarrow> u8 \<times> int" where
  "GetQCTLTransactionId t0 =
     (let t = t0 + 1; t = (if 0xFF < t then 1 else t) in (word_of_int t, t))"

definition ComposeQCTLMsg ::
  "bool \<Rightarrow> int \<Rightarrow> u16 \<Rightarrow> builder option \<Rightarrow> (bytes option \<times> int) option" where
  "ComposeQCTLMsg malloc_ok t0 QMICTLType customQctlMsgFunction = do {
     let QMIBuf = replicate WDM_DEFAULT_BUFSIZE 0;
     QMIBuf \<leftarrow> poke 0 [0x01] QMIBuf;
     QMIBuf \<leftarrow> poke 3 [0x00] QMIBuf;
     QMIBuf \<leftarrow> poke 4 [QMUX_TYPE_CTL] QMIBuf;
     QMIBuf \<leftarrow> poke 5 [0x00] QMIBuf;
     QMIBuf \<leftarrow> poke 6 [0x00] QMIBuf;
     let (tid, t0) = GetQCTLTransactionId t0;
     QMIBuf \<leftarrow> poke 7 [tid] QMIBuf;
     QMIBuf \<leftarrow> poke 8 (le16 QMICTLType) QMIBuf;
     QMIBuf \<leftarrow> (case customQctlMsgFunction of
         Some f \<Rightarrow> do { (n, QMIBuf) \<leftarrow> f QMIBuf; poke 10 (le16 (n - 6)) QMIBuf }
       | None \<Rightarrow> poke 10 (le16 0x0000) QMIBuf);
     mlen \<leftarrow> rd16 QMIBuf 10;
     QMIBuf \<leftarrow> poke 1 (le16 (mlen + 6 + 6 - 1)) QMIBuf;
     len \<leftarrow> rd16 QMIBuf 1;
     let Length = unat len + 1;
     if malloc_ok then do { m \<leftarrow> rdn QMIBuf 0 Length; Some (Some m, t0) }
     else Some (None, t0) }"

definition CtlGetVersionReq :: builder where
  "CtlGetVersionReq b = do {
     b \<leftarrow> poke 12 [0x01] b;
     b \<leftarrow> poke 13 (le16 0x0001) b;
     b \<leftarrow> poke 15 [0xFF] b;
     Some (10, b) }"

definition CtlGetClientIdReq :: "u8 \<Rightarrow> builder" where
  "CtlGetClientIdReq QMIType b = do {
     b \<leftarrow> poke 12 [0x01] b;
     b \<leftarrow> poke 13 (le16 0x0001) b;
     b \<leftarrow> poke 15 [QMIType] b;
     Some (10, b) }"

definition CtlReleaseClientIdReq :: "u8 \<Rightarrow> u8 \<Rightarrow> builder" where
  "CtlReleaseClientIdReq QMIType ClientId b = do {
     b \<leftarrow> poke 12 [0x01] b;
     b \<leftarrow> poke 13 (le16 0x0002) b;
     b \<leftarrow> poke 15 [QMIType] b;
     b \<leftarrow> poke 16 [ClientId] b;
     Some (11, b) }"

definition CtlLibQmiProxyOpenReq :: "string \<Rightarrow> builder" where
  "CtlLibQmiProxyOpenReq device_path b = do {
     b \<leftarrow> poke 12 [0x01] b;
     b \<leftarrow> poke 13 (le16 (of_nat (length device_path))) b;
     b \<leftarrow> poke 15 (cbytes device_path) b;
     Some (9 + of_nat (length device_path), b) }"

section \<open>Client ids\<close>

text \<open>\<open>qmiclientId\<close> is the table with one entry for each of the 255 services.\<close>

record wwan =
  w_qmi :: qmi
  qmiclientId :: bytes
  CtlTransactionId :: int

text \<open>
  One control request.  The response pointer of the caller is written only when there was a request
  to send: \<open>None\<close> in the second component is a pointer the call left alone, \<open>Some None\<close> is NULL.
\<close>

definition ctl_call :: "u16 \<Rightarrow> builder option \<Rightarrow> wwan \<Rightarrow> (int \<times> bytes option option \<times> wwan) option" where
  "ctl_call ty fn w = do {
     let ok = (case mallocs (w_qmi w) of [] \<Rightarrow> True | b # _ \<Rightarrow> b);
     (m, t) \<leftarrow> ComposeQCTLMsg ok (CtlTransactionId w) ty fn;
     let st = (w_qmi w)\<lparr>mallocs := tl (mallocs (w_qmi w))\<rparr>;
     let ((err, rsp), st) = QmiThreadSendQMI m st;
     Some (err, (case m of None \<Rightarrow> None | Some _ \<Rightarrow> Some rsp), w\<lparr>w_qmi := st, CtlTransactionId := t\<rparr>) }"

definition libqmi_proxy_open :: "string \<Rightarrow> wwan \<Rightarrow> (int \<times> wwan) option" where
  "libqmi_proxy_open cdc_wdm w = do {
     (ret, rsp, w) \<leftarrow> ctl_call 0xFF00 (Some (CtlLibQmiProxyOpenReq cdc_wdm)) w;
     case rsp of
       Some (Some m) \<Rightarrow>
         if ret = 0 then do {
           result \<leftarrow> rd16 m 15;
           if result = 0 then do {
             error \<leftarrow> rd16 m 17;
             Some (if error = 0 then 0 else -1, w) }
           else Some (-1, w) }
         else Some (-1, w)
     | _ \<Rightarrow> Some (-1, w) }"

text \<open>The client id is read from the response before the result is looked at.\<close>

definition QmiWwanGetClientID :: "u8 \<Rightarrow> wwan \<Rightarrow> (u8 \<times> wwan) option" where
  "QmiWwanGetClientID QMIType w = do {
     (_, rsp, w) \<leftarrow> ctl_call 0x0022 (Some (CtlGetClientIdReq QMIType)) w;
     pResponse \<leftarrow> rsp;
     case pResponse of
       None \<Rightarrow> Some (0, w)
     | Some m \<Rightarrow> do {
         result \<leftarrow> rd16 m 15;
         error \<leftarrow> rd16 m 17;
         ClientId \<leftarrow> rd8 m 23;
         if result = 0 \<and> error = 0 then do {
           ty \<leftarrow> rd8 m 22;
           Some (if QMIType = ty then ClientId else 0, w) }
         else Some (0, w) } }"

definition QmiWwanReleaseClientID :: "u8 \<Rightarrow> u8 \<Rightarrow> wwan \<Rightarrow> wwan option" where
  "QmiWwanReleaseClientID QMIType ClientId w = do {
     (_, _, w) \<leftarrow> ctl_call 0x0023 (Some (CtlReleaseClientIdReq QMIType ClientId)) w;
     Some w }"

fun sync_loop :: "nat \<Rightarrow> wwan \<Rightarrow> (int \<times> wwan) option" where
  "sync_loop 0 w = Some (ETIMEDOUT, w)"
| "sync_loop (Suc n) w =
     (case ctl_call 0x0027 None w of
        None \<Rightarrow> None
      | Some (ret, _, w) \<Rightarrow> if ret \<noteq> ETIMEDOUT then Some (ret, w) else sync_loop n w)"

text \<open>The version list of the response: \<open>n\<close> entries are left, the next one is entry \<open>i\<close>.\<close>

fun version_loop :: "bytes \<Rightarrow> nat \<Rightarrow> nat \<Rightarrow> int \<Rightarrow> int option" where
  "version_loop m 0 i v = Some v"
| "version_loop m (Suc n) i v =
     (case rd8 m (23 + 5 * i) of
        None \<Rightarrow> None
      | Some ty \<Rightarrow>
          if ty = QMUX_TYPE_WDS_ADMIN then
            (case rd16 m (23 + 5 * i + 3) of
               None \<Rightarrow> None
             | Some minor \<Rightarrow> version_loop m n (Suc i) (if minor > 16 then 1 else 0))
          else version_loop m n (Suc i) v)"

definition get_version :: "profile \<Rightarrow> wwan \<Rightarrow> (profile \<times> wwan) option" where
  "get_version profile w = do {
     (_, rsp, w) \<leftarrow> ctl_call 0x0021 (Some CtlGetVersionReq) w;
     pResponse \<leftarrow> rsp;
     case pResponse of
       None \<Rightarrow> Some (profile, w)
     | Some m \<Rightarrow>
         if qmap_mode profile \<noteq> 0 then do {
           result \<leftarrow> rd16 m 15;
           error \<leftarrow> rd16 m 17;
           if result = 0 \<and> error = 0 then do {
             n \<leftarrow> rd8 m 22;
             v \<leftarrow> version_loop m (unat n) 0 (p_qmap_version profile);
             Some (profile\<lparr>p_qmap_version := v\<rparr>, w) }
           else Some (profile, w) }
         else Some (profile, w) }"

definition get_client :: "u8 \<Rightarrow> u8 \<Rightarrow> wwan \<Rightarrow> wwan option" where
  "get_client slot QMIType w = do {
     (cid, w) \<leftarrow> QmiWwanGetClientID QMIType w;
     Some (w\<lparr>qmiclientId := (qmiclientId w)[unat slot := cid]\<rparr>) }"

definition QmiWwanInit :: "string \<Rightarrow> profile \<Rightarrow> wwan \<Rightarrow> (int \<times> profile \<times> wwan) option" where
  "QmiWwanInit qmichannel profile w = do {
     (ret, w) \<leftarrow> (if proxy profile = ''qmi-proxy'' then libqmi_proxy_open qmichannel w else Some (0, w));
     if ret \<noteq> 0 then Some (ret, profile, w)
     else do {
       (ret, w) \<leftarrow> (if proxy profile = '''' then sync_loop 10 w else Some (0, w));
       if ret \<noteq> 0 then Some (ret, profile, w)
       else do {
         (profile, w) \<leftarrow> get_version profile w;
         w \<leftarrow> get_client QMUX_TYPE_WDS QMUX_TYPE_WDS w;
         w \<leftarrow> (if enable_ipv6 profile \<noteq> 0 then get_client QMUX_TYPE_WDS_IPV6 QMUX_TYPE_WDS w else Some w);
         w \<leftarrow> get_client QMUX_TYPE_DMS QMUX_TYPE_DMS w;
         w \<leftarrow> get_client QMUX_TYPE_NAS QMUX_TYPE_NAS w;
         w \<leftarrow> get_client QMUX_TYPE_UIM QMUX_TYPE_UIM w;
         st \<leftarrow> requestUIMCardStatusEvent (qmiclientId w ! unat QMUX_TYPE_UIM) (w_qmi w);
         w \<leftarrow> get_client QMUX_TYPE_WDS_ADMIN QMUX_TYPE_WDS_ADMIN (w\<lparr>w_qmi := st\<rparr>);
         Some (0, profile\<lparr>wda_client := uint (qmiclientId w ! unat QMUX_TYPE_WDS_ADMIN)\<rparr>, w) } } }"

text \<open>The loop of \<open>QmiWwanDeInit\<close> over the \<open>n\<close> entries that are left, the next one being \<open>i\<close>.\<close>

fun deinit_loop :: "nat \<Rightarrow> nat \<Rightarrow> wwan \<Rightarrow> wwan option" where
  "deinit_loop 0 i w = Some w"
| "deinit_loop (Suc n) i w =
     (if qmiclientId w ! i \<noteq> 0 then
        (case QmiWwanReleaseClientID (if i = unat QMUX_TYPE_WDS_IPV6 then QMUX_TYPE_WDS else of_nat i)
                (qmiclientId w ! i) w of
           None \<Rightarrow> None
         | Some w \<Rightarrow> deinit_loop n (Suc i) (w\<lparr>qmiclientId := (qmiclientId w)[i := 0]\<rparr>))
      else deinit_loop n (Suc i) w)"

definition QmiWwanDeInit :: "wwan \<Rightarrow> wwan option" where
  "QmiWwanDeInit w = deinit_loop (length (qmiclientId w)) 0 w"

section \<open>The reader thread\<close>

text \<open>The name of the proxy to connect to; \<open>None\<close> is a device path without a last character.\<close>

definition wwan_proxy :: "profile \<Rightarrow> string \<Rightarrow> string option" where
  "wwan_proxy profile cdc_wdm =
     (if cdc_wdm = '''' then None
      else let num = last cdc_wdm in
        Some (if proxy profile \<noteq> '''' then
                (if take 17 (proxy profile) = ''quectel-qmi-proxy'' then ''quectel-qmi-proxy'' @ [num]
                 else proxy profile)
              else if take 13 cdc_wdm = ''/dev/mhi_IPCR'' then ''quectel-qrtr-proxy'' @ [num]
              else if qmap_mode profile > 1 then ''quectel-qmi-proxy'' @ [num]
              else ''''))"

text \<open>
  The number of bytes the second \<^verbatim>\<open>read\<close> of \<open>qmi_proxy_read\<close> asks for behind the six header bytes,
  in \<^verbatim>\<open>size_t\<close>; \<open>None\<close> when there is no second read.
\<close>

definition qmi_proxy_count :: "bytes \<Rightarrow> u64 \<Rightarrow> u64 option option" where
  "qmi_proxy_count hdr bufsize =
     (if length hdr = 6 then do {
        len \<leftarrow> rd16 hdr 1;
        Some (if (ucast len :: u64) < bufsize then Some (ucast len + 1 - 6) else None) }
      else Some None)"

text \<open>
  \<open>stream\<close> is what the socket has to give; the result is the number of bytes read and the buffer,
  \<open>None\<close> a write behind it.
\<close>

definition qmi_proxy_read :: "bytes \<Rightarrow> u64 \<Rightarrow> bytes \<Rightarrow> (nat \<times> bytes) option" where
  "qmi_proxy_read stream bufsize buf = do {
     let hdr = take 6 stream;
     n \<leftarrow> qmi_proxy_count hdr bufsize;
     let msg = hdr @ (case n of None \<Rightarrow> [] | Some k \<Rightarrow> take (unat k) (drop 6 stream));
     buf \<leftarrow> poke 0 msg buf;
     Some (length msg, buf) }"

text \<open>
  One round of the thread.  \<open>rc\<close> and \<open>rd\<close> are the flags of the control and the device descriptor,
  \<open>ev\<close> the event and \<open>msg\<close> the bytes read; \<open>buf\<close> is \<^verbatim>\<open>cm_recv_buf\<close>, whose old content stays behind a
  short read.  The thread reads the length field there before it looks at the length of the read.
\<close>

record reader =
  rd_tr :: transport
  rd_buf :: bytes
  wait_for_request_quit :: bool
  rd_running :: bool

record pollfd =
  p_err :: bool
  p_hup :: bool
  p_in :: bool

datatype reader_poll = RTimeout | RError | RReady pollfd "cm_event option" pollfd bytes

definition reader_quit :: "reader \<Rightarrow> reader option" where
  "reader_quit r = do {
     (_, t) \<leftarrow> QmiThreadRecvQMI True None (send_event RIL_INDICATE_DEVICE_DISCONNECTED (rd_tr r));
     Some (r\<lparr>rd_tr := t, rd_running := False\<rparr>) }"

definition reader_message :: "bool \<Rightarrow> bytes \<Rightarrow> reader \<Rightarrow> reader option" where
  "reader_message malloc_ok msg r =
     (if msg = [] then Some r
      else do {
        buf \<leftarrow> poke 0 msg (rd_buf r);
        let r = r\<lparr>rd_buf := buf\<rparr>;
        len \<leftarrow> rd16 buf 1;
        if length msg \<noteq> unat len + 1 then Some r
        else do {
          (_, t) \<leftarrow> QmiThreadRecvQMI malloc_ok (Some msg) (rd_tr r);
          Some (r\<lparr>rd_tr := t\<rparr>) } })"

definition QmiWwanThread_step :: "bool \<Rightarrow> reader_poll \<Rightarrow> reader \<Rightarrow> reader option" where
  "QmiWwanThread_step malloc_ok p r =
     (case p of
        RTimeout \<Rightarrow>
          if wait_for_request_quit r then do {
            (_, t) \<leftarrow> QmiThreadRecvQMI malloc_ok None (rd_tr r);
            Some (r\<lparr>rd_tr := t\<rparr>) }
          else reader_quit r
      | RError \<Rightarrow> reader_quit r
      | RReady rc ev rd msg \<Rightarrow>
          if p_hup rc then reader_quit r
          else if p_in rc \<and> ev = Some RIL_REQUEST_QUIT then reader_quit r
          else
            let r = (if p_in rc \<and> ev = Some SIG_EVENT_STOP then r\<lparr>wait_for_request_quit := True\<rparr> else r) in
            if p_hup rd then reader_quit r
            else if p_in rd then reader_message malloc_ok msg r
            else Some r)"

section \<open>Lemmas\<close>

definition release_frame :: "u8 \<Rightarrow> u8 \<Rightarrow> u8 \<Rightarrow> bytes" where
  "release_frame tid QMIType ClientId =
     [0x01, 16, 0, 0, QMUX_TYPE_CTL, 0, 0, tid, 0x23, 0, 5, 0, 0x01, 2, 0, QMIType, ClientId]"

lemma compose_release:
  assumes "GetQCTLTransactionId t = (tid, t')"
  shows "ComposeQCTLMsg True t 0x0023 (Some (CtlReleaseClientIdReq ty cid)) = Some (Some (release_frame tid ty cid), t')"
proof -
  have z: "replicate WDM_DEFAULT_BUFSIZE (0 :: u8) = [0,0,0,0,0,0,0,0,0,0,0,0,0,0,0,0,0] @ replicate 239 0"
    by (simp add: WDM_DEFAULT_BUFSIZE_def numeral_eq_Suc)
  show ?thesis
    unfolding ComposeQCTLMsg_def z
    by (simp add: assms CtlReleaseClientIdReq_def poke_def le16_def rd16_def rdn_def le16_to_cpu_def
        release_frame_def QMUX_TYPE_CTL_def)
qed

definition slot_service :: "nat \<Rightarrow> u8" where
  "slot_service i = (if i = unat QMUX_TYPE_WDS_IPV6 then QMUX_TYPE_WDS else of_nat i)"

definition released :: "bytes \<Rightarrow> u8 option \<times> u8 option" where
  "released m = (rd8 m 15, rd8 m 16)"

lemma release_sends:
  assumes "mallocs (w_qmi w) = []"
  obtains st t tid where "QmiWwanReleaseClientID ty cid w = Some (w\<lparr>w_qmi := st, CtlTransactionId := t\<rparr>)"
    and "mallocs st = []" and "sent st = sent (w_qmi w) @ [release_frame tid ty cid]"
proof -
  obtain tid t where g: "GetQCTLTransactionId (CtlTransactionId w) = (tid, t)"
    by (cases "GetQCTLTransactionId (CtlTransactionId w)")
  let ?m = "release_frame tid ty cid"
  obtain er st where s: "QmiThreadSendQMI (Some ?m) ((w_qmi w)\<lparr>mallocs := []\<rparr>) = (er, st)"
    by (cases "QmiThreadSendQMI (Some ?m) ((w_qmi w)\<lparr>mallocs := []\<rparr>)")
  have "QmiWwanReleaseClientID ty cid w = Some (w\<lparr>w_qmi := st, CtlTransactionId := t\<rparr>)"
    using assms s by (simp add: QmiWwanReleaseClientID_def ctl_call_def compose_release [OF g] split_beta Let_def)
  moreover have "mallocs st = []" "sent st = sent (w_qmi w) @ [?m]"
    using s assms by (auto simp: QmiThreadSendQMI_def)
  ultimately show thesis by (rule that)
qed

lemma deinit_loop_releases:
  assumes "mallocs (w_qmi w) = []" and "i + n = length (qmiclientId w)"
  shows "\<exists>w' fs. deinit_loop n i w = Some w' \<and> mallocs (w_qmi w') = []
      \<and> qmiclientId w' = take i (qmiclientId w) @ replicate n 0
      \<and> sent (w_qmi w') = sent (w_qmi w) @ fs
      \<and> map released fs = map (\<lambda>j. (Some (slot_service j), Some (qmiclientId w ! j)))
            (filter (\<lambda>j. qmiclientId w ! j \<noteq> 0) [i..<i + n])"
  using assms
proof (induction n arbitrary: i w)
  case (Suc n)
  let ?ids = "qmiclientId w"
  show ?case
  proof (cases "?ids ! i = 0")
    case True
    have "i < length ?ids" using Suc.prems(2) by simp
    with Suc.IH [of w "Suc i"] Suc.prems True show ?thesis
      by (auto simp: upt_conv_Cons take_Suc_conv_app_nth simp del: upt_Suc)
  next
    case False
    obtain st t tid where r: "QmiWwanReleaseClientID (slot_service i) (?ids ! i) w = Some (w\<lparr>w_qmi := st, CtlTransactionId := t\<rparr>)"
        and m: "mallocs st = []" and s: "sent st = sent (w_qmi w) @ [release_frame tid (slot_service i) (?ids ! i)]"
      using release_sends [OF Suc.prems(1)] by blast
    let ?w = "w\<lparr>w_qmi := st, CtlTransactionId := t, qmiclientId := ?ids[i := 0]\<rparr>"
    have step: "deinit_loop (Suc n) i w = deinit_loop n (Suc i) ?w"
      using False r by (simp add: slot_service_def [symmetric])
    have same: "filter (\<lambda>j. ?ids[i := 0] ! j \<noteq> 0) [Suc i..<Suc i + n] = filter (\<lambda>j. ?ids ! j \<noteq> 0) [Suc i..<Suc i + n]"
      by (rule filter_cong) auto
    from Suc.IH [of ?w "Suc i"] Suc.prems m obtain w' fs where ih: "deinit_loop n (Suc i) ?w = Some w'"
        "mallocs (w_qmi w') = []" "qmiclientId w' = take (Suc i) (?ids[i := 0]) @ replicate n 0"
        "sent (w_qmi w') = sent st @ fs"
        "map released fs = map (\<lambda>j. (Some (slot_service j), Some (?ids[i := 0] ! j)))
            (filter (\<lambda>j. ?ids[i := 0] ! j \<noteq> 0) [Suc i..<Suc i + n])"
      by (auto simp del: upt_Suc)
    have conv: "map (\<lambda>j. (Some (slot_service j), Some (?ids[i := 0] ! j))) (filter (\<lambda>j. ?ids ! j \<noteq> 0) [Suc i..<Suc i + n])
        = map (\<lambda>j. (Some (slot_service j), Some (?ids ! j))) (filter (\<lambda>j. ?ids ! j \<noteq> 0) [Suc i..<Suc i + n])"
      by (rule map_cong) auto
    have "map released fs = map (\<lambda>j. (Some (slot_service j), Some (?ids ! j))) (filter (\<lambda>j. ?ids ! j \<noteq> 0) [Suc i..<Suc i + n])"
      unfolding ih(5) same conv ..
    then have fs: "map released (release_frame tid (slot_service i) (?ids ! i) # fs)
        = map (\<lambda>j. (Some (slot_service j), Some (?ids ! j))) (filter (\<lambda>j. ?ids ! j \<noteq> 0) [i..<i + Suc n])"
      using False by (simp add: upt_conv_Cons released_def release_frame_def rd8_def del: upt_Suc)
    have "take (Suc i) (?ids[i := 0]) @ replicate n 0 = take i ?ids @ replicate (Suc n) 0"
      using Suc.prems(2) by (simp add: take_Suc_conv_app_nth)
    with ih fs s show ?thesis
      unfolding step
      by (intro exI [of _ w'] exI [of _ "release_frame tid (slot_service i) (?ids ! i) # fs"]) (simp del: upt_Suc)
  qed
qed simp

section \<open>Properties\<close>





end
