(* ===== verification/AtTok.thy ===== *)
theory AtTok
  imports Prelude
begin

text \<open>
  The tokeniser of AT responses, \<^verbatim>\<open>at_tok.c\<close>.  The position \<^verbatim>\<open>char *\<close> that the functions advance is the
  rest of the line behind it, \<open>None\<close> when it is NULL; \<^verbatim>\<open>strsep\<close>, \<^verbatim>\<open>strtol\<close> and \<^verbatim>\<open>strtoul\<close> are
  those of the C library with a 64-bit \<^verbatim>\<open>long\<close> and the C locale.
\<close>

section \<open>The C library\<close>

definition isspace :: "char \<Rightarrow> bool" where
  "isspace c \<longleftrightarrow> c = CHR '' '' \<or> 9 \<le> (of_char c :: nat) \<and> (of_char c :: nat) \<le> 13"

text \<open>\<^verbatim>\<open>strsep\<close> with one delimiter: the token, and the rest unless the token was the last.\<close>

definition strsep :: "char \<Rightarrow> string \<Rightarrow> string \<times> string option" where
  "strsep d s = (takeWhile (\<lambda>c. c \<noteq> d) s,
     case dropWhile (\<lambda>c. c \<noteq> d) s of [] \<Rightarrow> None | _ # rest \<Rightarrow> Some rest)"

definition digit_val :: "nat \<Rightarrow> char \<Rightarrow> nat option" where
  "digit_val base c =
     (let n = of_char c;
          v = (if 48 \<le> n \<and> n \<le> 57 then n - 48
               else if 97 \<le> n \<and> n \<le> 122 then n - 87
               else if 65 \<le> n \<and> n \<le> 90 then n - 55 else 36) in
      if v < base then Some v else None)"

fun digits_value :: "nat \<Rightarrow> nat \<Rightarrow> string \<Rightarrow> nat" where
  "digits_value base acc [] = acc"
| "digits_value base acc (c # cs) =
     (case digit_val base c of None \<Rightarrow> acc | Some v \<Rightarrow> digits_value base (acc * base + v) cs)"

definition skip_0x :: "nat \<Rightarrow> string \<Rightarrow> string" where
  "skip_0x base s =
     (case s of
        a # b # c # cs \<Rightarrow>
          if base = 16 \<and> a = CHR ''0'' \<and> (b = CHR ''x'' \<or> b = CHR ''X'') \<and> digit_val 16 c \<noteq> None
          then c # cs else s
      | _ \<Rightarrow> s)"

text \<open>The sign and the magnitude; \<open>None\<close> when there is no number (\<^verbatim>\<open>end == ret\<close>).\<close>

definition strto_parts :: "nat \<Rightarrow> string \<Rightarrow> (bool \<times> nat) option" where
  "strto_parts base s =
     (let s = dropWhile isspace s;
          (neg, s) = (case s of c # cs \<Rightarrow> if c = CHR ''-'' then (True, cs)
                                           else if c = CHR ''+'' then (False, cs) else (False, s)
                      | [] \<Rightarrow> (False, s));
          s = skip_0x base s in
      case s of [] \<Rightarrow> None
      | c # _ \<Rightarrow> if digit_val base c = None then None else Some (neg, digits_value base 0 s))"

definition strtol :: "nat \<Rightarrow> string \<Rightarrow> int option" where
  "strtol base s = map_option (\<lambda>(neg, n).
     if neg then max (- (2 ^ 63)) (- int n) else min (2 ^ 63 - 1) (int n)) (strto_parts base s)"

definition strtoul :: "nat \<Rightarrow> string \<Rightarrow> u64 option" where
  "strtoul base s = map_option (\<lambda>(neg, n).
     if 2 ^ 64 \<le> n then - 1 else if neg then - of_nat n else of_nat n) (strto_parts base s)"

section \<open>Tokens\<close>

type_synonym pos = "string option"

definition at_tok_start :: "pos \<Rightarrow> int \<times> pos" where
  "at_tok_start p =
     (case p of
        None \<Rightarrow> (-1, None)
      | Some s \<Rightarrow> (case dropWhile (\<lambda>c. c \<noteq> CHR '':'') s of [] \<Rightarrow> (-1, None) | _ # r \<Rightarrow> (0, Some r)))"

definition skipWhiteSpace :: "pos \<Rightarrow> pos" where
  "skipWhiteSpace p = map_option (dropWhile isspace) p"

definition skipNextComma :: "pos \<Rightarrow> pos" where
  "skipNextComma p =
     map_option (\<lambda>s. case dropWhile (\<lambda>c. c \<noteq> CHR '','') s of [] \<Rightarrow> [] | _ # r \<Rightarrow> r) p"

definition nextTok :: "pos \<Rightarrow> string option \<times> pos" where
  "nextTok p =
     (case skipWhiteSpace p of
        None \<Rightarrow> (None, None)
      | Some s \<Rightarrow>
          (case s of
             c # cs \<Rightarrow>
               if c = CHR 0x22
               then (case strsep (CHR 0x22) cs of (tok, rest) \<Rightarrow> (Some tok, skipNextComma rest))
               else (case strsep (CHR '','') s of (tok, rest) \<Rightarrow> (Some tok, rest))
           | [] \<Rightarrow> (case strsep (CHR '','') s of (tok, rest) \<Rightarrow> (Some tok, rest))))"

text \<open>
  The stored value is \<open>None\<close> when \<^verbatim>\<open>*p_out\<close> is left alone.  A token that is no number stores 0 before
  the function fails.
\<close>

definition to_int :: "u64 \<Rightarrow> int" where
  "to_int l = sint (ucast l :: u32)"

definition at_tok_nextint_base :: "nat \<Rightarrow> bool \<Rightarrow> pos \<Rightarrow> int \<times> int option \<times> pos" where
  "at_tok_nextint_base base uns p =
     (if p = None then (-1, None, p)
      else case nextTok p of
             (None, p) \<Rightarrow> (-1, None, p)
           | (Some ret, p) \<Rightarrow>
               (case (if uns then strtoul base ret else map_option of_int (strtol base ret)) of
                  None \<Rightarrow> (-1, Some 0, p)
                | Some l \<Rightarrow> (0, Some (to_int l), p)))"

definition at_tok_nextint :: "pos \<Rightarrow> int \<times> int option \<times> pos" where
  "at_tok_nextint = at_tok_nextint_base 10 False"

definition at_tok_nexthexint :: "pos \<Rightarrow> int \<times> int option \<times> pos" where
  "at_tok_nexthexint = at_tok_nextint_base 16 True"

definition at_tok_nextbool :: "pos \<Rightarrow> int \<times> u8 option \<times> pos" where
  "at_tok_nextbool p =
     (case at_tok_nextint p of
        (ret, Some result, p) \<Rightarrow>
          if ret < 0 then (-1, None, p)
          else if result = 0 \<or> result = 1 then (ret, Some (of_int result), p) else (-1, None, p)
      | (ret, None, p) \<Rightarrow> (-1, None, p))"

definition at_tok_nextstr :: "pos \<Rightarrow> int \<times> string option \<times> pos" where
  "at_tok_nextstr p =
     (if p = None then (-1, None, p) else case nextTok p of (tok, p) \<Rightarrow> (0, tok, p))"

definition at_tok_hasmore :: "pos \<Rightarrow> bool" where
  "at_tok_hasmore p \<longleftrightarrow> \<not> (p = None \<or> p = Some [])"

definition at_tok_count :: "pos \<Rightarrow> nat" where
  "at_tok_count l = (case l of None \<Rightarrow> 0 | Some s \<Rightarrow> length (filter (\<lambda>c. c = CHR '','') s))"

section \<open>Formatted scanning\<close>

text \<open>
  What a conversion stores through its pointer; \<open>Keep\<close> leaves the caller's variable alone.
\<close>

datatype scan_val = Keep | SInt int | SFlag u8 | SStr string

definition scan_conv :: "char \<Rightarrow> pos \<Rightarrow> int \<times> scan_val \<times> pos" where
  "scan_conv f line =
     (let int_val = (\<lambda>(err, v, line). (err, case v of None \<Rightarrow> Keep | Some i \<Rightarrow> SInt i, line)) in
      if f = CHR ''d'' then int_val (at_tok_nextint line)
      else if f = CHR ''x'' then int_val (at_tok_nexthexint line)
      else if f = CHR ''b'' then
        (case at_tok_nextbool line of (err, v, line) \<Rightarrow> (err, case v of None \<Rightarrow> Keep | Some b \<Rightarrow> SFlag b, line))
      else if f = CHR ''s'' then
        (case at_tok_nextstr line of (err, v, line) \<Rightarrow> (err, case v of None \<Rightarrow> Keep | Some s \<Rightarrow> SStr s, line))
      else (-1, Keep, line))"

text \<open>The number of conversions made, and the stores in the order of the pointers.\<close>

fun scan_loop :: "string \<Rightarrow> pos \<Rightarrow> nat \<Rightarrow> scan_val list \<Rightarrow> nat \<times> scan_val list" where
  "scan_loop [] line n out = (n, out)"
| "scan_loop (c # fmt) line n out =
     (if c = CHR '','' \<or> c = CHR '' '' then scan_loop fmt line n out
      else if c \<noteq> CHR ''%'' then (n, out)
      else case fmt of
             [] \<Rightarrow> (n, out)
           | f # fmt' \<Rightarrow>
               (case line of
                  None \<Rightarrow> (n, out)
                | Some s \<Rightarrow>
                    if s = [] then (n, out)
                    else if take 2 s = ''-,''
                    then scan_loop fmt' (Some (drop 2 s)) (n + 1) (out @ [if f = CHR ''d'' then SInt (-1) else Keep])
                    else (case scan_conv f line of
                            (err, v, line) \<Rightarrow>
                              if err < 0 then (n, out @ [v])
                              else scan_loop fmt' line (n + 1) (out @ [v]))))"

definition at_tok_scanf :: "pos \<Rightarrow> string \<Rightarrow> nat \<times> scan_val list" where
  "at_tok_scanf in_line fmt =
     (case in_line of
        None \<Rightarrow> (0, [])
      | Some l \<Rightarrow>
          (case at_tok_start (Some (take 1023 l)) of
             (err, line) \<Rightarrow> if err < 0 then (0, []) else scan_loop fmt line 0 []))"

section \<open>Printing and reading back\<close>

text \<open>
  How the modem writes a field: decimal and hexadecimal numbers as \<^verbatim>\<open>printf\<close> does, strings in quotes.
\<close>

definition digit_char :: "nat \<Rightarrow> char" where
  "digit_char v = char_of (if v < 10 then v + 48 else v + 87)"

function print_base :: "nat \<Rightarrow> nat \<Rightarrow> string" where
  "print_base b n = (if b < 2 \<or> n < b then [digit_char n] else print_base b (n div b) @ [digit_char (n mod b)])"
  by pat_completeness auto
termination
  by (relation "measure snd") auto

declare print_base.simps [simp del]

definition print_int :: "int \<Rightarrow> string" where
  "print_int i = (if i < 0 then ''-'' @ print_base 10 (nat (- i)) else print_base 10 (nat i))"

datatype at_field = Dec int | Hex nat | is_Quoted: Quoted string

fun print_field :: "at_field \<Rightarrow> string" where
  "print_field (Dec i) = print_int i"
| "print_field (Hex n) = print_base 16 n"
| "print_field (Quoted s) = [CHR 0x22] @ s @ [CHR 0x22]"

fun print_fields :: "at_field list \<Rightarrow> string" where
  "print_fields [] = []"
| "print_fields [f] = print_field f"
| "print_fields (f # fs) = print_field f @ '','' @ print_fields fs"

fun field_conv :: "at_field \<Rightarrow> string" where
  "field_conv (Dec i) = ''%d''"
| "field_conv (Hex n) = ''%x''"
| "field_conv (Quoted s) = ''%s''"

text \<open>A number of 32 bits is stored as the \<^verbatim>\<open>int\<close> with the same bits.\<close>

fun field_val :: "at_field \<Rightarrow> scan_val" where
  "field_val (Dec i) = SInt i"
| "field_val (Hex n) = SInt (sint (of_nat n :: u32))"
| "field_val (Quoted s) = SStr s"

fun field_wf :: "at_field \<Rightarrow> bool" where
  "field_wf (Dec i) \<longleftrightarrow> - (2 ^ 31) \<le> i \<and> i < 2 ^ 31"
| "field_wf (Hex n) \<longleftrightarrow> n < 2 ^ 32"
| "field_wf (Quoted s) \<longleftrightarrow> CHR 0x22 \<notin> set s"

section \<open>Lemmas\<close>

lemma of_char_digit_char: "v < 16 \<Longrightarrow> (of_char (digit_char v) :: nat) = (if v < 10 then v + 48 else v + 87)"
  by (simp add: digit_char_def)

lemma digit_val_digit_char: "v < base \<Longrightarrow> base \<le> 16 \<Longrightarrow> digit_val base (digit_char v) = Some v"
  by (auto simp: digit_val_def of_char_digit_char Let_def)

lemma print_base_digits:
  assumes "2 \<le> b"
  shows "\<exists>c cs. print_base b n = c # cs \<and> set (print_base b n) \<subseteq> digit_char ` {..<b}"
proof (induction n rule: less_induct)
  case (less n)
  show ?case
  proof (cases "n < b")
    case True
    then show ?thesis using assms by (subst (1 2) print_base.simps) auto
  next
    case False
    with assms have "n div b < n" by (intro div_less_dividend) auto
    from less [OF this] obtain c cs where "print_base b (n div b) = c # cs"
      and "set (print_base b (n div b)) \<subseteq> digit_char ` {..<b}" by blast
    then show ?thesis using False assms by (subst (1 2) print_base.simps) auto
  qed
qed

lemma digits_value_append:
  assumes "set xs \<subseteq> digit_char ` {..<b}" and "b \<le> 16"
  shows "digits_value b acc (xs @ ys) = digits_value b (digits_value b acc xs) ys"
  using assms by (induction xs arbitrary: acc) (auto simp: digit_val_digit_char)

lemma digits_value_print:
  assumes "2 \<le> b" and "b \<le> 16"
  shows "digits_value b 0 (print_base b n) = n"
proof (induction n rule: less_induct)
  case (less n)
  show ?case
  proof (cases "n < b")
    case True
    then show ?thesis using assms by (subst print_base.simps) (simp add: digit_val_digit_char)
  next
    case False
    with assms have l: "n div b < n" by (intro div_less_dividend) auto
    have "digits_value b 0 (print_base b (n div b) @ [digit_char (n mod b)]) = n div b * b + n mod b"
      using print_base_digits [OF assms(1), of "n div b"] assms less [OF l]
      by (subst digits_value_append) (auto simp: digit_val_digit_char)
    then show ?thesis using False assms by (subst print_base.simps) auto
  qed
qed

lemma digit_char_plain:
  assumes "v < 16" and "c = digit_char v"
  shows "\<not> isspace c" "c \<noteq> CHR ''-''" "c \<noteq> CHR ''+''" "c \<noteq> CHR '',''" "c \<noteq> CHR 0x22" "c \<noteq> CHR ''x''" "c \<noteq> CHR ''X''"
proof -
  have n: "(of_char c :: nat) = (if v < 10 then v + 48 else v + 87)" using assms of_char_digit_char by simp
  then have "48 \<le> (of_char c :: nat) \<and> (of_char c :: nat) < 58 \<or> 97 \<le> (of_char c :: nat) \<and> (of_char c :: nat) < 103"
    using assms by auto
  then show "\<not> isspace c" "c \<noteq> CHR ''-''" "c \<noteq> CHR ''+''" "c \<noteq> CHR '',''" "c \<noteq> CHR 0x22" "c \<noteq> CHR ''x''" "c \<noteq> CHR ''X''"
    by (auto simp: isspace_def)
qed

lemma skip_0x_print:
  assumes "2 \<le> b" and "b \<le> 16"
  shows "skip_0x b (print_base b n) = print_base b n"
proof (cases "print_base b n")
  case (Cons c cs)
  show ?thesis
  proof (cases cs)
    case (Cons d ds)
    have "d \<in> set (print_base b n)" using \<open>print_base b n = c # cs\<close> Cons by simp
    then obtain v where "v < b" and "d = digit_char v" using print_base_digits [OF assms(1)] by blast
    then have "d \<noteq> CHR ''x''" "d \<noteq> CHR ''X''" using digit_char_plain [of v d] assms(2) by auto
    then show ?thesis using \<open>print_base b n = c # cs\<close> Cons by (simp add: skip_0x_def split: list.split)
  qed (simp add: \<open>print_base b n = c # cs\<close> skip_0x_def)
qed (simp add: skip_0x_def)

lemma print_base_hd:
  assumes "2 \<le> b" and "b \<le> 16"
  obtains c cs v where "print_base b n = c # cs" "c = digit_char v" "v < b" "\<not> isspace c"
    "c \<noteq> CHR ''-''" "c \<noteq> CHR ''+''" "c \<noteq> CHR 0x22"
proof -
  obtain c cs where c: "print_base b n = c # cs" "set (c # cs) \<subseteq> digit_char ` {..<b}"
    using print_base_digits [OF assms(1), of n] by metis
  then obtain v where v: "c = digit_char v" "v < b" by auto
  with digit_char_plain [of v c] assms(2) have "\<not> isspace c" "c \<noteq> CHR ''-''" "c \<noteq> CHR ''+''" "c \<noteq> CHR 0x22"
    by auto
  with c(1) v that show thesis by blast
qed

lemma print_base_no_comma:
  assumes "2 \<le> b" and "b \<le> 16"
  shows "CHR '','' \<notin> set (print_base b n)"
proof
  assume "CHR '','' \<in> set (print_base b n)"
  then obtain v where "v < b" and "CHR '','' = digit_char v" using print_base_digits [OF assms(1)] by blast
  with digit_char_plain [of v "CHR '',''"] assms(2) show False by auto
qed

lemma strto_parts_print:
  assumes "2 \<le> b" and "b \<le> 16"
  shows "strto_parts b (print_base b n) = Some (False, n)"
    and "strto_parts b (CHR ''-'' # print_base b n) = Some (True, n)"
proof -
  obtain c cs v where c: "print_base b n = c # cs" "c = digit_char v" "v < b" "\<not> isspace c"
    "c \<noteq> CHR ''-''" "c \<noteq> CHR ''+''"
    using print_base_hd [OF assms] by metis
  have d: "digit_val b c = Some v" using c(2,3) assms by (simp add: digit_val_digit_char)
  have s: "skip_0x b (c # cs) = c # cs" and n: "digits_value b 0 (c # cs) = n"
    using skip_0x_print [OF assms, of n] digits_value_print [OF assms, of n] c(1) by simp_all
  have "\<not> isspace (CHR ''-'')" by (simp add: isspace_def)
  then show "strto_parts b (CHR ''-'' # print_base b n) = Some (True, n)"
    using c s n d unfolding c(1) by (simp add: strto_parts_def Let_def del: digits_value.simps)
  show "strto_parts b (print_base b n) = Some (False, n)"
    using c s n d unfolding c(1) by (simp add: strto_parts_def Let_def del: digits_value.simps)
qed

lemma strtol_print_int:
  assumes "- (2 ^ 31) \<le> i" and "i < 2 ^ 31"
  shows "strtol 10 (print_int i) = Some i"
  using assms strto_parts_print [of 10]
  by (auto simp: strtol_def print_int_def)

lemma to_int_of_int:
  assumes "- (2 ^ 31) \<le> i" and "i < 2 ^ 31"
  shows "to_int (of_int i) = i"
proof -
  have "ucast (of_int i :: u64) = (of_int i :: u32)"
    by (rule bit_word_eqI) (auto simp: bit_simps)
  then show ?thesis using assms by (simp add: to_int_def signed_of_int signed_take_bit_int_eq_self)
qed

lemma strtoul_print_base: "n < 2 ^ 32 \<Longrightarrow> strtoul 16 (print_base 16 n) = Some (of_nat n)"
  by (simp add: strtoul_def strto_parts_print)

lemma to_int_of_nat: "to_int (of_nat n) = sint (of_nat n :: u32)"
proof -
  have "ucast (of_nat n :: u64) = (of_nat n :: u32)"
    by (rule bit_word_eqI) (auto simp: bit_simps)
  then show ?thesis by (simp add: to_int_def)
qed

lemma strsep_mid: "d \<notin> set tok \<Longrightarrow> strsep d (tok @ d # rest) = (tok, Some rest)"
  by (induction tok) (auto simp: strsep_def)

lemma strsep_end: "d \<notin> set tok \<Longrightarrow> strsep d tok = (tok, None)"
  by (induction tok) (auto simp: strsep_def)

text \<open>Behind a field stands the end of the line or a comma and the next field.\<close>

definition follows :: "string \<Rightarrow> bool" where
  "follows t \<longleftrightarrow> t = [] \<or> hd t = CHR '',''"

definition rest_of :: "bool \<Rightarrow> string \<Rightarrow> pos" where
  "rest_of quoted t = (case t of [] \<Rightarrow> if quoted then Some [] else None | _ # r \<Rightarrow> Some r)"

lemma dropWhile_spaces: "\<not> isspace c \<Longrightarrow> dropWhile isspace (replicate k (CHR '' '') @ c # s) = c # s"
proof (induction k)
  case (Suc k)
  have "isspace (CHR '' '')" by (simp add: isspace_def)
  with Suc show ?case by simp
qed simp

lemma nextTok_plain:
  assumes "c \<noteq> CHR 0x22" "\<not> isspace c" "CHR '','' \<notin> set (c # cs)" "follows t"
  shows "nextTok (Some (replicate k (CHR '' '') @ (c # cs) @ t)) = (Some (c # cs), rest_of False t)"
proof (cases t)
  case Nil
  then show ?thesis using assms dropWhile_spaces [of c k cs] strsep_end [of _ "c # cs"]
    by (simp add: nextTok_def skipWhiteSpace_def rest_of_def)
next
  case (Cons d r)
  then show ?thesis using assms dropWhile_spaces [of c k "cs @ t"] strsep_mid [of d "c # cs" r]
    by (simp add: nextTok_def skipWhiteSpace_def rest_of_def follows_def)
qed

lemma nextTok_quoted:
  assumes "CHR 0x22 \<notin> set s" "follows t"
  shows "nextTok (Some (replicate k (CHR '' '') @ (CHR 0x22 # s @ [CHR 0x22]) @ t)) = (Some s, rest_of True t)"
proof -
  have "\<not> isspace (CHR 0x22)" by (simp add: isspace_def)
  from dropWhile_spaces [OF this, of k] show ?thesis
    using assms strsep_mid [of "CHR 0x22" s t]
    by (cases t) (simp_all add: nextTok_def skipWhiteSpace_def skipNextComma_def rest_of_def follows_def)
qed

lemma print_int_hd:
  obtains c cs where "print_int i = c # cs" "\<not> isspace c" "c \<noteq> CHR 0x22" "CHR '','' \<notin> set (c # cs)"
    "c # cs \<noteq> ''-''"
proof -
  obtain c cs where c: "print_base 10 (nat (- i)) = c # cs" by (rule print_base_hd [of 10 "nat (- i)"]) auto
  obtain d ds where d: "print_base 10 (nat i) = d # ds" "\<not> isspace d" "d \<noteq> CHR ''-''" "d \<noteq> CHR 0x22"
    by (rule print_base_hd [of 10 "nat i"]) auto
  show thesis
  proof (cases "i < 0")
    case True
    then show ?thesis
      using that [of "CHR ''-''" "c # cs"] c print_base_no_comma [of 10 "nat (- i)"]
      by (simp add: print_int_def isspace_def)
  next
    case False
    then show ?thesis
      using that [of d ds] d print_base_no_comma [of 10 "nat i"] by (simp add: print_int_def)
  qed
qed

text \<open>One conversion reads one printed field, whatever spaces stand before it.\<close>

lemma scan_conv_field:
  assumes "field_wf f" and "follows t"
  shows "scan_conv (field_conv f ! 1) (Some (replicate k (CHR '' '') @ print_field f @ t))
       = (0, field_val f, rest_of (is_Quoted f) t)"
proof (cases f)
  case (Dec i)
  obtain c cs where p: "print_int i = c # cs" "\<not> isspace c" "c \<noteq> CHR 0x22" "CHR '','' \<notin> set (c # cs)"
    using print_int_hd [of i] by metis
  have "strtol 10 (c # cs) = Some i" using strtol_print_int [of i] assms(1) Dec p(1) by simp
  then show ?thesis
    using nextTok_plain [OF p(3,2,4) assms(2), of k] assms(1) Dec p(1) to_int_of_int [of i]
    by (simp add: scan_conv_def at_tok_nextint_def at_tok_nextint_base_def)
next
  case (Hex n)
  obtain c cs where p: "print_base 16 n = c # cs" "\<not> isspace c" "c \<noteq> CHR 0x22"
    by (rule print_base_hd [of 16 n]) auto
  have "CHR '','' \<notin> set (c # cs)" using print_base_no_comma [of 16 n] p(1) by simp
  moreover have "strtoul 16 (c # cs) = Some (of_nat n)" using strtoul_print_base [of n] assms(1) Hex p(1) by simp
  ultimately show ?thesis
    using nextTok_plain [OF p(3,2) _ assms(2), of cs k] assms(1) Hex p(1)
    by (simp add: scan_conv_def at_tok_nexthexint_def at_tok_nextint_base_def to_int_of_nat)
next
  case (Quoted s)
  then show ?thesis using nextTok_quoted [of s t k] assms
    by (simp add: scan_conv_def at_tok_nextstr_def)
qed

lemma print_field_no_dash:
  assumes "field_wf f"
  shows "take 2 (replicate k (CHR '' '') @ print_field f @ t) \<noteq> ''-,''"
    and "replicate k (CHR '' '') @ print_field f @ t \<noteq> []"
proof -
  have "take 2 (print_field f @ t) \<noteq> ''-,'' \<and> print_field f \<noteq> []"
  proof (cases f)
    case (Dec i)
    obtain c cs where "print_int i = c # cs" "CHR '','' \<notin> set (c # cs)" "c # cs \<noteq> ''-''"
      by (rule print_int_hd [of i]) auto
    then show ?thesis using Dec by (cases cs) auto
  next
    case (Hex n)
    obtain c cs where "print_base 16 n = c # cs" "c \<noteq> CHR ''-''" by (rule print_base_hd [of 16 n]) auto
    then show ?thesis using Hex by simp
  qed simp
  then show "take 2 (replicate k (CHR '' '') @ print_field f @ t) \<noteq> ''-,''"
    and "replicate k (CHR '' '') @ print_field f @ t \<noteq> []"
    by (cases k; simp)+
qed

lemma scan_loop_hit:
  assumes "s \<noteq> []" and "take 2 s \<noteq> ''-,''" and "scan_conv f (Some s) = (0, v, line)"
  shows "scan_loop (CHR ''%'' # f # fmt) (Some s) n out = scan_loop fmt line (n + 1) (out @ [v])"
  using assms by simp

lemma scan_loop_field:
  assumes "field_wf f" and "follows t"
  shows "scan_loop (field_conv f @ fmt) (Some (replicate k (CHR '' '') @ print_field f @ t)) n out
       = scan_loop fmt (rest_of (is_Quoted f) t) (n + 1) (out @ [field_val f])"
proof -
  have "field_conv f @ fmt = CHR ''%'' # field_conv f ! 1 # fmt" by (cases f) simp_all
  then show ?thesis
    by (simp only: scan_loop_hit [OF print_field_no_dash(2,1) [OF assms(1)] scan_conv_field [OF assms]])
qed

lemma scan_loop_done: "line = None \<or> line = Some [] \<Longrightarrow> scan_loop (concat (map field_conv gs)) line n out = (n, out)"
proof (cases gs)
  case (Cons g gs')
  assume "line = None \<or> line = Some []"
  then show ?thesis using Cons by (cases g) auto
qed simp

lemma scan_loop_fields:
  assumes "list_all field_wf fs" and "fs \<noteq> []"
  shows "scan_loop (concat (map field_conv (fs @ gs))) (Some (replicate k (CHR '' '') @ print_fields fs)) n out
       = (n + length fs, out @ map field_val fs)"
  using assms
proof (induction fs arbitrary: k n out rule: print_fields.induct)
  case (2 f)
  then show ?case
    using scan_loop_field [of f "[]" "concat (map field_conv gs)" k n out]
      scan_loop_done [of "rest_of (is_Quoted f) []" gs]
    by (simp add: follows_def rest_of_def)
next
  case (3 f g fs)
  then show ?case
    using scan_loop_field [of f "CHR '','' # print_fields (g # fs)" "concat (map field_conv (g # fs @ gs))" k n out]
      3(1) [of 0 "n + 1" "out @ [field_val f]"]
    by (simp add: follows_def rest_of_def)
qed simp

lemma scanf_fields:
  assumes "CHR '':'' \<notin> set prefix" and "list_all field_wf fs" and "fs \<noteq> []"
    and "line = prefix @ '': '' @ print_fields fs" and "length line \<le> 1023"
  shows "at_tok_scanf (Some line) (concat (map field_conv (fs @ gs))) = (length fs, map field_val fs)"
proof -
  have "dropWhile (\<lambda>c. c \<noteq> CHR '':'') line = '': '' @ print_fields fs"
    using assms(1,4) by (subst assms(4), subst dropWhile_append2) auto
  then have "at_tok_start (Some line) = (0, Some ('' '' @ print_fields fs))"
    by (simp add: at_tok_start_def)
  then show ?thesis
    using scan_loop_fields [OF assms(2,3), of gs 1 0 "[]"] assms(5) by (simp add: at_tok_scanf_def)
qed

section \<open>Properties\<close>

text \<open>
  C35: Scanning a response line with the conversions of its fields gives back every field: the decimal
  numbers of an \<^verbatim>\<open>int\<close>, hexadecimal numbers of 32 bits and quoted strings that the modem printed, and
  the number of fields, also when the format asks for more; this holds for any prefix without a colon
  and a line that fits the 1023 bytes kept.
\<close>

theorem scanf_roundtrip:
  assumes "CHR '':'' \<notin> set prefix" and "list_all field_wf fs" and "fs \<noteq> []"
    and "line = prefix @ '': '' @ print_fields fs" and "length line \<le> 1023"
  shows "at_tok_scanf (Some line) (concat (map field_conv (fs @ gs))) = (length fs, map field_val fs)"
  using assms by (rule scanf_fields)

theorem scanf_roundtrip_witness:
  "at_tok_scanf (Some (''+CGPADDR: 1,'' @ [CHR 0x22] @ ''10.0.0.7'' @ [CHR 0x22] @ '',2f'')) ''%d%s%x''
     = (3, [SInt 1, SStr ''10.0.0.7'', SInt 47])"
proof -
  let ?fs = "[Dec 1, Quoted ''10.0.0.7'', Hex 47]"
  have "print_base 16 47 = ''2f''" and "print_base 10 1 = ''1''" by code_simp+
  then have eq: "''+CGPADDR: 1,'' @ [CHR 0x22] @ ''10.0.0.7'' @ [CHR 0x22] @ '',2f''
      = ''+CGPADDR'' @ '': '' @ print_fields ?fs"
    by (simp add: print_int_def)
  have "list_all field_wf ?fs" and "CHR '':'' \<notin> set ''+CGPADDR''" by simp_all
  note scanf_roundtrip [OF this(2,1) _ eq, of "[]"]
  moreover have "length (''+CGPADDR: 1,'' @ [CHR 0x22] @ ''10.0.0.7'' @ [CHR 0x22] @ '',2f'') \<le> 1023"
    by simp
  moreover have "map field_val ?fs = [SInt 1, SStr ''10.0.0.7'', SInt 47]" by code_simp
  moreover have "concat (map field_conv (?fs @ [])) = ''%d%s%x''" and "length ?fs = 3" and "?fs \<noteq> []" by code_simp+
  ultimately show ?thesis by (simp only: not_False_eq_True simp_thms)
qed

end
