(* ===== verification/AtChannel.thy ===== *)
theory AtChannel
  imports AtTok
begin

text \<open>
  The AT channel, \<^verbatim>\<open>atchannel.c\<close>: cutting the input into lines, sorting the lines into the pending
  command's response and unsolicited ones, and sending a command.  A C string is a \<open>string\<close> without
  its NUL.  The lock is held whenever the state is touched, so the two threads interleave exactly
  where the sender waits; what happens there is an input of the model.
\<close>

section \<open>Kinds of lines\<close>

fun strStartsWith :: "string \<Rightarrow> string \<Rightarrow> bool" where
  "strStartsWith line [] = True"
| "strStartsWith [] (p # ps) = False"
| "strStartsWith (l # ls) (p # ps) = (l = p \<and> strStartsWith ls ps)"

definition s_finalResponsesError :: "string list" where
  "s_finalResponsesError = [''ERROR'', ''+CMS ERROR:'', ''+CME ERROR:'', ''NO CARRIER'', ''NO ANSWER'',
     ''NO DIALTONE'', ''COMMAND NOT SUPPORT'']"

definition isFinalResponseError :: "string \<Rightarrow> bool" where
  "isFinalResponseError line = list_ex (strStartsWith line) s_finalResponsesError"

definition s_finalResponsesSuccess :: "string list" where
  "s_finalResponsesSuccess = [''OK'',
     ''+QIND: '' @ [CHR 0x22] @ ''FOTA'' @ [CHR 0x22] @ '','' @ [CHR 0x22] @ ''END'' @ [CHR 0x22] @ '',0'', ''CONNECT'']"

definition isFinalResponseSuccess :: "string \<Rightarrow> bool" where
  "isFinalResponseSuccess line = list_ex (strStartsWith line) s_finalResponsesSuccess"

definition isSMSUnsolicited :: "string \<Rightarrow> bool" where
  "isSMSUnsolicited line = list_ex (strStartsWith line) [''+CMT:'', ''+CDS:'', ''+CBM:'', ''+CMTI:'']"

section \<open>The pending command\<close>

text \<open>
  \<open>ATCommandType\<close> carries the response prefix with the type that uses it.  The intermediate lines of
  a response are kept in reverse, as the list is built at its head.
\<close>

datatype ATCommandType = NO_RESULT | NUMERIC | SINGLELINE string | MULTILINE string

record at_response =
  success :: bool
  finalResponse :: "string option"
  p_intermediates :: "string list"

definition at_response_new :: at_response where
  "at_response_new = \<lparr>success = False, finalResponse = None, p_intermediates = []\<rparr>"

text \<open>
  \<open>unsolicited\<close> holds the lines handed to the handler, \<open>written\<close> what was written to the device.
\<close>

record at_chan =
  s_type :: ATCommandType
  sp_response :: "at_response option"
  s_smsPDU :: "string option"
  s_raw_data :: "string option"
  s_readerClosed :: bool
  s_fd_open :: bool
  s_atc_proxy :: bool
  unsolicited :: "string list"
  written :: "string list"

definition handleUnsolicited :: "string \<Rightarrow> at_chan \<Rightarrow> at_chan" where
  "handleUnsolicited line c = c\<lparr>unsolicited := unsolicited c @ [line]\<rparr>"

definition handleFinalResponse :: "bool \<Rightarrow> string \<Rightarrow> at_response \<Rightarrow> at_chan \<Rightarrow> at_chan" where
  "handleFinalResponse ok line r c = c\<lparr>sp_response := Some (r\<lparr>success := ok, finalResponse := Some line\<rparr>)\<rparr>"

definition addIntermediate :: "string \<Rightarrow> at_response \<Rightarrow> at_chan \<Rightarrow> at_chan" where
  "addIntermediate line r c = c\<lparr>sp_response := Some (r\<lparr>p_intermediates := line # p_intermediates r\<rparr>)\<rparr>"

definition at_write :: "string \<Rightarrow> at_chan \<Rightarrow> at_chan" where
  "at_write s c = (if \<not> s_fd_open c \<or> s_readerClosed c then c else c\<lparr>written := written c @ [s]\<rparr>)"

definition isdigit :: "char \<Rightarrow> bool" where
  "isdigit c \<longleftrightarrow> 48 \<le> (of_char c :: nat) \<and> (of_char c :: nat) \<le> 57"

definition processLine :: "string \<Rightarrow> at_chan \<Rightarrow> at_chan" where
  "processLine line c =
     (case sp_response c of
        None \<Rightarrow> handleUnsolicited line c
      | Some r \<Rightarrow>
          if s_raw_data c \<noteq> None \<and> line = ''CONNECT''
          then (at_write (the (s_raw_data c)) c)\<lparr>s_raw_data := None\<rparr>
          else if isFinalResponseSuccess line
          then handleFinalResponse True line r (if s_atc_proxy c then handleUnsolicited line c else c)
          else if isFinalResponseError line
          then handleFinalResponse False line r (if s_atc_proxy c then handleUnsolicited line c else c)
          else if s_smsPDU c \<noteq> None \<and> line = ''> ''
          then (at_write (the (s_smsPDU c) @ [CHR 0x1A]) c)\<lparr>s_smsPDU := None\<rparr>
          else case s_type c of
                 NO_RESULT \<Rightarrow> handleUnsolicited line c
               | NUMERIC \<Rightarrow>
                   if p_intermediates r = [] \<and> line \<noteq> [] \<and> isdigit (hd line)
                   then addIntermediate line r c else handleUnsolicited line c
               | SINGLELINE responsePrefix \<Rightarrow>
                   if p_intermediates r = [] \<and> strStartsWith line responsePrefix
                   then addIntermediate line r c else handleUnsolicited line c
               | MULTILINE responsePrefix \<Rightarrow>
                   if strStartsWith line responsePrefix then addIntermediate line r c
                   else handleUnsolicited line c)"

section \<open>Sending a command\<close>

definition AT_ERROR_GENERIC :: int where "AT_ERROR_GENERIC = -1"
definition AT_ERROR_COMMAND_PENDING :: int where "AT_ERROR_COMMAND_PENDING = -2"
definition AT_ERROR_CHANNEL_CLOSED :: int where "AT_ERROR_CHANNEL_CLOSED = -3"
definition AT_ERROR_TIMEOUT :: int where "AT_ERROR_TIMEOUT = -4"
definition AT_ERROR_INVALID_RESPONSE :: int where "AT_ERROR_INVALID_RESPONSE = -6"

lemmas at_error_defs = AT_ERROR_GENERIC_def AT_ERROR_COMMAND_PENDING_def AT_ERROR_CHANNEL_CLOSED_def
  AT_ERROR_TIMEOUT_def AT_ERROR_INVALID_RESPONSE_def

text \<open>\<open>write_ok\<close> is what the \<^verbatim>\<open>write\<close> calls return; a command goes out with a carriage return.\<close>

definition writeline :: "bool \<Rightarrow> string \<Rightarrow> at_chan \<Rightarrow> int \<times> at_chan" where
  "writeline write_ok s c =
     (if \<not> s_fd_open c \<or> s_readerClosed c then (AT_ERROR_CHANNEL_CLOSED, c)
      else if \<not> write_ok then (AT_ERROR_GENERIC, c)
      else (0, c\<lparr>written := written c @ [s @ [CHR 0x0D]]\<rparr>))"

definition clearPendingCommand :: "at_chan \<Rightarrow> at_chan" where
  "clearPendingCommand c = c\<lparr>sp_response := None, s_smsPDU := None\<rparr>"

text \<open>
  While the sender waits, the reader thread takes lines or finds the channel closed, and the
  condition variable wakes the sender, spuriously or not, or times out.  Nothing more to come is a
  time-out.
\<close>

datatype at_input = Line string | Closed | Wake | TimedOut

fun at_await :: "at_input list \<Rightarrow> at_chan \<Rightarrow> int \<times> at_chan" where
  "at_await [] c = (AT_ERROR_TIMEOUT, c)"
| "at_await (Line l # is) c = at_await is (processLine l c)"
| "at_await (Closed # is) c = at_await is (c\<lparr>s_readerClosed := True\<rparr>)"
| "at_await (TimedOut # is) c = (AT_ERROR_TIMEOUT, c)"
| "at_await (Wake # is) c =
     (case sp_response c of
        None \<Rightarrow> at_await is c
      | Some r \<Rightarrow> if finalResponse r = None \<and> \<not> s_readerClosed c then at_await is c else (0, c))"

definition reverseIntermediates :: "at_response \<Rightarrow> at_response" where
  "reverseIntermediates r = r\<lparr>p_intermediates := rev (p_intermediates r)\<rparr>"

text \<open>The response is \<open>None\<close> where \<^verbatim>\<open>*pp_outResponse\<close> is not stored; \<open>want\<close> is \<^verbatim>\<open>pp_outResponse != NULL\<close>.\<close>

definition at_send_command_full_nolock ::
  "string \<Rightarrow> ATCommandType \<Rightarrow> string option \<Rightarrow> bool \<Rightarrow> bool \<Rightarrow> at_input list \<Rightarrow> at_chan
     \<Rightarrow> int \<times> at_response option \<times> at_chan" where
  "at_send_command_full_nolock command ty smspdu want write_ok inputs c =
     (if sp_response c \<noteq> None then (AT_ERROR_COMMAND_PENDING, None, clearPendingCommand c)
      else case writeline write_ok command c of
        (err, c) \<Rightarrow>
          if err < 0 then (err, None, clearPendingCommand c)
          else case at_await inputs (c\<lparr>s_type := ty, s_smsPDU := smspdu, sp_response := Some at_response_new\<rparr>) of
            (err, c) \<Rightarrow>
              if err = AT_ERROR_TIMEOUT then (err, None, clearPendingCommand c)
              else let rsp = (if want then map_option reverseIntermediates (sp_response c) else None) in
                (if s_readerClosed c then AT_ERROR_CHANNEL_CLOSED else 0, rsp, clearPendingCommand c))"

text \<open>
  What the device does with one command: lines that come before it, the result of writing it, and
  what happens while the sender waits.  A link has a script of these; after its end commands time out.
\<close>

record at_exchange =
  idle_lines :: "string list"
  write_ok :: bool
  waiting_inputs :: "at_input list"

record at_link =
  at_ch :: at_chan
  at_script :: "at_exchange list"

definition next_exchange :: "'a at_link_scheme \<Rightarrow> at_exchange" where
  "next_exchange l =
     (case at_script l of [] \<Rightarrow> \<lparr>idle_lines = [], write_ok = True, waiting_inputs = []\<rparr> | e # _ \<Rightarrow> e)"

definition at_send_command_full ::
  "string \<Rightarrow> ATCommandType \<Rightarrow> string option \<Rightarrow> bool \<Rightarrow> 'a at_link_scheme \<Rightarrow> int \<times> at_response option \<times> 'a at_link_scheme" where
  "at_send_command_full command ty smspdu want l =
     (let e = next_exchange l;
          (err, rsp, c) = at_send_command_full_nolock command ty smspdu want (write_ok e) (waiting_inputs e)
                            (fold processLine (idle_lines e) (at_ch l)) in
      (err, rsp, l\<lparr>at_ch := c, at_script := tl (at_script l)\<rparr>))"

definition at_send_command ::
  "string \<Rightarrow> bool \<Rightarrow> 'a at_link_scheme \<Rightarrow> int \<times> at_response option \<times> 'a at_link_scheme" where
  "at_send_command command want l = at_send_command_full command NO_RESULT None want l"

definition must_have_intermediate ::
  "int \<times> at_response option \<times> 'a at_link_scheme \<Rightarrow> int \<times> at_response option \<times> 'a at_link_scheme" where
  "must_have_intermediate x =
     (case x of
        (err, Some r, l) \<Rightarrow>
          if err = 0 \<and> success r \<and> p_intermediates r = [] then (AT_ERROR_INVALID_RESPONSE, None, l) else x
      | (err, None, l) \<Rightarrow> x)"

definition at_send_command_singleline ::
  "string \<Rightarrow> string \<Rightarrow> bool \<Rightarrow> 'a at_link_scheme \<Rightarrow> int \<times> at_response option \<times> 'a at_link_scheme" where
  "at_send_command_singleline command responsePrefix want l =
     must_have_intermediate (at_send_command_full command (SINGLELINE responsePrefix) None want l)"

definition at_send_command_numeric ::
  "string \<Rightarrow> bool \<Rightarrow> 'a at_link_scheme \<Rightarrow> int \<times> at_response option \<times> 'a at_link_scheme" where
  "at_send_command_numeric command want l =
     must_have_intermediate (at_send_command_full command NUMERIC None want l)"

definition at_send_command_multiline ::
  "string \<Rightarrow> string \<Rightarrow> bool \<Rightarrow> 'a at_link_scheme \<Rightarrow> int \<times> at_response option \<times> 'a at_link_scheme" where
  "at_send_command_multiline command responsePrefix want l =
     at_send_command_full command (MULTILINE responsePrefix) None want l"

definition at_send_command_sms ::
  "string \<Rightarrow> string \<Rightarrow> string \<Rightarrow> bool \<Rightarrow> 'a at_link_scheme \<Rightarrow> int \<times> at_response option \<times> 'a at_link_scheme" where
  "at_send_command_sms command pdu responsePrefix want l =
     must_have_intermediate (at_send_command_full command (SINGLELINE responsePrefix) (Some pdu) want l)"

definition at_send_command_raw ::
  "string \<Rightarrow> string \<Rightarrow> string \<Rightarrow> bool \<Rightarrow> 'a at_link_scheme \<Rightarrow> int \<times> at_response option \<times> 'a at_link_scheme" where
  "at_send_command_raw command raw_data responsePrefix want l =
     at_send_command_full command (SINGLELINE responsePrefix) None want
       (l\<lparr>at_ch := (at_ch l)\<lparr>s_raw_data := Some raw_data\<rparr>\<rparr>)"

text \<open>Opening and closing; \<open>ret\<close> is what \<^verbatim>\<open>pthread_create\<close> returns, 0 or a positive error number.\<close>

definition at_open :: "int \<Rightarrow> bool \<Rightarrow> at_chan \<Rightarrow> int \<times> at_chan" where
  "at_open ret is_proxy c =
     (if ret < 0 then -1 else 0,
      c\<lparr>s_fd_open := True, s_readerClosed := False, s_atc_proxy := is_proxy, s_smsPDU := None, sp_response := None\<rparr>)"

definition at_close :: "at_chan \<Rightarrow> at_chan" where
  "at_close c = c\<lparr>s_fd_open := False, s_readerClosed := True\<rparr>"

fun handshake_loop :: "nat \<Rightarrow> 'a at_link_scheme \<Rightarrow> int \<times> 'a at_link_scheme" where
  "handshake_loop 0 l = (0, l)"
| "handshake_loop (Suc n) l =
     (case at_send_command_full ''ATE0Q0V1'' NO_RESULT None False l of
        (err, rsp, l) \<Rightarrow> if err = 0 \<or> n = 0 then (err, l) else handshake_loop n l)"

definition at_handshake :: "'a at_link_scheme \<Rightarrow> int \<times> 'a at_link_scheme" where
  "at_handshake l = handshake_loop 8 l"

definition at_get_cme_error :: "at_response option \<Rightarrow> int" where
  "at_get_cme_error p_response =
     (case p_response of
        None \<Rightarrow> -1
      | Some r \<Rightarrow>
          if success r then 0
          else case finalResponse r of
                 None \<Rightarrow> -1
               | Some f \<Rightarrow>
                   if \<not> strStartsWith f ''+CME ERROR:'' then -1
                   else case at_tok_start (Some f) of
                          (err, p) \<Rightarrow>
                            if err < 0 then -1
                            else case at_tok_nextint p of
                                   (err, v, p) \<Rightarrow> if err < 0 then -1 else (case v of None \<Rightarrow> -1 | Some i \<Rightarrow> i))"

section \<open>Cutting the input into lines\<close>

text \<open>
  \<open>mem\<close> is the 4096 bytes of \<^verbatim>\<open>s_ATBuffer\<close>, \<open>cur\<close> the position \<^verbatim>\<open>s_ATBufferCur\<close> and \<open>p\<close> the position
  \<^verbatim>\<open>p_read\<close>, as offsets in it.  The C string at a position has an end only if a NUL follows there.
\<close>

definition MAX_AT_RESPONSE :: nat where "MAX_AT_RESPONSE = 4096"

definition cstr :: "string \<Rightarrow> nat \<Rightarrow> string option" where
  "cstr mem i =
     (if CHR 0x00 \<in> set (drop i mem) then Some (takeWhile (\<lambda>c. c \<noteq> CHR 0x00) (drop i mem)) else None)"

definition store :: "nat \<Rightarrow> string \<Rightarrow> string \<Rightarrow> string" where
  "store p xs mem = take p mem @ xs @ drop (p + length xs) mem"

definition is_eol :: "char \<Rightarrow> bool" where
  "is_eol c \<longleftrightarrow> c = CHR 0x0D \<or> c = CHR 0x0A"

text \<open>The end of the next line in the C string at the current position.\<close>

definition findNextEOL :: "string \<Rightarrow> nat option" where
  "findNextEOL s =
     (if s = ''> '' then Some 2
      else let k = length (takeWhile (\<lambda>c. \<not> is_eol c) s) in if k < length s then Some k else None)"

text \<open>
  \<open>reads\<close> is what the \<^verbatim>\<open>read\<close> calls return; an empty one, or none, is the end of the file or an error.
  A read that fills the buffer makes the terminating NUL land behind it, which is \<open>None\<close>.
\<close>

fun read_more ::
  "string list \<Rightarrow> string \<Rightarrow> nat \<Rightarrow> nat \<Rightarrow> (string option \<times> string \<times> nat \<times> string list) option" where
  "read_more [] mem cur p = Some (None, mem, cur, [])"
| "read_more (ch # reads) mem cur p =
     (let (mem, cur, p) = (if p = MAX_AT_RESPONSE then (mem[0 := CHR 0x00], 0, 0) else (mem, cur, p)) in
      if ch = [] then Some (None, mem, cur, reads)
      else if MAX_AT_RESPONSE - p \<le> length ch then None
      else let mem = store p (ch @ [CHR 0x00]) mem in
        case cstr mem cur of
          None \<Rightarrow> None
        | Some s \<Rightarrow>
            let cur = cur + length (takeWhile is_eol s); s = dropWhile is_eol s in
            case findNextEOL s of
              Some e \<Rightarrow> Some (Some (take e s), mem[cur + e := CHR 0x00], cur + e + 1, reads)
            | None \<Rightarrow> read_more reads mem cur (p + length ch))"

definition readline :: "string list \<Rightarrow> string \<Rightarrow> nat \<Rightarrow> (string option \<times> string \<times> nat \<times> string list) option" where
  "readline reads mem cur =
     (case cstr mem cur of
        None \<Rightarrow> None
      | Some s \<Rightarrow>
          if s = [] then read_more reads (mem[0 := CHR 0x00]) 0 0
          else let cur = cur + length (takeWhile is_eol s); s = dropWhile is_eol s in
            case findNextEOL s of
              Some e \<Rightarrow> Some (Some (take e s), mem[cur + e := CHR 0x00], cur + e + 1, reads)
            | None \<Rightarrow> read_more reads (store 0 (s @ [CHR 0x00]) mem) 0 (length s))"

text \<open>
  One round of \<open>readerLoop\<close>: the line goes to the pending command, or with the one behind it to the
  handler.  The boolean is false when the loop ends.
\<close>

definition readerLoop_step ::
  "string list \<Rightarrow> string \<Rightarrow> nat \<Rightarrow> at_chan \<Rightarrow> (bool \<times> at_chan \<times> string \<times> nat \<times> string list) option" where
  "readerLoop_step reads mem cur c =
     (case readline reads mem cur of
        None \<Rightarrow> None
      | Some (None, mem, cur, reads) \<Rightarrow> Some (False, c\<lparr>s_readerClosed := True\<rparr>, mem, cur, reads)
      | Some (Some line, mem, cur, reads) \<Rightarrow>
          if isSMSUnsolicited line then
            (case readline reads mem cur of
               None \<Rightarrow> None
             | Some (None, mem, cur, reads) \<Rightarrow> Some (False, c\<lparr>s_readerClosed := True\<rparr>, mem, cur, reads)
             | Some (Some line2, mem, cur, reads) \<Rightarrow> Some (True, handleUnsolicited line c, mem, cur, reads))
          else Some (True, processLine line c, mem, cur, reads))"

text \<open>\<open>n\<close> calls of \<open>readline\<close>, up to the first that returns NULL.\<close>

fun readlines :: "nat \<Rightarrow> string list \<Rightarrow> string \<Rightarrow> nat \<Rightarrow> (string list \<times> string \<times> nat \<times> string list) option" where
  "readlines 0 reads mem cur = Some ([], mem, cur, reads)"
| "readlines (Suc n) reads mem cur =
     (case readline reads mem cur of
        None \<Rightarrow> None
      | Some (None, mem, cur, reads) \<Rightarrow> Some ([], mem, cur, reads)
      | Some (Some line, mem, cur, reads) \<Rightarrow>
          map_option (\<lambda>(ls, st). (line # ls, st)) (readlines n reads mem cur))"

section \<open>Lines of a stream\<close>

text \<open>
  The non-empty lines of a stream that have their end; \<open>acc\<close> is the line so far.  \<open>runs_ok\<close> bounds the
  length of a run of line ends and the line behind them, \<open>n\<close> of which have been seen.
\<close>

fun complete_lines :: "string \<Rightarrow> string \<Rightarrow> string list" where
  "complete_lines acc [] = []"
| "complete_lines acc (c # s) =
     (if is_eol c then (if acc = [] then complete_lines [] s else acc # complete_lines [] s)
      else complete_lines (acc @ [c]) s)"

fun runs_ok :: "nat \<Rightarrow> nat \<Rightarrow> bool \<Rightarrow> string \<Rightarrow> bool" where
  "runs_ok B n in_line [] = (n \<le> B)"
| "runs_ok B n in_line (c # s) =
     (n \<le> B \<and> (if is_eol c then runs_ok B (if in_line then 1 else n + 1) False s
                else runs_ok B (n + 1) True s))"

text \<open>Input without NUL and without the character of the SMS prompt.\<close>

definition plain_text :: "string \<Rightarrow> bool" where
  "plain_text s \<longleftrightarrow> CHR 0x00 \<notin> set s \<and> CHR ''>'' \<notin> set s"

lemma plain_text_simps [simp]:
  "plain_text []" "plain_text (a @ b) \<longleftrightarrow> plain_text a \<and> plain_text b"
  by (auto simp: plain_text_def)

lemma plain_text_drop: "plain_text s \<Longrightarrow> plain_text (drop k s)"
  by (auto simp: plain_text_def dest: in_set_dropD)

lemma plain_text_dropWhile: "plain_text s \<Longrightarrow> plain_text (dropWhile P s)"
  by (auto simp: plain_text_def dest: set_dropWhileD)

lemma complete_lines_text:
  "\<forall>c\<in>set xs. \<not> is_eol c \<Longrightarrow> complete_lines acc (xs @ ys) = complete_lines (acc @ xs) ys"
  by (induction xs arbitrary: acc) auto

lemma complete_lines_eols: "complete_lines [] (xs @ ys) = complete_lines [] (dropWhile is_eol xs @ ys)"
  by (induction xs) auto

lemma complete_lines_line:
  assumes "\<forall>c\<in>set l. \<not> is_eol c" and "l \<noteq> []" and "is_eol c"
  shows "complete_lines [] (l @ c # ys) = l # complete_lines [] ys"
  using complete_lines_text [OF assms(1), of "[]" "c # ys"] assms(2,3) by simp

lemma runs_ok_bound: "runs_ok B n t s \<Longrightarrow> n \<le> B"
  by (cases s) auto

lemma runs_ok_text:
  "\<forall>c\<in>set xs. \<not> is_eol c \<Longrightarrow> runs_ok B n t (xs @ ys) \<Longrightarrow> runs_ok B (n + length xs) (t \<or> xs \<noteq> []) ys"
proof (induction xs arbitrary: n t)
  case (Cons c xs)
  then show ?case using Cons.IH [of "n + 1" True] by (simp split: if_splits)
qed simp

lemma runs_ok_eols:
  "\<forall>c\<in>set xs. is_eol c \<Longrightarrow> runs_ok B n False (xs @ ys) \<Longrightarrow> runs_ok B (n + length xs) False ys"
proof (induction xs arbitrary: n)
  case (Cons c xs)
  then show ?case using Cons.IH [of "n + 1"] by (simp split: if_splits)
qed simp

text \<open>The end of a line starts a new run, and a run may be cut at its beginning.\<close>

lemma runs_ok_line_end: "is_eol c \<Longrightarrow> runs_ok B n t (c # ys) \<Longrightarrow> \<exists>m. runs_ok B m False ys"
  by auto

lemma runs_ok_suffix: "runs_ok B n t (xs @ ys) \<Longrightarrow> \<exists>m t'. runs_ok B m t' ys"
proof (induction xs arbitrary: n t)
  case (Cons c xs)
  then show ?case by (auto split: if_splits)
qed auto

lemma runs_ok_after_line: "is_eol c \<Longrightarrow> runs_ok B n t (xs @ c # ys) \<Longrightarrow> \<exists>m. runs_ok B m False ys"
  using runs_ok_suffix runs_ok_line_end by metis

lemma findNextEOL_None:
  "plain_text s \<Longrightarrow> findNextEOL s = None \<longleftrightarrow> (\<forall>c\<in>set s. \<not> is_eol c)"
proof -
  assume "plain_text s"
  then have "s \<noteq> ''> ''" by (auto simp: plain_text_def)
  moreover have "length (takeWhile P s) < length s \<longleftrightarrow> takeWhile P s \<noteq> s" for P
    by (metis length_takeWhile_le nat_less_le takeWhile_eq_take take_all_iff order_refl)
  ultimately show ?thesis by (simp add: findNextEOL_def Let_def takeWhile_eq_all_conv)
qed

lemma findNextEOL_Some:
  assumes "plain_text s" and "findNextEOL s = Some e"
  obtains c s' where "s = take e s @ c # s'" "is_eol c" "\<forall>c\<in>set (take e s). \<not> is_eol c" "s' = drop (e + 1) s" "e < length s"
proof -
  have e: "e = length (takeWhile (\<lambda>c. \<not> is_eol c) s)" "e < length s"
    using assms by (auto simp: findNextEOL_def plain_text_def Let_def split: if_splits)
  then have "take e s = takeWhile (\<lambda>c. \<not> is_eol c) s" by (metis takeWhile_eq_take)
  then have "\<forall>c\<in>set (take e s). \<not> is_eol c" by (auto dest: set_takeWhileD)
  moreover have "is_eol (s ! e)" using e nth_length_takeWhile by fastforce
  moreover have "s = take e s @ s ! e # drop (e + 1) s" using e(2) by (simp add: id_take_nth_drop)
  ultimately show thesis using that e(2) by blast
qed

lemma cstr_SomeE:
  assumes "cstr mem i = Some s"
  obtains rest where "drop i mem = s @ CHR 0x00 # rest" "CHR 0x00 \<notin> set s"
proof -
  from assms have n: "CHR 0x00 \<in> set (drop i mem)" and s: "s = takeWhile (\<lambda>c. c \<noteq> CHR 0x00) (drop i mem)"
    by (auto simp: cstr_def split: if_splits)
  then have "dropWhile (\<lambda>c. c \<noteq> CHR 0x00) (drop i mem) \<noteq> []" by (auto simp: dropWhile_eq_Nil_conv)
  then obtain c rest where c: "dropWhile (\<lambda>c. c \<noteq> CHR 0x00) (drop i mem) = c # rest" by (metis list.exhaust)
  then have "c = CHR 0x00" using hd_dropWhile [of "\<lambda>c. c \<noteq> CHR 0x00" "drop i mem"] by simp
  with c s have "drop i mem = s @ CHR 0x00 # rest" by (metis takeWhile_dropWhile_id)
  moreover have "CHR 0x00 \<notin> set s" using s by (auto dest: set_takeWhileD)
  ultimately show thesis by (rule that)
qed

lemma cstrI: "drop i mem = s @ CHR 0x00 # rest \<Longrightarrow> CHR 0x00 \<notin> set s \<Longrightarrow> cstr mem i = Some s"
  by (auto simp: cstr_def takeWhile_tail intro!: takeWhile_append2 [THEN trans])

lemma cstr_bound: "cstr mem i = Some s \<Longrightarrow> i + length s < length mem"
proof (elim cstr_SomeE)
  fix rest assume "drop i mem = s @ CHR 0x00 # rest"
  then have "length (drop i mem) = length s + 1 + length rest" by simp
  then show "i + length s < length mem" by simp
qed

lemma cstr_drop:
  assumes "cstr mem i = Some s" and "k \<le> length s"
  shows "cstr mem (i + k) = Some (drop k s)"
proof (rule cstr_SomeE [OF assms(1)])
  fix rest assume d: "drop i mem = s @ CHR 0x00 # rest" and n: "CHR 0x00 \<notin> set s"
  have "drop (i + k) mem = drop k (drop i mem)" by (simp add: add.commute)
  then have "drop (i + k) mem = drop k s @ CHR 0x00 # rest" using d assms(2) by simp
  then show ?thesis using n by (auto intro: cstrI dest: in_set_dropD)
qed

lemma cstr_cut:
  assumes "cstr mem i = Some s" and "e < length s"
  shows "cstr (mem[i + e := x]) (i + e + 1) = Some (drop (e + 1) s)"
proof -
  have "drop (i + e + 1) (mem[i + e := x]) = drop (i + e + 1) mem" by simp
  then show ?thesis using cstr_drop [OF assms(1), of "e + 1"] assms(2) by (simp add: cstr_def split: if_splits)
qed

lemma length_store: "p + length xs \<le> length mem \<Longrightarrow> length (store p xs mem) = length mem"
  by (simp add: store_def)

lemma cstr_store:
  assumes "cstr mem i = Some s" and "p = i + length s" and "CHR 0x00 \<notin> set ch"
  shows "cstr (store p (ch @ [CHR 0x00]) mem) i = Some (s @ ch)"
proof (rule cstr_SomeE [OF assms(1)])
  fix rest assume d: "drop i mem = s @ CHR 0x00 # rest" and n: "CHR 0x00 \<notin> set s"
  have "i \<le> length (take p mem)" using cstr_bound [OF assms(1)] assms(2) by simp
  then have "drop i (store p (ch @ [CHR 0x00]) mem)
      = drop i (take p mem) @ ch @ CHR 0x00 # drop (p + length (ch @ [CHR 0x00])) mem"
    by (simp add: store_def)
  also have "drop i (take p mem) = s" using d assms(2) by (simp add: drop_take)
  finally show ?thesis using n assms(3) by (auto intro!: cstrI)
qed

lemma cstr_store_0: "CHR 0x00 \<notin> set s \<Longrightarrow> cstr (store 0 (s @ [CHR 0x00]) mem) 0 = Some s"
  by (auto simp: store_def intro!: cstrI)

lemma cstr_reset: "mem \<noteq> [] \<Longrightarrow> cstr (mem[0 := CHR 0x00]) 0 = Some []"
  by (cases mem) (auto intro: cstrI)

text \<open>
  Finding a line in the text at the current position; shared by the two places that look for one.
\<close>

lemma line_found:
  assumes "length mem = 4096" and "cstr mem cur = Some text" and "plain_text text"
    and s: "s = dropWhile is_eol text" and k: "cur' = cur + length (takeWhile is_eol text)"
    and "findNextEOL s = Some e" and "runs_ok B n t (text @ rest)"
  shows "\<exists>text' m. cstr (mem[cur' + e := CHR 0x00]) (cur' + e + 1) = Some text' \<and> plain_text text'
      \<and> complete_lines [] (text @ rest) = take e s # complete_lines [] (text' @ rest)
      \<and> runs_ok B m False (text' @ rest)"
proof -
  have ps: "plain_text s" using assms(3) s plain_text_dropWhile by blast
  obtain c s' where e: "s = take e s @ c # s'" "is_eol c" "\<forall>c\<in>set (take e s). \<not> is_eol c"
      "s' = drop (e + 1) s" "e < length s"
    by (rule findNextEOL_Some [OF ps assms(6)])
  have sd: "s = drop (length (takeWhile is_eol text)) text"
    using s by (metis dropWhile_eq_drop)
  have "cstr mem cur' = Some s" unfolding k
    using cstr_drop [OF assms(2), of "length (takeWhile is_eol text)"] sd by (simp add: length_takeWhile_le)
  then have 1: "cstr (mem[cur' + e := CHR 0x00]) (cur' + e + 1) = Some s'" using cstr_cut e(4,5) by simp
  define l where "l = take e s"
  have sl: "s = l @ c # s'" using e(1) by (simp only: l_def)
  have l: "\<forall>c\<in>set l. \<not> is_eol c" using e(3) by (simp only: l_def)
  have "l \<noteq> []"
  proof
    assume "l = []"
    with sl s have c: "dropWhile is_eol text = c # s'" by simp
    have "\<not> is_eol (hd (dropWhile is_eol text))" by (rule hd_dropWhile) (simp add: c)
    with c e(2) show False by simp
  qed
  from complete_lines_line [OF l this e(2), of "s' @ rest"]
  have "complete_lines [] (s @ rest) = l # complete_lines [] (s' @ rest)" unfolding sl by simp
  moreover have "complete_lines [] (text @ rest) = complete_lines [] (s @ rest)"
    using complete_lines_eols [of "text" rest] by (simp only: s)
  ultimately have 2: "complete_lines [] (text @ rest) = take e s # complete_lines [] (s' @ rest)"
    by (simp only: l_def)
  have "text = takeWhile is_eol text @ take e s @ c # s'" using s e(1) by (metis takeWhile_dropWhile_id)
  then have "text @ rest = (takeWhile is_eol text @ take e s) @ c # (s' @ rest)" by simp
  then have "runs_ok B n t ((takeWhile is_eol text @ take e s) @ c # (s' @ rest))" using assms(7) by (simp only:)
  then obtain m where "runs_ok B m False (s' @ rest)" using runs_ok_after_line [OF e(2)] by blast
  with 1 2 ps e(4) show ?thesis using plain_text_drop by blast
qed

definition reads_ok :: "nat \<Rightarrow> string list \<Rightarrow> bool" where
  "reads_ok m reads \<longleftrightarrow> list_all (\<lambda>ch. ch \<noteq> [] \<and> length ch \<le> m \<and> plain_text ch) reads"

text \<open>What a call of \<open>readline\<close> promises: the next line and a buffer from which the rest will come.\<close>

definition next_line ::
  "nat \<Rightarrow> nat \<Rightarrow> string list \<Rightarrow> (string option \<times> string \<times> nat \<times> string list) option \<Rightarrow> bool" where
  "next_line B m ls r \<longleftrightarrow>
     (\<exists>line mem cur reads. r = Some (line, mem, cur, reads) \<and> length mem = 4096 \<and> reads_ok m reads
       \<and> (case line of
            None \<Rightarrow> ls = []
          | Some l \<Rightarrow> \<exists>buffered n. cstr mem cur = Some buffered \<and> plain_text buffered
              \<and> ls = l # complete_lines [] (buffered @ concat reads)
              \<and> runs_ok B n False (buffered @ concat reads)))"

lemma next_line_found:
  assumes "length mem = 4096" and "cstr mem cur = Some buffered" and "plain_text buffered"
    and "findNextEOL (dropWhile is_eol buffered) = Some e" and "runs_ok B n t (buffered @ concat reads)"
    and "reads_ok m reads" and "cur' = cur + length (takeWhile is_eol buffered)"
  shows "next_line B m (complete_lines [] (buffered @ concat reads))
     (Some (Some (take e (dropWhile is_eol buffered)), mem[cur' + e := CHR 0x00], cur' + e + 1, reads))"
proof -
  obtain b k where "cstr (mem[cur' + e := CHR 0x00]) (cur' + e + 1) = Some b" "plain_text b"
    "complete_lines [] (buffered @ concat reads)
       = take e (dropWhile is_eol buffered) # complete_lines [] (b @ concat reads)"
    "runs_ok B k False (b @ concat reads)"
    using line_found [OF assms(1-3) refl assms(7,4,5)] by blast
  then show ?thesis using assms(1,6) unfolding next_line_def
    by (intro exI [of _ "Some (take e (dropWhile is_eol buffered))"] exI [of _ "mem[cur' + e := CHR 0x00]"]
        exI [of _ "cur' + e + 1"] exI [of _ reads] conjI) auto
qed

lemma runs_ok_prepend:
  "\<forall>c\<in>set xs. \<not> is_eol c \<Longrightarrow> runs_ok B (n + length xs) (t \<or> xs \<noteq> []) ys \<Longrightarrow> runs_ok B n t (xs @ ys)"
proof (induction xs arbitrary: n t)
  case (Cons c xs)
  then have "n \<le> B" using runs_ok_bound [OF Cons.prems(2)] by simp
  then show ?case using Cons.IH [of "n + 1" True] Cons.prems by simp
qed simp

lemma runs_step:
  assumes "runs_ok B n (xs \<noteq> []) (ch @ rest)" and "\<forall>c\<in>set xs. \<not> is_eol c"
    and "\<forall>c\<in>set (dropWhile is_eol (xs @ ch)). \<not> is_eol c"
  shows "runs_ok B (n + length ch) (dropWhile is_eol (xs @ ch) \<noteq> []) rest"
proof (cases xs)
  case Nil
  let ?t = "takeWhile is_eol ch" and ?d = "dropWhile is_eol ch"
  have "?t @ ?d @ rest = ch @ rest" by (metis append_assoc takeWhile_dropWhile_id)
  moreover have "runs_ok B n False (ch @ rest)" using assms(1) Nil by simp
  ultimately have "runs_ok B n False (?t @ ?d @ rest)" by (simp only:)
  moreover have "\<forall>c\<in>set ?t. is_eol c" by (auto dest: set_takeWhileD)
  ultimately have "runs_ok B (n + length ?t) False (?d @ rest)" by (intro runs_ok_eols)
  moreover have "\<forall>c\<in>set ?d. \<not> is_eol c" using assms(3) Nil by simp
  ultimately have "runs_ok B (n + length ?t + length ?d) (False \<or> ?d \<noteq> []) rest" by (intro runs_ok_text)
  moreover have "length ?t + length ?d = length ch"
    using arg_cong [OF takeWhile_dropWhile_id [of is_eol ch], of length] by (simp only: length_append)
  ultimately show ?thesis using Nil by (simp add: add.assoc)
next
  case (Cons c cs)
  then have d: "dropWhile is_eol (xs @ ch) = xs @ ch" using assms(2) by simp
  have "\<forall>c\<in>set ch. \<not> is_eol c" using assms(3) unfolding d by simp
  then have "runs_ok B (n + length ch) True rest" using runs_ok_text [of ch B n True rest] assms(1) Cons by simp
  then show ?thesis unfolding d using Cons by simp
qed

lemma read_more_next_line:
  assumes "length mem = 4096" and "cstr mem cur = Some buffered" and "p = cur + length buffered"
    and "plain_text buffered" and "\<forall>c\<in>set buffered. \<not> is_eol c" and "reads_ok m reads"
    and "runs_ok B n (buffered \<noteq> []) (concat reads)" and "p \<le> n" and "B + m < 4096"
  shows "next_line B m (complete_lines [] (buffered @ concat reads)) (read_more reads mem cur p)"
  using assms
proof (induction reads arbitrary: mem cur p buffered n)
  case Nil
  then show ?case using complete_lines_text [of buffered "[]" "[]"] by (simp add: next_line_def reads_ok_def)
next
  case (Cons ch reads)
  let ?mem = "store p (ch @ [CHR 0x00]) mem" and ?s = "buffered @ ch"
  let ?t = "dropWhile is_eol ?s" and ?cur = "cur + length (takeWhile is_eol ?s)"
  have ch: "ch \<noteq> []" "length ch \<le> m" "plain_text ch" "reads_ok m reads"
    using Cons.prems(6) by (simp_all add: reads_ok_def)
  have p: "p + length ch < 4096" using runs_ok_bound [OF Cons.prems(7)] Cons.prems(8,9) ch(2) by simp
  have mem: "length ?mem = 4096" using length_store [of p "ch @ [CHR 0x00]" mem] p Cons.prems(1) by simp
  have s: "cstr ?mem cur = Some ?s"
    using cstr_store [OF Cons.prems(2,3)] ch(3) by (simp add: plain_text_def)
  have ps: "plain_text ?s" using Cons.prems(4) ch(3) by simp
  have step: "read_more (ch # reads) mem cur p =
      (case findNextEOL ?t of
         Some e \<Rightarrow> Some (Some (take e ?t), ?mem[?cur + e := CHR 0x00], ?cur + e + 1, reads)
       | None \<Rightarrow> read_more reads ?mem ?cur (p + length ch))"
  proof -
    have "p \<noteq> MAX_AT_RESPONSE" "\<not> MAX_AT_RESPONSE - p \<le> length ch" using p by (simp_all add: MAX_AT_RESPONSE_def)
    then show ?thesis using ch(1) s by (simp add: Let_def)
  qed
  show ?case
  proof (cases "findNextEOL ?t")
    case None
    then have noeol: "\<forall>c\<in>set ?t. \<not> is_eol c" using findNextEOL_None plain_text_dropWhile [OF ps] by blast
    have "runs_ok B (n + length ch) (?t \<noteq> []) (concat reads)"
      using runs_step [OF _ Cons.prems(5) noeol] Cons.prems(7) by simp
    moreover have "cstr ?mem ?cur = Some ?t"
      using cstr_drop [OF s, of "length (takeWhile is_eol ?s)"] length_takeWhile_le [of is_eol ?s]
      by (simp add: dropWhile_eq_drop)
    moreover have "p + length ch = ?cur + length ?t"
      using Cons.prems(3) length_append [of "takeWhile is_eol ?s" ?t] by simp
    ultimately have "next_line B m (complete_lines [] (?t @ concat reads)) (read_more reads ?mem ?cur (p + length ch))"
      using Cons.IH [OF mem _ _ plain_text_dropWhile [OF ps] noeol ch(4), of ?cur "p + length ch" "n + length ch"]
        Cons.prems(8,9) by simp
    moreover have "complete_lines [] (?t @ concat reads) = complete_lines [] (buffered @ concat (ch # reads))"
      using complete_lines_eols [of ?s "concat reads"] by simp
    ultimately show ?thesis unfolding step None option.case by simp
  next
    case (Some e)
    have "length buffered \<le> n" using Cons.prems(3,8) by simp
    then have "runs_ok B (n - length buffered) False (buffered @ concat (ch # reads))"
      using Cons.prems(7) by (intro runs_ok_prepend [OF Cons.prems(5)]) simp
    then have "runs_ok B (n - length buffered) False (?s @ concat reads)" by simp
    from next_line_found [OF mem s ps Some this ch(4) refl] show ?thesis
      unfolding step Some option.case by simp
  qed
qed

lemma readline_next_line:
  assumes "length mem = 4096" and "cstr mem cur = Some buffered" and "plain_text buffered"
    and "reads_ok m reads" and "runs_ok B n False (buffered @ concat reads)" and "B + m < 4096"
  shows "next_line B m (complete_lines [] (buffered @ concat reads)) (readline reads mem cur)"
proof (cases "buffered = []")
  case True
  have "mem \<noteq> []" using assms(1) by auto
  then have "cstr (mem[0 := CHR 0x00]) 0 = Some []" by (rule cstr_reset)
  from read_more_next_line [OF _ this _ _ _ assms(4) _ _ assms(6), of 0 n] show ?thesis
    using assms(1,2,5) True by (simp add: readline_def)
next
  case False
  let ?t = "takeWhile is_eol buffered" and ?d = "dropWhile is_eol buffered"
  have pd: "plain_text ?d" using assms(3) by (rule plain_text_dropWhile)
  show ?thesis
  proof (cases "findNextEOL ?d")
    case (Some e)
    from next_line_found [OF assms(1-3) this assms(5,4) refl] show ?thesis
      using assms(2) False Some by (simp add: readline_def Let_def)
  next
    case None
    then have noeol: "\<forall>c\<in>set ?d. \<not> is_eol c" using findNextEOL_None [OF pd] by blast
    have l: "length ?t + length ?d = length buffered"
      using arg_cong [OF takeWhile_dropWhile_id [of is_eol buffered], of length] by (simp only: length_append)
    have mem: "length (store 0 (?d @ [CHR 0x00]) mem) = 4096"
      using length_store [of 0 "?d @ [CHR 0x00]" mem] cstr_bound [OF assms(2)] assms(1) l by simp
    have c: "cstr (store 0 (?d @ [CHR 0x00]) mem) 0 = Some ?d"
      using pd by (intro cstr_store_0) (simp add: plain_text_def)
    have "?t @ ?d @ concat reads = buffered @ concat reads" by (metis append_assoc takeWhile_dropWhile_id)
    then have "runs_ok B n False (?t @ ?d @ concat reads)" using assms(5) by (simp only:)
    moreover have "\<forall>c\<in>set ?t. is_eol c" by (auto dest: set_takeWhileD)
    ultimately have "runs_ok B (n + length ?t) False (?d @ concat reads)" by (intro runs_ok_eols)
    then have "runs_ok B (n + length ?t + length ?d) (False \<or> ?d \<noteq> []) (concat reads)"
      using noeol by (intro runs_ok_text)
    then have "next_line B m (complete_lines [] (?d @ concat reads))
        (read_more reads (store 0 (?d @ [CHR 0x00]) mem) 0 (length ?d))"
      using read_more_next_line [OF mem c _ pd noeol assms(4) _ _ assms(6)] by simp
    then show ?thesis using assms(2) False None complete_lines_eols [of buffered "concat reads"]
      by (simp add: readline_def Let_def)
  qed
qed

lemma readlines_complete:
  assumes "length mem = 4096" and "cstr mem cur = Some buffered" and "plain_text buffered"
    and "reads_ok m reads" and "runs_ok B n False (buffered @ concat reads)" and "B + m < 4096"
    and "ls = complete_lines [] (buffered @ concat reads)"
  shows "\<exists>st. readlines (Suc (length ls)) reads mem cur = Some (ls, st)"
  using assms
proof (induction ls arbitrary: mem cur buffered n reads)
  case Nil
  then have "next_line B m [] (readline reads mem cur)" using readline_next_line by metis
  then show ?case by (auto simp: next_line_def split: option.splits)
next
  case (Cons l ls)
  then have "next_line B m (l # ls) (readline reads mem cur)" using readline_next_line by metis
  then obtain mem' cur' reads' b k where r: "readline reads mem cur = Some (Some l, mem', cur', reads')"
    and b: "length mem' = 4096" "cstr mem' cur' = Some b" "plain_text b" "reads_ok m reads'"
      "runs_ok B k False (b @ concat reads')" and ls: "ls = complete_lines [] (b @ concat reads')"
    by (auto simp: next_line_def split: option.splits)
  from Cons.IH [OF b Cons.prems(6) ls] r show ?case by auto
qed

lemma read_more_fills:
  assumes "cstr mem cur = Some buffered" and "p = cur + length buffered" and "length mem = 4096"
    and "plain_text buffered" and "\<forall>c\<in>set buffered. \<not> is_eol c"
    and "list_all (\<lambda>ch. ch \<noteq> [] \<and> plain_text ch \<and> (\<forall>c\<in>set ch. \<not> is_eol c)) chs"
    and "p + length (concat chs) < 4096" and "4096 \<le> p + length (concat chs) + length ch"
  shows "read_more (chs @ [ch]) mem cur p = None"
  using assms
proof (induction chs arbitrary: mem cur p buffered)
  case Nil
  then have "p \<noteq> MAX_AT_RESPONSE" "ch \<noteq> []" "MAX_AT_RESPONSE - p \<le> length ch"
    by (auto simp: MAX_AT_RESPONSE_def)
  then show ?case by simp
next
  case (Cons c0 cs)
  let ?mem = "store p (c0 @ [CHR 0x00]) mem" and ?b = "buffered @ c0"
  have c0: "c0 \<noteq> []" "plain_text c0" "\<forall>c\<in>set c0. \<not> is_eol c" using Cons.prems(6) by simp_all
  have p: "p \<noteq> MAX_AT_RESPONSE" "\<not> MAX_AT_RESPONSE - p \<le> length c0"
    using Cons.prems(7) by (auto simp: MAX_AT_RESPONSE_def)
  have b: "cstr ?mem cur = Some ?b"
    using cstr_store [OF Cons.prems(1,2)] c0(2) by (simp add: plain_text_def)
  have e: "\<forall>c\<in>set ?b. \<not> is_eol c" and pb: "plain_text ?b" using Cons.prems(4,5) c0 by auto
  have t: "takeWhile is_eol ?b = []" using e hd_in_set [of ?b] by (auto simp: takeWhile_eq_Nil_iff)
  then have d: "dropWhile is_eol ?b = ?b" using takeWhile_dropWhile_id [of is_eol ?b] by (simp del: takeWhile_dropWhile_id)
  have "findNextEOL ?b = None" using findNextEOL_None [OF pb] e by blast
  then have "read_more ((c0 # cs) @ [ch]) mem cur p = read_more (cs @ [ch]) ?mem cur (p + length c0)"
    using p c0(1) b t d by (simp add: Let_def del: takeWhile_append dropWhile_append)
  moreover have "read_more (cs @ [ch]) ?mem cur (p + length c0) = None"
  proof (rule Cons.IH [OF b _ _ pb e])
    show "p + length c0 = cur + length ?b" using Cons.prems(2) by simp
    show "length ?mem = 4096" using length_store [of p "c0 @ [CHR 0x00]" mem] Cons.prems(3,7) by simp
  qed (use Cons.prems(6-8) in simp_all)
  ultimately show ?case by (simp only:)
qed

section \<open>Sorting lines\<close>

definition final_line :: "string \<Rightarrow> bool" where
  "final_line l \<longleftrightarrow> isFinalResponseSuccess l \<or> isFinalResponseError l"

definition part_of :: "string \<Rightarrow> string \<Rightarrow> bool" where
  "part_of responsePrefix l \<longleftrightarrow> \<not> final_line l \<and> strStartsWith l responsePrefix"

definition foreign :: "string \<Rightarrow> string \<Rightarrow> bool" where
  "foreign responsePrefix l \<longleftrightarrow> \<not> final_line l \<and> \<not> strStartsWith l responsePrefix"

fun lines_in :: "at_input list \<Rightarrow> string list" where
  "lines_in [] = []"
| "lines_in (Line l # is) = l # lines_in is"
| "lines_in (_ # is) = lines_in is"

fun receive :: "at_input \<Rightarrow> at_chan \<Rightarrow> at_chan" where
  "receive (Line l) c = processLine l c"
| "receive Closed c = c\<lparr>s_readerClosed := True\<rparr>"
| "receive _ c = c"

lemma at_await_woken:
  assumes "at_await is c = (0, c')"
  shows "\<exists>before after. is = before @ Wake # after \<and> c' = fold receive before c
     \<and> (\<exists>r. sp_response c' = Some r \<and> (finalResponse r \<noteq> None \<or> s_readerClosed c'))"
  using assms
proof (induction "is" c rule: at_await.induct)
  case (2 l "is" c)
  then obtain before after where "is = before @ Wake # after" "c' = fold receive before (processLine l c)"
    "\<exists>r. sp_response c' = Some r \<and> (finalResponse r \<noteq> None \<or> s_readerClosed c')" by auto
  then show ?case by (intro exI [of _ "Line l # before"] exI [of _ after]) simp
next
  case (3 "is" c)
  then obtain before after where "is = before @ Wake # after" "c' = fold receive before (c\<lparr>s_readerClosed := True\<rparr>)"
    "\<exists>r. sp_response c' = Some r \<and> (finalResponse r \<noteq> None \<or> s_readerClosed c')" by auto
  then show ?case by (intro exI [of _ "Closed # before"] exI [of _ after]) simp
next
  case (5 "is" c)
  show ?case
  proof (cases "\<exists>r. sp_response c = Some r \<and> (finalResponse r \<noteq> None \<or> s_readerClosed c)")
    case True
    then show ?thesis using 5(3) by (intro exI [of _ "[]"] exI [of _ "is"]) (auto split: if_splits)
  next
    case False
    then have "at_await is c = (0, c')" using 5(3) by (auto split: option.splits if_splits)
    with 5 False obtain before after where "is = before @ Wake # after" "c' = fold receive before c"
      "\<exists>r. sp_response c' = Some r \<and> (finalResponse r \<noteq> None \<or> s_readerClosed c')"
      by (auto split: option.splits)
    then show ?thesis by (intro exI [of _ "Wake # before"] exI [of _ after]) simp
  qed
qed (simp_all add: AT_ERROR_TIMEOUT_def)

lemma at_await_err: "at_await is c = (err, c') \<Longrightarrow> err \<noteq> AT_ERROR_TIMEOUT \<Longrightarrow> err = 0"
  by (induction "is" c rule: at_await.induct) (auto split: option.splits if_splits)

text \<open>Every line received for a multi-line command is a part of it, its end, or unsolicited.\<close>

lemma fold_receive_multiline:
  assumes "s_type c = MULTILINE p" and "s_raw_data c = None" and "s_smsPDU c = None" and "\<not> s_atc_proxy c"
    and "sp_response c = Some r"
  shows "sp_response (fold receive is c) = Some
      \<lparr>success = (if filter final_line (lines_in is) = [] then success r
                  else isFinalResponseSuccess (last (filter final_line (lines_in is)))),
       finalResponse = (if filter final_line (lines_in is) = [] then finalResponse r
                        else Some (last (filter final_line (lines_in is)))),
       p_intermediates = rev (filter (part_of p) (lines_in is)) @ p_intermediates r\<rparr>
    \<and> unsolicited (fold receive is c) = unsolicited c @ filter (foreign p) (lines_in is)"
  using assms
proof (induction "is" arbitrary: c r)
  case (Cons i "is")
  show ?case
  proof (cases i)
    case (Line l)
    consider "final_line l" | "part_of p l" | "foreign p l" by (auto simp: part_of_def foreign_def)
    then show ?thesis
    proof cases
      case 1
      let ?r = "r\<lparr>success := isFinalResponseSuccess l, finalResponse := Some l\<rparr>"
      have "processLine l c = c\<lparr>sp_response := Some ?r\<rparr>"
        using 1 Cons.prems by (auto simp: processLine_def handleFinalResponse_def final_line_def)
      then show ?thesis using Cons.IH [of "c\<lparr>sp_response := Some ?r\<rparr>" ?r] Cons.prems 1 Line
        by (simp add: part_of_def foreign_def)
    next
      case 2
      let ?r = "r\<lparr>p_intermediates := l # p_intermediates r\<rparr>"
      have "processLine l c = c\<lparr>sp_response := Some ?r\<rparr>"
        using 2 Cons.prems by (simp add: processLine_def addIntermediate_def final_line_def part_of_def)
      then show ?thesis using Cons.IH [of "c\<lparr>sp_response := Some ?r\<rparr>" ?r] Cons.prems 2 Line
        by (simp add: part_of_def foreign_def)
    next
      case 3
      have "processLine l c = c\<lparr>unsolicited := unsolicited c @ [l]\<rparr>"
        using 3 Cons.prems by (simp add: processLine_def handleUnsolicited_def final_line_def foreign_def)
      then show ?thesis using Cons.IH [of "c\<lparr>unsolicited := unsolicited c @ [l]\<rparr>" r] Cons.prems 3 Line
        by (simp add: part_of_def foreign_def)
    qed
  next
    case Closed
    then show ?thesis using Cons.IH [of "c\<lparr>s_readerClosed := True\<rparr>" r] Cons.prems by simp
  qed (use Cons in simp_all)
qed simp

section \<open>Commands that are answered\<close>

definition open_chan :: "at_chan \<Rightarrow> bool" where
  "open_chan c \<longleftrightarrow> s_fd_open c \<and> \<not> s_readerClosed c \<and> sp_response c = None \<and> s_smsPDU c = None
     \<and> s_raw_data c = None \<and> \<not> s_atc_proxy c"

text \<open>The modem answers a command with some lines and a final one.\<close>

definition answer :: "string list \<Rightarrow> string \<Rightarrow> at_exchange" where
  "answer ls f = \<lparr>idle_lines = [], write_ok = True, waiting_inputs = map Line ls @ [Line f, Wake]\<rparr>"

fun takes :: "ATCommandType \<Rightarrow> string list \<Rightarrow> bool" where
  "takes NO_RESULT ls = (ls = [])"
| "takes NUMERIC ls = (length ls = 1 \<and> list_all (\<lambda>l. \<not> final_line l \<and> l \<noteq> [] \<and> isdigit (hd l)) ls)"
| "takes (SINGLELINE p) ls = (length ls \<le> 1 \<and> list_all (part_of p) ls)"
| "takes (MULTILINE p) ls = list_all (part_of p) ls"

lemma at_await_lines: "at_await (map Line ls @ is) c = at_await is (fold processLine ls c)"
  by (induction ls arbitrary: c) simp_all

lemma processLine_takes:
  assumes "s_raw_data c = None" and "s_smsPDU c = None" and "sp_response c = Some r"
    and "takes (s_type c) (rev (p_intermediates r) @ l # ls)"
  shows "processLine l c = c\<lparr>sp_response := Some (r\<lparr>p_intermediates := l # p_intermediates r\<rparr>)\<rparr>"
  using assms
  by (cases "s_type c") (auto simp: processLine_def addIntermediate_def final_line_def part_of_def)

lemma fold_processLine_takes:
  assumes "s_raw_data c = None" and "s_smsPDU c = None" and "sp_response c = Some r"
    and "takes (s_type c) (rev (p_intermediates r) @ ls)"
  shows "fold processLine ls c = c\<lparr>sp_response := Some (r\<lparr>p_intermediates := rev ls @ p_intermediates r\<rparr>)\<rparr>"
  using assms
proof (induction ls arbitrary: c r)
  case (Cons l ls)
  let ?r = "r\<lparr>p_intermediates := l # p_intermediates r\<rparr>"
  show ?case
    using processLine_takes [OF Cons.prems] Cons.IH [of "c\<lparr>sp_response := Some ?r\<rparr>" ?r] Cons.prems by simp
qed simp

lemma processLine_final:
  assumes "s_raw_data c = None" and "\<not> s_atc_proxy c" and "sp_response c = Some r" and "final_line f"
  shows "processLine f c
       = c\<lparr>sp_response := Some (r\<lparr>success := isFinalResponseSuccess f, finalResponse := Some f\<rparr>)\<rparr>"
  using assms by (auto simp: processLine_def handleFinalResponse_def final_line_def)

lemma send_answered:
  assumes "open_chan (at_ch l)" and "at_script l = answer ls f # rest" and "final_line f" and "takes ty ls"
  obtains c where "open_chan c" and "written c = written (at_ch l) @ [command @ [CHR 0x0D]]"
    and "at_send_command_full command ty None want l =
      (0, if want then Some \<lparr>success = isFinalResponseSuccess f, finalResponse = Some f, p_intermediates = ls\<rparr> else None,
       l\<lparr>at_ch := c, at_script := rest\<rparr>)"
proof -
  let ?c0 = "(at_ch l)\<lparr>written := written (at_ch l) @ [command @ [CHR 0x0D]], s_type := ty, s_smsPDU := None,
      sp_response := Some at_response_new\<rparr>"
  let ?r = "\<lparr>success = isFinalResponseSuccess f, finalResponse = Some f, p_intermediates = rev ls\<rparr>"
  have "fold processLine ls ?c0 = ?c0\<lparr>sp_response := Some (at_response_new\<lparr>p_intermediates := rev ls\<rparr>)\<rparr>"
    using fold_processLine_takes [of ?c0 at_response_new ls] assms(1,4) by (simp add: open_chan_def at_response_new_def)
  then have "at_await (map Line ls @ [Line f, Wake]) ?c0 = (0, ?c0\<lparr>sp_response := Some ?r\<rparr>)"
    using assms(1,3) by (simp add: at_await_lines processLine_final open_chan_def at_response_new_def)
  then show thesis
    using assms(1,2) that [of "clearPendingCommand (?c0\<lparr>sp_response := Some ?r\<rparr>)"]
    by (simp add: at_send_command_full_def at_send_command_full_nolock_def writeline_def next_exchange_def answer_def
        open_chan_def clearPendingCommand_def reverseIntermediates_def at_error_defs Let_def)
qed

section \<open>Properties\<close>

text \<open>
  C34: However the bytes of the device are cut into reads, the reader thread gets exactly the non-empty
  lines of the stream, in order: for text without NUL and without the prompt character, reads of at
  most \<open>m\<close> bytes and runs of line ends and line of at most \<open>B\<close>, where \<open>B + m < 4096\<close>, the calls of
  \<open>readline\<close> return the lines that have an end, stay inside the buffer and then return NULL.
\<close>

theorem readline_frames:
  assumes "list_all (\<lambda>ch. ch \<noteq> [] \<and> length ch \<le> m \<and> plain_text ch) reads"
    and "runs_ok B 0 False (concat reads)" and "B + m < 4096"
  shows "\<exists>st. readlines (Suc (length (complete_lines [] (concat reads)))) reads (replicate 4096 (CHR 0x00)) 0
       = Some (complete_lines [] (concat reads), st)"
proof -
  have "cstr (replicate 4096 (CHR 0x00)) 0 = Some []"
    by (simp add: cstr_def takeWhile_replicate)
  then show ?thesis
    using readlines_complete [of "replicate 4096 (CHR 0x00)" 0 "[]" m reads B 0] assms
    by (simp add: reads_ok_def)
qed

theorem readline_frames_witness:
  "\<exists>st. readlines 3 [''+CSQ: 2'', ''0,99'' @ [CHR 0x0D], [CHR 0x0A] @ ''OK'' @ [CHR 0x0D, CHR 0x0A] @ ''+C'']
       (replicate 4096 (CHR 0x00)) 0 = Some ([''+CSQ: 20,99'', ''OK''], st)"
proof -
  let ?reads = "[''+CSQ: 2'', ''0,99'' @ [CHR 0x0D], [CHR 0x0A] @ ''OK'' @ [CHR 0x0D, CHR 0x0A] @ ''+C'']"
  have "list_all (\<lambda>ch. ch \<noteq> [] \<and> length ch \<le> 8 \<and> plain_text ch) ?reads"
    and "runs_ok 20 0 False (concat ?reads)"
    and c: "complete_lines [] (concat ?reads) = [''+CSQ: 20,99'', ''OK'']"
    by (simp_all add: plain_text_def is_eol_def)
  from readline_frames [OF this(1,2)] show ?thesis unfolding c by (simp add: numeral_3_eq_3)
qed

text \<open>
  A line that fills the buffer before its end comes makes the reader write one byte behind the
  buffer: whenever a read returns all the bytes it asked for, the terminating NUL goes to
  \<open>s_ATBuffer[4096]\<close>, so the test for an exceeded buffer comes too late.
\<close>

theorem readline_overflow:
  assumes "cstr mem cur = Some []" and "length mem = 4096"
    and "list_all (\<lambda>ch. ch \<noteq> [] \<and> plain_text ch \<and> (\<forall>c\<in>set ch. \<not> is_eol c)) chs"
    and "length (concat chs) < 4096" and "4096 \<le> length (concat chs) + length ch"
  shows "readline (chs @ [ch]) mem cur = None"
proof -
  have "mem \<noteq> []" using assms(2) by auto
  then have "cstr (mem[0 := CHR 0x00]) 0 = Some []" by (rule cstr_reset)
  from read_more_fills [OF this, of 0 chs ch] assms show ?thesis by (simp add: readline_def)
qed

theorem readline_overflow_witness:
  "readline ([] @ [replicate 4096 (CHR ''A'')]) (replicate 4096 (CHR 0x00)) 0 = None"
proof (rule readline_overflow)
  show "cstr (replicate 4096 (CHR 0x00)) 0 = Some []" by (simp add: cstr_def takeWhile_replicate)
qed simp_all

text \<open>
  The response of a successful multi-line command consists of exactly the lines that carry its
  prefix and came before the command woke up, in the order they came; its final response is the last
  final line among them and decides success; every other line went to the unsolicited handler, none
  is lost or delivered twice, and no command is left pending.
\<close>

theorem multiline_response_exact:
  assumes "at_send_command_full_nolock command (MULTILINE p) None True w inputs c = (0, Some r, c')"
    and "s_raw_data c = None" and "\<not> s_atc_proxy c"
  shows "\<exists>before after f. inputs = before @ Wake # after
     \<and> p_intermediates r = filter (part_of p) (lines_in before)
     \<and> finalResponse r = Some f \<and> filter final_line (lines_in before) \<noteq> []
     \<and> f = last (filter final_line (lines_in before)) \<and> success r = isFinalResponseSuccess f
     \<and> unsolicited c' = unsolicited c @ filter (foreign p) (lines_in before) \<and> sp_response c' = None"
proof -
  let ?c1 = "c\<lparr>written := written c @ [command @ [CHR 0x0D]]\<rparr>"
  let ?c2 = "?c1\<lparr>s_type := MULTILINE p, s_smsPDU := None, sp_response := Some at_response_new\<rparr>"
  have "writeline w command c = (0, ?c1)" and "sp_response c = None"
    using assms(1) by (auto simp: at_send_command_full_nolock_def writeline_def at_error_defs split: if_splits)
  with assms(1) obtain err c3 where "at_await inputs ?c2 = (err, c3)" and "err \<noteq> AT_ERROR_TIMEOUT"
    and o: "\<not> s_readerClosed c3" "map_option reverseIntermediates (sp_response c3) = Some r"
      "c' = clearPendingCommand c3"
    by (auto simp: at_send_command_full_nolock_def at_error_defs Let_def split: prod.splits if_splits)
  moreover from this have "err = 0" using at_await_err by metis
  ultimately have "at_await inputs ?c2 = (0, c3)" by simp
  from at_await_woken [OF this] obtain before after r3 where b: "inputs = before @ Wake # after"
    "c3 = fold receive before ?c2" "sp_response c3 = Some r3" "finalResponse r3 \<noteq> None"
    using o(1) by auto
  from fold_receive_multiline [of ?c2 p at_response_new before] assms(2,3)
  have s: "sp_response c3 = Some
      \<lparr>success = (if filter final_line (lines_in before) = [] then success at_response_new
                  else isFinalResponseSuccess (last (filter final_line (lines_in before)))),
       finalResponse = (if filter final_line (lines_in before) = [] then finalResponse at_response_new
                        else Some (last (filter final_line (lines_in before)))),
       p_intermediates = rev (filter (part_of p) (lines_in before)) @ p_intermediates at_response_new\<rparr>"
    and u: "unsolicited c3 = unsolicited c @ filter (foreign p) (lines_in before)"
    unfolding b(2) by simp_all
  have f: "filter final_line (lines_in before) \<noteq> []"
    using s b(3,4) by (auto simp: at_response_new_def split: if_splits)
  then have "r = \<lparr>success = isFinalResponseSuccess (last (filter final_line (lines_in before))),
      finalResponse = Some (last (filter final_line (lines_in before))),
      p_intermediates = filter (part_of p) (lines_in before)\<rparr>"
    using s o(2) by (auto simp: reverseIntermediates_def at_response_new_def)
  then show ?thesis
    using b(1) f u o(3) by (intro exI [of _ before] exI [of _ after]) (simp add: clearPendingCommand_def)
qed

definition idle_chan :: at_chan where
  "idle_chan = \<lparr>s_type = NO_RESULT, sp_response = None, s_smsPDU = None, s_raw_data = None,
     s_readerClosed = False, s_fd_open = True, s_atc_proxy = False, unsolicited = [], written = []\<rparr>"

theorem multiline_response_exact_witness:
  "\<exists>r c'. at_send_command_full_nolock ''AT+CGDCONT?'' (MULTILINE ''+CGDCONT:'') None True True
       [Line ''+CGDCONT: 1'', Line ''+CSQ: 9'', Wake, Line ''+CGDCONT: 2'', Line ''OK'', Wake] idle_chan = (0, Some r, c')
     \<and> success r"
proof -
  let ?in = "[Line ''+CGDCONT: 1'', Line ''+CSQ: 9'', Wake, Line ''+CGDCONT: 2'', Line ''OK'', Wake]"
  obtain e ro c' where s: "at_send_command_full_nolock ''AT+CGDCONT?'' (MULTILINE ''+CGDCONT:'') None True True
      ?in idle_chan = (e, ro, c')" by (metis prod_cases3)
  have "fst (at_send_command_full_nolock ''AT+CGDCONT?'' (MULTILINE ''+CGDCONT:'') None True True ?in idle_chan) = 0"
    and "fst (snd (at_send_command_full_nolock ''AT+CGDCONT?'' (MULTILINE ''+CGDCONT:'') None True True ?in idle_chan)) \<noteq> None"
    by code_simp+
  with s obtain r where r: "e = 0" "ro = Some r" by auto
  have "s_raw_data idle_chan = None" "\<not> s_atc_proxy idle_chan" by (simp_all add: idle_chan_def)
  from multiline_response_exact [OF s [unfolded r] this] obtain before after f
    where i: "?in = before @ Wake # after" "filter final_line (lines_in before) \<noteq> []"
      "f = last (filter final_line (lines_in before))" "success r = isFinalResponseSuccess f" by blast
  have "f = ''OK''" using i(1-3)
    by (auto simp: Cons_eq_append_conv final_line_def isFinalResponseSuccess_def isFinalResponseError_def
        s_finalResponsesSuccess_def s_finalResponsesError_def)
  then have "success r" using i(4) by (simp add: isFinalResponseSuccess_def s_finalResponsesSuccess_def)
  with s r show ?thesis by blast
qed

end
