(* ===== verification/Atc.thy ===== *)
theory Atc
  imports AtChannel ConnProps
begin

text \<open>
  The AT command backend, \<^verbatim>\<open>atc.c\<close>: the second table of requests the connection manager can run on.
  Every request is a sequence of AT commands over the channel; \<open>None\<close> is a memory fault, among them
  reading a variable that was never written.  \<^verbatim>\<open>asprintf\<close> of a number is \<open>print_int\<close>.
\<close>

section \<open>State and helpers\<close>

record atc = at_link +
  asr_style_atc :: bool
  s_pdp :: int
  atc_events :: "cm_event list"
  atc_reboot :: bool

text \<open>\<open>atc_reboot\<close> is the store into \<^verbatim>\<open>g_donot_exit_when_modem_hangup\<close>.\<close>

definition at_response_error :: "int \<Rightarrow> at_response option \<Rightarrow> bool" where
  "at_response_error err p_response \<longleftrightarrow>
     err \<noteq> 0 \<or> (case p_response of None \<Rightarrow> True | Some r \<Rightarrow> finalResponse r = None \<or> \<not> success r)"

definition lines_of :: "at_response option \<Rightarrow> string list" where
  "lines_of p_response = (case p_response of None \<Rightarrow> [] | Some r \<Rightarrow> p_intermediates r)"

definition first_line :: "at_response option \<Rightarrow> string option" where
  "first_line p_response = (case lines_of p_response of [] \<Rightarrow> None | l # _ \<Rightarrow> Some l)"

text \<open>A variable that a scan was given a pointer to: its old value unless the scan stored into it.\<close>

definition scanned_int :: "scan_val list \<Rightarrow> nat \<Rightarrow> int \<Rightarrow> int" where
  "scanned_int vals i old = (if i < length vals then (case vals ! i of SInt v \<Rightarrow> v | _ \<Rightarrow> old) else old)"

definition scanned_int_opt :: "scan_val list \<Rightarrow> nat \<Rightarrow> int option \<Rightarrow> int option" where
  "scanned_int_opt vals i old = (if i < length vals then (case vals ! i of SInt v \<Rightarrow> Some v | _ \<Rightarrow> old) else old)"

definition scanned_str :: "scan_val list \<Rightarrow> nat \<Rightarrow> string option \<Rightarrow> string option" where
  "scanned_str vals i old = (if i < length vals then (case vals ! i of SStr s \<Rightarrow> Some s | _ \<Rightarrow> old) else old)"

definition quoted :: "string \<Rightarrow> string" where
  "quoted s = [CHR 0x22] @ s @ [CHR 0x22]"

section \<open>Initialisation\<close>

definition netdev_style :: "atc \<Rightarrow> int \<times> atc" where
  "netdev_style st =
     (case at_send_command_singleline ''AT+QNETDEVSTATUS=?'' ''+QNETDEVSTATUS:'' True st of
        (err, p_response, st) \<Rightarrow>
          (err, if at_response_error err p_response then st\<lparr>asr_style_atc := True\<rparr> else st))"

definition set_nat :: "int \<Rightarrow> atc \<Rightarrow> atc" where
  "set_nat new_nat st =
     (case at_send_command (''AT+QCFG='' @ quoted ''NAT'' @ '','' @ print_int new_nat) True st of
        (err, p_response, st) \<Rightarrow>
          if at_response_error err p_response then st
          else case at_send_command ''at+cfun=1,1'' False st of
                 (err, _, st) \<Rightarrow> if err = 0 then st\<lparr>atc_reboot := True\<rparr> else st)"

definition check_nat :: "atc \<Rightarrow> (int \<times> atc) option" where
  "check_nat st =
     (case at_send_command_singleline (''AT+QCFG='' @ quoted ''NAT'') ''+QCFG:'' True st of
        (err, p_response, st) \<Rightarrow>
          if at_response_error err p_response then Some (err, st)
          else case first_line p_response of
                 None \<Rightarrow> None
               | Some line \<Rightarrow>
                   let new_nat = (if asr_style_atc st then 1 else 0); (n, vals) = at_tok_scanf (Some line) ''%s%d'' in
                   Some (0, if n = 2 \<and> scanned_int vals 1 new_nat \<noteq> new_nat then set_nat new_nat st else st))"

definition run_command :: "string \<Rightarrow> atc \<Rightarrow> atc" where
  "run_command cmd st = snd (snd (at_send_command cmd False st))"

definition atc_init :: "profile \<Rightarrow> atc \<Rightarrow> (int \<times> profile \<times> atc) option" where
  "atc_init profile st =
     (if proxy profile \<noteq> '''' then
        (case netdev_style (st\<lparr>s_pdp := pdp profile\<rparr>) of (err, st) \<Rightarrow> Some (err, profile, st))
      else case at_handshake st of
        (err, st) \<Rightarrow>
          if err \<noteq> 0 then Some (err, profile, st)
          else
            let st = st\<lparr>s_pdp := pdp profile\<rparr>;
                st = snd (snd (at_send_command_singleline (''AT+QCFG='' @ quoted ''usbnet'') ''+QCFG:'' False st));
                st = snd (snd (at_send_command_multiline ''AT+QNETDEVCTL=?'' ''+QNETDEVCTL:'' False st));
                st = run_command ''AT+CGREG=2'' st;
                st = run_command ''AT+CEREG=2'' st;
                st = run_command ''AT+C5GREG=2'' st;
                (_, st) = netdev_style st;
                st = (if idProduct profile = 0x6007 then st\<lparr>asr_style_atc := True\<rparr> else st) in
            do { (err, st) \<leftarrow> check_nat st; Some (err, profile, st) })"

definition onUnsolicited :: "string \<Rightarrow> cm_event option" where
  "onUnsolicited s =
     (if strStartsWith s ''+QNETDEVSTATUS:'' then Some RIL_UNSOL_DATA_CALL_LIST_CHANGED
      else if strStartsWith s ''+CGREG:'' \<or> strStartsWith s ''+CEREG:'' \<or> strStartsWith s ''+C5GREG:''
      then Some RIL_UNSOL_RESPONSE_VOICE_NETWORK_STATE_CHANGED else None)"

section \<open>Version and SIM\<close>

definition atc_requestBaseBandVersion :: "profile \<Rightarrow> atc \<Rightarrow> (int \<times> profile \<times> atc) option" where
  "atc_requestBaseBandVersion profile st =
     (case at_send_command_multiline ''AT+CGMR'' '''' True st of
        (err, p_response, st) \<Rightarrow>
          Some (if at_response_error err p_response then (-1, profile, st)
                else case first_line p_response of
                       None \<Rightarrow> (-1, profile, st)
                     | Some line \<Rightarrow> (0, profile\<lparr>BaseBandVersion := take 63 line\<rparr>, st)))"

text \<open>
  The switch on the CME error can only see success, since every other response was taken before it.
  A personalisation lock returns its state as the result and stores nothing.
\<close>

definition atc_requestGetSIMStatus :: "SIM_Status \<Rightarrow> atc \<Rightarrow> (int \<times> SIM_Status \<times> atc) option" where
  "atc_requestGetSIMStatus old st =
     (case at_send_command_singleline ''AT+CPIN?'' ''+CPIN:'' True st of
        (err, p_response, st) \<Rightarrow>
          if at_response_error err p_response then Some (err, SIM_NOT_READY, st)
          else let cme = at_get_cme_error p_response in
            if cme = 10 \<or> cme = 3 \<or> cme = 13 then Some (err, SIM_ABSENT, st)
            else if cme \<noteq> 0 then Some (err, SIM_NOT_READY, st)
            else case first_line p_response of
                   None \<Rightarrow> None
                 | Some cpinLine \<Rightarrow>
                     (case at_tok_start (Some cpinLine) of
                        (err, cpinLine) \<Rightarrow>
                          if err < 0 then Some (err, SIM_NOT_READY, st)
                          else case at_tok_nextstr cpinLine of
                                 (err, cpinResult, _) \<Rightarrow>
                                   if err < 0 then Some (err, SIM_NOT_READY, st)
                                   else case cpinResult of
                                          None \<Rightarrow> None
                                        | Some r \<Rightarrow>
                                            Some (if r = ''SIM PIN'' then (err, SIM_PIN, st)
                                                  else if r = ''SIM PUK'' then (err, SIM_PUK, st)
                                                  else if r = ''PH-NET PIN''
                                                  then (int (sim_code SIM_NETWORK_PERSONALIZATION), old, st)
                                                  else if r \<noteq> ''READY'' then (err, SIM_ABSENT, st)
                                                  else (err, SIM_READY, st))))"

text \<open>The response pointer is never filled in, so the request reports failure whatever the modem says.\<close>

definition atc_requestEnterSimPin :: "string \<Rightarrow> atc \<Rightarrow> (int \<times> atc) option" where
  "atc_requestEnterSimPin pPinCode st =
     (case at_send_command (''AT+CPIN='' @ pPinCode) False st of
        (err, _, st) \<Rightarrow> Some (if at_response_error err None then -1 else 0, st))"

section \<open>Profile\<close>

definition atc_ipStr :: "string list" where
  "atc_ipStr = [''NULL'', ''IPV4'', ''IPV6'', ''IPV4V6'']"

definition ip_name :: "int \<Rightarrow> string option" where
  "ip_name t = (if 0 \<le> t \<and> t < 4 then Some (atc_ipStr ! nat t) else None)"

definition atc_requestSetProfile :: "profile \<Rightarrow> atc \<Rightarrow> (int \<times> atc) option" where
  "atc_requestSetProfile profile st = do {
     let new_apn = or_empty (apn profile);
     let new_user = or_empty (user profile);
     let new_pd = or_empty (pd profile);
     ip \<leftarrow> ip_name (iptype profile);
     if old_apn profile = new_apn \<and> old_user profile = new_user \<and> old_pd profile = new_pd
        \<and> old_iptype profile = iptype profile \<and> old_auth profile = auth profile
     then Some (0, st)
     else
       let (err, p_response, st) = at_send_command (''AT+QICSGP='' @ print_int (pdp profile) @ '','' @ print_int (iptype profile)
              @ '','' @ quoted new_apn @ '','' @ quoted new_user @ '','' @ quoted new_pd @ '','' @ print_int (auth profile)) True st in
       Some (1, if at_response_error err p_response
                then snd (snd (at_send_command (''AT+CGDCONT='' @ print_int (pdp profile) @ '','' @ quoted ip @ '','' @ quoted new_apn)
                       True st))
                else st) }"

text \<open>
  The first answer is read as five fields but accepted only with four, and then compared with a
  variable that nothing has written, which is \<open>None\<close> here.  \<open>profile_answer\<close> sends the query again as
  long as the modem takes the empty profile and still has no answer line.
\<close>

definition iptype_of :: "profile \<Rightarrow> int" where
  "iptype_of profile =
     (if enable_ipv4 profile \<noteq> 0 \<and> enable_ipv6 profile \<noteq> 0 then 3 else if enable_ipv6 profile \<noteq> 0 then 2 else 1)"

partial_function (option) profile_answer :: "profile \<Rightarrow> atc \<Rightarrow> (int \<times> at_response option \<times> atc) option" where
  "profile_answer profile st =
     (case at_send_command_singleline (''AT+QICSGP='' @ print_int (pdp profile)) ''+QICSGP:'' True st of
        (err, p_response, st) \<Rightarrow>
          if err = AT_ERROR_INVALID_RESPONSE \<and> p_response = None then
            (case at_send_command (''AT+QICSGP='' @ print_int (pdp profile) @ '','' @ print_int (iptype profile)
                 @ '','' @ quoted '''' @ '','' @ quoted '''' @ '','' @ quoted '''' @ '',0'') True st of
               (err, p_response, st) \<Rightarrow>
                 if \<not> at_response_error err p_response then profile_answer profile st
                 else Some (err, p_response, st))
          else Some (err, p_response, st))"

declare profile_answer.simps [code]

record old_profile =
  o_apn :: "string option"
  o_user :: "string option"
  o_pd :: "string option"
  o_auth :: int
  o_iptype :: int

definition strcase_eq :: "string \<Rightarrow> string \<Rightarrow> bool" where
  "strcase_eq a b \<longleftrightarrow>
     map (\<lambda>c. if 65 \<le> (of_char c :: nat) \<and> (of_char c :: nat) \<le> 90 then char_of ((of_char c :: nat) + 32) else c) a
   = map (\<lambda>c. if 65 \<le> (of_char c :: nat) \<and> (of_char c :: nat) \<le> 90 then char_of ((of_char c :: nat) + 32) else c) b"

text \<open>The loop over the context definitions; an address type that is not there is read through NULL.\<close>

fun cgdcont_loop :: "string list \<Rightarrow> int \<Rightarrow> old_profile \<Rightarrow> old_profile option" where
  "cgdcont_loop [] want old = Some old"
| "cgdcont_loop (line # ls) want old =
     (case at_tok_scanf (Some line) ''%d%s%s'' of
        (n, vals) \<Rightarrow>
          if n = 3 \<and> scanned_int_opt vals 0 None = Some want then
            (case scanned_str vals 1 None of
               None \<Rightarrow> None
             | Some ip \<Rightarrow>
                 Some (old\<lparr>o_apn := scanned_str vals 2 (o_apn old),
                         o_iptype := (if strcase_eq ip ''IPV4V6'' then 3 else if strcase_eq ip ''IPV6'' then 2 else 1)\<rparr>))
          else cgdcont_loop ls want (old\<lparr>o_apn := None\<rparr>))"

definition profile_read_qicsgp :: "string \<Rightarrow> old_profile \<Rightarrow> old_profile option" where
  "profile_read_qicsgp line old =
     (case at_tok_scanf (Some line) ''%d%s%s%s%d'' of
        (n, vals) \<Rightarrow>
          if n \<noteq> 4 then
            Some (old\<lparr>o_iptype := scanned_int vals 0 (o_iptype old), o_apn := scanned_str vals 1 (o_apn old),
                    o_user := scanned_str vals 2 (o_user old), o_pd := scanned_str vals 3 (o_pd old),
                    o_auth := scanned_int vals 4 (o_auth old)\<rparr>)
          else None)"

text \<open>
  The strings go into arrays of 64 bytes without a NUL when they are longer, and are then printed; the
  address type indexes the name table.
\<close>

definition store_old :: "profile \<Rightarrow> old_profile \<Rightarrow> profile option" where
  "store_old profile old =
     (let a = or_empty (o_apn old); u = or_empty (o_user old); p = or_empty (o_pd old) in
      if length a < 64 \<and> length u < 64 \<and> length p < 64 \<and> ip_name (o_iptype old) \<noteq> None
      then Some (profile\<lparr>old_apn := a, old_user := u, old_pd := p, old_auth := o_auth old, old_iptype := o_iptype old\<rparr>)
      else None)"

definition atc_requestGetProfile :: "profile \<Rightarrow> atc \<Rightarrow> (int \<times> profile \<times> atc) option" where
  "atc_requestGetProfile profile st = do {
     let profile = profile\<lparr>iptype := iptype_of profile\<rparr>;
     let old = \<lparr>o_apn = Some '''', o_user = Some '''', o_pd = Some '''', o_auth = 0, o_iptype = 1\<rparr>;
     (err, p_response, st) \<leftarrow> profile_answer profile st;
     if \<not> at_response_error err p_response then do {
       line \<leftarrow> first_line p_response;
       old \<leftarrow> profile_read_qicsgp line old;
       profile \<leftarrow> store_old profile old;
       Some (-1, profile, st) }
     else do {
       let (err, p_response, st) = at_send_command_multiline ''AT+CGDCONT?'' ''+CGDCONT:'' True st;
       if at_response_error err p_response then do {
         profile \<leftarrow> store_old profile old;
         Some (-1, profile, st) }
       else do {
         old \<leftarrow> cgdcont_loop (lines_of p_response) (pdp profile) old;
         profile \<leftarrow> store_old profile old;
         Some (0, profile, st) } } }"

section \<open>Registration\<close>

definition cops_act_of :: "string list \<Rightarrow> int option" where
  "cops_act_of ls =
     (case ls of
        [] \<Rightarrow> Some (-1)
      | l # _ \<Rightarrow> (case at_tok_scanf (Some l) ''%d%d%s%d'' of (n, vals) \<Rightarrow>
                    if n = 4 then Some (scanned_int vals 3 (-1)) else None))"

definition reg_command :: "int \<Rightarrow> (string \<times> string) option" where
  "reg_command cops_act =
     (if cops_act \<in> {2, 3, 4, 5, 6} then Some (''AT+CGREG?'', ''+CGREG:'')
      else if cops_act \<in> {7, 13} then Some (''AT+CEREG?'', ''+CEREG:'')
      else if cops_act \<in> {10, 11, 12} then Some (''AT+C5GREG?'', ''+C5GREG:'')
      else None)"

text \<open>
  The registration state in the line, \<open>None\<close> when it cannot be read.  With no comma the line is read
  from its beginning; with two, the format has one conversion less than there are pointers, so the
  second field goes into the state.
\<close>

definition reg_state :: "string \<Rightarrow> int option" where
  "reg_state line =
     (let commas = at_tok_count (Some line);
          scan = (\<lambda>fmt k i. case at_tok_scanf (Some line) fmt of (n, vals) \<Rightarrow>
                    if n = k then Some (scanned_int vals i 0) else None) in
      if commas = 0 then (case at_tok_nextint (Some line) of (err, v, _) \<Rightarrow> if err < 0 then None else v)
      else if commas = 1 then scan ''%d%d'' 2 1
      else if commas = 2 then scan ''%d%x%x'' 3 1
      else if commas = 3 then scan ''%d%d%x%x'' 4 1
      else if commas \<le> 7 then scan ''%d%d%x%x%d'' 5 1
      else None)"

definition atc_requestRegistrationState :: "u8 \<Rightarrow> atc \<Rightarrow> (int \<times> u8 \<times> atc) option" where
  "atc_requestRegistrationState ps st =
     (case at_send_command_multiline ''AT+COPS=3,0;+COPS?;+COPS=3,1;+COPS?;+COPS=3,2;+COPS?'' ''+COPS:'' True st of
        (err, p_response, st) \<Rightarrow>
          Some (if at_response_error err p_response then (-1, 0, st)
                else case cops_act_of (lines_of p_response) of
                       None \<Rightarrow> (0, 0, st)
                     | Some cops_act \<Rightarrow>
                         (case reg_command cops_act of
                            None \<Rightarrow> (0, 0, st)
                          | Some (cmd, pre) \<Rightarrow>
                              (case at_send_command_singleline cmd pre True st of
                                 (err, p_response, st) \<Rightarrow>
                                   if at_response_error err p_response then (0, 0, st)
                                   else case first_line p_response of
                                          None \<Rightarrow> (0, 0, st)
                                        | Some line \<Rightarrow>
                                            (0, if reg_state line \<in> {Some 1, Some 5} then 1 else 0, st)))))"

section \<open>Data call\<close>

text \<open>The state of the wanted context in the answer to \<^verbatim>\<open>AT+CGACT?\<close>.\<close>

fun cgact_loop :: "string list \<Rightarrow> int \<Rightarrow> int" where
  "cgact_loop [] want = 0"
| "cgact_loop (line # ls) want =
     (case at_tok_scanf (Some line) ''%d%d'' of
        (n, vals) \<Rightarrow> if scanned_int vals 0 0 = want then scanned_int vals 1 0 else cgact_loop ls want)"

definition cgact_activate :: "int \<Rightarrow> atc \<Rightarrow> int option \<times> atc" where
  "cgact_activate want st =
     (case at_send_command_multiline ''AT+CGACT?'' ''+CGACT:'' True st of
        (err, p_response, st) \<Rightarrow>
          if at_response_error err p_response then (Some err, st)
          else if cgact_loop (lines_of p_response) want \<noteq> 0 then (None, st)
          else case at_send_command (''AT+CGACT=1,'' @ print_int want) True st of
                 (err, p_response, st) \<Rightarrow> (if at_response_error err p_response then Some err else None, st))"

text \<open>
  Up to fifteen queries until the modem has a status; an error of the channel ends the request with it,
  and running out of attempts does not.
\<close>

fun netdev_wait :: "nat \<Rightarrow> int \<Rightarrow> atc \<Rightarrow> int \<times> atc" where
  "netdev_wait 0 want st = (0, st)"
| "netdev_wait (Suc n) want st =
     (case at_send_command_singleline (''AT+QNETDEVSTATUS='' @ print_int want) ''+QNETDEVSTATUS'' True st of
        (err, p_response, st) \<Rightarrow>
          if err \<noteq> 0 then (err, st)
          else if \<not> at_response_error err p_response then (0, st)
          else netdev_wait n want st)"

text \<open>An \<open>err\<close> of 0 with a response that is no success leaves by the same way as an error.\<close>

definition atc_requestSetupDataCall :: "profile \<Rightarrow> int \<Rightarrow> atc \<Rightarrow> (int \<times> profile \<times> atc) option" where
  "atc_requestSetupDataCall profile curFamily st =
     (case (if asr_style_atc st then cgact_activate (pdp profile) st else (None, st)) of
        (Some err, st) \<Rightarrow> Some (err, profile, st)
      | (None, st) \<Rightarrow>
          (case at_send_command (if asr_style_atc st then ''AT+QNETDEVCTL=1,'' @ print_int (pdp profile) @ '',1''
                                 else ''AT+QNETDEVCTL='' @ print_int (pdp profile) @ '',1,1'') True st of
             (err, p_response, st) \<Rightarrow>
               if at_response_error err p_response then Some (err, profile, st)
               else case (if asr_style_atc st then (0, st) else netdev_wait 15 (pdp profile) st) of
                      (err, st) \<Rightarrow>
                        if err \<noteq> 0 then Some (err, profile, st)
                        else Some (0, profile, st\<lparr>atc_events := atc_events st @ [RIL_UNSOL_DATA_CALL_LIST_CHANGED]\<rparr>)))"

text \<open>
  \<^verbatim>\<open>sscanf\<close> of the dotted and of the hexadecimal form: an integer conversion with an optional field
  width gives the value and the rest.
\<close>

definition scan_number :: "nat \<Rightarrow> nat option \<Rightarrow> string \<Rightarrow> (int \<times> string) option" where
  "scan_number base width s =
     (let s = dropWhile isspace s;
          (f, rest) = (case width of None \<Rightarrow> (s, []) | Some w \<Rightarrow> (take w s, drop w s));
          (neg, f) = (case f of c # cs \<Rightarrow> if c = CHR ''-'' then (True, cs) else if c = CHR ''+'' then (False, cs) else (False, f)
                      | [] \<Rightarrow> (False, f));
          f = skip_0x base f;
          ds = takeWhile (\<lambda>c. digit_val base c \<noteq> None) f in
      if ds = [] then None
      else let n = int (digits_value base 0 ds) in
        Some (to_int (of_int (if neg then max (- (2 ^ 63)) (- n) else min (2 ^ 63 - 1) n)), drop (length ds) f @ rest))"

fun scan_dotted :: "nat \<Rightarrow> string \<Rightarrow> int list" where
  "scan_dotted 0 s = []"
| "scan_dotted (Suc k) s =
     (case scan_number 10 None s of
        None \<Rightarrow> []
      | Some (v, rest) \<Rightarrow>
          v # (case rest of c # cs \<Rightarrow> if c = CHR ''.'' then scan_dotted k cs else [] | [] \<Rightarrow> []))"

fun scan_hex_pairs :: "nat \<Rightarrow> string \<Rightarrow> int list" where
  "scan_hex_pairs 0 s = []"
| "scan_hex_pairs (Suc k) s =
     (case scan_number 16 (Some 2) s of None \<Rightarrow> [] | Some (v, rest) \<Rightarrow> v # scan_hex_pairs k rest)"

definition fill4 :: "int list \<Rightarrow> int list" where
  "fill4 vs = vs @ replicate (4 - length vs) 0"

text \<open>The bits above bit 7 of a part run into the next, as the shifts of \<^verbatim>\<open>int\<close> give them.\<close>

definition addr_word :: "int list \<Rightarrow> u32" where
  "addr_word a = of_int (a ! 0) OR push_bit 8 (of_int (a ! 1)) OR push_bit 16 (of_int (a ! 2)) OR push_bit 24 (of_int (a ! 3))"

definition netdev_address :: "string \<Rightarrow> u32" where
  "netdev_address s =
     (if CHR ''.'' \<in> set s then addr_word (fill4 (scan_dotted 4 s)) else addr_word (rev (fill4 (scan_hex_pairs 4 s))))"

definition at_netdevstatus :: "int \<Rightarrow> atc \<Rightarrow> u32 \<times> atc" where
  "at_netdevstatus want st =
     (case at_send_command_singleline (''AT+QNETDEVSTATUS='' @ print_int want) ''+QNETDEVSTATUS'' True st of
        (err, p_response, st) \<Rightarrow>
          if at_response_error err p_response then (0, st)
          else case first_line p_response of
                 None \<Rightarrow> (0, st)
               | Some line \<Rightarrow>
                   (case at_tok_scanf (Some line) ''%s%s%s%s%s%s%s%s%s%s'' of
                      (n, vals) \<Rightarrow>
                        (case scanned_str vals 0 None of
                           Some a \<Rightarrow> if 0 < n \<and> a \<noteq> '''' then (netdev_address a, st) else (0, st)
                         | None \<Rightarrow> (0, st))))"

text \<open>
  The loops over the bindings and over the contexts.  \<open>bind\<close>, \<open>state\<close> and \<open>cid\<close> keep what the last line
  left in them, whatever context it was about; a \<open>cid\<close> never written is \<open>None\<close>.
\<close>

fun qnetdevctl_loop :: "string list \<Rightarrow> int \<Rightarrow> int \<times> int \<times> int option \<Rightarrow> int \<times> int \<times> int option" where
  "qnetdevctl_loop [] want v = v"
| "qnetdevctl_loop (line # ls) want (bound, state, cid) =
     (case at_tok_scanf (Some line) ''%d%d%d%d'' of
        (n, vals) \<Rightarrow>
          let bound = scanned_int vals 0 bound; cid = scanned_int_opt vals 1 cid; state = scanned_int vals 3 state in
          qnetdevctl_loop ls want (if n \<noteq> 4 \<or> cid \<noteq> Some want then bound else if bound \<noteq> 1 then 0 else bound, state, cid))"

fun cgact_state :: "string list \<Rightarrow> int \<Rightarrow> int option \<Rightarrow> int \<Rightarrow> int option" where
  "cgact_state [] want cid state = Some state"
| "cgact_state (line # ls) want cid state =
     (case at_tok_scanf (Some line) ''%d%d'' of
        (n, vals) \<Rightarrow>
          (case scanned_int_opt vals 0 cid of
             None \<Rightarrow> None
           | Some c \<Rightarrow>
               let state = scanned_int vals 1 0 in
               if c = want then Some state else cgact_state ls want (Some c) 0))"

definition atc_requestQueryDataCall :: "u8 \<Rightarrow> int \<Rightarrow> atc \<Rightarrow> (int \<times> u8 \<times> atc) option" where
  "atc_requestQueryDataCall old curFamily st =
     (if \<not> asr_style_atc st then
        (case at_netdevstatus (s_pdp st) st of
           (v4Addr, st) \<Rightarrow> Some (0, if v4Addr \<noteq> 0 then QWDS_PKT_DATA_CONNECTED else QWDS_PKT_DATA_DISCONNECTED, st))
      else case at_send_command_multiline ''AT+QNETDEVCTL?'' ''+QNETDEVCTL:'' True st of
        (err, p_response, st) \<Rightarrow>
          if at_response_error err p_response then Some (0, QWDS_PKT_DATA_DISCONNECTED, st)
          else case qnetdevctl_loop (lines_of p_response) (s_pdp st) (0, 0, None) of
            (bound, state, cid) \<Rightarrow>
              if bound = 0 \<or> state = 0 then Some (0, QWDS_PKT_DATA_DISCONNECTED, st)
              else case at_send_command_multiline ''AT+CGACT?'' ''+CGACT:'' True st of
                (err, p_response, st) \<Rightarrow>
                  if at_response_error err p_response then Some (0, QWDS_PKT_DATA_DISCONNECTED, st)
                  else do {
                    state \<leftarrow> cgact_state (lines_of p_response) (s_pdp st) cid state;
                    Some (0, if state \<noteq> 0 then QWDS_PKT_DATA_CONNECTED else QWDS_PKT_DATA_DISCONNECTED, st) })"

definition atc_requestDeactivateDefaultPDP :: "profile \<Rightarrow> int \<Rightarrow> atc \<Rightarrow> (int \<times> profile \<times> atc) option" where
  "atc_requestDeactivateDefaultPDP profile curFamily st =
     Some (0, profile, run_command (if asr_style_atc st then ''AT+QNETDEVCTL=0,'' @ print_int (pdp profile) @ '',0''
                                    else ''AT+QNETDEVCTL='' @ print_int (pdp profile) @ '',0,0'') st)"

fun cgpaddr_loop :: "string list \<Rightarrow> int \<Rightarrow> int \<Rightarrow> u32" where
  "cgpaddr_loop [] want cur = 0"
| "cgpaddr_loop (line # ls) want cur =
     (case at_tok_scanf (Some line) ''%d%s%s'' of
        (n, vals) \<Rightarrow>
          let cur = scanned_int vals 0 cur in
          if n < 2 \<or> cur \<noteq> want then cgpaddr_loop ls want cur
          else case scanned_str vals 1 None of
                 None \<Rightarrow> cgpaddr_loop ls want cur
               | Some a \<Rightarrow>
                   (case map of_int (fill4 (scan_dotted 4 a)) of
                      [b0, b1, b2, b3] \<Rightarrow> le32_to_cpu b0 b1 b2 b3
                    | _ \<Rightarrow> 0))"

definition set_v4_address :: "u32 \<Rightarrow> profile \<Rightarrow> profile" where
  "set_v4_address a profile =
     (if a \<noteq> 0 \<and> v4_Address (ipv4 profile) \<noteq> a then profile\<lparr>ipv4 := (ipv4 profile)\<lparr>v4_Address := a\<rparr>\<rparr> else profile)"

definition atc_requestGetIPAddress :: "profile \<Rightarrow> int \<Rightarrow> atc \<Rightarrow> (int \<times> profile \<times> atc) option" where
  "atc_requestGetIPAddress profile curFamily st =
     (let (v4Addr, st) =
        (if \<not> asr_style_atc st then at_netdevstatus (pdp profile) st
         else case at_send_command_singleline (''AT+CGPADDR='' @ print_int (pdp profile)) ''+CGPADDR:'' True st of
           (err, p_response, st) \<Rightarrow>
             (if at_response_error err p_response then 0
              else cgpaddr_loop (lines_of p_response) (pdp profile) (pdp profile), st)) in
      Some (if v4Addr \<noteq> 0 then 0 else -1, set_v4_address v4Addr profile, st))"

section \<open>Requests that print\<close>

text \<open>
  The serving-cell answer: what matters besides the log is whether a line is about NR5G-NSA.  A cell
  name that is read through NULL is \<open>None\<close>.
\<close>

definition qeng_rat :: "string \<Rightarrow> string option option" where
  "qeng_rat line =
     (case at_tok_scanf (Some line) ''%s%s'' of
        (n, vals) \<Rightarrow>
          if n \<noteq> 2 then Some None
          else case (scanned_str vals 0 None, scanned_str vals 1 None) of
                 (Some type, Some state) \<Rightarrow>
                   if type \<noteq> ''servingcell'' \<or> state = ''SEARCH'' \<or> state = ''LIMSRV'' then Some None
                   else if state = ''NOCONN'' \<or> state = ''CONNECT'' then
                     (case at_tok_scanf (Some line) ''%s%s%s'' of
                        (n, vals) \<Rightarrow>
                          if n \<noteq> 3 then Some None
                          else (case scanned_str vals 2 None of None \<Rightarrow> None | Some rat \<Rightarrow> Some (Some rat)))
                   else Some (Some state)
               | _ \<Rightarrow> None)"

fun qeng_loop :: "string list \<Rightarrow> bool \<Rightarrow> bool option" where
  "qeng_loop [] nsa = Some nsa"
| "qeng_loop (line # ls) nsa =
     (case qeng_rat line of
        None \<Rightarrow> None
      | Some rat \<Rightarrow> qeng_loop ls (nsa \<or> rat = Some ''NR5G-NSA''))"

definition atc_requestGetSignalInfo :: "atc \<Rightarrow> (int \<times> atc) option" where
  "atc_requestGetSignalInfo st =
     (case at_send_command_singleline ''at+cops?'' ''+COPS:'' True st of
        (err, p_response, st) \<Rightarrow>
          if at_response_error err p_response then Some (-1, st)
          else case first_line p_response of
            None \<Rightarrow> Some (-1, st)
          | Some line \<Rightarrow>
              if fst (at_tok_scanf (Some line) ''%d%d%s%d'') \<noteq> 4 then Some (0, st)
              else case at_send_command_multiline (''at+qeng='' @ quoted ''servingcell'') ''+QENG:'' True st of
                (err, p_response, st) \<Rightarrow>
                  if at_response_error err p_response then Some (0, st)
                  else do {
                    nsa \<leftarrow> qeng_loop (lines_of p_response) False;
                    Some (0, if nsa then snd (snd (at_send_command_multiline ''at+qendc'' ''+QENDC:'' True st)) else st) })"

definition atc_requestGetICCID :: "atc \<Rightarrow> (int \<times> atc) option" where
  "atc_requestGetICCID st =
     (case at_send_command_singleline ''AT+QCCID'' ''+QCCID:'' True st of
        (err, p_response, st) \<Rightarrow>
          Some (if at_response_error err p_response then (-1, st)
                else case first_line p_response of
                       None \<Rightarrow> (-1, st)
                     | Some line \<Rightarrow>
                         (case at_tok_scanf (Some line) ''%s'' of
                            (n, vals) \<Rightarrow>
                              (if n = 1 \<and> \<not> null_or_empty (scanned_str vals 0 None) then 0 else -1, st))))"

definition atc_requestGetIMSI :: "atc \<Rightarrow> (int \<times> atc) option" where
  "atc_requestGetIMSI st =
     (case at_send_command_numeric ''AT+CIMI'' True st of
        (err, p_response, st) \<Rightarrow>
          Some (if at_response_error err p_response \<or> first_line p_response = None then -1 else 0, st))"

section \<open>The tables\<close>

text \<open>Nothing in this backend stores into \<^verbatim>\<open>g_pdn_conflict\<close>.\<close>

definition atc_request_ops :: "atc request_ops" where
  "atc_request_ops = \<lparr>
     ops_kind = atc_ops_kind,
     op_requestBaseBandVersion = Some atc_requestBaseBandVersion,
     op_requestSetEthMode = None,
     op_requestSetLoopBackState = None,
     op_requestGetSIMStatus = Some atc_requestGetSIMStatus,
     op_requestEnterSimPin = Some atc_requestEnterSimPin,
     op_requestSetProfile = Some atc_requestSetProfile,
     op_requestGetProfile = Some atc_requestGetProfile,
     op_requestRegistrationState = atc_requestRegistrationState,
     op_requestSetupDataCall = atc_requestSetupDataCall,
     op_requestQueryDataCall = atc_requestQueryDataCall,
     op_requestDeactivateDefaultPDP = atc_requestDeactivateDefaultPDP,
     op_requestGetIPAddress = atc_requestGetIPAddress,
     op_print_requests = [atc_requestGetSignalInfo],
     op_sim_requests = [atc_requestGetICCID, atc_requestGetIMSI],
     op_pdn_conflict = (\<lambda>_. 0),
     op_clear_pdn_conflict = (\<lambda>st. st)\<rparr>"

definition atc_dev_ops :: "atc qmi_device_ops" where
  "atc_dev_ops = \<lparr>dev_init = Some atc_init, dev_deinit = Some (\<lambda>st. Some st)\<rparr>"

text \<open>
  One round of the thread that watches the descriptors: it ends, or goes on with \<open>wait\<close> for
  \<^verbatim>\<open>wait_for_request_quit\<close>.  The flags are those of the AT and the control descriptor.
\<close>

datatype atc_poll = AtcTimeout | AtcError | AtcReady bool bool bool "cm_event option"

definition atc_read_step :: "bool \<Rightarrow> atc_poll \<Rightarrow> bool option" where
  "atc_read_step wait r =
     (case r of
        AtcTimeout \<Rightarrow> if wait then None else Some wait
      | AtcError \<Rightarrow> None
      | AtcReady at_err ctl_err ctl_in ev \<Rightarrow>
          if at_err \<or> ctl_err then None
          else if ctl_in \<and> ev = Some RIL_REQUEST_QUIT then None
          else if ctl_in \<and> ev = Some SIG_EVENT_STOP then Some True
          else Some wait)"

section \<open>Laws of the requests\<close>

lemma set_v4_address_settings [simp]: "user_settings (set_v4_address a p) = user_settings p"
  by (simp add: set_v4_address_def user_settings_def)

lemma atc_setup_profile: "atc_requestSetupDataCall p f s = Some (e, p', s') \<Longrightarrow> p' = p"
  by (auto simp: atc_requestSetupDataCall_def split: prod.splits option.splits if_splits)

lemma atc_getip_settings:
  "atc_requestGetIPAddress p f s = Some (e, p', s') \<Longrightarrow> user_settings p' = user_settings p"
  by (auto simp: atc_requestGetIPAddress_def Let_def split: prod.splits)

interpretation atc_ops: data_call_ops atc_request_ops
  by unfold_locales
    (auto simp: atc_request_ops_def atc_requestDeactivateDefaultPDP_def
      dest: atc_setup_profile atc_getip_settings)

section \<open>Lines of the modem\<close>

lemma strStartsWith_append [simp]: "strStartsWith (p @ s) p"
  by (induction p) simp_all

lemma ok_final: "final_line ''OK''" "isFinalResponseSuccess ''OK''"
  by (simp_all add: final_line_def isFinalResponseSuccess_def s_finalResponsesSuccess_def)

text \<open>A line of one of the network commands is no final response.\<close>

lemma network_line_not_final: "c \<noteq> CHR ''M'' \<Longrightarrow> \<not> final_line (CHR ''+'' # CHR ''C'' # c # s)"
  by (simp add: final_line_def isFinalResponseSuccess_def isFinalResponseError_def
      s_finalResponsesSuccess_def s_finalResponsesError_def)

lemma print_field_no_comma: "\<not> is_Quoted f \<Longrightarrow> CHR '','' \<notin> set (print_field f)"
  by (cases f) (auto simp: print_int_def print_base_no_comma)

lemma count_fields:
  assumes "list_all (\<lambda>f. \<not> is_Quoted f) fs" and "fs \<noteq> []"
  shows "length (filter (\<lambda>c. c = CHR '','') (print_fields fs)) + 1 = length fs"
  using assms
proof (induction fs rule: print_fields.induct)
  case (2 f)
  then show ?case using print_field_no_comma [of f] by (auto simp: filter_empty_conv)
next
  case (3 f g fs)
  then have "filter (\<lambda>c. c = CHR '','') (print_field f) = []"
    using print_field_no_comma [of f] by (auto simp: filter_empty_conv)
  with 3 show ?case by simp
qed simp

lemma reg_command_prefix:
  assumes "reg_command act = Some (cmd, pre)"
  obtains name where "pre = name @ '':''" "CHR '':'' \<notin> set name" "CHR '','' \<notin> set name"
    "\<And>s. \<not> final_line (pre @ s)"
proof -
  have c: "pre = ''+CGREG'' @ '':'' \<or> pre = ''+CEREG'' @ '':'' \<or> pre = ''+C5GREG'' @ '':''"
    using assms by (auto simp: reg_command_def split: if_splits)
  then have "\<not> final_line (pre @ s)" for s by (auto simp: network_line_not_final)
  with c that show thesis by force
qed

lemma reg_state_fields:
  assumes "reg_command act = Some (cmd, pre)" and "line = pre @ '' '' @ print_fields fs"
    and "list_all field_wf fs" and "length line \<le> 1023" and "list_all (\<lambda>f. \<not> is_Quoted f) fs" and "fs \<noteq> []"
  shows "at_tok_count (Some line) = length fs - 1"
    and "at_tok_scanf (Some line) (concat (map field_conv fs)) = (length fs, map field_val fs)"
proof -
  obtain name where n: "pre = name @ '':''" "CHR '':'' \<notin> set name" "CHR '','' \<notin> set name"
    using reg_command_prefix [OF assms(1)] by metis
  have "filter (\<lambda>c. c = CHR '','') name = []" using n(3) by (auto simp: filter_empty_conv)
  then show "at_tok_count (Some line) = length fs - 1"
    using count_fields [OF assms(5,6)] n(1) assms(2) by (simp add: at_tok_count_def)
  show "at_tok_scanf (Some line) (concat (map field_conv fs)) = (length fs, map field_val fs)"
    using scanf_fields [OF n(2) assms(3,6) _ assms(4), of "[]"] assms(2) n(1) by simp
qed

lemma send_singleline_answered:
  assumes "open_chan (at_ch l)" and "at_script l = answer [line] f # rest" and "final_line f"
    and "part_of p line"
  obtains c where "open_chan c" and "at_send_command_singleline command p True l =
      (0, Some \<lparr>success = isFinalResponseSuccess f, finalResponse = Some f, p_intermediates = [line]\<rparr>,
       l\<lparr>at_ch := c, at_script := rest\<rparr>)"
proof -
  obtain c where "open_chan c" and "at_send_command_full command (SINGLELINE p) None True l =
      (0, Some \<lparr>success = isFinalResponseSuccess f, finalResponse = Some f, p_intermediates = [line]\<rparr>,
       l\<lparr>at_ch := c, at_script := rest\<rparr>)"
    using send_answered [OF assms(1-3), of "SINGLELINE p" command True] assms(4) by auto
  then show thesis using that by (simp add: at_send_command_singleline_def must_have_intermediate_def)
qed

lemma reg_state_four_five:
  assumes "reg_command act = Some (cmd, pre)"
    and "fs = [Dec n, Dec stat, Hex lac, Hex ci] \<or> fs = [Dec n, Dec stat, Hex lac, Hex ci, Dec tech]"
    and "line = pre @ '' '' @ print_fields fs" and "list_all field_wf fs" and "length line \<le> 1023"
  shows "reg_state line = Some stat"
proof -
  have "list_all (\<lambda>f. \<not> is_Quoted f) fs" "fs \<noteq> []" using assms(2) by auto
  note r = reg_state_fields [OF assms(1,3,4,5) this]
  from assms(2) show ?thesis
  proof
    assume "fs = [Dec n, Dec stat, Hex lac, Hex ci]"
    with r show ?thesis by (simp add: reg_state_def scanned_int_def)
  next
    assume "fs = [Dec n, Dec stat, Hex lac, Hex ci, Dec tech]"
    with r show ?thesis by (simp add: reg_state_def scanned_int_def)
  qed
qed

section \<open>Properties\<close>

text \<open>
  On the AT backend the attach state follows the network registration: when the modem names the
  access technology with \<^verbatim>\<open>+COPS\<close> and answers the registration query of that technology in the form
  with mode, state, area and cell (and technology), the state is attached exactly for 1 (home) and 5
  (roaming).
\<close>

theorem atc_registration_attach:
  assumes "open_chan (at_ch st)" and "at_script st = answer [cops] ''OK'' # answer [reg] ''OK'' # rest"
    and "cops = ''+COPS: '' @ print_fields [Dec m, Dec f, Quoted oper, Dec act]"
    and "list_all field_wf [Dec m, Dec f, Quoted oper, Dec act]" and "length cops \<le> 1023"
    and "reg_command act = Some (cmd, pre)"
    and "fs = [Dec n, Dec stat, Hex lac, Hex ci] \<or> fs = [Dec n, Dec stat, Hex lac, Hex ci, Dec tech]"
    and "reg = pre @ '' '' @ print_fields fs" and "list_all field_wf fs" and "length reg \<le> 1023"
  shows "\<exists>st'. atc_requestRegistrationState ps st = Some (0, if stat = 1 \<or> stat = 5 then 1 else 0, st')
       \<and> at_script st' = rest"
proof -
  have t: "takes (MULTILINE ''+COPS:'') [cops]" using assms(3) by (simp add: part_of_def network_line_not_final)
  obtain c where c: "open_chan c" "at_send_command_full ''AT+COPS=3,0;+COPS?;+COPS=3,1;+COPS?;+COPS=3,2;+COPS?''
      (MULTILINE ''+COPS:'') None True st =
      (0, Some \<lparr>success = True, finalResponse = Some ''OK'', p_intermediates = [cops]\<rparr>,
       st\<lparr>at_ch := c, at_script := answer [reg] ''OK'' # rest\<rparr>)"
    by (rule send_answered [OF assms(1,2) ok_final(1) t, where want = True]) (auto simp: ok_final)
  have act: "cops_act_of [cops] = Some act"
    using scanf_fields [of "''+COPS''", OF _ assms(4) _ _ assms(5), of "[]"] assms(3)
    by (simp add: cops_act_of_def scanned_int_def)
  have "part_of pre reg" using reg_command_prefix [OF assms(6)] assms(8) by (metis part_of_def strStartsWith_append)
  then obtain c2 where c2: "at_send_command_singleline cmd pre True (st\<lparr>at_ch := c, at_script := answer [reg] ''OK'' # rest\<rparr>) =
      (0, Some \<lparr>success = True, finalResponse = Some ''OK'', p_intermediates = [reg]\<rparr>,
       (st\<lparr>at_ch := c, at_script := answer [reg] ''OK'' # rest\<rparr>)\<lparr>at_ch := c2, at_script := rest\<rparr>)"
    using send_singleline_answered [of "st\<lparr>at_ch := c, at_script := answer [reg] ''OK'' # rest\<rparr>" reg "''OK''" rest pre cmd]
      c(1) ok_final by auto
  show ?thesis
    using c(2) act assms(6) c2 reg_state_four_five [OF assms(6-10)]
    by (simp add: atc_requestRegistrationState_def at_send_command_multiline_def at_response_error_def lines_of_def first_line_def)
qed

definition example_atc :: "at_exchange list \<Rightarrow> atc" where
  "example_atc es = \<lparr>at_ch = idle_chan, at_script = es, asr_style_atc = False, s_pdp = 1, atc_events = [], atc_reboot = False\<rparr>"

lemma example_atc_simps [simp]:
  "open_chan (at_ch (example_atc es))" "at_script (example_atc es) = es" "\<not> asr_style_atc (example_atc es)"
  by (simp_all add: example_atc_def idle_chan_def open_chan_def)

theorem atc_registration_attach_witness:
  "\<exists>st'. atc_requestRegistrationState 0 (example_atc
      [answer [''+COPS: '' @ print_fields [Dec 0, Dec 2, Quoted ''21670'', Dec 7]] ''OK'',
       answer [''+CEREG: '' @ print_fields [Dec 2, Dec 5, Hex 0x1A2, Hex 0x9F3, Dec 7]] ''OK'']) = Some (0, 1, st')
     \<and> at_script st' = []"
proof -
  let ?cops = "''+COPS: '' @ print_fields [Dec 0, Dec 2, Quoted ''21670'', Dec 7]"
  let ?reg = "''+CEREG:'' @ '' '' @ print_fields [Dec 2, Dec 5, Hex 0x1A2, Hex 0x9F3, Dec 7]"
  have l: "length ?cops \<le> 1023" "length ?reg \<le> 1023" by code_simp+
  have w: "list_all field_wf [Dec 0, Dec 2, Quoted ''21670'', Dec 7]"
    "list_all field_wf [Dec 2, Dec 5, Hex 0x1A2, Hex 0x9F3, Dec 7]" by simp_all
  have "reg_command 7 = Some (''AT+CEREG?'', ''+CEREG:'')" by (simp add: reg_command_def)
  from atc_registration_attach [OF example_atc_simps(1,2) refl w(1) l(1) this disjI2 [OF refl] refl w(2) l(2), of 0 "[]"]
  show ?thesis by (simp del: print_fields.simps)
qed

text \<open>
  In the form with state, area and cell, without the mode, the number compared with 1 and 5 is the
  area code: the state that the modem reports is skipped.
\<close>

theorem atc_registration_reads_area:
  assumes "reg_command act = Some (cmd, pre)" and "line = pre @ '' '' @ print_fields [Dec stat, Hex lac, Hex ci]"
    and "list_all field_wf [Dec stat, Hex lac, Hex ci]" and "length line \<le> 1023"
  shows "reg_state line = Some (sint (of_nat lac :: u32))"
  using reg_state_fields [OF assms] by (simp add: reg_state_def scanned_int_def)

theorem atc_registration_reads_area_witness:
  "reg_state (''+CGREG: '' @ print_fields [Dec 2, Hex 1, Hex 0x9F3]) = Some 1"
proof -
  have "reg_command 3 = Some (''AT+CGREG?'', ''+CGREG:'')" by (simp add: reg_command_def)
  moreover have "list_all field_wf [Dec 2, Hex 1, Hex 0x9F3]" by simp
  moreover have "length (''+CGREG:'' @ '' '' @ print_fields [Dec 2, Hex 1, Hex 0x9F3]) \<le> 1023" by code_simp
  ultimately have "reg_state (''+CGREG:'' @ '' '' @ print_fields [Dec 2, Hex 1, Hex 0x9F3]) = Some (sint (of_nat 1 :: u32))"
    by (intro atc_registration_reads_area [OF _ refl])
  then show ?thesis by (simp del: print_fields.simps)
qed

text \<open>
  A data call that the modem refuses is reported as set up: when \<^verbatim>\<open>AT+QNETDEVCTL\<close> is answered with
  an error line, the request returns 0, the value that stands for success.
\<close>

theorem atc_refused_call_returns_success:
  assumes "open_chan (at_ch st)" and "at_script st = answer [] f # rest" and "\<not> asr_style_atc st"
    and "isFinalResponseError f" and "\<not> isFinalResponseSuccess f"
  shows "\<exists>st'. atc_requestSetupDataCall profile family st = Some (0, profile, st') \<and> atc_events st' = atc_events st"
proof -
  let ?cmd = "''AT+QNETDEVCTL='' @ print_int (pdp profile) @ '',1,1''"
  have t: "takes NO_RESULT []" and f: "final_line f" using assms(4) by (simp_all add: final_line_def)
  obtain c where "at_send_command_full ?cmd NO_RESULT None True st =
      (0, Some \<lparr>success = False, finalResponse = Some f, p_intermediates = []\<rparr>, st\<lparr>at_ch := c, at_script := rest\<rparr>)"
    by (rule send_answered [OF assms(1,2) f t, where command = ?cmd and want = True]) (auto simp: assms(5))
  then show ?thesis using assms(3)
    by (simp add: atc_requestSetupDataCall_def at_send_command_def at_response_error_def)
qed

theorem atc_refused_call_returns_success_witness:
  "\<exists>st'. atc_requestSetupDataCall zero_profile IpFamilyV4 (example_atc [answer [] ''ERROR'']) = Some (0, zero_profile, st')
     \<and> atc_events st' = []"
proof -
  have "isFinalResponseError ''ERROR''" "\<not> isFinalResponseSuccess ''ERROR''"
    by (simp_all add: isFinalResponseError_def isFinalResponseSuccess_def s_finalResponsesError_def s_finalResponsesSuccess_def)
  from atc_refused_call_returns_success [OF example_atc_simps(1,2,3) this] show ?thesis by (auto simp: example_atc_def)
qed

text \<open>
  The loop invariant also holds on the AT backend: over every interleaving of poll results, modem
  events, alarms and signals only enabled address families are connected, and the link state is one of
  unknown, none, IPv4, IPv6, both.
\<close>

theorem atc_loop_invariant:
  assumes "qmi_main_start atc_request_ops dev env now first lnk p s = Some c0"
    and "lnk \<in> {-1, 0, 16, 64, 80}" and "(cm_step atc_request_ops dev env)\<^sup>*\<^sup>* c0 c"
  shows "(IPv4ConnectionStatus c = QWDS_PKT_DATA_CONNECTED \<longrightarrow> enable_ipv4 (cm_profile c) \<noteq> 0)
       \<and> (IPv6ConnectionStatus c = QWDS_PKT_DATA_CONNECTED \<longrightarrow> enable_ipv6 (cm_profile c) \<noteq> 0)
       \<and> s_link c \<in> {-1, 0, 16, 64, 80}"
  using atc_ops.cm_steps_inv [OF assms(3) atc_ops.start_inv [OF assms(1,2)]] by (simp add: cm_inv_def)

text \<open>A start over a channel on which every command times out.\<close>

theorem atc_loop_invariant_witness:
  "\<exists>c0. qmi_main_start atc_request_ops \<lparr>dev_init = None, dev_deinit = None\<rparr> example_env 0
          (Some RIL_INDICATE_DEVICE_CONNECTED) (-1) zero_profile (example_atc []) = Some c0
      \<and> s_link (ql_sigaction False c0) \<in> {-1, 0, 16, 64, 80}"
proof -
  let ?dev = "\<lparr>dev_init = None, dev_deinit = None\<rparr> :: atc qmi_device_ops"
  have "qmi_main_start atc_request_ops ?dev example_env 0 (Some RIL_INDICATE_DEVICE_CONNECTED) (-1)
      zero_profile (example_atc []) \<noteq> None"
    by code_simp
  then obtain c0 where c0: "qmi_main_start atc_request_ops ?dev example_env 0
      (Some RIL_INDICATE_DEVICE_CONNECTED) (-1) zero_profile (example_atc []) = Some c0" by blast
  have "(cm_step atc_request_ops ?dev example_env)\<^sup>*\<^sup>* c0 (ql_sigaction False c0)"
    by (rule r_into_rtranclp) (rule cm_step.signal)
  from atc_loop_invariant [OF c0 _ this] c0 show ?thesis by simp
qed

section \<open>Addresses\<close>

definition dotted :: "nat \<Rightarrow> nat \<Rightarrow> nat \<Rightarrow> nat \<Rightarrow> string" where
  "dotted a b c d = print_base 10 a @ ''.'' @ print_base 10 b @ ''.'' @ print_base 10 c @ ''.'' @ print_base 10 d"

lemma scan_number_print:
  assumes "n < 256" and "s = [] \<or> hd s = CHR ''.''"
  shows "scan_number 10 None (print_base 10 n @ s) = Some (int n, s)"
proof -
  obtain c cs v where c: "print_base 10 n = c # cs" "c = digit_char v" "v < 10" "\<not> isspace c" "c \<noteq> CHR ''-''" "c \<noteq> CHR ''+''"
    by (rule print_base_hd [of 10 n]) auto
  have dot: "digit_val 10 (CHR ''.'') = None" by (simp add: digit_val_def)
  have all: "\<forall>x\<in>set (print_base 10 n). digit_val 10 x \<noteq> None"
    using print_base_digits [of 10 n] digit_val_digit_char [of _ 10] by auto
  then have tw: "takeWhile (\<lambda>c. digit_val 10 c \<noteq> None) (print_base 10 n @ s) = print_base 10 n"
    using assms(2) dot by (cases s) (simp_all add: takeWhile_append2)
  have sk: "skip_0x 10 x = x" for x by (simp add: skip_0x_def split: list.splits)
  have "of_int (int n) = (of_nat n :: u64)" by simp
  then have "to_int (of_int (int n)) = int n" using to_int_of_int [of "int n"] assms(1) by simp
  then show ?thesis
    using c tw sk digits_value_print [of 10 n] assms(1)
    by (simp add: scan_number_def Let_def)
qed

lemma scan_dotted_print:
  assumes "a < 256" "b < 256" "c < 256" "d < 256"
  shows "scan_dotted 4 (dotted a b c d) = [int a, int b, int c, int d]"
  using scan_number_print [of a "''.'' @ print_base 10 b @ ''.'' @ print_base 10 c @ ''.'' @ print_base 10 d"]
    scan_number_print [of b "''.'' @ print_base 10 c @ ''.'' @ print_base 10 d"]
    scan_number_print [of c "''.'' @ print_base 10 d"] scan_number_print [of d "[]"] assms
  by (simp add: dotted_def numeral_eq_Suc)

lemma set_v4_address_nonzero: "a \<noteq> 0 \<Longrightarrow> set_v4_address a p = p\<lparr>ipv4 := (ipv4 p)\<lparr>v4_Address := a\<rparr>\<rparr>"
  by (cases p; cases "ipv4 p") (simp add: set_v4_address_def)

lemma le32_nonzero: "a \<noteq> 0 \<Longrightarrow> le32_to_cpu a b c d \<noteq> 0"
proof
  assume "a \<noteq> 0" and z: "le32_to_cpu a b c d = 0"
  then have "(ucast a :: u32) = 0" by (simp add: le32_to_cpu_def or_eq_0_iff)
  then have "uint (ucast a :: u32) = 0" by simp
  moreover have "uint (ucast a :: u32) = uint a" using uint_lt2p [of a] by (simp add: unsigned_ucast_eq take_bit_int_eq_self)
  ultimately show False using \<open>a \<noteq> 0\<close> by (simp only: uint_0_iff)
qed

text \<open>
  On the AT backend of the ASR style the address of the data call is the one the modem prints: for
  an answer to \<^verbatim>\<open>AT+CGPADDR\<close> with the context and a dotted IPv4 address, with or without an IPv6
  address behind it, the request stores its four octets, lowest byte first, changes nothing else of the
  profile and returns 0.
\<close>

theorem atc_address_roundtrip:
  assumes "open_chan (at_ch st)" and "at_script st = answer [line] ''OK'' # rest" and "asr_style_atc st"
    and "fs = [Dec (pdp profile), Quoted (dotted a b c d)] \<or> fs = [Dec (pdp profile), Quoted (dotted a b c d), Quoted v6]"
    and "line = ''+CGPADDR: '' @ print_fields fs" and "list_all field_wf fs" and "length line \<le> 1023"
    and "0 < a" "a < 256" "b < 256" "c < 256" "d < 256"
  shows "\<exists>st'. atc_requestGetIPAddress profile family st =
     Some (0, profile\<lparr>ipv4 := (ipv4 profile)\<lparr>v4_Address :=
        le32_to_cpu (of_nat a) (of_nat b) (of_nat c) (of_nat d)\<rparr>\<rparr>, st')"
proof -
  let ?addr = "le32_to_cpu (of_nat a) (of_nat b) (of_nat c) (of_nat d)"
  have "part_of ''+CGPADDR:'' line" using assms(5) by (simp add: part_of_def network_line_not_final)
  then obtain ch where ch: "at_send_command_singleline (''AT+CGPADDR='' @ print_int (pdp profile)) ''+CGPADDR:'' True st =
      (0, Some \<lparr>success = True, finalResponse = Some ''OK'', p_intermediates = [line]\<rparr>, st\<lparr>at_ch := ch, at_script := rest\<rparr>)"
    using send_singleline_answered [OF assms(1,2) ok_final(1)] ok_final(2) by metis
  have scan: "at_tok_scanf (Some line) (concat (map field_conv (fs @ gs))) = (length fs, map field_val fs)" for gs
    using scanf_fields [of "''+CGPADDR''", OF _ assms(6) _ _ assms(7)] assms(4,5) by auto
  from assms(4) have "cgpaddr_loop [line] (pdp profile) (pdp profile) = ?addr"
  proof
    assume "fs = [Dec (pdp profile), Quoted (dotted a b c d)]"
    with scan [of "[Quoted []]"] show ?thesis
      using scan_dotted_print [OF assms(9-12)] by (simp add: scanned_int_def scanned_str_def fill4_def)
  next
    assume "fs = [Dec (pdp profile), Quoted (dotted a b c d), Quoted v6]"
    with scan [of "[]"] show ?thesis
      using scan_dotted_print [OF assms(9-12)] by (simp add: scanned_int_def scanned_str_def fill4_def)
  qed
  moreover have "?addr \<noteq> 0"
  proof (rule le32_nonzero)
    show "(of_nat a :: u8) \<noteq> 0" using assms(8,9) by (auto simp: word_of_nat_eq_0_iff dest: dvd_imp_le)
  qed
  ultimately show ?thesis using assms(3) ch
    by (simp add: atc_requestGetIPAddress_def at_response_error_def lines_of_def set_v4_address_nonzero Let_def
        del: cgpaddr_loop.simps)
qed

theorem atc_address_roundtrip_witness:
  "\<exists>st'. atc_requestGetIPAddress (zero_profile\<lparr>pdp := 1\<rparr>) IpFamilyV4
      ((example_atc [answer [''+CGPADDR: '' @ print_fields [Dec 1, Quoted (dotted 10 201 80 91)]] ''OK''])\<lparr>asr_style_atc := True\<rparr>)
     = Some (0, zero_profile\<lparr>pdp := 1, ipv4 := zero_ipv4\<lparr>v4_Address := 0x5B50C90A\<rparr>\<rparr>, st')"
proof -
  let ?p = "zero_profile\<lparr>pdp := 1\<rparr>"
  let ?line = "''+CGPADDR: '' @ print_fields [Dec (pdp ?p), Quoted (dotted 10 201 80 91)]"
  let ?st = "(example_atc [answer [?line] ''OK''])\<lparr>asr_style_atc := True\<rparr>"
  have "open_chan (at_ch ?st)" "at_script ?st = answer [?line] ''OK'' # []" "asr_style_atc ?st"
    by (simp_all add: example_atc_def idle_chan_def open_chan_def)
  moreover have "list_all field_wf [Dec (pdp ?p), Quoted (dotted 10 201 80 91)]" by code_simp
  moreover have "length ?line \<le> 1023" by code_simp
  ultimately have "\<exists>st'. atc_requestGetIPAddress ?p IpFamilyV4 ?st = Some (0, ?p\<lparr>ipv4 := (ipv4 ?p)\<lparr>v4_Address :=
      le32_to_cpu (of_nat 10) (of_nat 201) (of_nat 80) (of_nat 91)\<rparr>\<rparr>, st')"
    by (intro atc_address_roundtrip [OF _ _ _ disjI1 [OF refl] refl]) auto
  moreover have "?p\<lparr>ipv4 := (ipv4 ?p)\<lparr>v4_Address := le32_to_cpu (of_nat 10) (of_nat 201) (of_nat 80) (of_nat 91)\<rparr>\<rparr>
      = zero_profile\<lparr>pdp := 1, ipv4 := zero_ipv4\<lparr>v4_Address := 0x5B50C90A\<rparr>\<rparr>"
    by (simp add: zero_profile_def le32_to_cpu_def)
  ultimately show ?thesis by (simp add: zero_profile_def del: print_fields.simps)
qed

end
