(* ===== verification/MhiPm.thy ===== *)
theory MhiPm
  imports Prelude
begin

text \<open>
  The power-management state machine of the PCIe MHI host driver: the one-hot states and the
  guards of \<^verbatim>\<open>mhi_internal.h\<close>, the transition table and \<open>mhi_tryset_pm_state\<close> of
  \<^verbatim>\<open>mhi_pm.c\<close>, and the transition diagram that the comment above the table documents.
\<close>

section \<open>States\<close>

text \<open>The states in the order of the bits, and the value of each (\<^verbatim>\<open>BIT(MHI_PM_BIT_...)\<close>).\<close>

datatype pm_bit =
    PM_DISABLE | PM_POR | PM_M0 | PM_M2 | PM_M3_ENTER | PM_M3 | PM_M3_EXIT | PM_FW_DL_ERR
  | PM_SYS_ERR_DETECT | PM_SYS_ERR_PROCESS | PM_SHUTDOWN_PROCESS | PM_LD_ERR_FATAL_DETECT

fun pm_bit_nr :: "pm_bit \<Rightarrow> nat" where
  "pm_bit_nr PM_DISABLE = 0"
| "pm_bit_nr PM_POR = 1"
| "pm_bit_nr PM_M0 = 2"
| "pm_bit_nr PM_M2 = 3"
| "pm_bit_nr PM_M3_ENTER = 4"
| "pm_bit_nr PM_M3 = 5"
| "pm_bit_nr PM_M3_EXIT = 6"
| "pm_bit_nr PM_FW_DL_ERR = 7"
| "pm_bit_nr PM_SYS_ERR_DETECT = 8"
| "pm_bit_nr PM_SYS_ERR_PROCESS = 9"
| "pm_bit_nr PM_SHUTDOWN_PROCESS = 10"
| "pm_bit_nr PM_LD_ERR_FATAL_DETECT = 11"

definition MHI_PM :: "pm_bit \<Rightarrow> u32" where
  "MHI_PM b = push_bit (pm_bit_nr b) 1"

definition MHI_PMs :: "pm_bit list \<Rightarrow> u32" where
  "MHI_PMs bs = fold (\<lambda>b w. w OR MHI_PM b) bs 0"

definition MHI_PM_IN_ERROR_STATE :: "u32 \<Rightarrow> bool" where
  "MHI_PM_IN_ERROR_STATE pm_state \<longleftrightarrow> MHI_PM PM_FW_DL_ERR \<le> pm_state"

definition MHI_DB_ACCESS_VALID :: "u32 \<Rightarrow> bool" where
  "MHI_DB_ACCESS_VALID pm_state \<longleftrightarrow> pm_state AND MHI_PM PM_M0 \<noteq> 0"

definition MHI_PM_IN_SUSPEND_STATE :: "u32 \<Rightarrow> bool" where
  "MHI_PM_IN_SUSPEND_STATE pm_state \<longleftrightarrow> pm_state AND MHI_PMs [PM_M3_ENTER, PM_M3] \<noteq> 0"

section \<open>The transition table\<close>

definition mhi_state_transitions :: "(u32 \<times> u32) list" where
  "mhi_state_transitions =
    [(MHI_PM PM_DISABLE, MHI_PM PM_POR),
     (MHI_PM PM_POR,
      MHI_PMs [PM_POR, PM_DISABLE, PM_M0, PM_SYS_ERR_DETECT, PM_SHUTDOWN_PROCESS,
               PM_LD_ERR_FATAL_DETECT, PM_FW_DL_ERR]),
     (MHI_PM PM_M0,
      MHI_PMs [PM_M2, PM_M3_ENTER, PM_SYS_ERR_DETECT, PM_SHUTDOWN_PROCESS,
               PM_LD_ERR_FATAL_DETECT, PM_FW_DL_ERR]),
     (MHI_PM PM_M2,
      MHI_PMs [PM_M0, PM_SYS_ERR_DETECT, PM_SHUTDOWN_PROCESS, PM_LD_ERR_FATAL_DETECT]),
     (MHI_PM PM_M3_ENTER,
      MHI_PMs [PM_M3, PM_SYS_ERR_DETECT, PM_SHUTDOWN_PROCESS, PM_LD_ERR_FATAL_DETECT]),
     (MHI_PM PM_M3,
      MHI_PMs [PM_M3_EXIT, PM_SYS_ERR_DETECT, PM_SHUTDOWN_PROCESS, PM_LD_ERR_FATAL_DETECT]),
     (MHI_PM PM_M3_EXIT,
      MHI_PMs [PM_M0, PM_SYS_ERR_DETECT, PM_SHUTDOWN_PROCESS, PM_LD_ERR_FATAL_DETECT]),
     (MHI_PM PM_FW_DL_ERR,
      MHI_PMs [PM_FW_DL_ERR, PM_SYS_ERR_DETECT, PM_SHUTDOWN_PROCESS, PM_LD_ERR_FATAL_DETECT]),
     (MHI_PM PM_SYS_ERR_DETECT,
      MHI_PMs [PM_SYS_ERR_PROCESS, PM_SHUTDOWN_PROCESS, PM_LD_ERR_FATAL_DETECT]),
     (MHI_PM PM_SYS_ERR_PROCESS,
      MHI_PMs [PM_POR, PM_SHUTDOWN_PROCESS, PM_LD_ERR_FATAL_DETECT]),
     (MHI_PM PM_SHUTDOWN_PROCESS, MHI_PMs [PM_DISABLE, PM_LD_ERR_FATAL_DETECT]),
     (MHI_PM PM_LD_ERR_FATAL_DETECT, MHI_PMs [PM_LD_ERR_FATAL_DETECT, PM_SHUTDOWN_PROCESS])]"

text \<open>\<^verbatim>\<open>find_last_bit\<close>: the highest set bit below \<open>n\<close>, and the size 32 when there is none.\<close>

fun find_last_bit :: "u32 \<Rightarrow> nat \<Rightarrow> nat" where
  "find_last_bit w 0 = 32"
| "find_last_bit w (Suc n) = (if bit w n then n else find_last_bit w n)"

text \<open>The value returned is at the same time the state the controller is left in.\<close>

definition mhi_tryset_pm_state :: "u32 \<Rightarrow> u32 \<Rightarrow> u32" where
  "mhi_tryset_pm_state cur_state state =
    (let index = find_last_bit cur_state 32 in
     if length mhi_state_transitions \<le> index then cur_state
     else if fst (mhi_state_transitions ! index) \<noteq> cur_state then cur_state
     else if snd (mhi_state_transitions ! index) AND state = 0 then cur_state
     else state)"

section \<open>The documented diagram\<close>

text \<open>
  The comment orders the states in levels L0 to L3, lists the transitions inside a level and the
  ways back, and lets every state but DISABLE move to the start state of a higher level.
\<close>

fun pm_level :: "pm_bit \<Rightarrow> nat" where
  "pm_level PM_SYS_ERR_DETECT = 1"
| "pm_level PM_SYS_ERR_PROCESS = 1"
| "pm_level PM_SHUTDOWN_PROCESS = 2"
| "pm_level PM_LD_ERR_FATAL_DETECT = 3"
| "pm_level _ = 0"

definition pm_start_states :: "pm_bit list" where
  "pm_start_states = [PM_SYS_ERR_DETECT, PM_SHUTDOWN_PROCESS, PM_LD_ERR_FATAL_DETECT]"

definition pm_listed :: "(pm_bit \<times> pm_bit) list" where
  "pm_listed =
    [(PM_DISABLE, PM_POR), (PM_POR, PM_DISABLE), (PM_POR, PM_POR),
     (PM_POR, PM_M0), (PM_M0, PM_M2), (PM_M2, PM_M0),
     (PM_POR, PM_FW_DL_ERR), (PM_FW_DL_ERR, PM_FW_DL_ERR), (PM_M0, PM_FW_DL_ERR),
     (PM_M0, PM_M3_ENTER), (PM_M3_ENTER, PM_M3), (PM_M3, PM_M3_EXIT), (PM_M3_EXIT, PM_M0),
     (PM_SYS_ERR_DETECT, PM_SYS_ERR_PROCESS), (PM_SYS_ERR_PROCESS, PM_POR),
     (PM_SHUTDOWN_PROCESS, PM_DISABLE),
     (PM_LD_ERR_FATAL_DETECT, PM_LD_ERR_FATAL_DETECT),
     (PM_LD_ERR_FATAL_DETECT, PM_SHUTDOWN_PROCESS)]"

definition pm_documented :: "pm_bit \<Rightarrow> pm_bit \<Rightarrow> bool" where
  "pm_documented a b \<longleftrightarrow>
     (a, b) \<in> set pm_listed \<or>
     a \<noteq> PM_DISABLE \<and> b \<in> set pm_start_states \<and> pm_level a < pm_level b"

section \<open>The table is the diagram\<close>

lemma pm_bit_nr_inj [simp]: "pm_bit_nr a = pm_bit_nr b \<longleftrightarrow> a = b"
  by (cases a; cases b) simp_all

lemma pm_bit_nr_bound: "pm_bit_nr b < 12"
  by (cases b) simp_all

lemma bit_MHI_PM [simp]: "bit (MHI_PM b) n \<longleftrightarrow> n = pm_bit_nr b"
  using pm_bit_nr_bound [of b] by (auto simp: MHI_PM_def bit_simps)

lemma MHI_PM_inj [simp]: "MHI_PM a = MHI_PM b \<longleftrightarrow> a = b"
  by (metis bit_MHI_PM pm_bit_nr_inj)

lemma bit_MHI_PMs: "bit (MHI_PMs bs) n \<longleftrightarrow> (\<exists>b \<in> set bs. n = pm_bit_nr b)"
proof -
  have "bit (fold (\<lambda>b w. w OR MHI_PM b) bs w) n \<longleftrightarrow> bit w n \<or> (\<exists>b \<in> set bs. n = pm_bit_nr b)" for w
    by (induction bs arbitrary: w) (auto simp: bit_simps)
  then show ?thesis by (simp add: MHI_PMs_def)
qed

lemma MHI_PMs_and: "MHI_PMs bs AND MHI_PM b = 0 \<longleftrightarrow> b \<notin> set bs"
proof
  assume "MHI_PMs bs AND MHI_PM b = 0"
  then have "\<not> bit (MHI_PMs bs AND MHI_PM b) (pm_bit_nr b)" by simp
  then show "b \<notin> set bs" by (simp add: bit_simps bit_MHI_PMs)
next
  assume "b \<notin> set bs"
  then show "MHI_PMs bs AND MHI_PM b = 0"
    by (intro bit_word_eqI) (auto simp: bit_simps bit_MHI_PMs)
qed

lemma find_last_bit_MHI_PM: "find_last_bit (MHI_PM b) n = (if pm_bit_nr b < n then pm_bit_nr b else 32)"
  by (induction n) auto

lemma length_transitions: "length mhi_state_transitions = 12"
  by (simp add: mhi_state_transitions_def)

lemma transition_from: "n < 12 \<Longrightarrow> \<exists>b. fst (mhi_state_transitions ! n) = MHI_PM b"
proof -
  assume "n < 12"
  then have "mhi_state_transitions ! n \<in> set mhi_state_transitions"
    by (simp add: length_transitions)
  then show ?thesis by (auto simp: mhi_state_transitions_def)
qed

text \<open>The targets of each row, as a list of states.\<close>

fun pm_targets :: "pm_bit \<Rightarrow> pm_bit list" where
  "pm_targets PM_DISABLE = [PM_POR]"
| "pm_targets PM_POR =
     [PM_POR, PM_DISABLE, PM_M0, PM_SYS_ERR_DETECT, PM_SHUTDOWN_PROCESS,
      PM_LD_ERR_FATAL_DETECT, PM_FW_DL_ERR]"
| "pm_targets PM_M0 =
     [PM_M2, PM_M3_ENTER, PM_SYS_ERR_DETECT, PM_SHUTDOWN_PROCESS,
      PM_LD_ERR_FATAL_DETECT, PM_FW_DL_ERR]"
| "pm_targets PM_M2 = [PM_M0, PM_SYS_ERR_DETECT, PM_SHUTDOWN_PROCESS, PM_LD_ERR_FATAL_DETECT]"
| "pm_targets PM_M3_ENTER =
     [PM_M3, PM_SYS_ERR_DETECT, PM_SHUTDOWN_PROCESS, PM_LD_ERR_FATAL_DETECT]"
| "pm_targets PM_M3 =
     [PM_M3_EXIT, PM_SYS_ERR_DETECT, PM_SHUTDOWN_PROCESS, PM_LD_ERR_FATAL_DETECT]"
| "pm_targets PM_M3_EXIT =
     [PM_M0, PM_SYS_ERR_DETECT, PM_SHUTDOWN_PROCESS, PM_LD_ERR_FATAL_DETECT]"
| "pm_targets PM_FW_DL_ERR =
     [PM_FW_DL_ERR, PM_SYS_ERR_DETECT, PM_SHUTDOWN_PROCESS, PM_LD_ERR_FATAL_DETECT]"
| "pm_targets PM_SYS_ERR_DETECT =
     [PM_SYS_ERR_PROCESS, PM_SHUTDOWN_PROCESS, PM_LD_ERR_FATAL_DETECT]"
| "pm_targets PM_SYS_ERR_PROCESS = [PM_POR, PM_SHUTDOWN_PROCESS, PM_LD_ERR_FATAL_DETECT]"
| "pm_targets PM_SHUTDOWN_PROCESS = [PM_DISABLE, PM_LD_ERR_FATAL_DETECT]"
| "pm_targets PM_LD_ERR_FATAL_DETECT = [PM_LD_ERR_FATAL_DETECT, PM_SHUTDOWN_PROCESS]"

lemma transition_row:
  "mhi_state_transitions ! pm_bit_nr a = (MHI_PM a, MHI_PMs (pm_targets a))"
  by (cases a) (simp_all add: mhi_state_transitions_def MHI_PMs_def)

lemma pm_targets_documented: "b \<in> set (pm_targets a) \<longleftrightarrow> pm_documented a b"
  by (cases a; cases b) (simp_all add: pm_documented_def pm_listed_def pm_start_states_def)

lemma tryset_valid:
  "mhi_tryset_pm_state (MHI_PM a) (MHI_PM b) = MHI_PM (if pm_documented a b then b else a)"
proof -
  have "find_last_bit (MHI_PM a) 32 = pm_bit_nr a"
    using pm_bit_nr_bound [of a] by (simp only: find_last_bit_MHI_PM) simp
  then show ?thesis
    using pm_bit_nr_bound [of a]
    by (simp add: mhi_tryset_pm_state_def transition_row length_transitions MHI_PMs_and
        pm_targets_documented)
qed

lemma tryset_invalid:
  assumes "\<And>c. s \<noteq> MHI_PM c"
  shows "mhi_tryset_pm_state s t = s"
  using assms transition_from [of "find_last_bit s 32"]
  by (auto simp: mhi_tryset_pm_state_def length_transitions Let_def)

text \<open>
  C16: The power-management table implements the documented diagram exactly: between any two of the
  twelve states a requested transition is taken if and only if the comment allows it, as a listed
  step or as a move from any state but DISABLE to the start state of a higher level; a refused
  request, and every request in a value that is no state, leaves the state as it was.
\<close>

theorem tryset_follows_diagram:
  "mhi_tryset_pm_state (MHI_PM a) (MHI_PM b) = (if pm_documented a b then MHI_PM b else MHI_PM a)
   \<and> ((\<forall>c. s \<noteq> MHI_PM c) \<longrightarrow> mhi_tryset_pm_state s t = s)"
  using tryset_invalid [of s t] by (simp add: tryset_valid)

theorem tryset_follows_diagram_witness:
  "mhi_tryset_pm_state (MHI_PM PM_M3) (MHI_PM PM_SHUTDOWN_PROCESS) = MHI_PM PM_SHUTDOWN_PROCESS
   \<and> mhi_tryset_pm_state (MHI_PM PM_SHUTDOWN_PROCESS) (MHI_PM PM_M0) = MHI_PM PM_SHUTDOWN_PROCESS
   \<and> mhi_tryset_pm_state 0 (MHI_PM PM_POR) = 0"
proof -
  have n: "\<forall>c. (0 :: u32) \<noteq> MHI_PM c"
    by (metis bit_0_eq bit_MHI_PM bot_apply bot_bool_def)
  show ?thesis
    using tryset_follows_diagram [of PM_M3 PM_SHUTDOWN_PROCESS 0 "MHI_PM PM_POR"]
      tryset_follows_diagram [of PM_SHUTDOWN_PROCESS PM_M0 0 0] n
    by (simp add: pm_documented_def pm_listed_def pm_start_states_def)
qed

end
