(* ===== verification/MhiRing.thy ===== *)
theory MhiRing
  imports Prelude
begin

text \<open>
  The rings of the MHI host driver (\<^verbatim>\<open>mhi_main.c\<close>): a ring is a block of equal elements with a read
  and a write pointer, here 64-bit addresses that wrap like the pointers of the code.  The queue
  contract that the transfer code relies on is a locale, interpreted on the ring operations.
\<close>

section \<open>Rings\<close>

text \<open>\<open>ring_ctxt_wp\<close> is the value of the write pointer that the device context shows the modem.\<close>

record mhi_ring =
  ring_iommu_base :: u64
  ring_ctxt_wp :: u64
  ring_base :: u64
  ring_rp :: u64
  ring_wp :: u64
  ring_el_size :: u64
  ring_len :: u64
  ring_elements :: u64

definition mhi_add_ring_element :: "mhi_ring \<Rightarrow> mhi_ring" where
  "mhi_add_ring_element ring =
    (let wp = ring_wp ring + ring_el_size ring in
     ring\<lparr>ring_wp := if ring_base ring + ring_len ring \<le> wp then ring_base ring else wp\<rparr>)"

definition mhi_del_ring_element :: "mhi_ring \<Rightarrow> mhi_ring" where
  "mhi_del_ring_element ring =
    (let rp = ring_rp ring + ring_el_size ring in
     ring\<lparr>ring_rp := if ring_base ring + ring_len ring \<le> rp then ring_base ring else rp\<rparr>)"

text \<open>The count is computed in \<^verbatim>\<open>size_t\<close> and stored in an \<^verbatim>\<open>int\<close>.\<close>

definition get_nr_avail_ring_elements :: "mhi_ring \<Rightarrow> u32" where
  "get_nr_avail_ring_elements ring =
    (let wp = ring_wp ring; rp = ring_rp ring in
     if wp < rp then ucast ((rp - wp) div ring_el_size ring - 1)
     else
       (let nr_el = ucast ((rp - ring_base ring) div ring_el_size ring) :: u32 in
        ucast (scast nr_el +
          ((ring_base ring + ring_len ring - wp) div ring_el_size ring - 1) :: u64)))"

definition get_used_ring_elements :: "u64 \<Rightarrow> u64 \<Rightarrow> u32 \<Rightarrow> u32" where
  "get_used_ring_elements rp wp el_num =
    (if rp \<le> wp then ucast ((wp - rp) div 16)
     else el_num - ucast ((rp - wp) div 16))"

definition mhi_to_virtual :: "mhi_ring \<Rightarrow> u64 \<Rightarrow> u64" where
  "mhi_to_virtual ring addr = (addr - ring_iommu_base ring) + ring_base ring"

definition mhi_to_physical :: "mhi_ring \<Rightarrow> u64 \<Rightarrow> u64" where
  "mhi_to_physical ring addr = (addr - ring_base ring) + ring_iommu_base ring"

definition mhi_recycle_ev_ring_element :: "mhi_ring \<Rightarrow> mhi_ring" where
  "mhi_recycle_ev_ring_element ring =
    (let wp = ring_wp ring + ring_el_size ring;
         wp = (if ring_base ring + ring_len ring \<le> wp then ring_base ring else wp);
         ring = ring\<lparr>ring_wp := wp, ring_ctxt_wp := ring_iommu_base ring + (wp - ring_base ring)\<rparr>;
         rp = ring_rp ring + ring_el_size ring
     in ring\<lparr>ring_rp := if ring_base ring + ring_len ring \<le> rp then ring_base ring else rp\<rparr>)"

definition mhi_is_ring_full :: "mhi_ring \<Rightarrow> bool" where
  "mhi_is_ring_full ring =
    (let tmp = ring_wp ring + ring_el_size ring;
         tmp = (if ring_base ring + ring_len ring \<le> tmp then ring_base ring else tmp)
     in tmp = ring_rp ring)"

section \<open>The queue contract\<close>

text \<open>
  A ring is a bounded queue: \<open>used\<close> elements of at most \<open>cap\<close> are outstanding, adding one is
  allowed unless the queue is full, and removing one is allowed unless it is empty.
\<close>

locale bounded_queue =
  fixes inv :: "'q \<Rightarrow> bool"
    and used :: "'q \<Rightarrow> nat"
    and cap :: "'q \<Rightarrow> nat"
    and add :: "'q \<Rightarrow> 'q"
    and del :: "'q \<Rightarrow> 'q"
    and full :: "'q \<Rightarrow> bool"
  assumes used_cap: "inv q \<Longrightarrow> used q \<le> cap q"
    and full_iff: "inv q \<Longrightarrow> full q \<longleftrightarrow> used q = cap q"
    and add_law: "inv q \<Longrightarrow> \<not> full q \<Longrightarrow>
      inv (add q) \<and> used (add q) = used q + 1 \<and> cap (add q) = cap q"
    and del_law: "inv q \<Longrightarrow> 0 < used q \<Longrightarrow>
      inv (del q) \<and> used (del q) = used q - 1 \<and> cap (del q) = cap q"
begin

text \<open>A completed element makes room for exactly one more.\<close>

lemma del_add_used:
  assumes "inv q" and "0 < used q"
  shows "\<not> full (del q) \<and> inv (add (del q)) \<and> used (add (del q)) = used q"
proof -
  have "inv (del q)" "used (del q) = used q - 1" "cap (del q) = cap q" "used q \<le> cap q"
    using del_law [OF assms] used_cap [OF assms(1)] by auto
  moreover from this have "\<not> full (del q)" using full_iff assms(2) by auto
  ultimately show ?thesis using add_law [of "del q"] assms(2) by simp
qed

lemma del_many:
  assumes "inv q" and "k \<le> used q"
  shows "inv ((del ^^ k) q) \<and> used ((del ^^ k) q) = used q - k \<and> cap ((del ^^ k) q) = cap q"
  using assms(2)
proof (induction k)
  case 0
  then show ?case using assms(1) by simp
next
  case (Suc k)
  then show ?case using del_law [of "(del ^^ k) q"] by simp
qed

lemma add_many:
  assumes "inv q" and "used q + k \<le> cap q"
  shows "inv ((add ^^ k) q) \<and> used ((add ^^ k) q) = used q + k \<and> cap ((add ^^ k) q) = cap q"
  using assms(2)
proof (induction k)
  case 0
  then show ?case using assms(1) by simp
next
  case (Suc k)
  then show ?case using add_law [of "(add ^^ k) q"] full_iff [of "(add ^^ k) q"] by simp
qed

end

section \<open>Rings by index\<close>

definition ring_slot :: "mhi_ring \<Rightarrow> nat \<Rightarrow> u64" where
  "ring_slot ring i = ring_base ring + of_nat i * ring_el_size ring"

definition ring_at :: "mhi_ring \<Rightarrow> nat \<Rightarrow> nat \<Rightarrow> nat \<Rightarrow> bool" where
  "ring_at ring n i j \<longleftrightarrow>
     0 < unat (ring_el_size ring) \<and> n < 2 ^ 31 \<and> i < n \<and> j < n \<and>
     ring_elements ring = of_nat n \<and> ring_len ring = ring_el_size ring * of_nat n \<and>
     unat (ring_base ring) + n * unat (ring_el_size ring) < 2 ^ 64 \<and>
     ring_rp ring = ring_slot ring i \<and> ring_wp ring = ring_slot ring j"

text \<open>The number of elements from index \<open>i\<close> up to index \<open>j\<close>, around the end of the ring.\<close>

definition ring_count :: "nat \<Rightarrow> nat \<Rightarrow> nat \<Rightarrow> nat" where
  "ring_count n i j = (if i \<le> j then j - i else j + n - i)"

definition ring_next :: "nat \<Rightarrow> nat \<Rightarrow> nat" where
  "ring_next n i = (if Suc i = n then 0 else Suc i)"

lemma ring_next_less: "i < n \<Longrightarrow> ring_next n i < n"
  by (auto simp: ring_next_def)

lemma ring_count_less: "i < n \<Longrightarrow> j < n \<Longrightarrow> ring_count n i j < n"
  by (auto simp: ring_count_def)

lemma ring_count_add:
  "i < n \<Longrightarrow> j < n \<Longrightarrow> ring_next n j \<noteq> i \<Longrightarrow> ring_count n i (ring_next n j) = Suc (ring_count n i j)"
  by (auto simp: ring_count_def ring_next_def split: if_splits)

lemma ring_count_del:
  "i < n \<Longrightarrow> j < n \<Longrightarrow> i \<noteq> j \<Longrightarrow> Suc (ring_count n (ring_next n i) j) = ring_count n i j"
  by (auto simp: ring_count_def ring_next_def split: if_splits)

lemma ring_count_0: "i < n \<Longrightarrow> j < n \<Longrightarrow> ring_count n i j = 0 \<longleftrightarrow> i = j"
  by (auto simp: ring_count_def)

lemma ring_count_full: "i < n \<Longrightarrow> j < n \<Longrightarrow> ring_next n j = i \<longleftrightarrow> ring_count n i j = n - 1"
  by (auto simp: ring_count_def ring_next_def split: if_splits)

text \<open>The address of a slot does not wrap, so addresses compare as indices.\<close>

lemma unat_slot:
  assumes "unat (ring_base ring) + n * unat (ring_el_size ring) < 2 ^ 64" and "i \<le> n"
  shows "unat (ring_slot ring i) = unat (ring_base ring) + i * unat (ring_el_size ring)"
proof -
  have le: "i * unat (ring_el_size ring) \<le> n * unat (ring_el_size ring)"
    using assms(2) by simp
  then have b: "unat (ring_base ring) + i * unat (ring_el_size ring) < 2 ^ 64"
    using assms(1) by linarith
  have "ring_slot ring i = of_nat (unat (ring_base ring) + i * unat (ring_el_size ring))"
    by (simp add: ring_slot_def)
  then show ?thesis using b by (simp only: unat_of_nat) simp
qed

lemma ring_atD:
  assumes "ring_at ring n i j"
  shows "i < n" and "j < n" and "0 < unat (ring_el_size ring)"
    and "unat (ring_base ring) + n * unat (ring_el_size ring) < 2 ^ 64"
    and "ring_rp ring = ring_slot ring i" and "ring_wp ring = ring_slot ring j"
    and "ring_base ring + ring_len ring = ring_slot ring n" and "n < 2 ^ 31"
    and "ring_elements ring = of_nat n"
  using assms by (auto simp: ring_at_def ring_slot_def mult.commute)

lemma slot_step: "ring_slot ring i + ring_el_size ring = ring_slot ring (Suc i)"
  by (simp add: ring_slot_def algebra_simps)

lemma slot_0: "ring_slot ring 0 = ring_base ring"
  by (simp add: ring_slot_def)

lemma slot_le_iff:
  assumes "ring_at ring n i j" and "a \<le> n" and "b \<le> n"
  shows "ring_slot ring a \<le> ring_slot ring b \<longleftrightarrow> a \<le> b"
  using ring_atD(3,4) [OF assms(1)] assms(2,3) by (simp add: word_le_nat_alt unat_slot)

lemma slot_eq_iff:
  assumes "ring_at ring n i j" and "a \<le> n" and "b \<le> n"
  shows "ring_slot ring a = ring_slot ring b \<longleftrightarrow> a = b"
  using slot_le_iff [OF assms] slot_le_iff [OF assms(1,3,2)] by (metis order_antisym order_refl)

lemma slot_wrap:
  assumes "ring_at ring n i j" and "a < n"
  shows "(if ring_base ring + ring_len ring \<le> ring_slot ring a + ring_el_size ring then ring_base ring
          else ring_slot ring a + ring_el_size ring) = ring_slot ring (ring_next n a)"
  using slot_le_iff [OF assms(1), of n "Suc a"] assms(2) ring_atD(7) [OF assms(1)]
  by (auto simp: slot_step slot_0 ring_next_def)

lemma ring_slot_upd [simp]:
  "ring_slot (ring\<lparr>ring_wp := v\<rparr>) k = ring_slot ring k"
  "ring_slot (ring\<lparr>ring_rp := v\<rparr>) k = ring_slot ring k"
  "ring_slot (ring\<lparr>ring_ctxt_wp := v\<rparr>) k = ring_slot ring k"
  by (simp_all add: ring_slot_def)

lemma add_ring_wp:
  assumes "ring_at ring n i j"
  shows "mhi_add_ring_element ring = ring\<lparr>ring_wp := ring_slot ring (ring_next n j)\<rparr>"
  using slot_wrap [OF assms, of j] ring_atD(2,6) [OF assms]
  by (simp add: mhi_add_ring_element_def Let_def)

lemma del_ring_rp:
  assumes "ring_at ring n i j"
  shows "mhi_del_ring_element ring = ring\<lparr>ring_rp := ring_slot ring (ring_next n i)\<rparr>"
  using slot_wrap [OF assms, of i] ring_atD(1,5) [OF assms]
  by (simp add: mhi_del_ring_element_def Let_def)

lemma add_ring_at:
  assumes "ring_at ring n i j"
  shows "ring_at (mhi_add_ring_element ring) n i (ring_next n j)"
  using assms by (simp add: add_ring_wp [OF assms]) (simp add: ring_at_def ring_next_less)

lemma del_ring_at:
  assumes "ring_at ring n i j"
  shows "ring_at (mhi_del_ring_element ring) n (ring_next n i) j"
  using assms by (simp add: del_ring_rp [OF assms]) (simp add: ring_at_def ring_next_less)

lemma ring_full_at:
  assumes "ring_at ring n i j"
  shows "mhi_is_ring_full ring \<longleftrightarrow> ring_next n j = i"
proof -
  note d = ring_atD [OF assms]
  have "mhi_is_ring_full ring \<longleftrightarrow> ring_slot ring (ring_next n j) = ring_slot ring i"
    using slot_wrap [OF assms d(2)] by (simp add: mhi_is_ring_full_def Let_def d)
  then show ?thesis
    using slot_eq_iff [OF assms, of "ring_next n j" i] ring_next_less [OF d(2)] d(1) by simp
qed

text \<open>The device sees each slot at the same offset from its own base.\<close>

lemma virtual_physical [simp]: "mhi_to_virtual ring (mhi_to_physical ring p) = p"
  by (simp add: mhi_to_virtual_def mhi_to_physical_def)

section \<open>The ring implements the queue\<close>

definition ring_index :: "mhi_ring \<Rightarrow> u64 \<Rightarrow> nat" where
  "ring_index ring p = (unat p - unat (ring_base ring)) div unat (ring_el_size ring)"

definition ring_inv :: "mhi_ring \<Rightarrow> bool" where
  "ring_inv ring \<longleftrightarrow>
     ring_at ring (unat (ring_elements ring)) (ring_index ring (ring_rp ring))
       (ring_index ring (ring_wp ring))"

definition ring_used :: "mhi_ring \<Rightarrow> nat" where
  "ring_used ring =
     ring_count (unat (ring_elements ring)) (ring_index ring (ring_rp ring))
       (ring_index ring (ring_wp ring))"

definition ring_cap :: "mhi_ring \<Rightarrow> nat" where
  "ring_cap ring = unat (ring_elements ring) - 1"

lemma ring_at_index:
  assumes "ring_at ring n i j"
  shows "unat (ring_elements ring) = n"
    and "ring_index ring (ring_rp ring) = i" and "ring_index ring (ring_wp ring) = j"
proof -
  note d = ring_atD [OF assms]
  have "n < 2 ^ 64" using d(8) by simp
  then show "unat (ring_elements ring) = n" by (simp only: d(9) unat_of_nat) simp
  show "ring_index ring (ring_rp ring) = i" "ring_index ring (ring_wp ring) = j"
    using d(1,2,3) unat_slot [OF d(4), of i] unat_slot [OF d(4), of j]
    by (simp_all add: ring_index_def d(5,6))
qed

lemma ring_inv_at: "ring_at ring n i j \<Longrightarrow> ring_inv ring"
  by (simp add: ring_inv_def ring_at_index)

lemma ring_used_at: "ring_at ring n i j \<Longrightarrow> ring_used ring = ring_count n i j"
  by (simp add: ring_used_def ring_at_index)

lemma ring_cap_at: "ring_at ring n i j \<Longrightarrow> ring_cap ring = n - 1"
  by (simp add: ring_cap_def ring_at_index)

lemmas ring_abs = ring_inv_at ring_used_at ring_cap_at

interpretation rq: bounded_queue ring_inv ring_used ring_cap mhi_add_ring_element
  mhi_del_ring_element mhi_is_ring_full
proof
  fix q assume "ring_inv q"
  then obtain n i j where r: "ring_at q n i j" by (auto simp: ring_inv_def)
  note ij = ring_atD(1,2) [OF r]
  show "ring_used q \<le> ring_cap q"
    using ring_count_less [OF ij] by (simp add: ring_abs [OF r])
  show "mhi_is_ring_full q \<longleftrightarrow> ring_used q = ring_cap q"
    using ring_count_full [OF ij] by (simp add: ring_abs [OF r] ring_full_at [OF r])
  show "ring_inv (mhi_add_ring_element q) \<and> ring_used (mhi_add_ring_element q) = ring_used q + 1 \<and>
      ring_cap (mhi_add_ring_element q) = ring_cap q" if "\<not> mhi_is_ring_full q"
    using ring_count_add [OF ij] that
    by (simp add: ring_abs [OF r] ring_abs [OF add_ring_at [OF r]] ring_full_at [OF r])
  show "ring_inv (mhi_del_ring_element q) \<and> ring_used (mhi_del_ring_element q) = ring_used q - 1 \<and>
      ring_cap (mhi_del_ring_element q) = ring_cap q" if "0 < ring_used q"
  proof -
    have "i \<noteq> j" using that ring_count_0 [OF ij] by (simp add: ring_abs [OF r])
    then show ?thesis
      using ring_count_del [OF ij] by (simp add: ring_abs [OF r] ring_abs [OF del_ring_at [OF r]])
  qed
qed

text \<open>
  The free count that clients see is what the queue has left, with none of the divisions and
  conversions wrapping.
\<close>

lemma slot_diff_div:
  assumes "ring_at ring n i j" and "a \<le> b" and "b \<le> n"
  shows "(ring_slot ring b - ring_slot ring a) div ring_el_size ring = of_nat (b - a)"
proof -
  note d = ring_atD [OF assms(1)]
  have "unat (ring_slot ring b - ring_slot ring a) = (b - a) * unat (ring_el_size ring)"
    using slot_le_iff [OF assms(1), of a b] assms(2,3)
    by (simp add: unat_sub unat_slot [OF d(4)] diff_mult_distrib)
  then have "unat ((ring_slot ring b - ring_slot ring a) div ring_el_size ring) = b - a"
    using d(3) by (simp add: unat_div)
  then show ?thesis by (metis word_of_nat_eq_iff unat_eq_nat_uint word_of_int_uint of_nat_unat ucast_id)
qed

lemma ucast_small: "m < 2 ^ 31 \<Longrightarrow> (ucast (of_nat m :: u64) :: u32) = of_nat m"
  by (simp add: unsigned_of_nat take_bit_nat_eq_self)

lemma scast_small: "m < 2 ^ 31 \<Longrightarrow> (scast (of_nat m :: u32) :: u64) = of_nat m"
proof -
  assume "m < 2 ^ 31"
  then have "sint (of_nat m :: u32) = int m"
    by (simp add: sint_uint take_bit_nat_eq_self signed_take_bit_int_eq_self unsigned_of_nat)
  then show ?thesis by (simp add: scast_eq)
qed

lemma nr_avail_at:
  assumes "ring_at ring n i j"
  shows "get_nr_avail_ring_elements ring = of_nat (n - 1 - ring_count n i j)"
proof -
  note d = ring_atD [OF assms]
  have less: "ring_wp ring < ring_rp ring \<longleftrightarrow> j < i"
    using slot_le_iff [OF assms, of i j] d(1,2) by (auto simp: d(5,6) not_le [symmetric])
  show ?thesis
  proof (cases "j < i")
    case True
    have "(ring_rp ring - ring_wp ring) div ring_el_size ring - 1 = of_nat (i - j) - 1"
      using slot_diff_div [OF assms, of j i] d(1) True by (simp only: d(5,6))
    also have "\<dots> = of_nat (i - j - 1)" using True by (simp add: of_nat_diff)
    finally have "get_nr_avail_ring_elements ring = ucast (of_nat (i - j - 1) :: u64)"
      using less True by (simp only: get_nr_avail_ring_elements_def Let_def if_True)
    moreover have "i - j - 1 = n - 1 - ring_count n i j"
      using True d(1) by (simp add: ring_count_def)
    ultimately show ?thesis using ucast_small [of "i - j - 1"] d(1,8) by simp
  next
    case False
    have a: "(ring_rp ring - ring_base ring) div ring_el_size ring = of_nat i"
      using slot_diff_div [OF assms, of 0 i] d(1) by (simp add: d(5) slot_0)
    have "(ring_base ring + ring_len ring - ring_wp ring) div ring_el_size ring - 1
        = of_nat (n - j) - 1"
      using slot_diff_div [OF assms, of j n] d(2) by (simp only: d(6,7))
    also have "\<dots> = of_nat (n - j - 1)" using d(2) by (simp add: of_nat_diff)
    finally have "get_nr_avail_ring_elements ring = ucast (of_nat i + of_nat (n - j - 1) :: u64)"
      using less False d(1,8)
      by (simp only: get_nr_avail_ring_elements_def Let_def a if_False) (simp add: ucast_small scast_small)
    then have "get_nr_avail_ring_elements ring = ucast (of_nat (i + (n - j - 1)) :: u64)"
      by (simp only: of_nat_add)
    moreover have c: "i + (n - j - 1) = n - 1 - ring_count n i j"
      using False d(1,2) by (simp add: ring_count_def)
    have "n - 1 - ring_count n i j < 2 ^ 31" using d(8) by simp
    ultimately show ?thesis by (simp only: c ucast_small)
  qed
qed

end
