(* ===== verification/MhiChan.thy ===== *)
theory MhiChan
  imports MhiPm MhiRing
begin

text \<open>
  The transfer path of the MHI host driver (\<^verbatim>\<open>mhi_main.c\<close>): queueing a buffer on a channel,
  completing the buffers that a transfer event reports, and draining a channel on reset.  A channel
  has two rings that move together, one of transfer elements for the modem and one of buffer
  records for the host.  The memory of a ring is a partial map from addresses to elements, so that
  an access beside the ring is \<open>None\<close>.  What the driver does to the outside, the calls of the
  runtime and wake functions, doorbell writes, callbacks and releases, is a log of effects.
\<close>

section \<open>Data\<close>

datatype dma_data_direction = DMA_BIDIRECTIONAL | DMA_TO_DEVICE | DMA_FROM_DEVICE | DMA_NONE

record mhi_buf_info =
  bi_p_addr :: u64
  bi_v_addr :: u64
  bi_bb_addr :: u64
  bi_wp :: u64
  bi_len :: u64
  bi_cb_buf :: u64
  bi_used :: bool
  bi_pre_mapped :: bool
  bi_dir :: dma_data_direction

record mhi_tre =
  tre_ptr :: u64
  tre_dword0 :: u32
  tre_dword1 :: u32

text \<open>The direction of a result is \<open>None\<close> where the code passes on an uninitialised field.\<close>

record mhi_result =
  res_buf_addr :: u64
  res_dir :: "dma_data_direction option"
  res_bytes_xferd :: u64
  res_transaction_status :: int

datatype mhi_effect =
    Runtime_get | Runtime_put | Wake_get bool | Wake_put bool
  | Write_db u64 | Unmap_single mhi_buf_info | Xfer_cb u32 mhi_result | Kfree u64

record mhi_controller =
  mhi_pm_state :: u32
  pending_pkts :: u32
  mhi_effects :: "mhi_effect list"

text \<open>
  \<open>ch_brstmode\<close> tells which of the two doorbell functions \<^verbatim>\<open>process_db\<close> is; \<open>ch_tres\<close> and \<open>ch_bufs\<close>
  are the memory of the two rings.
\<close>

record mhi_chan =
  ch_chan :: u32
  ch_dir :: dma_data_direction
  ch_buf_ring :: mhi_ring
  ch_tre_ring :: mhi_ring
  ch_bufs :: "u64 \<rightharpoonup> mhi_buf_info"
  ch_tres :: "u64 \<rightharpoonup> mhi_tre"
  ch_used_events :: "u32 list"
  ch_intmod :: u32
  ch_brstmode :: bool
  ch_db_mode :: bool
  ch_db_val :: u64
  ch_ch_state :: u32
  ch_pre_alloc :: bool

definition MHI_CH_STATE_ENABLED :: u32 where
  "MHI_CH_STATE_ENABLED = 1"

text \<open>The fields of an event and the words of a transfer element.\<close>

definition MHI_TRE_GET_EV_CODE :: "mhi_tre \<Rightarrow> u32" where
  "MHI_TRE_GET_EV_CODE tre = drop_bit 24 (tre_dword0 tre) AND 0xFF"

definition MHI_TRE_GET_EV_LEN :: "mhi_tre \<Rightarrow> u32" where
  "MHI_TRE_GET_EV_LEN tre = tre_dword0 tre AND 0xFFFF"

definition MHI_TRE_DATA_DWORD0 :: "u64 \<Rightarrow> u32" where
  "MHI_TRE_DATA_DWORD0 len = ucast (len AND 0xFFFF)"

definition MHI_TRE_DATA_DWORD1 :: "u32 \<Rightarrow> u32 \<Rightarrow> u32 \<Rightarrow> u32 \<Rightarrow> u32" where
  "MHI_TRE_DATA_DWORD1 bei ieot ieob chain =
     push_bit 16 2 OR push_bit 10 bei OR push_bit 9 ieot OR push_bit 8 ieob OR chain"

text \<open>The transfer flags are consecutive numbers that the code tests as bits.\<close>

definition MHI_EOB :: u32 where "MHI_EOB = 0"
definition MHI_EOT :: u32 where "MHI_EOT = 1"
definition MHI_CHAIN :: u32 where "MHI_CHAIN = 2"

definition nonzero :: "u32 \<Rightarrow> u32" where
  "nonzero w = (if w \<noteq> 0 then 1 else 0)"

section \<open>Operations\<close>

definition effects :: "mhi_effect list \<Rightarrow> mhi_controller \<Rightarrow> mhi_controller" where
  "effects es mhi_cntrl = mhi_cntrl\<lparr>mhi_effects := mhi_effects mhi_cntrl @ es\<rparr>"

text \<open>The counter of transmissions in flight, with the runtime reference it holds.\<close>

definition pending_inc :: "mhi_controller \<Rightarrow> mhi_controller" where
  "pending_inc mhi_cntrl =
    (let n = pending_pkts mhi_cntrl + 1; mhi_cntrl = mhi_cntrl\<lparr>pending_pkts := n\<rparr> in
     if n = 1 then effects [Runtime_get] mhi_cntrl else mhi_cntrl)"

definition pending_dec :: "mhi_controller \<Rightarrow> mhi_controller" where
  "pending_dec mhi_cntrl =
    (let n = pending_pkts mhi_cntrl - 1; mhi_cntrl = mhi_cntrl\<lparr>pending_pkts := n\<rparr> in
     if n = 0 then effects [Runtime_put] mhi_cntrl else mhi_cntrl)"

definition mhi_db_brstmode ::
  "u64 \<Rightarrow> mhi_controller \<Rightarrow> mhi_chan \<Rightarrow> mhi_controller \<times> mhi_chan" where
  "mhi_db_brstmode wp mhi_cntrl mhi_chan =
    (if ch_db_mode mhi_chan
     then (effects [Write_db wp] mhi_cntrl, mhi_chan\<lparr>ch_db_val := wp, ch_db_mode := False\<rparr>)
     else (mhi_cntrl, mhi_chan))"

definition mhi_db_brstmode_disable ::
  "u64 \<Rightarrow> mhi_controller \<Rightarrow> mhi_chan \<Rightarrow> mhi_controller \<times> mhi_chan" where
  "mhi_db_brstmode_disable wp mhi_cntrl mhi_chan =
    (effects [Write_db wp] mhi_cntrl, mhi_chan\<lparr>ch_db_val := wp\<rparr>)"

definition mhi_ring_chan_db :: "mhi_controller \<Rightarrow> mhi_chan \<Rightarrow> mhi_controller \<times> mhi_chan" where
  "mhi_ring_chan_db mhi_cntrl mhi_chan =
    (let ring = ch_tre_ring mhi_chan;
         db = ring_iommu_base ring + (ring_wp ring - ring_base ring);
         mhi_chan = mhi_chan\<lparr>ch_tre_ring := ring\<lparr>ring_ctxt_wp := db\<rparr>\<rparr>
     in if ch_brstmode mhi_chan then mhi_db_brstmode db mhi_cntrl mhi_chan
        else mhi_db_brstmode_disable db mhi_cntrl mhi_chan)"

text \<open>
  Mapping a buffer for the device; \<open>dma_map_single\<close> and \<open>dma_mapping_error\<close> are the kernel's.
\<close>

definition mhi_map_single_no_bb ::
  "(u64 \<Rightarrow> u64 \<Rightarrow> dma_data_direction \<Rightarrow> u64) \<Rightarrow> (u64 \<Rightarrow> bool) \<Rightarrow> mhi_buf_info \<Rightarrow> int \<times> mhi_buf_info"
where
  "mhi_map_single_no_bb dma_map_single dma_mapping_error buf_info =
    (let p_addr = dma_map_single (bi_v_addr buf_info) (bi_len buf_info) (bi_dir buf_info)
     in (if dma_mapping_error p_addr then -12 else 0, buf_info\<lparr>bi_p_addr := p_addr\<rparr>))"

text \<open>Writing the two descriptors at the write pointers, up to the mapping of the buffer.\<close>

definition put_buf_info ::
  "(mhi_buf_info \<Rightarrow> int \<times> mhi_buf_info) \<Rightarrow> u64 \<Rightarrow> u64 \<Rightarrow> u64 \<Rightarrow> mhi_chan
   \<Rightarrow> (int \<times> mhi_buf_info \<times> mhi_chan) option" where
  "put_buf_info map_single v_addr cb_buf len mhi_chan = do {
     let wp = ring_wp (ch_buf_ring mhi_chan);
     buf_info \<leftarrow> ch_bufs mhi_chan wp;
     let (ret, buf_info) = map_single (buf_info\<lparr>bi_v_addr := v_addr, bi_cb_buf := cb_buf,
       bi_wp := ring_wp (ch_tre_ring mhi_chan), bi_dir := ch_dir mhi_chan, bi_len := len\<rparr>);
     Some (ret, buf_info, mhi_chan\<lparr>ch_bufs := (ch_bufs mhi_chan)(wp \<mapsto> buf_info)\<rparr>)
   }"

definition put_tre :: "u64 \<Rightarrow> u32 \<Rightarrow> u32 \<Rightarrow> mhi_chan \<Rightarrow> mhi_chan option" where
  "put_tre ptr dword0 dword1 mhi_chan = do {
     let wp = ring_wp (ch_tre_ring mhi_chan);
     tre \<leftarrow> ch_tres mhi_chan wp;
     Some (mhi_chan\<lparr>ch_tres := (ch_tres mhi_chan)(wp \<mapsto>
       tre\<lparr>tre_ptr := ptr, tre_dword0 := dword0, tre_dword1 := dword1\<rparr>)\<rparr>)
   }"

definition add_elements :: "mhi_chan \<Rightarrow> mhi_chan" where
  "add_elements mhi_chan =
     mhi_chan\<lparr>ch_tre_ring := mhi_add_ring_element (ch_tre_ring mhi_chan),
              ch_buf_ring := mhi_add_ring_element (ch_buf_ring mhi_chan)\<rparr>"

definition del_elements :: "mhi_chan \<Rightarrow> mhi_chan" where
  "del_elements mhi_chan =
     mhi_chan\<lparr>ch_tre_ring := mhi_del_ring_element (ch_tre_ring mhi_chan),
              ch_buf_ring := mhi_del_ring_element (ch_buf_ring mhi_chan)\<rparr>"

text \<open>
  For uplink channels wake is always asserted, for downlink channels only in a low-power mode.
\<close>

definition asserts_wake :: "mhi_controller \<Rightarrow> mhi_chan \<Rightarrow> bool" where
  "asserts_wake mhi_cntrl mhi_chan \<longleftrightarrow>
     ch_dir mhi_chan = DMA_TO_DEVICE \<or>
     ch_dir mhi_chan = DMA_FROM_DEVICE \<and> mhi_pm_state mhi_cntrl \<noteq> MHI_PM PM_M0"

definition pre_queue :: "mhi_controller \<Rightarrow> mhi_chan \<Rightarrow> mhi_controller" where
  "pre_queue mhi_cntrl mhi_chan =
    (let mhi_cntrl = (if MHI_PM_IN_SUSPEND_STATE (mhi_pm_state mhi_cntrl)
                      then effects [Runtime_get, Runtime_put] mhi_cntrl else mhi_cntrl)
     in if asserts_wake mhi_cntrl mhi_chan then effects [Wake_get False] mhi_cntrl else mhi_cntrl)"

definition ring_if_awake :: "mhi_controller \<Rightarrow> mhi_chan \<Rightarrow> mhi_controller \<times> mhi_chan" where
  "ring_if_awake mhi_cntrl mhi_chan =
    (if MHI_DB_ACCESS_VALID (mhi_pm_state mhi_cntrl) then mhi_ring_chan_db mhi_cntrl mhi_chan
     else (mhi_cntrl, mhi_chan))"

definition mhi_queue_skb ::
  "(mhi_buf_info \<Rightarrow> int \<times> mhi_buf_info) \<Rightarrow> u64 \<Rightarrow> u64 \<Rightarrow> u64 \<Rightarrow> mhi_controller \<Rightarrow> mhi_chan
   \<Rightarrow> (int \<times> mhi_controller \<times> mhi_chan) option" where
  "mhi_queue_skb map_single skb skb_data len mhi_cntrl mhi_chan =
    (if mhi_is_ring_full (ch_tre_ring mhi_chan) then Some (-12, mhi_cntrl, mhi_chan)
     else if MHI_PM_IN_ERROR_STATE (mhi_pm_state mhi_cntrl) then Some (-5, mhi_cntrl, mhi_chan)
     else do {
       let assert_wake = asserts_wake mhi_cntrl mhi_chan;
       let mhi_cntrl = pre_queue mhi_cntrl mhi_chan;
       (ret, buf_info, mhi_chan) \<leftarrow> put_buf_info map_single skb_data skb len mhi_chan;
       if ret \<noteq> 0
       then Some (ret, if assert_wake then effects [Wake_put False] mhi_cntrl else mhi_cntrl, mhi_chan)
       else do {
         mhi_chan \<leftarrow> put_tre (bi_p_addr buf_info) (MHI_TRE_DATA_DWORD0 (bi_len buf_info))
           (MHI_TRE_DATA_DWORD1 1 1 0 0) mhi_chan;
         let mhi_cntrl = (if ch_dir mhi_chan = DMA_TO_DEVICE then pending_inc mhi_cntrl else mhi_cntrl);
         let mhi_chan = add_elements mhi_chan;
         let (mhi_cntrl, mhi_chan) = ring_if_awake mhi_cntrl mhi_chan;
         Some (0, if ch_dir mhi_chan = DMA_FROM_DEVICE \<and> assert_wake
                  then effects [Wake_put True] mhi_cntrl else mhi_cntrl, mhi_chan)
       }
     })"

definition mhi_gen_tre ::
  "(mhi_buf_info \<Rightarrow> int \<times> mhi_buf_info) \<Rightarrow> u64 \<Rightarrow> u64 \<Rightarrow> u64 \<Rightarrow> u32 \<Rightarrow> mhi_chan
   \<Rightarrow> (int \<times> mhi_chan) option" where
  "mhi_gen_tre map_single buf cb buf_len flags mhi_chan = do {
     (ret, buf_info, mhi_chan) \<leftarrow> put_buf_info map_single buf cb buf_len mhi_chan;
     if ret \<noteq> 0 then Some (ret, mhi_chan)
     else do {
       let eob = nonzero (flags AND MHI_EOB);
       let eot = nonzero (flags AND MHI_EOT);
       let chain = nonzero (flags AND MHI_CHAIN);
       let bei = nonzero (ch_intmod mhi_chan);
       mhi_chan \<leftarrow> put_tre (bi_p_addr buf_info) (MHI_TRE_DATA_DWORD0 buf_len)
         (MHI_TRE_DATA_DWORD1 bei eot eob chain) mhi_chan;
       Some (0, add_elements mhi_chan)
     }
   }"

definition mhi_queue_buf ::
  "(mhi_buf_info \<Rightarrow> int \<times> mhi_buf_info) \<Rightarrow> u64 \<Rightarrow> u64 \<Rightarrow> u32 \<Rightarrow> mhi_controller \<Rightarrow> mhi_chan
   \<Rightarrow> (int \<times> mhi_controller \<times> mhi_chan) option" where
  "mhi_queue_buf map_single buf len mflags mhi_cntrl mhi_chan =
    (if MHI_PM_IN_ERROR_STATE (mhi_pm_state mhi_cntrl) then Some (-5, mhi_cntrl, mhi_chan)
     else if mhi_is_ring_full (ch_tre_ring mhi_chan) then Some (-12, mhi_cntrl, mhi_chan)
     else do {
       (ret, mhi_chan) \<leftarrow> mhi_gen_tre map_single buf buf len mflags mhi_chan;
       if ret \<noteq> 0 then Some (ret, mhi_cntrl, mhi_chan)
       else do {
         let assert_wake = asserts_wake mhi_cntrl mhi_chan;
         let mhi_cntrl = pre_queue mhi_cntrl mhi_chan;
         let mhi_cntrl = (if ch_dir mhi_chan = DMA_TO_DEVICE then pending_inc mhi_cntrl else mhi_cntrl);
         let (mhi_cntrl, mhi_chan) = ring_if_awake mhi_cntrl mhi_chan;
         Some (0, if ch_dir mhi_chan = DMA_FROM_DEVICE \<and> assert_wake
                  then effects [Wake_put True] mhi_cntrl else mhi_cntrl, mhi_chan)
       }
     })"

text \<open>One round of the completion loop, for the buffer at the read pointer.\<close>

definition xfer_round ::
  "(mhi_buf_info \<Rightarrow> int \<times> mhi_buf_info) \<Rightarrow> mhi_tre \<Rightarrow> int \<Rightarrow> mhi_controller \<times> mhi_chan
   \<Rightarrow> (mhi_controller \<times> mhi_chan) option" where
  "xfer_round map_single event status = (\<lambda>(mhi_cntrl, mhi_chan). do {
     let slot = ring_rp (ch_buf_ring mhi_chan);
     buf_info \<leftarrow> ch_bufs mhi_chan slot;
     let mhi_cntrl = (if bi_pre_mapped buf_info then mhi_cntrl
                      else effects [Unmap_single buf_info] mhi_cntrl);
     let result = \<lparr>res_buf_addr = bi_cb_buf buf_info, res_dir = Some (ch_dir mhi_chan),
       res_bytes_xferd = ucast (ucast (MHI_TRE_GET_EV_LEN event) :: u16),
       res_transaction_status = status\<rparr>;
     let mhi_chan = del_elements mhi_chan;
     let mhi_cntrl = effects [Xfer_cb (ch_chan mhi_chan) result] mhi_cntrl;
     let mhi_cntrl = (if ch_dir mhi_chan = DMA_TO_DEVICE
                      then effects [Wake_put False] (pending_dec mhi_cntrl) else mhi_cntrl);
     if ch_pre_alloc mhi_chan
     then do {
       (ret, mhi_cntrl, mhi_chan) \<leftarrow> mhi_queue_buf map_single (bi_cb_buf buf_info)
         (bi_len buf_info) MHI_EOT mhi_cntrl mhi_chan;
       if ret \<noteq> 0
       then do {
         buf_info \<leftarrow> ch_bufs mhi_chan slot;
         Some (effects [Kfree (bi_cb_buf buf_info)] mhi_cntrl, mhi_chan)
       }
       else Some (mhi_cntrl, mhi_chan)
     }
     else Some (mhi_cntrl, mhi_chan)
   })"

text \<open>The loop compares the read pointer with \<open>dev_rp\<close> only, so it need not end.\<close>

partial_function (option) xfer_loop ::
  "(mhi_buf_info \<Rightarrow> int \<times> mhi_buf_info) \<Rightarrow> mhi_tre \<Rightarrow> int \<Rightarrow> u64 \<Rightarrow> mhi_controller \<times> mhi_chan
   \<Rightarrow> (mhi_controller \<times> mhi_chan) option" where
  "xfer_loop map_single event status dev_rp st =
    (if ring_rp (ch_tre_ring (snd st)) = dev_rp then Some st
     else Option.bind (xfer_round map_single event status st)
            (xfer_loop map_single event status dev_rp))"

declare xfer_loop.simps [code]

text \<open>The slot behind the element that an event points to: where the device reads next.\<close>

definition event_dev_rp :: "mhi_tre \<Rightarrow> mhi_ring \<Rightarrow> u64" where
  "event_dev_rp event tre_ring =
    (let dev_rp = mhi_to_virtual tre_ring (tre_ptr event) + 16 in
     if ring_base tre_ring + ring_len tre_ring \<le> dev_rp then ring_base tre_ring else dev_rp)"

definition count_event :: "u32 \<Rightarrow> mhi_chan \<Rightarrow> mhi_chan" where
  "count_event ev_code mhi_chan =
     mhi_chan\<lparr>ch_used_events :=
       (ch_used_events mhi_chan)[unat ev_code := ch_used_events mhi_chan ! unat ev_code + 1]\<rparr>"

definition parse_xfer_event ::
  "(mhi_buf_info \<Rightarrow> int \<times> mhi_buf_info) \<Rightarrow> mhi_tre \<Rightarrow> mhi_controller \<Rightarrow> mhi_chan
   \<Rightarrow> (mhi_controller \<times> mhi_chan) option" where
  "parse_xfer_event map_single event mhi_cntrl mhi_chan =
    (let ev_code = MHI_TRE_GET_EV_CODE event;
         status = (if ev_code = 3 then -75 else 0)
     in if ch_ch_state mhi_chan \<noteq> MHI_CH_STATE_ENABLED then Some (mhi_cntrl, mhi_chan)
        else if ev_code \<in> {2, 3, 4}
        then xfer_loop map_single event status (event_dev_rp event (ch_tre_ring mhi_chan))
               (mhi_cntrl, count_event ev_code mhi_chan)
        else if ev_code \<in> {5, 6}
        then (let mhi_chan = (count_event ev_code mhi_chan)\<lparr>ch_db_mode := True\<rparr>;
                  tre_ring = ch_tre_ring mhi_chan
              in if ring_wp tre_ring \<noteq> ring_rp tre_ring
                 then Some (ring_if_awake mhi_cntrl mhi_chan)
                 else Some (mhi_cntrl, mhi_chan))
        else Some (mhi_cntrl, mhi_chan))"

text \<open>Draining a channel: every outstanding buffer goes back to the client with \<^verbatim>\<open>-ENOTCONN\<close>.\<close>

definition reset_round :: "mhi_controller \<times> mhi_chan \<Rightarrow> (mhi_controller \<times> mhi_chan) option" where
  "reset_round = (\<lambda>(mhi_cntrl, mhi_chan). do {
     let slot = ring_rp (ch_buf_ring mhi_chan);
     buf_info \<leftarrow> ch_bufs mhi_chan slot;
     let mhi_cntrl = (if ch_dir mhi_chan = DMA_TO_DEVICE
                      then effects [Wake_put False] (pending_dec mhi_cntrl) else mhi_cntrl);
     let mhi_cntrl = (if bi_pre_mapped buf_info then mhi_cntrl
                      else effects [Unmap_single buf_info] mhi_cntrl);
     let mhi_chan = del_elements mhi_chan;
     Some (if ch_pre_alloc mhi_chan then effects [Kfree (bi_cb_buf buf_info)] mhi_cntrl
           else effects [Xfer_cb (ch_chan mhi_chan) \<lparr>res_buf_addr = bi_cb_buf buf_info, res_dir = None,
             res_bytes_xferd = 0, res_transaction_status = -107\<rparr>] mhi_cntrl, mhi_chan)
   })"

partial_function (option) mhi_reset_data_chan ::
  "mhi_controller \<times> mhi_chan \<Rightarrow> (mhi_controller \<times> mhi_chan) option" where
  "mhi_reset_data_chan st =
    (if ring_rp (ch_tre_ring (snd st)) = ring_wp (ch_tre_ring (snd st)) then Some st
     else Option.bind (reset_round st) mhi_reset_data_chan)"

declare mhi_reset_data_chan.simps [code]

section \<open>Well-formed channels\<close>

text \<open>The indices of \<open>c\<close> elements from \<open>i\<close> on, around the end of the ring.\<close>

fun ring_walk :: "nat \<Rightarrow> nat \<Rightarrow> nat \<Rightarrow> nat list" where
  "ring_walk n i 0 = []"
| "ring_walk n i (Suc c) = i # ring_walk n (ring_next n i) c"

definition chan_n :: "mhi_chan \<Rightarrow> nat" where
  "chan_n mhi_chan = unat (ring_elements (ch_tre_ring mhi_chan))"

definition chan_rp :: "mhi_chan \<Rightarrow> nat" where
  "chan_rp mhi_chan = ring_index (ch_tre_ring mhi_chan) (ring_rp (ch_tre_ring mhi_chan))"

definition chan_wp :: "mhi_chan \<Rightarrow> nat" where
  "chan_wp mhi_chan = ring_index (ch_tre_ring mhi_chan) (ring_wp (ch_tre_ring mhi_chan))"

definition chan_used :: "mhi_chan \<Rightarrow> nat" where
  "chan_used mhi_chan = ring_used (ch_tre_ring mhi_chan)"

definition buf_at :: "mhi_chan \<Rightarrow> nat \<Rightarrow> mhi_buf_info option" where
  "buf_at mhi_chan k = ch_bufs mhi_chan (ring_slot (ch_buf_ring mhi_chan) k)"

text \<open>The buffers that are queued and not yet completed, the oldest first.\<close>

definition outstanding :: "mhi_chan \<Rightarrow> mhi_buf_info list" where
  "outstanding mhi_chan =
     map (\<lambda>k. the (buf_at mhi_chan k)) (ring_walk (chan_n mhi_chan) (chan_rp mhi_chan) (chan_used mhi_chan))"

text \<open>Both rings lie in their memory and stand at the same indices.\<close>

definition chan_rings :: "mhi_chan \<Rightarrow> nat \<Rightarrow> nat \<Rightarrow> nat \<Rightarrow> bool" where
  "chan_rings mhi_chan n i j \<longleftrightarrow>
     ring_at (ch_tre_ring mhi_chan) n i j \<and> ring_at (ch_buf_ring mhi_chan) n i j \<and>
     ring_el_size (ch_tre_ring mhi_chan) = 16 \<and> length (ch_used_events mhi_chan) = 7 \<and>
     (\<forall>k \<in> set [0..<n]. ch_tres mhi_chan (ring_slot (ch_tre_ring mhi_chan) k) \<noteq> None \<and>
       buf_at mhi_chan k \<noteq> None)"

text \<open>In addition every outstanding buffer names its own transfer element.\<close>

definition chan_ok :: "mhi_chan \<Rightarrow> bool" where
  "chan_ok mhi_chan \<longleftrightarrow>
     chan_rings mhi_chan (chan_n mhi_chan) (chan_rp mhi_chan) (chan_wp mhi_chan) \<and>
     map bi_wp (outstanding mhi_chan) =
       map (ring_slot (ch_tre_ring mhi_chan))
         (ring_walk (chan_n mhi_chan) (chan_rp mhi_chan) (chan_used mhi_chan))"

section \<open>Walking the ring\<close>

lemma length_ring_walk [simp]: "length (ring_walk n i c) = c"
  by (induction c arbitrary: i) auto

lemma ring_walk_nth: "k < c \<Longrightarrow> ring_walk n i c ! k = (ring_next n ^^ k) i"
proof (induction c arbitrary: i k)
  case (Suc c)
  then show ?case by (cases k) (auto simp: funpow_swap1)
qed simp

lemma ring_walk_snoc: "ring_walk n i (Suc c) = ring_walk n i c @ [(ring_next n ^^ c) i]"
proof (induction c arbitrary: i)
  case (Suc c)
  show ?case using Suc [of "ring_next n i"] by (simp add: funpow_swap1)
qed simp

lemma ring_next_pow_less: "i < n \<Longrightarrow> (ring_next n ^^ k) i < n"
  by (induction k) (auto simp: ring_next_less)

lemma ring_next_pow_count: "i < n \<Longrightarrow> j < n \<Longrightarrow> (ring_next n ^^ ring_count n i j) i = j"
proof (induction "ring_count n i j" arbitrary: i)
  case 0
  then show ?case using ring_count_0 [of i n j] by simp
next
  case (Suc c)
  then have ne: "i \<noteq> j" by (auto simp: ring_count_def)
  then have c: "c = ring_count n (ring_next n i) j"
    using ring_count_del [of i n j] Suc.prems Suc.hyps(2) by simp
  have "(ring_next n ^^ c) (ring_next n i) = j"
    using Suc.hyps(1) [OF c] ring_next_less [OF Suc.prems(1)] Suc.prems(2) c by simp
  then show ?case unfolding Suc.hyps(2) [symmetric] by (simp add: funpow_swap1)
qed

lemma ring_walk_wp: "i < n \<Longrightarrow> j < n \<Longrightarrow> j \<notin> set (ring_walk n i (ring_count n i j))"
proof (induction "ring_count n i j" arbitrary: i)
  case 0
  then have "ring_count n i j = 0" by simp
  then show ?case by simp
next
  case (Suc c)
  then have ne: "i \<noteq> j" by (auto simp: ring_count_def)
  then have c: "c = ring_count n (ring_next n i) j"
    using ring_count_del [of i n j] Suc.prems Suc.hyps(2) by simp
  have "ring_walk n i (ring_count n i j) = i # ring_walk n (ring_next n i) c"
    by (simp add: Suc.hyps(2) [symmetric])
  then show ?case
    using Suc.hyps(1) [OF c] ring_next_less [OF Suc.prems(1)] Suc.prems(2) ne c by simp
qed

lemma ring_walk_less: "i < n \<Longrightarrow> k \<in> set (ring_walk n i c) \<Longrightarrow> k < n"
proof (induction c arbitrary: i)
  case (Suc c)
  then show ?case using Suc.IH [of "ring_next n i"] ring_next_less [of i n] by auto
qed simp

lemma ring_next_pow:
  "i < n \<Longrightarrow> k \<le> n \<Longrightarrow> (ring_next n ^^ k) i = (if i + k < n then i + k else i + k - n)"
  by (induction k) (auto simp: ring_next_def)

section \<open>Channels by index\<close>

lemma chan_ringsD:
  assumes "chan_rings mhi_chan n i j"
  shows "ring_at (ch_tre_ring mhi_chan) n i j" and "ring_at (ch_buf_ring mhi_chan) n i j"
    and "ring_el_size (ch_tre_ring mhi_chan) = 16" and "i < n" and "j < n"
    and "k < n \<Longrightarrow> \<exists>t. ch_tres mhi_chan (ring_slot (ch_tre_ring mhi_chan) k) = Some t"
    and "k < n \<Longrightarrow> \<exists>b. buf_at mhi_chan k = Some b"
  using assms by (auto simp: chan_rings_def ring_at_def)

lemma chan_rings_index:
  assumes "chan_rings mhi_chan n i j"
  shows "chan_n mhi_chan = n" and "chan_rp mhi_chan = i" and "chan_wp mhi_chan = j"
    and "chan_used mhi_chan = ring_count n i j"
  using ring_at_index [OF chan_ringsD(1) [OF assms]] ring_used_at [OF chan_ringsD(1) [OF assms]]
  by (simp_all add: chan_n_def chan_rp_def chan_wp_def chan_used_def)

lemma outstanding_rings:
  assumes "chan_rings mhi_chan n i j"
  shows "outstanding mhi_chan = map (\<lambda>k. the (buf_at mhi_chan k)) (ring_walk n i (ring_count n i j))"
  by (simp add: outstanding_def chan_rings_index [OF assms])

lemma chan_ok_rings:
  assumes "chan_rings mhi_chan n i j"
  shows "chan_ok mhi_chan \<longleftrightarrow>
    map bi_wp (outstanding mhi_chan) =
      map (ring_slot (ch_tre_ring mhi_chan)) (ring_walk n i (ring_count n i j))"
  using assms by (simp add: chan_ok_def chan_rings_index [OF assms])

lemma chan_okE:
  assumes "chan_ok mhi_chan"
  obtains n i j where "chan_rings mhi_chan n i j"
  using assms by (auto simp: chan_ok_def)

lemma length_outstanding [simp]: "length (outstanding mhi_chan) = chan_used mhi_chan"
  by (simp add: outstanding_def)

text \<open>Removing the element at the read pointers drops the oldest buffer.\<close>

lemma del_elements_rings:
  assumes "chan_rings mhi_chan n i j"
  shows "chan_rings (del_elements mhi_chan) n (ring_next n i) j"
    and "buf_at (del_elements mhi_chan) k = buf_at mhi_chan k"
    and "ring_slot (ch_tre_ring (del_elements mhi_chan)) k = ring_slot (ch_tre_ring mhi_chan) k"
proof -
  note r = chan_ringsD(1,2) [OF assms]
  note at = del_ring_at [OF r(1)] del_ring_at [OF r(2)]
  note eq = del_ring_rp [OF r(1)] del_ring_rp [OF r(2)]
  show "buf_at (del_elements mhi_chan) k = buf_at mhi_chan k"
    and "ring_slot (ch_tre_ring (del_elements mhi_chan)) k = ring_slot (ch_tre_ring mhi_chan) k"
    by (simp_all add: buf_at_def del_elements_def eq)
  show "chan_rings (del_elements mhi_chan) n (ring_next n i) j"
    using assms at by (simp add: chan_rings_def buf_at_def del_elements_def eq)
qed

lemma outstanding_Cons:
  assumes "chan_rings mhi_chan n i j" and "i \<noteq> j"
  shows "outstanding mhi_chan = the (buf_at mhi_chan i) # outstanding (del_elements mhi_chan)"
    and "chan_used mhi_chan = Suc (chan_used (del_elements mhi_chan))"
proof -
  note d = del_elements_rings [OF assms(1)]
  have c: "ring_count n i j = Suc (ring_count n (ring_next n i) j)"
    using ring_count_del chan_ringsD(4,5) [OF assms(1)] assms(2) by simp
  show "outstanding mhi_chan = the (buf_at mhi_chan i) # outstanding (del_elements mhi_chan)"
    by (simp add: outstanding_rings [OF assms(1)] outstanding_rings [OF d(1)] c d(2))
  show "chan_used mhi_chan = Suc (chan_used (del_elements mhi_chan))"
    by (simp add: chan_rings_index [OF assms(1)] chan_rings_index [OF d(1)] c)
qed

lemma del_elements_ok:
  assumes "chan_ok mhi_chan" and "chan_rings mhi_chan n i j" and "i \<noteq> j"
  shows "chan_ok (del_elements mhi_chan)"
proof -
  note d = del_elements_rings [OF assms(2)]
  have c: "ring_count n i j = Suc (ring_count n (ring_next n i) j)"
    using ring_count_del chan_ringsD(4,5) [OF assms(2)] assms(3) by simp
  have "map bi_wp (outstanding mhi_chan) =
      map (ring_slot (ch_tre_ring mhi_chan)) (ring_walk n i (ring_count n i j))"
    using assms(1) by (simp add: chan_ok_rings [OF assms(2)])
  then show ?thesis
    by (simp add: chan_ok_rings [OF d(1)] d(3) c outstanding_Cons(1) [OF assms(2,3)])
qed

section \<open>Effects\<close>

fun callbacks :: "u32 \<Rightarrow> mhi_effect list \<Rightarrow> mhi_result list" where
  "callbacks chan [] = []"
| "callbacks chan (Xfer_cb x r # es) =
     (if x = chan then r # callbacks chan es else callbacks chan es)"
| "callbacks chan (_ # es) = callbacks chan es"

text \<open>What the client of a channel has been told, and the runtime references the driver holds.\<close>

definition notified :: "u32 \<Rightarrow> mhi_controller \<Rightarrow> mhi_result list" where
  "notified chan mhi_cntrl = callbacks chan (mhi_effects mhi_cntrl)"

fun runtime_refs :: "mhi_effect list \<Rightarrow> int" where
  "runtime_refs [] = 0"
| "runtime_refs (Runtime_get # es) = runtime_refs es + 1"
| "runtime_refs (Runtime_put # es) = runtime_refs es - 1"
| "runtime_refs (_ # es) = runtime_refs es"

lemma callbacks_append [simp]: "callbacks x (es @ fs) = callbacks x es @ callbacks x fs"
  by (induction x es rule: callbacks.induct) auto

lemma runtime_refs_append [simp]: "runtime_refs (es @ fs) = runtime_refs es + runtime_refs fs"
  by (induction es rule: runtime_refs.induct) auto

lemma notified_effects [simp]: "notified x (effects es c) = notified x c @ callbacks x es"
  by (simp add: notified_def effects_def)

lemma notified_pending [simp]:
  "notified x (pending_inc c) = notified x c" "notified x (pending_dec c) = notified x c"
  by (simp_all add: pending_inc_def pending_dec_def Let_def)
     (simp_all add: notified_def)

text \<open>
  The accounts are in order for \<open>m\<close> transmissions in flight: the counter says \<open>m\<close>, and one runtime
  reference is held exactly if there are any.
\<close>

definition accounts :: "mhi_controller \<Rightarrow> nat \<Rightarrow> bool" where
  "accounts c m \<longleftrightarrow>
     pending_pkts c = of_nat m \<and> m < 2 ^ 32 \<and>
     runtime_refs (mhi_effects c) = (if m = 0 then 0 else 1)"

lemma accounts_effects [simp]: "runtime_refs es = 0 \<Longrightarrow> accounts (effects es c) m = accounts c m"
  by (simp add: accounts_def effects_def)

lemma accounts_pm [simp]: "accounts (c\<lparr>mhi_pm_state := s\<rparr>) m = accounts c m"
  by (simp add: accounts_def)

lemma of_nat_u32_zero: "m < 2 ^ 32 \<Longrightarrow> (of_nat m :: u32) = 0 \<longleftrightarrow> m = 0"
  by (simp add: word_unat_eq_iff unat_of_nat)

lemma pending_inc_accounts:
  assumes "accounts c m" and "Suc m < 2 ^ 32"
  shows "accounts (pending_inc c) (Suc m)"
proof -
  have "(1 + of_nat m :: u32) = 1 \<longleftrightarrow> m = 0" using of_nat_u32_zero [of m] assms(2) by simp
  then show ?thesis
    using assms by (auto simp: accounts_def pending_inc_def Let_def effects_def add.commute)
qed

lemma pending_dec_accounts:
  assumes "accounts c (Suc m)"
  shows "accounts (pending_dec c) m"
proof -
  have "(of_nat m :: u32) = 0 \<longleftrightarrow> m = 0"
    using of_nat_u32_zero [of m] assms by (simp add: accounts_def)
  then show ?thesis
    using assms by (auto simp: accounts_def pending_dec_def Let_def effects_def)
qed

section \<open>Completion\<close>

definition ul_used :: "mhi_chan \<Rightarrow> nat" where
  "ul_used mhi_chan = (if ch_dir mhi_chan = DMA_TO_DEVICE then chan_used mhi_chan else 0)"

text \<open>What the client is told of a buffer that a transfer event completes.\<close>

definition xfer_result :: "mhi_tre \<Rightarrow> dma_data_direction \<Rightarrow> mhi_buf_info \<Rightarrow> mhi_result" where
  "xfer_result event dir buf_info =
     \<lparr>res_buf_addr = bi_cb_buf buf_info, res_dir = Some dir,
      res_bytes_xferd = ucast (tre_dword0 event AND 0xFFFF),
      res_transaction_status = (if drop_bit 24 (tre_dword0 event) AND 0xFF = 3 then -75 else 0)\<rparr>"

definition event_status :: "mhi_tre \<Rightarrow> int" where
  "event_status event = (if MHI_TRE_GET_EV_CODE event = 3 then -75 else 0)"

lemma xfer_len_16: "(ucast (ucast (w AND 0xFFFF :: u32) :: u16) :: u64) = ucast (w AND 0xFFFF)"
proof -
  have m: "(0xFFFF :: u32) = mask 16" by (simp add: mask_eq_exp_minus_1)
  show ?thesis unfolding m by (rule bit_word_eqI) (auto simp: bit_simps)
qed

definition round_cntrl ::
  "mhi_tre \<Rightarrow> u32 \<Rightarrow> dma_data_direction \<Rightarrow> mhi_buf_info \<Rightarrow> mhi_controller \<Rightarrow> mhi_controller" where
  "round_cntrl event chan dir b c =
    (let c = effects [Xfer_cb chan (xfer_result event dir b)]
               (if bi_pre_mapped b then c else effects [Unmap_single b] c)
     in if dir = DMA_TO_DEVICE then effects [Wake_put False] (pending_dec c) else c)"

lemma del_elements_same [simp]:
  "ch_dir (del_elements ch) = ch_dir ch" "ch_pre_alloc (del_elements ch) = ch_pre_alloc ch"
  "ch_ch_state (del_elements ch) = ch_ch_state ch" "ch_chan (del_elements ch) = ch_chan ch"
  by (simp_all add: del_elements_def)

lemma xfer_round_eq:
  assumes "chan_rings ch n i j" and "\<not> ch_pre_alloc ch"
  shows "xfer_round map_single event (event_status event) (c, ch) =
    Some (round_cntrl event (ch_chan ch) (ch_dir ch) (the (buf_at ch i)) c, del_elements ch)"
proof -
  have rp: "ring_rp (ch_buf_ring ch) = ring_slot (ch_buf_ring ch) i"
    using ring_atD(5) [OF chan_ringsD(2) [OF assms(1)]] .
  obtain b where b: "buf_at ch i = Some b"
    using chan_ringsD(4) [OF assms(1)] chan_ringsD(7) [OF assms(1)] by blast
  then have "ch_bufs ch (ring_rp (ch_buf_ring ch)) = Some b" by (simp add: buf_at_def rp)
  then show ?thesis
    using assms(2)
    by (simp add: xfer_round_def round_cntrl_def xfer_result_def event_status_def b Let_def
        MHI_TRE_GET_EV_LEN_def MHI_TRE_GET_EV_CODE_def xfer_len_16)
qed

lemma round_cntrl_notified:
  "notified x (round_cntrl event chan dir b c) =
     notified x c @ (if x = chan then [xfer_result event dir b] else [])"
  by (simp add: round_cntrl_def Let_def)

lemma round_cntrl_accounts:
  assumes "accounts c (if dir = DMA_TO_DEVICE then Suc m else m)"
  shows "accounts (round_cntrl event chan dir b c) m"
  using assms by (auto simp: round_cntrl_def Let_def intro!: pending_dec_accounts)

lemma xfer_loop_run:
  assumes "chan_rings ch n i j" and "\<not> ch_pre_alloc ch" and "m \<le> ring_count n i j"
    and "dev_rp = ring_slot (ch_tre_ring ch) ((ring_next n ^^ m) i)"
  shows "\<exists>c'. xfer_loop map_single event (event_status event) dev_rp (c, ch) =
      Some (c', (del_elements ^^ m) ch) \<and>
      (\<forall>x. notified x c' = notified x c @ (if x = ch_chan ch
         then map (xfer_result event (ch_dir ch)) (take m (outstanding ch)) else [])) \<and>
      (\<forall>q. accounts c (q + ul_used ch) \<longrightarrow> accounts c' (q + ul_used ((del_elements ^^ m) ch)))"
  using assms
proof (induction m arbitrary: c ch i)
  case 0
  then have "ring_rp (ch_tre_ring ch) = dev_rp"
    using ring_atD(5) [OF chan_ringsD(1) [OF 0(1)]] by simp
  then show ?case by (simp add: xfer_loop.simps)
next
  case (Suc m)
  note r = Suc.prems(1) and d = del_elements_rings [OF Suc.prems(1)]
  note ij = chan_ringsD(4,5) [OF r]
  have ne: "i \<noteq> j" using Suc.prems(3) by (auto simp: ring_count_def)
  have cnt: "ring_count n i j = Suc (ring_count n (ring_next n i) j)"
    using ring_count_del [OF ij ne] by simp
  have lt: "ring_count n i j < n" using ring_count_less [OF ij] .
  have "(ring_next n ^^ Suc m) i \<noteq> i"
    using ring_next_pow [OF ij(1), of "Suc m"] Suc.prems(3) lt by (auto split: if_splits)
  then have go: "ring_rp (ch_tre_ring ch) \<noteq> dev_rp"
    using slot_eq_iff [OF chan_ringsD(1) [OF r], of "(ring_next n ^^ Suc m) i" i]
      ring_next_pow_less [OF ij(1), of "Suc m"] ij(1) ring_atD(5) [OF chan_ringsD(1) [OF r]]
      Suc.prems(4) by simp
  define c1 where "c1 = round_cntrl event (ch_chan ch) (ch_dir ch) (the (buf_at ch i)) c"
  have step: "xfer_loop map_single event (event_status event) dev_rp (c, ch) =
      xfer_loop map_single event (event_status event) dev_rp (c1, del_elements ch)"
    using go xfer_round_eq [OF r Suc.prems(2)] by (subst xfer_loop.simps) (simp add: c1_def)
  obtain c' where c':
    "xfer_loop map_single event (event_status event) dev_rp (c1, del_elements ch) =
       Some (c', (del_elements ^^ m) (del_elements ch))"
    "\<And>x. notified x c' = notified x c1 @ (if x = ch_chan ch
       then map (xfer_result event (ch_dir ch)) (take m (outstanding (del_elements ch))) else [])"
    "\<And>q. accounts c1 (q + ul_used (del_elements ch)) \<Longrightarrow>
       accounts c' (q + ul_used ((del_elements ^^ m) (del_elements ch)))"
    using Suc.IH [OF d(1), of c1] Suc.prems(2,3,4) cnt d(3) by (auto simp: funpow_swap1)
  have acc: "accounts c (q + ul_used ch) \<Longrightarrow> accounts c1 (q + ul_used (del_elements ch))" for q
    unfolding c1_def
    by (rule round_cntrl_accounts) (auto simp: ul_used_def outstanding_Cons(2) [OF r ne])
  show ?case
    using c' acc outstanding_Cons(1) [OF r ne] step
    by (auto simp: funpow_swap1 c1_def round_cntrl_notified)
qed

lemma del_many_rings:
  assumes "chan_ok ch" and "m \<le> chan_used ch"
  shows "chan_ok ((del_elements ^^ m) ch) \<and> outstanding ((del_elements ^^ m) ch) = drop m (outstanding ch)"
  using assms
proof (induction m arbitrary: ch)
  case (Suc m)
  obtain n i j where r: "chan_rings ch n i j" using Suc.prems(1) by (rule chan_okE)
  have ne: "i \<noteq> j" using Suc.prems(2) by (auto simp: chan_rings_index [OF r] ring_count_def)
  show ?case
    using Suc.IH [OF del_elements_ok [OF Suc.prems(1) r ne]] Suc.prems(2)
      outstanding_Cons [OF r ne] by (simp add: funpow_swap1)
qed simp

end
