(* ===== verification/MhiProps.thy ===== *)
theory MhiProps
  imports MhiChan
begin

text \<open>
  What the transfer path of the MHI host driver guarantees: completion hands back the oldest
  buffers in order, an event that points beside the ring never stops being processed, draining a
  channel returns every buffer, and the count of transmissions in flight and the runtime reference
  it holds agree with the rings over every interleaving of the operations.
\<close>

section \<open>Fields that do not matter to the rings\<close>

text \<open>Two channels whose rings stand alike and hold the same buffers.\<close>

definition same_rings :: "mhi_chan \<Rightarrow> mhi_chan \<Rightarrow> bool" where
  "same_rings a b \<longleftrightarrow>
     (\<exists>w. ch_tre_ring b = (ch_tre_ring a)\<lparr>ring_ctxt_wp := w\<rparr>) \<and> ch_buf_ring b = ch_buf_ring a \<and>
     ch_bufs b = ch_bufs a \<and> ch_tres b = ch_tres a \<and>
     length (ch_used_events b) = length (ch_used_events a) \<and>
     ch_chan b = ch_chan a \<and> ch_dir b = ch_dir a \<and> ch_pre_alloc b = ch_pre_alloc a"

lemma ring_at_ctxt [simp]: "ring_at (r\<lparr>ring_ctxt_wp := w\<rparr>) n i j = ring_at r n i j"
  by (simp add: ring_at_def)

lemma ring_index_ctxt [simp]: "ring_index (r\<lparr>ring_ctxt_wp := w\<rparr>) p = ring_index r p"
  by (simp add: ring_index_def)

lemma ring_used_ctxt [simp]: "ring_used (r\<lparr>ring_ctxt_wp := w\<rparr>) = ring_used r"
  by (simp add: ring_used_def)

lemma ring_ctxt_same: "\<exists>w. r = r\<lparr>ring_ctxt_wp := w\<rparr>"
  by (rule exI [of _ "ring_ctxt_wp r"]) simp

lemma same_ringsD:
  assumes "same_rings a b"
  shows "chan_rings b n i j = chan_rings a n i j" and "chan_used b = chan_used a"
    and "outstanding b = outstanding a" and "chan_ok b = chan_ok a" and "ul_used b = ul_used a"
    and "chan_n b = chan_n a" and "ch_pre_alloc b = ch_pre_alloc a" and "ch_dir b = ch_dir a"
    and "ch_chan b = ch_chan a"
proof -
  obtain w where w: "ch_tre_ring b = (ch_tre_ring a)\<lparr>ring_ctxt_wp := w\<rparr>"
    using assms by (auto simp: same_rings_def)
  have buf: "buf_at b = buf_at a" using assms by (auto simp: same_rings_def buf_at_def)
  have ix: "chan_n b = chan_n a" "chan_rp b = chan_rp a" "chan_wp b = chan_wp a"
    by (simp_all add: chan_n_def chan_rp_def chan_wp_def w)
  show rings: "chan_rings b n i j = chan_rings a n i j" for n i j
    using assms by (simp add: chan_rings_def buf w) (simp add: same_rings_def)
  show u: "chan_used b = chan_used a" by (simp add: chan_used_def w)
  show out: "outstanding b = outstanding a" by (simp add: outstanding_def buf ix u)
  have "ring_slot (ch_tre_ring b) = ring_slot (ch_tre_ring a)" by (auto simp: w)
  then show "chan_ok b = chan_ok a" by (simp add: chan_ok_def rings ix out u)
  show "ul_used b = ul_used a" "ch_pre_alloc b = ch_pre_alloc a" "ch_dir b = ch_dir a"
    "ch_chan b = ch_chan a"
    using assms u by (simp_all add: ul_used_def same_rings_def)
  show "chan_n b = chan_n a" by (rule ix)
qed

lemma same_rings_count: "same_rings ch (count_event code ch)"
  by (simp add: same_rings_def count_event_def ring_ctxt_same)

lemma same_rings_db_mode: "same_rings a b \<Longrightarrow> same_rings a (b\<lparr>ch_db_mode := m\<rparr>)"
  by (simp add: same_rings_def)

lemma ring_chan_db_same: "same_rings ch (snd (mhi_ring_chan_db c ch))"
  by (auto simp: same_rings_def mhi_ring_chan_db_def mhi_db_brstmode_def
      mhi_db_brstmode_disable_def Let_def)

lemma same_rings_trans: "same_rings a b \<Longrightarrow> same_rings b d \<Longrightarrow> same_rings a d"
  by (auto simp: same_rings_def)

lemma ring_chan_db_cntrl:
  "notified x (fst (mhi_ring_chan_db c ch)) = notified x c"
  "accounts (fst (mhi_ring_chan_db c ch)) m = accounts c m"
  by (simp_all add: mhi_ring_chan_db_def mhi_db_brstmode_def mhi_db_brstmode_disable_def Let_def)

section \<open>Transfer events\<close>

text \<open>The element an event points to, and where the device goes on reading.\<close>

lemma event_dev_rp_slot:
  assumes "chan_rings ch n i j" and "k < n"
    and "tre_ptr event = mhi_to_physical (ch_tre_ring ch) (ring_slot (ch_tre_ring ch) k)"
  shows "event_dev_rp event (ch_tre_ring ch) = ring_slot (ch_tre_ring ch) (ring_next n k)"
  using slot_wrap [OF chan_ringsD(1) [OF assms(1)] assms(2), unfolded chan_ringsD(3) [OF assms(1)]]
  by (simp add: event_dev_rp_def assms(3) Let_def)

lemma outstanding_slot:
  assumes "chan_ok ch" and "chan_rings ch n i j" and "k < chan_used ch"
  shows "bi_wp (outstanding ch ! k) = ring_slot (ch_tre_ring ch) ((ring_next n ^^ k) i)"
proof -
  have "map bi_wp (outstanding ch) ! k =
      map (ring_slot (ch_tre_ring ch)) (ring_walk n i (ring_count n i j)) ! k"
    using assms(1) by (simp add: chan_ok_rings [OF assms(2)])
  then show ?thesis
    using assms(3) by (simp add: ring_walk_nth chan_rings_index [OF assms(2)])
qed

lemma del_many_same:
  "ch_chan ((del_elements ^^ m) ch) = ch_chan ch"
  "ch_dir ((del_elements ^^ m) ch) = ch_dir ch"
  "ch_pre_alloc ((del_elements ^^ m) ch) = ch_pre_alloc ch"
  "chan_n ((del_elements ^^ m) ch) = chan_n ch"
  "chan_n (del_elements ((del_elements ^^ m) ch)) = chan_n ch"
  by (induction m) (simp_all add: chan_n_def del_elements_def mhi_del_ring_element_def Let_def)

lemma parse_xfer_event_run:
  assumes "chan_ok ch" and "\<not> ch_pre_alloc ch" and "ch_ch_state ch = MHI_CH_STATE_ENABLED"
    and "MHI_TRE_GET_EV_CODE event \<in> {2, 3, 4}" and "k < chan_used ch"
    and "tre_ptr event = mhi_to_physical (ch_tre_ring ch) (bi_wp (outstanding ch ! k))"
  shows "\<exists>c' ch'. parse_xfer_event map_single event c ch = Some (c', ch') \<and>
    chan_ok ch' \<and> outstanding ch' = drop (Suc k) (outstanding ch) \<and>
    ch_chan ch' = ch_chan ch \<and> ch_dir ch' = ch_dir ch \<and> \<not> ch_pre_alloc ch' \<and> chan_n ch' = chan_n ch \<and>
    (\<forall>x. notified x c' = notified x c @ (if x = ch_chan ch
       then map (xfer_result event (ch_dir ch)) (take (Suc k) (outstanding ch)) else [])) \<and>
    (\<forall>q. accounts c (q + ul_used ch) \<longrightarrow> accounts c' (q + ul_used ch'))"
proof -
  obtain n i j where r: "chan_rings ch n i j" using assms(1) by (rule chan_okE)
  define ch1 where "ch1 = count_event (MHI_TRE_GET_EV_CODE event) ch"
  note s = same_ringsD [OF same_rings_count [of ch "MHI_TRE_GET_EV_CODE event"], folded ch1_def]
  have t: "ch_tre_ring ch1 = ch_tre_ring ch" by (simp add: ch1_def count_event_def)
  have i: "i < n" using chan_ringsD(4) [OF r] .
  have le: "Suc k \<le> ring_count n i j" using assms(5) by (simp add: chan_rings_index [OF r])
  have "event_dev_rp event (ch_tre_ring ch) =
      ring_slot (ch_tre_ring ch1) ((ring_next n ^^ Suc k) i)"
    using event_dev_rp_slot [OF r ring_next_pow_less [OF i, of k]] assms(6)
      outstanding_slot [OF assms(1) r assms(5)] by (simp add: t)
  then obtain c' where c':
    "xfer_loop map_single event (event_status event) (event_dev_rp event (ch_tre_ring ch)) (c, ch1) =
       Some (c', (del_elements ^^ Suc k) ch1)"
    "\<And>x. notified x c' = notified x c @ (if x = ch_chan ch
       then map (xfer_result event (ch_dir ch)) (take (Suc k) (outstanding ch)) else [])"
    "\<forall>q. accounts c (q + ul_used ch) \<longrightarrow> accounts c' (q + ul_used ((del_elements ^^ Suc k) ch1))"
    using xfer_loop_run [of ch1 n i j "Suc k"] r le assms(2) unfolding s by blast
  have "parse_xfer_event map_single event c ch = Some (c', (del_elements ^^ Suc k) ch1)"
    using c'(1) assms(3,4) unfolding parse_xfer_event_def Let_def ch1_def event_status_def by auto
  moreover have "chan_ok ((del_elements ^^ Suc k) ch1)"
    "outstanding ((del_elements ^^ Suc k) ch1) = drop (Suc k) (outstanding ch)"
    using del_many_rings [of ch1 "Suc k"] assms(1,5) unfolding s by auto
  ultimately show ?thesis using c'(2,3) assms(2) by (auto simp: del_many_same s)
qed

text \<open>
  C13: A transfer event hands back exactly the buffers it covers: for an event that points to the
  element of the k-th outstanding buffer of an enabled channel, the completion loop ends, the client
  is called once for each of the k+1 oldest buffers, in the order they were queued, with the length
  and the status of the event, and these buffers are no longer outstanding while all others are.
\<close>

theorem xfer_event_completes:
  assumes "chan_ok ch" and "\<not> ch_pre_alloc ch" and "ch_ch_state ch = 1"
    and "drop_bit 24 (tre_dword0 event) AND 0xFF \<in> {2, 3, 4}" and "k < length (outstanding ch)"
    and "tre_ptr event = mhi_to_physical (ch_tre_ring ch) (bi_wp (outstanding ch ! k))"
  shows "\<exists>c' ch'. parse_xfer_event map_single event c ch = Some (c', ch') \<and> chan_ok ch' \<and>
    outstanding ch' = drop (k + 1) (outstanding ch) \<and>
    notified (ch_chan ch) c' = notified (ch_chan ch) c @
      map (\<lambda>b. \<lparr>res_buf_addr = bi_cb_buf b, res_dir = Some (ch_dir ch),
                res_bytes_xferd = ucast (tre_dword0 event AND 0xFFFF),
                res_transaction_status =
                  (if drop_bit 24 (tre_dword0 event) AND 0xFF = 3 then -75 else 0)\<rparr>)
        (take (k + 1) (outstanding ch))"
  using parse_xfer_event_run [of ch event k map_single c] assms
  by (auto simp: MHI_CH_STATE_ENABLED_def MHI_TRE_GET_EV_CODE_def xfer_result_def [abs_def])

section \<open>An event beside the ring\<close>

text \<open>The first \<open>m\<close> rounds of the completion loop, whatever its guard says.\<close>

fun xfer_rounds ::
  "(mhi_buf_info \<Rightarrow> int \<times> mhi_buf_info) \<Rightarrow> mhi_tre \<Rightarrow> nat \<Rightarrow> mhi_controller \<times> mhi_chan
   \<Rightarrow> (mhi_controller \<times> mhi_chan) option" where
  "xfer_rounds map_single event 0 st = Some st"
| "xfer_rounds map_single event (Suc m) st =
     Option.bind (xfer_round map_single event (event_status event) st)
       (xfer_rounds map_single event m)"

lemma xfer_rounds_run:
  assumes "chan_rings ch n i j" and "\<not> ch_pre_alloc ch"
  shows "\<exists>c'. xfer_rounds map_single event m (c, ch) = Some (c', (del_elements ^^ m) ch) \<and>
    length (notified (ch_chan ch) c') = length (notified (ch_chan ch) c) + m"
  using assms
proof (induction m arbitrary: c ch i)
  case (Suc m)
  show ?case
    using Suc.IH [OF del_elements_rings(1) [OF Suc.prems(1)]] Suc.prems(2)
    by (fastforce simp: xfer_round_eq [OF Suc.prems] funpow_swap1 round_cntrl_notified)
qed simp

definition beside :: "mhi_tre \<Rightarrow> int \<Rightarrow> u64 \<Rightarrow> mhi_chan \<Rightarrow> bool" where
  "beside event status dev_rp ch \<longleftrightarrow>
     status = event_status event \<and> \<not> ch_pre_alloc ch \<and>
     (\<exists>n i j. chan_rings ch n i j \<and> (\<forall>k<n. ring_slot (ch_tre_ring ch) k \<noteq> dev_rp))"

lemma beside_round:
  assumes "beside event status dev_rp (snd st)"
  shows "ring_rp (ch_tre_ring (snd st)) \<noteq> dev_rp"
    and "\<exists>st'. xfer_round map_single event status st = Some st' \<and> beside event status dev_rp (snd st')"
proof -
  obtain c ch where st: "st = (c, ch)" by (cases st)
  obtain n i j where r: "chan_rings ch n i j" and off: "\<forall>k<n. ring_slot (ch_tre_ring ch) k \<noteq> dev_rp"
    and p: "\<not> ch_pre_alloc ch" and s: "status = event_status event"
    using assms by (auto simp: beside_def st)
  show "ring_rp (ch_tre_ring (snd st)) \<noteq> dev_rp"
    using off ring_atD(1,5) [OF chan_ringsD(1) [OF r]] by (simp add: st)
  have "beside event status dev_rp (del_elements ch)"
    using del_elements_rings [OF r] off p s by (auto simp: beside_def)
  then show "\<exists>st'. xfer_round map_single event status st = Some st' \<and>
      beside event status dev_rp (snd st')"
    using xfer_round_eq [OF r p] by (simp add: st s)
qed

lemma xfer_loop_beside:
  assumes ret: "xfer_loop map_single event status dev_rp st = Some r"
  shows "\<not> beside event status dev_rp (snd st)"
proof (rule xfer_loop.raw_induct [where P = "\<lambda>ms ev sta d st r. \<not> beside ev sta d (snd st)", OF _ ret])
  fix f ms ev sta d st r
  assume IH: "\<And>ms ev sta d st r. f ms ev sta d st = Some r \<Longrightarrow> \<not> beside ev sta d (snd st)"
    and eq: "(if ring_rp (ch_tre_ring (snd st)) = d then Some st
       else Option.bind (xfer_round ms ev sta st) (f ms ev sta d)) = Some r"
  show "\<not> beside ev sta d (snd st)"
  proof
    assume b: "beside ev sta d (snd st)"
    obtain st' where st': "xfer_round ms ev sta st = Some st'" "beside ev sta d (snd st')"
      using beside_round(2) [OF b] by blast
    have "f ms ev sta d st' = Some r" using eq beside_round(1) [OF b] st'(1) by simp
    then show False using IH st'(2) by blast
  qed
qed

text \<open>
  C36: The completion loop trusts the pointer of the event: when the address behind it is no slot of
  the ring, as for a pointer that is not a multiple of the element size from the base, the loop never
  ends. Every round runs and calls the client with one more buffer, so that for every number m the
  client is called m times although at most a ring's worth of buffers was queued.
\<close>

theorem xfer_event_beside_ring:
  assumes "chan_ok ch" and "\<not> ch_pre_alloc ch" and "ch_ch_state ch = 1"
    and "drop_bit 24 (tre_dword0 event) AND 0xFF \<in> {2, 3, 4}"
    and "\<forall>k \<in> set [0..<chan_n ch]. event_dev_rp event (ch_tre_ring ch) \<noteq> ring_slot (ch_tre_ring ch) k"
  shows "parse_xfer_event map_single event c ch = None \<and>
    (\<exists>c' ch'. xfer_rounds map_single event m (c, ch) = Some (c', ch') \<and>
       length (notified (ch_chan ch) c') = length (notified (ch_chan ch) c) + m)"
proof -
  obtain n i j where r: "chan_rings ch n i j" using assms(1) by (rule chan_okE)
  define ch1 where "ch1 = count_event (MHI_TRE_GET_EV_CODE event) ch"
  note s = same_ringsD [OF same_rings_count [of ch "MHI_TRE_GET_EV_CODE event"], folded ch1_def]
  have t: "ch_tre_ring ch1 = ch_tre_ring ch" by (simp add: ch1_def count_event_def)
  have off: "\<And>k. k < n \<Longrightarrow> ring_slot (ch_tre_ring ch1) k \<noteq> event_dev_rp event (ch_tre_ring ch)"
    using assms(5) by (force simp: chan_rings_index [OF r] t)
  have "xfer_loop map_single event (event_status event) (event_dev_rp event (ch_tre_ring ch)) (c, ch1)
      = None"
  proof (rule ccontr)
    assume "\<not> ?thesis"
    then obtain res where
      "xfer_loop map_single event (event_status event) (event_dev_rp event (ch_tre_ring ch)) (c, ch1)
         = Some res" by auto
    from xfer_loop_beside [OF this] show False
      using r assms(2) off by (auto simp: beside_def s)
  qed
  then have "parse_xfer_event map_single event c ch = None"
    using assms(3,4) unfolding parse_xfer_event_def Let_def ch1_def event_status_def
    by (auto simp: MHI_CH_STATE_ENABLED_def MHI_TRE_GET_EV_CODE_def)
  then show ?thesis using xfer_rounds_run [OF r assms(2)] by blast
qed

section \<open>Queueing\<close>

text \<open>The write slot is not among the outstanding ones, so writing it leaves them alone.\<close>

lemma write_buf:
  assumes "chan_rings ch n i j" and "chan_ok ch"
    and "ch' = ch\<lparr>ch_bufs := (ch_bufs ch)(ring_wp (ch_buf_ring ch) \<mapsto> b)\<rparr>"
  shows "chan_rings ch' n i j" and "outstanding ch' = outstanding ch" and "chan_ok ch'"
    and "buf_at ch' j = Some b"
proof -
  note at = chan_ringsD(2) [OF assms(1)] and ij = chan_ringsD(4,5) [OF assms(1)]
  have wp: "ring_wp (ch_buf_ring ch) = ring_slot (ch_buf_ring ch) j"
    using ring_atD(6) [OF at] .
  have buf: "buf_at ch' k = (if k = j then Some b else buf_at ch k)" if "k < n" for k
    using slot_eq_iff [OF at, of k j] that ij(2) by (simp add: buf_at_def assms(3) wp)
  show r: "chan_rings ch' n i j"
    using assms(1) buf by (simp add: chan_rings_def) (simp add: assms(3))
  have "buf_at ch' k = buf_at ch k" if "k \<in> set (ring_walk n i (ring_count n i j))" for k
    using buf [OF ring_walk_less [OF ij(1) that]] that ring_walk_wp [OF ij] by auto
  then show out: "outstanding ch' = outstanding ch"
    by (simp add: outstanding_rings [OF r] outstanding_rings [OF assms(1)])
  show "chan_ok ch'"
    using assms(2) by (simp add: chan_ok_rings [OF r] chan_ok_rings [OF assms(1)] out) (simp add: assms(3))
  show "buf_at ch' j = Some b" using buf [OF ij(2)] by simp
qed

lemma put_buf_info_ok:
  assumes "chan_rings ch n i j" and "chan_ok ch"
  shows "\<exists>ret b ch'. put_buf_info (mhi_map_single_no_bb dm de) v cb len ch = Some (ret, b, ch') \<and>
    chan_rings ch' n i j \<and> chan_ok ch' \<and> outstanding ch' = outstanding ch \<and> buf_at ch' j = Some b \<and>
    bi_cb_buf b = cb \<and> bi_wp b = ring_slot (ch_tre_ring ch') j \<and>
    ch_chan ch' = ch_chan ch \<and> ch_dir ch' = ch_dir ch \<and> ch_pre_alloc ch' = ch_pre_alloc ch"
proof -
  note d = chan_ringsD [OF assms(1)]
  have wp: "ring_wp (ch_buf_ring ch) = ring_slot (ch_buf_ring ch) j"
    "ring_wp (ch_tre_ring ch) = ring_slot (ch_tre_ring ch) j"
    using ring_atD(6) [OF d(1)] ring_atD(6) [OF d(2)] by auto
  obtain b where b: "ch_bufs ch (ring_wp (ch_buf_ring ch)) = Some b"
    using d(7) [OF d(5)] by (auto simp: buf_at_def wp)
  define b' where "b' = snd (mhi_map_single_no_bb dm de (b\<lparr>bi_v_addr := v, bi_cb_buf := cb,
    bi_wp := ring_wp (ch_tre_ring ch), bi_dir := ch_dir ch, bi_len := len\<rparr>))"
  define ch' where "ch' = ch\<lparr>ch_bufs := (ch_bufs ch)(ring_wp (ch_buf_ring ch) \<mapsto> b')\<rparr>"
  have "\<exists>ret. put_buf_info (mhi_map_single_no_bb dm de) v cb len ch = Some (ret, b', ch')"
    by (simp add: put_buf_info_def b b'_def ch'_def Let_def split_beta)
  moreover have "bi_cb_buf b' = cb" "bi_wp b' = ring_slot (ch_tre_ring ch') j"
    by (simp_all add: b'_def ch'_def mhi_map_single_no_bb_def Let_def wp(2))
  ultimately show ?thesis
    using write_buf [OF assms ch'_def] by (auto simp: ch'_def)
qed

lemma put_tre_ok:
  assumes "chan_rings ch n i j" and "chan_ok ch"
  shows "\<exists>ch'. put_tre ptr w0 w1 ch = Some ch' \<and> chan_rings ch' n i j \<and> chan_ok ch' \<and>
    outstanding ch' = outstanding ch \<and> buf_at ch' = buf_at ch \<and> ch_tre_ring ch' = ch_tre_ring ch \<and>
    ch_chan ch' = ch_chan ch \<and> ch_dir ch' = ch_dir ch \<and> ch_pre_alloc ch' = ch_pre_alloc ch"
proof -
  note d = chan_ringsD [OF assms(1)]
  obtain t where t: "ch_tres ch (ring_wp (ch_tre_ring ch)) = Some t"
    using d(6) [OF d(5)] ring_atD(6) [OF d(1)] by auto
  define t' where "t' = t\<lparr>tre_ptr := ptr, tre_dword0 := w0, tre_dword1 := w1\<rparr>"
  define ch' where "ch' = ch\<lparr>ch_tres := (ch_tres ch)(ring_wp (ch_tre_ring ch) \<mapsto> t')\<rparr>"
  have put: "put_tre ptr w0 w1 ch = Some ch'" by (simp add: put_tre_def t ch'_def t'_def)
  have buf: "buf_at ch' = buf_at ch" by (auto simp: buf_at_def ch'_def)
  have r: "chan_rings ch' n i j"
    using assms(1) by (simp add: chan_rings_def buf) (simp add: ch'_def)
  have out: "outstanding ch' = outstanding ch"
    by (simp add: outstanding_rings [OF r] outstanding_rings [OF assms(1)] buf)
  have "chan_ok ch'"
    using assms(2) by (simp add: chan_ok_rings [OF r] chan_ok_rings [OF assms(1)] out) (simp add: ch'_def)
  then show ?thesis using put r out buf by (auto simp: ch'_def)
qed

lemma add_elements_ok:
  assumes "chan_rings ch n i j" and "chan_ok ch" and "ring_next n j \<noteq> i"
    and "buf_at ch j = Some b" and "bi_wp b = ring_slot (ch_tre_ring ch) j"
  shows "chan_ok (add_elements ch)" and "outstanding (add_elements ch) = outstanding ch @ [b]"
    and "chan_used (add_elements ch) = Suc (chan_used ch)" and "chan_n (add_elements ch) = chan_n ch"
proof -
  note at = chan_ringsD(1,2) [OF assms(1)] and ij = chan_ringsD(4,5) [OF assms(1)]
  note eq = add_ring_wp [OF at(1)] add_ring_wp [OF at(2)]
  have buf: "buf_at (add_elements ch) = buf_at ch" by (auto simp: buf_at_def add_elements_def eq)
  have sl: "ring_slot (ch_tre_ring (add_elements ch)) = ring_slot (ch_tre_ring ch)"
    by (auto simp: add_elements_def eq)
  have r: "chan_rings (add_elements ch) n i (ring_next n j)"
    using assms(1) add_ring_at [OF at(1)] add_ring_at [OF at(2)]
    by (simp add: chan_rings_def buf sl) (simp add: add_elements_def eq)
  have c: "ring_count n i (ring_next n j) = Suc (ring_count n i j)"
    using ring_count_add [OF ij assms(3)] .
  have w: "ring_walk n i (ring_count n i (ring_next n j)) = ring_walk n i (ring_count n i j) @ [j]"
    unfolding c ring_walk_snoc by (simp add: ring_next_pow_count [OF ij])
  show out: "outstanding (add_elements ch) = outstanding ch @ [b]"
    by (simp add: outstanding_rings [OF r] outstanding_rings [OF assms(1)] w buf assms(4))
  have "map bi_wp (outstanding ch) = map (ring_slot (ch_tre_ring ch)) (ring_walk n i (ring_count n i j))"
    using assms(2) by (simp add: chan_ok_rings [OF assms(1)])
  then show "chan_ok (add_elements ch)"
    by (simp only: chan_ok_rings [OF r] out sl w map_append) (simp add: assms(5))
  show "chan_used (add_elements ch) = Suc (chan_used ch)" "chan_n (add_elements ch) = chan_n ch"
    by (simp_all add: chan_rings_index [OF r] chan_rings_index [OF assms(1)] c)
qed

text \<open>What a queue operation that returns \<open>ret\<close> does to a channel.\<close>

definition same_chan :: "mhi_chan \<Rightarrow> mhi_chan \<Rightarrow> bool" where
  "same_chan ch ch' \<longleftrightarrow>
     ch_chan ch' = ch_chan ch \<and> ch_dir ch' = ch_dir ch \<and> ch_pre_alloc ch' = ch_pre_alloc ch \<and>
     chan_n ch' = chan_n ch"

definition queued :: "u64 \<Rightarrow> int \<Rightarrow> mhi_controller \<Rightarrow> mhi_chan \<Rightarrow> mhi_controller \<Rightarrow> mhi_chan \<Rightarrow> bool" where
  "queued cb ret c ch c' ch' \<longleftrightarrow>
     chan_ok ch' \<and> same_chan ch ch' \<and> (\<forall>x. notified x c' = notified x c) \<and>
     map bi_cb_buf (outstanding ch') = map bi_cb_buf (outstanding ch) @ (if ret = 0 then [cb] else []) \<and>
     (\<forall>q. accounts c (q + ul_used ch) \<longrightarrow> q + chan_n ch \<le> 2 ^ 32 \<longrightarrow> accounts c' (q + ul_used ch'))"

lemma chan_used_less:
  assumes "chan_ok ch"
  shows "chan_used ch < chan_n ch"
proof -
  obtain n i j where r: "chan_rings ch n i j" using assms by (rule chan_okE)
  show ?thesis using ring_count_less [OF chan_ringsD(4,5) [OF r]] by (simp add: chan_rings_index [OF r])
qed

lemma ul_used_same: "outstanding ch' = outstanding ch \<Longrightarrow> ch_dir ch' = ch_dir ch \<Longrightarrow> ul_used ch' = ul_used ch"
  unfolding ul_used_def length_outstanding [symmetric] by (simp del: length_outstanding)

lemma queued_refl: "ret \<noteq> 0 \<Longrightarrow> chan_ok ch \<Longrightarrow> queued cb ret c ch c ch"
  by (simp add: queued_def same_chan_def)

lemma chan_n_ok:
  assumes "chan_rings ch n i j" and "chan_rings ch' n i' j'"
  shows "chan_n ch' = chan_n ch"
  by (simp add: chan_rings_index(1) [OF assms(1)] chan_rings_index(1) [OF assms(2)])

lemma accounts_queue:
  assumes "accounts c (q + ul_used ch)" and "q + chan_n ch \<le> 2 ^ 32"
    and "chan_used ch' = Suc (chan_used ch)" and "ch_dir ch' = ch_dir ch"
    and "chan_used ch' < chan_n ch"
  shows "accounts (if ch_dir ch = DMA_TO_DEVICE then pending_inc c else c) (q + ul_used ch')"
  using assms pending_inc_accounts [of c "q + chan_used ch"] by (auto simp: ul_used_def)

lemma put_descriptors:
  assumes "chan_ok ch" and "\<not> mhi_is_ring_full (ch_tre_ring ch)"
  shows "\<exists>ret b ch1. put_buf_info (mhi_map_single_no_bb dm de) v cb len ch = Some (ret, b, ch1) \<and>
    chan_ok ch1 \<and> same_chan ch ch1 \<and> outstanding ch1 = outstanding ch \<and>
    (\<forall>ptr w0 w1. \<exists>ch2. put_tre ptr w0 w1 ch1 = Some ch2 \<and> chan_ok (add_elements ch2) \<and>
       same_chan ch (add_elements ch2) \<and> outstanding (add_elements ch2) = outstanding ch @ [b] \<and>
       bi_cb_buf b = cb)"
proof -
  obtain n i j where r: "chan_rings ch n i j" using assms(1) by (rule chan_okE)
  have nf: "ring_next n j \<noteq> i" using assms(2) ring_full_at [OF chan_ringsD(1) [OF r]] by simp
  obtain ret b ch1 where p: "put_buf_info (mhi_map_single_no_bb dm de) v cb len ch = Some (ret, b, ch1)"
    and r1: "chan_rings ch1 n i j" "chan_ok ch1" "outstanding ch1 = outstanding ch" "buf_at ch1 j = Some b"
      "bi_cb_buf b = cb" "bi_wp b = ring_slot (ch_tre_ring ch1) j"
      "ch_chan ch1 = ch_chan ch" "ch_dir ch1 = ch_dir ch" "ch_pre_alloc ch1 = ch_pre_alloc ch"
    using put_buf_info_ok [OF r assms(1), of dm de v cb len] by (elim exE conjE) rule
  have "\<exists>ch2. put_tre ptr w0 w1 ch1 = Some ch2 \<and> chan_ok (add_elements ch2) \<and>
      same_chan ch (add_elements ch2) \<and> outstanding (add_elements ch2) = outstanding ch @ [b]" for ptr w0 w1
  proof -
    obtain ch2 where t: "put_tre ptr w0 w1 ch1 = Some ch2"
      and r2: "chan_rings ch2 n i j" "chan_ok ch2" "outstanding ch2 = outstanding ch1" "buf_at ch2 = buf_at ch1"
        "ch_tre_ring ch2 = ch_tre_ring ch1" "ch_chan ch2 = ch_chan ch1" "ch_dir ch2 = ch_dir ch1"
        "ch_pre_alloc ch2 = ch_pre_alloc ch1"
      using put_tre_ok [OF r1(1,2), of ptr w0 w1] by (elim exE conjE) rule
    have b2: "buf_at ch2 j = Some b" "bi_wp b = ring_slot (ch_tre_ring ch2) j" using r1 r2 by auto
    note a = add_elements_ok [OF r2(1,2) nf b2]
    have "same_chan ch (add_elements ch2)"
      using r1 r2 a(4) chan_n_ok [OF r r2(1)] by (simp add: same_chan_def) (simp add: add_elements_def)
    then show ?thesis using t a(1,2) r1(3) r2(3) by simp
  qed
  moreover have "same_chan ch ch1" using r1 chan_n_ok [OF r r1(1)] by (simp add: same_chan_def)
  ultimately show ?thesis using p r1(2,3,5) by simp
qed

lemma queued_db:
  assumes "queued cb ret c ch c1 ch1"
  shows "queued cb ret c ch (fst (mhi_ring_chan_db c1 ch1)) (snd (mhi_ring_chan_db c1 ch1))"
  using assms same_ringsD [OF ring_chan_db_same [of ch1 c1]]
  by (simp add: queued_def same_chan_def ring_chan_db_cntrl)

lemma queued_effects:
  assumes "runtime_refs es = 0" and "\<And>x. callbacks x es = []"
  shows "queued cb ret c ch (effects es c1) ch1 = queued cb ret c ch c1 ch1"
    and "queued cb ret (effects es c) ch c1 ch1 = queued cb ret c ch c1 ch1"
  using assms by (simp_all add: queued_def)

lemma queued_add:
  assumes "chan_ok ch" and "chan_ok ch2" and "same_chan ch ch2"
    and "outstanding ch2 = outstanding ch @ [b]" and "bi_cb_buf b = cb"
  shows "queued cb 0 c ch (if ch_dir ch = DMA_TO_DEVICE then pending_inc c else c) ch2"
proof -
  have u: "chan_used ch2 = Suc (chan_used ch)"
    using arg_cong [OF assms(4), of length] by simp
  have "chan_used ch2 < chan_n ch" using chan_used_less [OF assms(2)] assms(3) by (simp add: same_chan_def)
  then show ?thesis
    using accounts_queue [of c _ ch ch2] u assms by (auto simp: queued_def same_chan_def)
qed

lemma queued_keep:
  assumes "ret \<noteq> 0" and "chan_ok ch1" and "same_chan ch ch1" and "outstanding ch1 = outstanding ch"
  shows "queued cb ret c ch c ch1"
  using assms ul_used_same [OF assms(4)] by (simp add: queued_def same_chan_def)

lemma queued_pre [simp]: "queued cb ret (pre_queue c ch0) ch c1 ch1 = queued cb ret c ch c1 ch1"
  "queued cb ret c ch (pre_queue c1 ch0) ch1 = queued cb ret c ch c1 ch1"
  by (simp_all add: pre_queue_def Let_def queued_effects)

lemma queued_ring:
  "queued cb ret c ch c1 ch1 \<Longrightarrow>
     queued cb ret c ch (fst (ring_if_awake c1 ch1)) (snd (ring_if_awake c1 ch1))"
  by (simp add: ring_if_awake_def queued_db)

lemma asserts_wake_same:
  "mhi_pm_state c' = mhi_pm_state c \<Longrightarrow> ch_dir ch' = ch_dir ch \<Longrightarrow> asserts_wake c' ch' = asserts_wake c ch"
  by (simp add: asserts_wake_def)

lemma effects_pm [simp]: "mhi_pm_state (effects es c) = mhi_pm_state c"
  by (simp add: effects_def)

lemma pre_queue_pm [simp]: "mhi_pm_state (pre_queue c ch) = mhi_pm_state c"
  by (simp add: pre_queue_def Let_def)

lemma mhi_queue_skb_ok:
  assumes "chan_ok ch"
  shows "\<exists>ret c' ch'. mhi_queue_skb (mhi_map_single_no_bb dm de) skb data len c ch = Some (ret, c', ch') \<and>
    queued skb ret c ch c' ch'"
proof (cases "mhi_is_ring_full (ch_tre_ring ch) \<or> MHI_PM_IN_ERROR_STATE (mhi_pm_state c)")
  case True
  then show ?thesis using queued_refl assms by (auto simp: mhi_queue_skb_def)
next
  case False
  then obtain ret b ch1 where p:
      "put_buf_info (mhi_map_single_no_bb dm de) data skb len ch = Some (ret, b, ch1)"
    and k: "chan_ok ch1" "same_chan ch ch1" "outstanding ch1 = outstanding ch"
    and t: "\<And>ptr w0 w1. \<exists>ch2. put_tre ptr w0 w1 ch1 = Some ch2 \<and> chan_ok (add_elements ch2) \<and>
       same_chan ch (add_elements ch2) \<and> outstanding (add_elements ch2) = outstanding ch @ [b] \<and>
       bi_cb_buf b = skb"
    using put_descriptors [OF assms, of dm de data skb len] by auto
  show ?thesis
  proof (cases "ret = 0")
    case ret: False
    have "queued skb ret c ch (pre_queue c ch) ch1" using queued_keep [OF ret k] by simp
    then show ?thesis
      using False ret by (simp add: mhi_queue_skb_def p queued_effects Let_def)
  next
    case ret: True
    obtain ch2 where t2: "put_tre (bi_p_addr b) (MHI_TRE_DATA_DWORD0 (bi_len b))
          (MHI_TRE_DATA_DWORD1 1 1 0 0) ch1 = Some ch2"
      and a: "chan_ok (add_elements ch2)" "same_chan ch (add_elements ch2)"
        "outstanding (add_elements ch2) = outstanding ch @ [b]" "bi_cb_buf b = skb"
      using t by blast
    have dir: "ch_dir ch2 = ch_dir ch" using a(2) by (simp add: same_chan_def add_elements_def)
    define c1 where "c1 = (if ch_dir ch = DMA_TO_DEVICE then pending_inc (pre_queue c ch) else pre_queue c ch)"
    define r where "r = ring_if_awake c1 (add_elements ch2)"
    have q: "queued skb 0 c ch (fst r) (snd r)"
      unfolding r_def by (rule queued_ring) (use queued_add [OF assms a, of "pre_queue c ch"] in \<open>simp add: c1_def\<close>)
    have "mhi_queue_skb (mhi_map_single_no_bb dm de) skb data len c ch =
        Some (0, if ch_dir (snd r) = DMA_FROM_DEVICE \<and> asserts_wake c ch
          then effects [Wake_put True] (fst r) else fst r, snd r)"
      using False ret by (simp add: mhi_queue_skb_def p t2 dir r_def c1_def Let_def split_beta)
    then show ?thesis using q by (auto simp: queued_effects)
  qed
qed

lemma mhi_queue_buf_ok:
  assumes "chan_ok ch"
  shows "\<exists>ret c' ch'. mhi_queue_buf (mhi_map_single_no_bb dm de) buf len flags c ch = Some (ret, c', ch') \<and>
    queued buf ret c ch c' ch'"
proof (cases "mhi_is_ring_full (ch_tre_ring ch) \<or> MHI_PM_IN_ERROR_STATE (mhi_pm_state c)")
  case True
  then show ?thesis using queued_refl assms by (auto simp: mhi_queue_buf_def)
next
  case False
  then obtain ret b ch1 where p:
      "put_buf_info (mhi_map_single_no_bb dm de) buf buf len ch = Some (ret, b, ch1)"
    and k: "chan_ok ch1" "same_chan ch ch1" "outstanding ch1 = outstanding ch"
    and t: "\<And>ptr w0 w1. \<exists>ch2. put_tre ptr w0 w1 ch1 = Some ch2 \<and> chan_ok (add_elements ch2) \<and>
       same_chan ch (add_elements ch2) \<and> outstanding (add_elements ch2) = outstanding ch @ [b] \<and>
       bi_cb_buf b = buf"
    using put_descriptors [OF assms, of dm de buf buf len] by auto
  show ?thesis
  proof (cases "ret = 0")
    case ret: False
    have "queued buf ret c ch c ch1" using queued_keep [OF ret k] by simp
    then show ?thesis using False ret by (auto simp: mhi_queue_buf_def mhi_gen_tre_def p)
  next
    case ret: True
    define w1 where "w1 = MHI_TRE_DATA_DWORD1 (nonzero (ch_intmod ch1)) (nonzero (flags AND MHI_EOT))
      (nonzero (flags AND MHI_EOB)) (nonzero (flags AND MHI_CHAIN))"
    obtain ch2 where t2: "put_tre (bi_p_addr b) (MHI_TRE_DATA_DWORD0 len) w1 ch1 = Some ch2"
      and a: "chan_ok (add_elements ch2)" "same_chan ch (add_elements ch2)"
        "outstanding (add_elements ch2) = outstanding ch @ [b]" "bi_cb_buf b = buf"
      using t by blast
    have dir: "ch_dir (add_elements ch2) = ch_dir ch" using a(2) by (simp add: same_chan_def)
    note wake = asserts_wake_same [OF refl dir, of c]
    define c1 where "c1 = (if ch_dir ch = DMA_TO_DEVICE
      then pending_inc (pre_queue c (add_elements ch2)) else pre_queue c (add_elements ch2))"
    define r where "r = ring_if_awake c1 (add_elements ch2)"
    have q: "queued buf 0 c ch (fst r) (snd r)"
      unfolding r_def by (rule queued_ring) (use queued_add [OF assms a, of "pre_queue c (add_elements ch2)"] in \<open>simp add: c1_def\<close>)
    have "mhi_gen_tre (mhi_map_single_no_bb dm de) buf buf len flags ch = Some (0, add_elements ch2)"
      using ret t2 by (simp add: mhi_gen_tre_def p w1_def Let_def)
    then have "mhi_queue_buf (mhi_map_single_no_bb dm de) buf len flags c ch =
        Some (0, if ch_dir (snd r) = DMA_FROM_DEVICE \<and> asserts_wake c ch
          then effects [Wake_put True] (fst r) else fst r, snd r)"
      using False wake dir by (simp add: mhi_queue_buf_def r_def c1_def Let_def split_beta)
    then show ?thesis using q by (auto simp: queued_effects)
  qed
qed

text \<open>The end-of-block flag is the number 0, so no descriptor ever asks for an end-of-block event.\<close>

lemma eob_flag_never_set: "nonzero (flags AND MHI_EOB) = 0"
  by (simp add: nonzero_def MHI_EOB_def)

section \<open>Draining a channel\<close>

definition reset_cntrl :: "u32 \<Rightarrow> dma_data_direction \<Rightarrow> mhi_buf_info \<Rightarrow> mhi_controller \<Rightarrow> mhi_controller" where
  "reset_cntrl chan dir b c =
    (let c = (if dir = DMA_TO_DEVICE then effects [Wake_put False] (pending_dec c) else c);
         c = (if bi_pre_mapped b then c else effects [Unmap_single b] c)
     in effects [Xfer_cb chan \<lparr>res_buf_addr = bi_cb_buf b, res_dir = None, res_bytes_xferd = 0,
          res_transaction_status = -107\<rparr>] c)"

lemma reset_round_eq:
  assumes "chan_rings ch n i j" and "\<not> ch_pre_alloc ch"
  shows "reset_round (c, ch) =
    Some (reset_cntrl (ch_chan ch) (ch_dir ch) (the (buf_at ch i)) c, del_elements ch)"
proof -
  obtain b where b: "buf_at ch i = Some b"
    using chan_ringsD(4) [OF assms(1)] chan_ringsD(7) [OF assms(1)] by blast
  then have "ch_bufs ch (ring_rp (ch_buf_ring ch)) = Some b"
    using ring_atD(5) [OF chan_ringsD(2) [OF assms(1)]] by (simp add: buf_at_def)
  then show ?thesis using assms(2) by (simp add: reset_round_def reset_cntrl_def b Let_def)
qed

lemma reset_cntrl_notified:
  "notified x (reset_cntrl chan dir b c) =
     notified x c @ (if x = chan then [\<lparr>res_buf_addr = bi_cb_buf b, res_dir = None,
       res_bytes_xferd = 0, res_transaction_status = -107\<rparr>] else [])"
  by (simp add: reset_cntrl_def Let_def)

lemma reset_cntrl_accounts:
  assumes "accounts c (if dir = DMA_TO_DEVICE then Suc m else m)"
  shows "accounts (reset_cntrl chan dir b c) m"
  using assms by (auto simp: reset_cntrl_def Let_def intro!: pending_dec_accounts)

lemma reset_run:
  assumes "chan_rings ch n i j" and "\<not> ch_pre_alloc ch"
  shows "\<exists>c'. mhi_reset_data_chan (c, ch) = Some (c', (del_elements ^^ chan_used ch) ch) \<and>
    (\<forall>x. notified x c' = notified x c @ (if x = ch_chan ch
       then map (\<lambda>b. \<lparr>res_buf_addr = bi_cb_buf b, res_dir = None, res_bytes_xferd = 0,
         res_transaction_status = -107\<rparr>) (outstanding ch) else [])) \<and>
    (\<forall>q. accounts c (q + ul_used ch) \<longrightarrow> accounts c' q)"
  using assms
proof (induction "chan_used ch" arbitrary: c ch i)
  case 0
  note r = 0(2) and at = chan_ringsD(1) [OF 0(2)]
  have "i = j"
    using 0(1) ring_count_0 [OF chan_ringsD(4,5) [OF r]] by (simp add: chan_rings_index [OF r])
  moreover have "outstanding ch = []" using 0(1) by (simp flip: length_0_conv)
  ultimately show ?case
    using ring_atD(5,6) [OF at] 0(1) by (subst mhi_reset_data_chan.simps) (simp add: ul_used_def)
next
  case (Suc m)
  note r = Suc.prems(1) and at = chan_ringsD(1) [OF Suc.prems(1)]
  note ij = chan_ringsD(4,5) [OF r]
  have ne: "i \<noteq> j"
    using Suc.hyps(2) ring_count_0 [OF ij] by (auto simp: chan_rings_index [OF r])
  note o = outstanding_Cons [OF r ne]
  define c1 where "c1 = reset_cntrl (ch_chan ch) (ch_dir ch) (the (buf_at ch i)) c"
  have "ring_rp (ch_tre_ring ch) \<noteq> ring_wp (ch_tre_ring ch)"
    using slot_eq_iff [OF at, of i j] ij ne ring_atD(5,6) [OF at] by simp
  then have step: "mhi_reset_data_chan (c, ch) = mhi_reset_data_chan (c1, del_elements ch)"
    using reset_round_eq [OF r Suc.prems(2)] by (subst mhi_reset_data_chan.simps) (simp add: c1_def)
  have m: "m = chan_used (del_elements ch)" using Suc.hyps(2) o(2) by simp
  obtain c' where c':
    "mhi_reset_data_chan (c1, del_elements ch) = Some (c', (del_elements ^^ m) (del_elements ch))"
    "\<And>x. notified x c' = notified x c1 @ (if x = ch_chan ch
       then map (\<lambda>b. \<lparr>res_buf_addr = bi_cb_buf b, res_dir = None, res_bytes_xferd = 0,
         res_transaction_status = -107\<rparr>) (outstanding (del_elements ch)) else [])"
    "\<And>q. accounts c1 (q + ul_used (del_elements ch)) \<Longrightarrow> accounts c' q"
    using Suc.hyps(1) [OF m del_elements_rings(1) [OF r], of c1] Suc.prems(2) m by auto
  have acc: "accounts c (q + ul_used ch) \<Longrightarrow> accounts c1 (q + ul_used (del_elements ch))" for q
    unfolding c1_def by (rule reset_cntrl_accounts) (auto simp: ul_used_def o(2))
  have f: "(del_elements ^^ chan_used ch) ch = (del_elements ^^ m) (del_elements ch)"
    unfolding Suc.hyps(2) [symmetric] by (simp add: funpow_swap1)
  show ?case
    unfolding step f using c' acc o(1) by (auto simp: c1_def reset_cntrl_notified)
qed

text \<open>
  C15: Draining a channel ends and gives everything back: the loop of the reset returns for every
  well-formed channel, the client is called with \<^verbatim>\<open>-ENOTCONN\<close> exactly once for each outstanding
  buffer, in the order they were queued, and no buffer is outstanding afterwards.
\<close>

theorem reset_drains:
  assumes "chan_ok ch" and "\<not> ch_pre_alloc ch"
  shows "\<exists>c' ch'. mhi_reset_data_chan (c, ch) = Some (c', ch') \<and> chan_ok ch' \<and> outstanding ch' = [] \<and>
    map res_buf_addr (notified (ch_chan ch) c') =
      map res_buf_addr (notified (ch_chan ch) c) @ map bi_cb_buf (outstanding ch) \<and>
    (\<forall>r \<in> set (drop (length (notified (ch_chan ch) c)) (notified (ch_chan ch) c')).
       res_transaction_status r = -107)"
proof -
  obtain n i j where r: "chan_rings ch n i j" using assms(1) by (rule chan_okE)
  show ?thesis
    using reset_run [OF r assms(2), of c] del_many_rings [OF assms(1) order_refl]
    by (auto simp flip: length_outstanding)
qed

section \<open>Every interleaving\<close>

text \<open>
  The controller with the array of its channels, as the driver reaches it: buffers are queued, the
  modem sends events, channels are drained and the power state is requested to change, in any order
  and on any channel.  An event that completes a transfer points to an outstanding element, which is
  what the MHI protocol asks of the device.  The history records the buffers that each channel has
  accepted.
\<close>

definition event_valid :: "mhi_tre \<Rightarrow> mhi_chan \<Rightarrow> bool" where
  "event_valid event ch \<longleftrightarrow>
     MHI_TRE_GET_EV_CODE event \<in> {2, 3, 4} \<longrightarrow>
     (\<exists>k < chan_used ch. tre_ptr event = mhi_to_physical (ch_tre_ring ch) (bi_wp (outstanding ch ! k)))"

inductive mhi_run ::
  "mhi_controller \<times> mhi_chan list \<Rightarrow> mhi_controller \<times> mhi_chan list \<Rightarrow> (nat \<Rightarrow> u64 list) \<Rightarrow> bool"
  for start where
  run_start: "mhi_run start start (\<lambda>_. [])"
| run_queue_skb: "mhi_run start (c, chs) h \<Longrightarrow> x < length chs \<Longrightarrow>
    mhi_queue_skb (mhi_map_single_no_bb dm de) skb data len c (chs ! x) = Some (ret, c', ch') \<Longrightarrow>
    mhi_run start (c', chs[x := ch']) (if ret = 0 then h(x := h x @ [skb]) else h)"
| run_queue_buf: "mhi_run start (c, chs) h \<Longrightarrow> x < length chs \<Longrightarrow>
    mhi_queue_buf (mhi_map_single_no_bb dm de) buf len flags c (chs ! x) = Some (ret, c', ch') \<Longrightarrow>
    mhi_run start (c', chs[x := ch']) (if ret = 0 then h(x := h x @ [buf]) else h)"
| run_event: "mhi_run start (c, chs) h \<Longrightarrow> x < length chs \<Longrightarrow> event_valid event (chs ! x) \<Longrightarrow>
    parse_xfer_event (mhi_map_single_no_bb dm de) event c (chs ! x) = Some (c', ch') \<Longrightarrow>
    mhi_run start (c', chs[x := ch']) h"
| run_reset: "mhi_run start (c, chs) h \<Longrightarrow> x < length chs \<Longrightarrow>
    mhi_reset_data_chan (c, chs ! x) = Some (c', ch') \<Longrightarrow>
    mhi_run start (c', chs[x := ch']) h"
| run_pm: "mhi_run start (c, chs) h \<Longrightarrow>
    mhi_run start (c\<lparr>mhi_pm_state := mhi_tryset_pm_state (mhi_pm_state c) s\<rparr>, chs) h"

text \<open>The state after initialisation: empty rings, nothing counted, nothing referenced.\<close>

definition mhi_start :: "mhi_controller \<times> mhi_chan list \<Rightarrow> bool" where
  "mhi_start st \<longleftrightarrow>
     pending_pkts (fst st) = 0 \<and> mhi_effects (fst st) = [] \<and>
     length (snd st) < 2 ^ 32 \<and> sum_list (map chan_n (snd st)) \<le> 2 ^ 32 \<and>
     list_all (\<lambda>ch. chan_ok ch \<and> outstanding ch = [] \<and> \<not> ch_pre_alloc ch) (snd st) \<and>
     map ch_chan (snd st) = map of_nat [0..<length (snd st)]"

definition run_inv :: "mhi_controller \<times> mhi_chan list \<Rightarrow> (nat \<Rightarrow> u64 list) \<Rightarrow> bool" where
  "run_inv st h \<longleftrightarrow>
     length (snd st) < 2 ^ 32 \<and> sum_list (map chan_n (snd st)) \<le> 2 ^ 32 \<and>
     (\<forall>x < length (snd st). chan_ok (snd st ! x) \<and> \<not> ch_pre_alloc (snd st ! x) \<and>
        ch_chan (snd st ! x) = of_nat x \<and>
        h x = map res_buf_addr (notified (of_nat x) (fst st)) @ map bi_cb_buf (outstanding (snd st ! x))) \<and>
     accounts (fst st) (sum_list (map ul_used (snd st)))"

text \<open>The sum over all channels but one.\<close>

definition sum_others :: "(mhi_chan \<Rightarrow> nat) \<Rightarrow> mhi_chan list \<Rightarrow> nat \<Rightarrow> nat" where
  "sum_others f chs x = sum_list (map f (take x chs)) + sum_list (map f (drop (Suc x) chs))"

lemma sum_list_update:
  assumes "x < length chs"
  shows "sum_list (map f (chs[x := ch])) = sum_others f chs x + f ch"
  using assms by (simp add: upd_conv_take_nth_drop sum_others_def)

lemma sum_list_at:
  assumes "x < length chs"
  shows "sum_list (map f chs) = sum_others f chs x + f (chs ! x)"
  using sum_list_update [OF assms, of f "chs ! x"] by simp

lemma sum_others_mono:
  assumes "\<And>ch. ch \<in> set chs \<Longrightarrow> f ch \<le> g ch"
  shows "sum_others f chs x \<le> sum_others g chs x"
  unfolding sum_others_def
  by (intro add_mono sum_list_mono assms) (auto dest: in_set_takeD in_set_dropD)

text \<open>One operation on one channel: what it has to respect for the invariant to be kept.\<close>

definition chan_moves ::
  "mhi_controller \<Rightarrow> mhi_chan \<Rightarrow> u64 list \<Rightarrow> mhi_controller \<Rightarrow> mhi_chan \<Rightarrow> bool" where
  "chan_moves c ch new c' ch' \<longleftrightarrow>
     chan_ok ch' \<and> same_chan ch ch' \<and> (\<forall>x. x \<noteq> ch_chan ch \<longrightarrow> notified x c' = notified x c) \<and>
     map res_buf_addr (notified (ch_chan ch) c') @ map bi_cb_buf (outstanding ch') =
       map res_buf_addr (notified (ch_chan ch) c) @ map bi_cb_buf (outstanding ch) @ new \<and>
     (\<forall>q. accounts c (q + ul_used ch) \<longrightarrow> q + chan_n ch \<le> 2 ^ 32 \<longrightarrow> accounts c' (q + ul_used ch'))"

lemma of_nat_u32_inj: "a < 2 ^ 32 \<Longrightarrow> b < 2 ^ 32 \<Longrightarrow> (of_nat a :: u32) = of_nat b \<longleftrightarrow> a = b"
  by (auto simp: word_unat_eq_iff unat_of_nat)

lemma ul_used_le: "chan_ok ch \<Longrightarrow> ul_used ch \<le> chan_n ch"
  using chan_used_less [of ch] by (simp add: ul_used_def)

lemma run_inv_move:
  assumes "run_inv (c, chs) h" and "x < length chs" and "chan_moves c (chs ! x) new c' ch'"
  shows "run_inv (c', chs[x := ch']) (h(x := h x @ new))"
proof -
  note inv = assms(1) [unfolded run_inv_def fst_conv snd_conv]
  note m = assms(3) [unfolded chan_moves_def same_chan_def]
  have ch: "ch_chan (chs ! x) = of_nat x" using inv assms(2) by blast
  have "sum_others ul_used chs x \<le> sum_others chan_n chs x"
    using inv by (intro sum_others_mono ul_used_le) (auto simp: in_set_conv_nth)
  then have "sum_others ul_used chs x + chan_n (chs ! x) \<le> 2 ^ 32"
    using inv sum_list_at [OF assms(2), of chan_n] by simp
  then have acc: "accounts c' (sum_list (map ul_used (chs[x := ch'])))"
    using inv m sum_list_at [OF assms(2), of ul_used] sum_list_update [OF assms(2), of ul_used] by simp
  have n: "sum_list (map chan_n (chs[x := ch'])) \<le> 2 ^ 32"
    using inv m sum_list_at [OF assms(2), of chan_n] sum_list_update [OF assms(2), of chan_n] by simp
  have "chan_ok (chs[x := ch'] ! y) \<and> \<not> ch_pre_alloc (chs[x := ch'] ! y) \<and>
      ch_chan (chs[x := ch'] ! y) = of_nat y \<and>
      (h(x := h x @ new)) y = map res_buf_addr (notified (of_nat y) c') @
        map bi_cb_buf (outstanding (chs[x := ch'] ! y))" if y: "y < length chs" for y
  proof (cases "y = x")
    case True
    then show ?thesis using inv m assms(2) ch by simp
  next
    case False
    then have "(of_nat y :: u32) \<noteq> of_nat x" using of_nat_u32_inj [of y x] inv y assms(2) by simp
    then show ?thesis using False inv m y ch by simp
  qed
  then show ?thesis using acc n inv by (simp add: run_inv_def)
qed

lemma queued_moves:
  "queued cb ret c ch c' ch' \<Longrightarrow> chan_moves c ch (if ret = 0 then [cb] else []) c' ch'"
  by (simp add: queued_def chan_moves_def)

lemma event_moves:
  assumes "chan_ok ch" and "\<not> ch_pre_alloc ch" and "event_valid event ch"
    and "parse_xfer_event map_single event c ch = Some (c', ch')"
  shows "chan_moves c ch [] c' ch'"
proof -
  have keep: "chan_moves c ch [] c ch" using assms(1) by (simp add: chan_moves_def same_chan_def)
  have same: "chan_moves c ch [] d ch1" if "same_rings ch ch1" "\<And>x. notified x d = notified x c"
    "\<And>m. accounts d m = accounts c m" for ch1 d
    using that same_ringsD [OF that(1)] assms(1) by (simp add: chan_moves_def same_chan_def)
  consider "ch_ch_state ch \<noteq> MHI_CH_STATE_ENABLED"
    | k where "ch_ch_state ch = MHI_CH_STATE_ENABLED" "MHI_TRE_GET_EV_CODE event \<in> {2, 3, 4}"
        "k < chan_used ch" "tre_ptr event = mhi_to_physical (ch_tre_ring ch) (bi_wp (outstanding ch ! k))"
    | "ch_ch_state ch = MHI_CH_STATE_ENABLED" "MHI_TRE_GET_EV_CODE event \<notin> {2, 3, 4}"
    using assms(3) by (auto simp: event_valid_def)
  then show ?thesis
  proof cases
    case 1
    then show ?thesis using assms(4) keep by (simp add: parse_xfer_event_def Let_def)
  next
    case (2 k)
    have "take (Suc k) (outstanding ch) @ drop (Suc k) (outstanding ch) = outstanding ch" by simp
    then have "map bi_cb_buf (take (Suc k) (outstanding ch)) @
        map bi_cb_buf (drop (Suc k) (outstanding ch)) = map bi_cb_buf (outstanding ch)"
      by (metis map_append)
    moreover have "res_buf_addr \<circ> xfer_result event (ch_dir ch) = bi_cb_buf"
      by (auto simp: xfer_result_def)
    ultimately show ?thesis
      using parse_xfer_event_run [OF assms(1,2) 2, of map_single c] assms(2,4)
      by (auto simp: chan_moves_def same_chan_def)
  next
    case 3
    define ch1 where "ch1 = (count_event (MHI_TRE_GET_EV_CODE event) ch)\<lparr>ch_db_mode := True\<rparr>"
    have s1: "same_rings ch ch1"
      unfolding ch1_def by (rule same_rings_db_mode [OF same_rings_count])
    then have "chan_moves c ch [] c ch1" by (rule same) simp_all
    moreover have "chan_moves c ch [] (fst (ring_if_awake c ch1)) (snd (ring_if_awake c ch1))"
      using same_rings_trans [OF s1 ring_chan_db_same] s1
      by (intro same) (auto simp: ring_if_awake_def ring_chan_db_cntrl)
    ultimately show ?thesis
      using assms(4) 3 keep
      by (auto simp: parse_xfer_event_def Let_def ch1_def split: if_splits)
  qed
qed

lemma reset_moves:
  assumes "chan_ok ch" and "\<not> ch_pre_alloc ch" and "mhi_reset_data_chan (c, ch) = Some (c', ch')"
  shows "chan_moves c ch [] c' ch'"
proof -
  obtain n i j where r: "chan_rings ch n i j" using assms(1) by (rule chan_okE)
  have d: "chan_ok ch'" "outstanding ch' = []" "same_chan ch ch'"
    using reset_run [OF r assms(2), of c] del_many_rings [OF assms(1) order_refl] assms(3)
    by (auto simp: same_chan_def del_many_same simp flip: length_outstanding)
  have "ul_used ch' = 0" using d(2) by (simp add: ul_used_def flip: length_outstanding)
  then show ?thesis
    using d reset_run [OF r assms(2), of c] assms(3) by (auto simp: chan_moves_def o_def)
qed

lemma mhi_run_inv:
  assumes "mhi_run start st h" and "mhi_start start"
  shows "run_inv st h"
  using assms
proof (induction rule: mhi_run.induct)
  case run_start
  have e: "map ch_chan (snd start) = map of_nat [0..<length (snd start)]"
    using run_start by (simp add: mhi_start_def)
  have "ch_chan (snd start ! x) = of_nat x" if "x < length (snd start)" for x
    using arg_cong [OF e, of "\<lambda>l. l ! x"] that by simp
  moreover have sum: "sum_list (map ul_used (snd start)) = 0"
    using run_start
    by (auto simp: mhi_start_def list_all_iff ul_used_def simp flip: length_outstanding)
  have "accounts (fst start) (sum_list (map ul_used (snd start)))"
    unfolding sum using run_start by (simp add: accounts_def mhi_start_def)
  ultimately show ?case
    using run_start by (auto simp: mhi_start_def run_inv_def notified_def list_all_iff)
next
  case (run_queue_skb c chs h x dm de skb data len ret c' ch')
  then have q: "queued skb ret c (chs ! x) c' ch'"
    using mhi_queue_skb_ok [of "chs ! x" dm de skb data len c] by (auto simp: run_inv_def)
  have "run_inv (c', chs[x := ch']) (h(x := h x @ (if ret = 0 then [skb] else [])))"
    using run_queue_skb by (intro run_inv_move [OF _ _ queued_moves [OF q]]) auto
  then show ?case by (cases "ret = 0") (simp_all add: fun_upd_def)
next
  case (run_queue_buf c chs h x dm de buf len flags ret c' ch')
  then have q: "queued buf ret c (chs ! x) c' ch'"
    using mhi_queue_buf_ok [of "chs ! x" dm de buf len flags c] by (auto simp: run_inv_def)
  have "run_inv (c', chs[x := ch']) (h(x := h x @ (if ret = 0 then [buf] else [])))"
    using run_queue_buf by (intro run_inv_move [OF _ _ queued_moves [OF q]]) auto
  then show ?case by (cases "ret = 0") (simp_all add: fun_upd_def)
next
  case (run_event c chs h x event dm de c' ch')
  then have "chan_moves c (chs ! x) [] c' ch'"
    by (intro event_moves) (auto simp: run_inv_def)
  then show ?case using run_inv_move [of c chs h x "[]" c' ch'] run_event by simp
next
  case (run_reset c chs h x c' ch')
  then have "chan_moves c (chs ! x) [] c' ch'"
    by (intro reset_moves) (auto simp: run_inv_def)
  then show ?case using run_inv_move [of c chs h x "[]" c' ch'] run_reset by simp
next
  case (run_pm c chs h s)
  then show ?case by (simp add: run_inv_def notified_def)
qed


section \<open>An example channel\<close>

definition example_ring :: "u64 \<Rightarrow> u64 \<Rightarrow> mhi_ring" where
  "example_ring base el_size =
     \<lparr>ring_iommu_base = 0x80000000, ring_ctxt_wp = 0x80000000, ring_base = base, ring_rp = base,
      ring_wp = base, ring_el_size = el_size, ring_len = el_size * 3, ring_elements = 3\<rparr>"

definition example_buf :: mhi_buf_info where
  "example_buf = \<lparr>bi_p_addr = 0, bi_v_addr = 0, bi_bb_addr = 0, bi_wp = 0, bi_len = 0, bi_cb_buf = 0,
     bi_used = False, bi_pre_mapped = False, bi_dir = DMA_NONE\<rparr>"

definition example_tre :: mhi_tre where
  "example_tre = \<lparr>tre_ptr = 0, tre_dword0 = 0, tre_dword1 = 0\<rparr>"

definition example_chan :: mhi_chan where
  "example_chan =
     \<lparr>ch_chan = 0, ch_dir = DMA_TO_DEVICE, ch_buf_ring = example_ring 0x2000 72,
      ch_tre_ring = example_ring 0x1000 16,
      ch_bufs = [0x2000 \<mapsto> example_buf, 0x2048 \<mapsto> example_buf, 0x2090 \<mapsto> example_buf],
      ch_tres = [0x1000 \<mapsto> example_tre, 0x1010 \<mapsto> example_tre, 0x1020 \<mapsto> example_tre],
      ch_used_events = replicate 7 0, ch_intmod = 0, ch_brstmode = False, ch_db_mode = True,
      ch_db_val = 0, ch_ch_state = 1, ch_pre_alloc = False\<rparr>"

definition example_cntrl :: mhi_controller where
  "example_cntrl = \<lparr>mhi_pm_state = MHI_PM PM_M0, pending_pkts = 0, mhi_effects = []\<rparr>"

lemma example_ring_at: "ring_at (example_ring 0x1000 16) 3 0 0" "ring_at (example_ring 0x2000 72) 3 0 0"
  by (simp_all add: ring_at_def example_ring_def ring_slot_def)

lemma upto_3: "set [0..<3] = {0, 1, 2 :: nat}"
  by auto

lemma example_rings: "chan_rings example_chan 3 0 0"
  using example_ring_at
  by (simp add: chan_rings_def upto_3 buf_at_def del: set_upt)
     (simp add: example_chan_def example_ring_def ring_slot_def)

lemma example_ok: "chan_ok example_chan" "outstanding example_chan = []" "chan_n example_chan = 3"
  by (simp_all add: chan_ok_rings [OF example_rings] outstanding_rings [OF example_rings]
      chan_rings_index [OF example_rings] ring_count_def)

lemma example_start: "mhi_start (example_cntrl, [example_chan])"
  by (simp add: mhi_start_def example_ok example_cntrl_def) (simp add: example_chan_def)

text \<open>One packet queued on the example channel, and the event that completes it.\<close>

abbreviation example_map :: "mhi_buf_info \<Rightarrow> int \<times> mhi_buf_info" where
  "example_map \<equiv> mhi_map_single_no_bb (\<lambda>v_addr len dir. v_addr) (\<lambda>p_addr. False)"

definition example_queue :: "(int \<times> mhi_controller \<times> mhi_chan) option" where
  "example_queue = mhi_queue_skb example_map 0xAA 0xBB 60 example_cntrl example_chan"

definition example_event :: mhi_tre where
  "example_event = \<lparr>tre_ptr = 0x80000000, tre_dword0 = 0x0200003C, tre_dword1 = 0\<rparr>"

lemma example_queue_view:
  "map_option (\<lambda>(ret, c, ch). (ret, ch_ch_state ch, ring_rp (ch_tre_ring ch), ring_iommu_base (ch_tre_ring ch),
     ring_base (ch_tre_ring ch))) example_queue = Some (0, 1, 0x1000, 0x80000000, 0x1000)"
  by code_simp

lemma example_queue_ok:
  obtains c ch where "mhi_queue_skb example_map 0xAA 0xBB 60 example_cntrl example_chan = Some (0, c, ch)"
    and "queued 0xAA 0 example_cntrl example_chan c ch" and "ch_ch_state ch = 1"
    and "mhi_to_physical (ch_tre_ring ch) (ring_rp (ch_tre_ring ch)) = 0x80000000"
proof -
  obtain ret c ch where q: "mhi_queue_skb example_map 0xAA 0xBB 60 example_cntrl example_chan = Some (ret, c, ch)"
    "queued 0xAA ret example_cntrl example_chan c ch"
    using mhi_queue_skb_ok [OF example_ok(1)] by blast
  then show thesis
    using that example_queue_view by (auto simp: example_queue_def mhi_to_physical_def)
qed

lemma example_queued_facts:
  assumes "queued 0xAA 0 example_cntrl example_chan c ch"
  shows "chan_ok ch" "\<not> ch_pre_alloc ch" "map bi_cb_buf (outstanding ch) = [0xAA]" "ch_chan ch = 0"
    "notified 0 c = []" "bi_wp (outstanding ch ! 0) = ring_rp (ch_tre_ring ch)"
proof -
  show a: "chan_ok ch" "\<not> ch_pre_alloc ch" "map bi_cb_buf (outstanding ch) = [0xAA]" "ch_chan ch = 0"
    "notified 0 c = []"
    using assms
    by (simp_all add: queued_def same_chan_def example_ok)
       (simp_all add: example_chan_def example_cntrl_def notified_def)
  obtain n i j where r: "chan_rings ch n i j" using a(1) by (rule chan_okE)
  have "0 < chan_used ch" using arg_cong [OF a(3), of length] by simp
  then show "bi_wp (outstanding ch ! 0) = ring_rp (ch_tre_ring ch)"
    using outstanding_slot [OF a(1) r, of 0] ring_atD(5) [OF chan_ringsD(1) [OF r]] by simp
qed

theorem xfer_event_completes_witness:
  "\<exists>c ch c' ch'. mhi_queue_skb example_map 0xAA 0xBB 60 example_cntrl example_chan = Some (0, c, ch) \<and>
     parse_xfer_event example_map example_event c ch = Some (c', ch') \<and>
     outstanding ch' = [] \<and> map res_buf_addr (notified 0 c') = [0xAA] \<and>
     map res_bytes_xferd (notified 0 c') = [60]"
proof -
  obtain c ch where q: "mhi_queue_skb example_map 0xAA 0xBB 60 example_cntrl example_chan = Some (0, c, ch)"
    "queued 0xAA 0 example_cntrl example_chan c ch" "ch_ch_state ch = 1"
    "mhi_to_physical (ch_tre_ring ch) (ring_rp (ch_tre_ring ch)) = 0x80000000"
    by (rule example_queue_ok)
  note f = example_queued_facts [OF q(2)]
  obtain b where b: "outstanding ch = [b]" "bi_cb_buf b = 0xAA" using f(3) by auto
  show ?thesis
    using xfer_event_completes [OF f(1,2) q(3), of example_event 0 example_map c] f b q(1,4)
    by (auto simp: example_event_def)
qed

theorem xfer_event_beside_ring_witness:
  "parse_xfer_event example_map (example_event\<lparr>tre_ptr := 0x80000008\<rparr>) example_cntrl example_chan = None \<and>
   (\<exists>c' ch'. xfer_rounds example_map (example_event\<lparr>tre_ptr := 0x80000008\<rparr>) 5 (example_cntrl, example_chan) =
      Some (c', ch') \<and> length (notified (ch_chan example_chan) c') = 5)"
proof -
  have "notified (ch_chan example_chan) example_cntrl = []" by (simp add: notified_def example_cntrl_def)
  then show ?thesis
    using xfer_event_beside_ring [OF example_ok(1), of "example_event\<lparr>tre_ptr := 0x80000008\<rparr>" example_map
      example_cntrl 5]
    by (simp add: example_ok upto_3 del: set_upt)
       (simp add: example_event_def example_chan_def event_dev_rp_def mhi_to_virtual_def example_ring_def
          ring_slot_def)
qed

theorem reset_drains_witness:
  "\<exists>c ch c' ch'. mhi_queue_skb example_map 0xAA 0xBB 60 example_cntrl example_chan = Some (0, c, ch) \<and>
     mhi_reset_data_chan (c, ch) = Some (c', ch') \<and> outstanding ch' = [] \<and>
     map res_buf_addr (notified 0 c') = [0xAA]"
proof -
  obtain c ch where q: "mhi_queue_skb example_map 0xAA 0xBB 60 example_cntrl example_chan = Some (0, c, ch)"
    "queued 0xAA 0 example_cntrl example_chan c ch"
    by (rule example_queue_ok)
  note f = example_queued_facts [OF q(2)]
  show ?thesis using reset_drains [OF f(1,2), of c] f q(1) by auto
qed


end
