(* ===== verification/MbimMsg.thy ===== *)
theory MbimMsg
  imports ConnProps UserInput AtTok
begin

text \<open>
  MBIM messages of \<^verbatim>\<open>mbim-cm.c\<close>: UUIDs and their texts, UTF-16 strings, the composers, and the
  exchange of a request with the reader thread.  A message is its bytes: \<^verbatim>\<open>MBIM_MESSAGE_HEADER\<close> has its
  type, length and transaction id at 0, 4 and 8; a command has its service, CID, command type (a
  response its status), buffer length and buffer at 20, 36, 40, 44 and 48.  The host is little-endian,
  so \<^verbatim>\<open>htole32\<close> and \<^verbatim>\<open>le32toh\<close> are the identity.  Log output (\<^verbatim>\<open>mbim_dump\<close>) is left out.
\<close>

section \<open>UUIDs\<close>

text \<open>
  \<open>scan_bytes n\<close> is \<open>n\<close> conversions \<^verbatim>\<open>%02x\<close> of \<^verbatim>\<open>sscanf\<close> on pairs of hexadecimal digits, \<open>scan_groups\<close> the
  format with its dashes.  The texts scanned are the 36-character constants of the file; for a text of
  another form the code reads unset elements of \<^verbatim>\<open>d\<close> or writes behind \<^verbatim>\<open>tmp\<close>, and the result is \<open>None\<close>.
\<close>

fun scan_bytes :: "nat \<Rightarrow> string \<Rightarrow> (bytes \<times> string) option" where
  "scan_bytes 0 s = Some ([], s)"
| "scan_bytes (Suc n) (a # b # s) = do {
     x \<leftarrow> digit_val 16 a;
     y \<leftarrow> digit_val 16 b;
     (d, s) \<leftarrow> scan_bytes n s;
     Some (of_nat (16 * x + y) # d, s) }"
| "scan_bytes (Suc n) s = None"

fun scan_groups :: "nat list \<Rightarrow> string \<Rightarrow> bytes option" where
  "scan_groups [] s = Some []"
| "scan_groups [n] s = do { (d, _) \<leftarrow> scan_bytes n s; Some d }"
| "scan_groups (n # m # ns) s = do {
     (d, s) \<leftarrow> scan_bytes n s;
     case s of
       c # s \<Rightarrow> if c = CHR ''-'' then do { e \<leftarrow> scan_groups (m # ns) s; Some (d @ e) } else None
     | [] \<Rightarrow> None }"

definition uuid_groups :: "nat list" where "uuid_groups = [4, 2, 2, 2, 6]"

definition str2uuid :: "string \<Rightarrow> bytes option" where
  "str2uuid str =
     (if length str < 16 * 2 + 4 + 1 then scan_groups uuid_groups (map c_tolower str) else None)"

definition print_02x :: "u8 \<Rightarrow> string" where
  "print_02x b = [digit_char (unat b div 16), digit_char (unat b mod 16)]"

fun print_groups :: "nat list \<Rightarrow> bytes \<Rightarrow> string" where
  "print_groups [] d = []"
| "print_groups [n] d = concat (map print_02x (take n d))"
| "print_groups (n # m # ns) d =
     concat (map print_02x (take n d)) @ CHR ''-'' # print_groups (m # ns) (drop n d)"

definition uuid2str :: "bytes \<Rightarrow> string" where
  "uuid2str d = print_groups uuid_groups d"

definition UUID_BASIC_CONNECT :: string where
  "UUID_BASIC_CONNECT = ''a289cc33-bcbb-8b4f-b6b0-133ec2aae6df''"
definition UUID_BASIC_CONNECT_EXT :: string where
  "UUID_BASIC_CONNECT_EXT = ''3d01dcc5-fef5-4d05-0d3a-bef7058e9aaf''"
definition uuid_ext_qmux :: string where
  "uuid_ext_qmux = ''d1a30bc2-f97a-6e43-bf65-c7e24fb0f0d3''"
definition UUID_LIBMBIM_PROXY :: string where
  "UUID_LIBMBIM_PROXY = ''838cf7fb-8d0d-4d7f-871e-d71dbefbb39b''"
definition UUID_MBIMContextTypeInternet :: string where
  "UUID_MBIMContextTypeInternet = ''7E5E2A7E-4E6F-7272-736B-656E7E5E2A7E''"

text \<open>The UUIDs of the file.\<close>

lemma uuid_groups_Suc:
  "uuid_groups = [Suc (Suc (Suc (Suc 0))), Suc (Suc 0), Suc (Suc 0), Suc (Suc 0), Suc (Suc (Suc (Suc (Suc (Suc 0)))))]"
  by (simp add: uuid_groups_def)

lemma str2uuid_constants [code_unfold]:
  "str2uuid UUID_BASIC_CONNECT = Some [0xa2, 0x89, 0xcc, 0x33, 0xbc, 0xbb, 0x8b, 0x4f, 0xb6, 0xb0, 0x13, 0x3e, 0xc2, 0xaa, 0xe6, 0xdf]"
  "str2uuid UUID_BASIC_CONNECT_EXT = Some [0x3d, 0x01, 0xdc, 0xc5, 0xfe, 0xf5, 0x4d, 0x05, 0x0d, 0x3a, 0xbe, 0xf7, 0x05, 0x8e, 0x9a, 0xaf]"
  "str2uuid uuid_ext_qmux = Some [0xd1, 0xa3, 0x0b, 0xc2, 0xf9, 0x7a, 0x6e, 0x43, 0xbf, 0x65, 0xc7, 0xe2, 0x4f, 0xb0, 0xf0, 0xd3]"
  "str2uuid UUID_LIBMBIM_PROXY = Some [0x83, 0x8c, 0xf7, 0xfb, 0x8d, 0x0d, 0x4d, 0x7f, 0x87, 0x1e, 0xd7, 0x1d, 0xbe, 0xfb, 0xb3, 0x9b]"
  "str2uuid UUID_MBIMContextTypeInternet = Some [0x7e, 0x5e, 0x2a, 0x7e, 0x4e, 0x6f, 0x72, 0x72, 0x73, 0x6b, 0x65, 0x6e, 0x7e, 0x5e, 0x2a, 0x7e]"
  by (simp_all add: str2uuid_def uuid_groups_Suc c_tolower_def digit_val_def UUID_BASIC_CONNECT_def
      UUID_BASIC_CONNECT_EXT_def uuid_ext_qmux_def UUID_LIBMBIM_PROXY_def UUID_MBIMContextTypeInternet_def)

section \<open>Strings and addresses\<close>

text \<open>
  \<open>wchar2char\<close> reads the low bytes of the 16-bit characters at \<open>src\<close>, at most \<open>dst_len - 1\<close> of them;
  its result is what it stores before the NUL.  \<open>char2wchar\<close> stores at \<open>dst\<close> in \<open>buf\<close> and returns the
  number of bytes it stored.
\<close>

definition wchar2char :: "bytes \<Rightarrow> nat \<Rightarrow> nat \<Rightarrow> nat \<Rightarrow> bytes option" where
  "wchar2char m src src_size dst_len =
     those (map (\<lambda>i. rd8 m (src + 2 * i)) [0..<min (dst_len - 1) (src_size div 2)])"

definition wide :: "string \<Rightarrow> bytes" where
  "wide s = concat (map (\<lambda>c. [c, 0]) (cbytes s))"

definition char2wchar :: "string \<Rightarrow> nat \<Rightarrow> nat \<Rightarrow> bytes \<Rightarrow> (nat \<times> bytes) option" where
  "char2wchar src dst dst_len buf = do {
     let s = take (min (length src) (dst_len div 2)) src;
     buf \<leftarrow> poke dst (wide s) buf;
     Some (2 * length s, buf) }"

definition mbim2qmi_ipv4addr :: "u32 \<Rightarrow> u32" where
  "mbim2qmi_ipv4addr addr = drop_bit 24 addr OR (drop_bit 8 addr AND 0xff00)
     OR (push_bit 8 addr AND 0xff0000) OR push_bit 24 addr"

section \<open>State\<close>

text \<open>
  The static variables of the file.  \<open>s_tid_reader\<close> says whether the reader thread runs and
  \<open>qmi_over_mbim_sk\<close> whether the socket pair is open.  What the environment contributes is part of the
  state: \<open>mb_mallocs\<close> are the outcomes of the coming \<^verbatim>\<open>malloc\<close> calls (all succeed once the list is used
  up), \<open>mb_replies\<close> what happens to the coming requests, \<open>mb_garbage\<close> the content of memory the code
  has not initialised and \<open>mb_socketpair\<close> the result of \<^verbatim>\<open>socketpair\<close>; \<open>mb_sent\<close> logs the requests and
  \<open>mb_events\<close> the events for the main loop.  A reply is the result of \<^verbatim>\<open>write\<close> (\<open>None\<close> when all bytes are
  written), the messages (NULL: the device is gone) the reader thread hands to \<open>mbim_recv_command\<close>
  while the request waits, and the result of the wait when none of them signals it.
\<close>

record mbim_reply =
  write_result :: "int option"
  received :: "bytes option list"
  wait_result :: int

record mbim =
  mbim_fd :: int
  s_tid_reader :: bool
  mbim_TransactionId :: u32
  mbim_apn :: "string option"
  mbim_user :: "string option"
  mbim_pd :: "string option"
  mbim_iptype :: int
  mbim_auth :: int
  mbim_sessionID :: int
  mbim_pRequest :: "bytes option"
  mbim_pResponse :: "bytes option"
  qmi_over_mbim_support :: bool
  qmi_over_mbim_sk :: bool
  mbim_ms_version :: int
  mbim_open_state :: int
  ReadyState :: u32
  RegisterState :: u32
  PacketServiceState :: u32
  ActivationState :: u32
  oldReadyState :: u32
  oldRegisterState :: u32
  oldPacketServiceState :: u32
  oldActivationState :: u32
  mb_mallocs :: "bool list"
  mb_replies :: "mbim_reply list"
  mb_sent :: "bytes list"
  mb_events :: "cm_event list"
  mb_garbage :: "nat \<Rightarrow> u8"
  mb_socketpair :: bool

definition mbim_alloc :: "mbim \<Rightarrow> bool \<times> mbim" where
  "mbim_alloc st = (case mb_mallocs st of [] \<Rightarrow> True | b # _ \<Rightarrow> b, st\<lparr>mb_mallocs := tl (mb_mallocs st)\<rparr>)"

definition uninit :: "nat \<Rightarrow> mbim \<Rightarrow> bytes" where
  "uninit n st = map (mb_garbage st) [0..<n]"

section \<open>Composing requests\<close>

definition MBIM_OPEN_MSG :: u32 where "MBIM_OPEN_MSG = 1"
definition MBIM_CLOSE_MSG :: u32 where "MBIM_CLOSE_MSG = 2"
definition MBIM_COMMAND_MSG :: u32 where "MBIM_COMMAND_MSG = 3"
definition MBIM_OPEN_DONE :: u32 where "MBIM_OPEN_DONE = 0x80000001"
definition MBIM_CLOSE_DONE :: u32 where "MBIM_CLOSE_DONE = 0x80000002"
definition MBIM_COMMAND_DONE :: u32 where "MBIM_COMMAND_DONE = 0x80000003"
definition MBIM_FUNCTION_ERROR_MSG :: u32 where "MBIM_FUNCTION_ERROR_MSG = 0x80000004"
definition MBIM_INDICATE_STATUS_MSG :: u32 where "MBIM_INDICATE_STATUS_MSG = 0x80000007"

definition MBIM_CID_CMD_TYPE_QUERY :: u32 where "MBIM_CID_CMD_TYPE_QUERY = 0"
definition MBIM_CID_CMD_TYPE_SET :: u32 where "MBIM_CID_CMD_TYPE_SET = 1"

definition MBIM_CID_DEVICE_CAPS :: u32 where "MBIM_CID_DEVICE_CAPS = 1"
definition MBIM_CID_SUBSCRIBER_READY_STATUS :: u32 where "MBIM_CID_SUBSCRIBER_READY_STATUS = 2"
definition MBIM_CID_RADIO_STATE :: u32 where "MBIM_CID_RADIO_STATE = 3"
definition MBIM_CID_REGISTER_STATE :: u32 where "MBIM_CID_REGISTER_STATE = 9"
definition MBIM_CID_PACKET_SERVICE :: u32 where "MBIM_CID_PACKET_SERVICE = 10"
definition MBIM_CID_CONNECT :: u32 where "MBIM_CID_CONNECT = 12"
definition MBIM_CID_IP_CONFIGURATION :: u32 where "MBIM_CID_IP_CONFIGURATION = 15"
definition MBIM_CID_DEVICE_SERVICES :: u32 where "MBIM_CID_DEVICE_SERVICES = 16"
definition MBIM_CID_MS_VERSION :: u32 where "MBIM_CID_MS_VERSION = 15"
definition MBIM_CID_PROXY_CONTROL_CONFIGURATION :: u32 where "MBIM_CID_PROXY_CONTROL_CONFIGURATION = 1"

definition compose_open_command :: "u32 \<Rightarrow> mbim \<Rightarrow> bytes option \<times> mbim" where
  "compose_open_command MaxControlTransfer st =
     (case mbim_alloc st of (ok, st) \<Rightarrow>
        if \<not> ok then (None, st)
        else (Some (le32 MBIM_OPEN_MSG @ le32 16 @ le32 (mbim_TransactionId st) @ le32 MaxControlTransfer),
              st\<lparr>mbim_TransactionId := mbim_TransactionId st + 1\<rparr>))"

definition compose_close_command :: "mbim \<Rightarrow> bytes option \<times> mbim" where
  "compose_close_command st =
     (case mbim_alloc st of (ok, st) \<Rightarrow>
        if \<not> ok then (None, st)
        else (Some (le32 MBIM_CLOSE_MSG @ le32 12 @ le32 (mbim_TransactionId st)),
              st\<lparr>mbim_TransactionId := mbim_TransactionId st + 1\<rparr>))"

text \<open>
  \<open>pInformationBuffer\<close> is \<open>None\<close> for NULL; then the bytes behind the header stay as \<^verbatim>\<open>malloc\<close> left them.
  The result is \<open>None\<close> when \<^verbatim>\<open>memcpy\<close> reads behind the buffer.
\<close>

definition compose_basic_connect_command ::
  "u32 \<Rightarrow> u32 \<Rightarrow> bytes option \<Rightarrow> u32 \<Rightarrow> mbim \<Rightarrow> (bytes option \<times> mbim) option" where
  "compose_basic_connect_command CID CommandType pInformationBuffer InformationBufferLength st =
     (case mbim_alloc st of (ok, st) \<Rightarrow>
        if \<not> ok then Some (None, st)
        else do {
          uuid \<leftarrow> str2uuid UUID_BASIC_CONNECT;
          (len, info) \<leftarrow> (case pInformationBuffer of
              None \<Rightarrow> Some (0, uninit (unat InformationBufferLength) st)
            | Some b \<Rightarrow>
                if InformationBufferLength = 0 then Some (0, [])
                else do {
                  info \<leftarrow> rdn b 0 (unat InformationBufferLength);
                  Some (InformationBufferLength, info) });
          Some (Some (le32 MBIM_COMMAND_MSG @ le32 (48 + InformationBufferLength)
                        @ le32 (mbim_TransactionId st) @ le32 1 @ le32 0 @ uuid
                        @ le32 CID @ le32 CommandType @ le32 len @ info),
                st\<lparr>mbim_TransactionId := mbim_TransactionId st + 1\<rparr>) })"

text \<open>The composers for other services store their UUID over that of the basic service.\<close>

definition set_service :: "string \<Rightarrow> bytes option \<times> mbim \<Rightarrow> (bytes option \<times> mbim) option" where
  "set_service str r =
     (case r of
        (None, st) \<Rightarrow> Some (None, st)
      | (Some m, st) \<Rightarrow> do {
          uuid \<leftarrow> str2uuid str;
          m \<leftarrow> poke 20 uuid m;
          Some (Some m, st) })"

definition compose_basic_connect_ext_command ::
  "u32 \<Rightarrow> u32 \<Rightarrow> bytes option \<Rightarrow> u32 \<Rightarrow> mbim \<Rightarrow> (bytes option \<times> mbim) option" where
  "compose_basic_connect_ext_command CID CommandType pInformationBuffer InformationBufferLength st = do {
     r \<leftarrow> compose_basic_connect_command CID CommandType pInformationBuffer InformationBufferLength st;
     set_service UUID_BASIC_CONNECT_EXT r }"

definition compose_qmi_over_mbim_command ::
  "u32 \<Rightarrow> u32 \<Rightarrow> bytes option \<Rightarrow> u32 \<Rightarrow> mbim \<Rightarrow> (bytes option \<times> mbim) option" where
  "compose_qmi_over_mbim_command CID CommandType pInformationBuffer InformationBufferLength st = do {
     r \<leftarrow> compose_basic_connect_command CID CommandType pInformationBuffer InformationBufferLength st;
     set_service uuid_ext_qmux r }"

section \<open>The reader's side\<close>

text \<open>
  Indications carry their buffer length and buffer at 40 and 44.
\<close>

definition send_event_to_main :: "cm_event \<Rightarrow> mbim \<Rightarrow> mbim" where
  "send_event_to_main e st = st\<lparr>mb_events := mb_events st @ [e]\<rparr>"

definition recv_indicate_status :: "bytes \<Rightarrow> mbim \<Rightarrow> mbim option" where
  "recv_indicate_status m st = do {
     uuid \<leftarrow> rdn m 20 16;
     basic \<leftarrow> str2uuid UUID_BASIC_CONNECT;
     if uuid \<noteq> basic then Some st
     else do {
       cid \<leftarrow> rd32 m 36;
       if cid = MBIM_CID_SUBSCRIBER_READY_STATUS then do {
         s \<leftarrow> rd32 m 44;
         Some (if oldReadyState st \<noteq> s
               then send_event_to_main RIL_UNSOL_RESPONSE_VOICE_NETWORK_STATE_CHANGED st else st) }
       else if cid = MBIM_CID_REGISTER_STATE then do {
         s \<leftarrow> rd32 m 48;
         Some (if oldRegisterState st \<noteq> s
               then send_event_to_main RIL_UNSOL_RESPONSE_VOICE_NETWORK_STATE_CHANGED st else st) }
       else if cid = MBIM_CID_PACKET_SERVICE then do {
         s \<leftarrow> rd32 m 48;
         Some (if oldPacketServiceState st \<noteq> s
               then send_event_to_main RIL_UNSOL_RESPONSE_VOICE_NETWORK_STATE_CHANGED st else st) }
       else if cid = MBIM_CID_CONNECT then do {
         sid \<leftarrow> rd32 m 44;
         if sid = word_of_int (mbim_sessionID st) then do {
           s \<leftarrow> rd32 m 48;
           Some (if oldActivationState st \<noteq> s
                 then send_event_to_main RIL_UNSOL_DATA_CALL_LIST_CHANGED st else st) }
         else Some st }
       else Some st } }"

text \<open>
  \<open>m\<close> is the content of \<^verbatim>\<open>cm_recv_buf\<close>, whose old bytes stay behind a short read; the length the message
  states is not compared with the length of the read.  The flag says whether the waiting request is
  signalled.
\<close>

definition mbim_recv_command :: "bytes option \<Rightarrow> mbim \<Rightarrow> (bool \<times> mbim) option" where
  "mbim_recv_command pResponse st =
     (case pResponse of
        None \<Rightarrow> Some (True, st)
      | Some m \<Rightarrow> do {
          tid \<leftarrow> rd32 m 8;
          answer \<leftarrow> (case mbim_pRequest st of
              None \<Rightarrow> Some False
            | Some r \<Rightarrow> do { t \<leftarrow> rd32 r 8; Some (t = tid) });
          if answer then do {
            len \<leftarrow> rd32 m 4;
            let (ok, st) = mbim_alloc st;
            if ok then do {
              d \<leftarrow> rdn m 0 (unat len);
              Some (True, st\<lparr>mbim_pResponse := Some d\<rparr>) }
            else Some (True, st\<lparr>mbim_pResponse := None\<rparr>) }
          else do {
            ty \<leftarrow> rd32 m 0;
            if ty = MBIM_INDICATE_STATUS_MSG then do {
              st \<leftarrow> recv_indicate_status m st;
              Some (False, st) }
            else Some (False, st) } })"

section \<open>Sending a request\<close>

fun mbim_wait :: "bytes option list \<Rightarrow> int \<Rightarrow> mbim \<Rightarrow> (int \<times> mbim) option" where
  "mbim_wait [] ret st = Some (ret, st)"
| "mbim_wait (m # ms) ret st = do {
     (signalled, st) \<leftarrow> mbim_recv_command m st;
     if signalled then Some (0, st) else mbim_wait ms ret st }"

definition next_reply :: "mbim \<Rightarrow> mbim_reply \<times> mbim" where
  "next_reply st =
     (case mb_replies st of
        [] \<Rightarrow> (\<lparr>write_result = None, received = [], wait_result = ETIMEDOUT\<rparr>, st)
      | r # rs \<Rightarrow> (r, st\<lparr>mb_replies := rs\<rparr>))"

definition ENOMEM :: int where "ENOMEM = 12"

text \<open>The transaction id is replaced when it has grown into the byte in which the proxy keeps the client.\<close>

definition renumber :: "bytes \<Rightarrow> mbim \<Rightarrow> (bytes \<times> mbim) option" where
  "renumber m st = do {
     tid \<leftarrow> rd32 m 8;
     if tid = 0xFFFFFF + 1 then do {
       m \<leftarrow> poke 8 (le32 1) m;
       Some (m, st\<lparr>mbim_TransactionId := 2\<rparr>) }
     else Some (m, st) }"

definition mbim_send_command :: "bytes option \<Rightarrow> mbim \<Rightarrow> (int \<times> bytes option \<times> mbim) option" where
  "mbim_send_command pRequest st =
     (if mbim_fd st \<le> 0 then Some (- ENODEV, None, st)
      else if \<not> s_tid_reader st then Some (- EINVAL, None, st)
      else case pRequest of
        None \<Rightarrow> Some (- ENOMEM, None, st)
      | Some m \<Rightarrow> do {
          (m, st) \<leftarrow> renumber m st;
          let st = st\<lparr>mbim_pRequest := Some m, mbim_pResponse := None\<rparr>;
          len \<leftarrow> rd32 m 4;
          out \<leftarrow> rdn m 0 (unat len);
          let (r, st) = next_reply (st\<lparr>mb_sent := mb_sent st @ [out]\<rparr>);
          let ret = (case write_result r of None \<Rightarrow> uint len | Some n \<Rightarrow> n);
          (ret, st) \<leftarrow> (if ret > 0 \<and> ret = uint len then mbim_wait (received r) (wait_result r) st
                       else Some (ret, st));
          let done = (if ret = 0 then mbim_pResponse st else None);
          Some (ret, done, st\<lparr>mbim_pRequest := None, mbim_pResponse := None\<rparr>) })"

definition MBIM_ERROR_NOT_OPENED :: int where "MBIM_ERROR_NOT_OPENED = 5"

definition mbim_status_code :: "bytes option \<Rightarrow> mbim \<Rightarrow> (int \<times> mbim) option" where
  "mbim_status_code pMsgHdr st =
     (case pMsgHdr of
        None \<Rightarrow> Some (0, st)
      | Some m \<Rightarrow> do {
          ty \<leftarrow> rd32 m 0;
          if ty = MBIM_OPEN_DONE \<or> ty = MBIM_CLOSE_DONE then do { s \<leftarrow> rd32 m 12; Some (sint s, st) }
          else if ty = MBIM_COMMAND_DONE then do { s \<leftarrow> rd32 m 40; Some (sint s, st) }
          else if ty = MBIM_FUNCTION_ERROR_MSG then do {
            s \<leftarrow> rd32 m 12;
            Some (sint s, if sint s = MBIM_ERROR_NOT_OPENED then st\<lparr>mbim_open_state := 0\<rparr> else st) }
          else Some (0, st) })"

text \<open>\<open>Inl err\<close> is the early return of the macro, \<open>Inr m\<close> goes on with the response.\<close>

definition mbim_check_err :: "int \<Rightarrow> bytes option \<Rightarrow> mbim \<Rightarrow> ((int + bytes) \<times> mbim) option" where
  "mbim_check_err err pCmdDone st = do {
     (status, st) \<leftarrow> mbim_status_code pCmdDone st;
     Some (case pCmdDone of
             None \<Rightarrow> (Inl (if err \<noteq> 0 then err else if status \<noteq> 0 then status else 8888), st)
           | Some m \<Rightarrow> (if err \<noteq> 0 then Inl err else if status \<noteq> 0 then Inl status else Inr m, st)) }"

definition mbim_call :: "bytes option \<Rightarrow> mbim \<Rightarrow> ((int + bytes) \<times> mbim) option" where
  "mbim_call pRequest st = do {
     (err, pCmdDone, st) \<leftarrow> mbim_send_command pRequest st;
     mbim_check_err err pCmdDone st }"

end
