(* ===== verification/Mbim.thy ===== *)
theory Mbim
  imports MbimMsg
begin

text \<open>
  The MBIM backend of the connection manager: the requests of \<^verbatim>\<open>mbim-cm.c\<close>, its tables
  \<^verbatim>\<open>mbim_request_ops\<close> and \<^verbatim>\<open>mbim_dev_ops\<close>, and one round of its reader thread.
\<close>

section \<open>The states of the modem\<close>

definition mbim_update_state :: "mbim \<Rightarrow> int \<times> mbim" where
  "mbim_update_state st =
     ((if oldReadyState st \<noteq> ReadyState st then 1 else 0)
      + (if oldRegisterState st \<noteq> RegisterState st then 1 else 0)
      + (if oldPacketServiceState st \<noteq> PacketServiceState st then 1 else 0)
      + (if oldActivationState st \<noteq> ActivationState st then 1 else 0),
      st\<lparr>oldReadyState := ReadyState st, oldRegisterState := RegisterState st,
         oldPacketServiceState := PacketServiceState st, oldActivationState := ActivationState st\<rparr>)"

abbreviation updated :: "mbim \<Rightarrow> mbim" where
  "updated st \<equiv> snd (mbim_update_state st)"

section \<open>Opening and closing\<close>

definition mbim_open_device :: "u32 \<Rightarrow> mbim \<Rightarrow> (int \<times> mbim) option" where
  "mbim_open_device MaxControlTransfer st = do {
     let (pRequest, st) = compose_open_command MaxControlTransfer st;
     (r, st) \<leftarrow> mbim_call pRequest st;
     case r of
       Inl err \<Rightarrow> Some (err, st)
     | Inr m \<Rightarrow> do { s \<leftarrow> rd32 m 12; Some (sint s, st) } }"

definition mbim_close_device :: "mbim \<Rightarrow> (int \<times> mbim) option" where
  "mbim_close_device st = do {
     let (pRequest, st) = compose_close_command st;
     (r, st) \<leftarrow> mbim_call pRequest st;
     case r of
       Inl err \<Rightarrow> Some (err, st)
     | Inr m \<Rightarrow> do { s \<leftarrow> rd32 m 12; Some (sint s, st) } }"

section \<open>Queries\<close>

text \<open>
  The pattern of the commands: compose, send, check, and read the buffer of the response when it
  says it has one.  \<open>k\<close> is what the command does with the response \<open>m\<close>, whose buffer begins at 48.
\<close>

definition basic_command ::
  "u32 \<Rightarrow> u32 \<Rightarrow> bytes option \<Rightarrow> u32 \<Rightarrow> (bytes \<Rightarrow> mbim \<Rightarrow> mbim option) \<Rightarrow> mbim \<Rightarrow> (int \<times> mbim) option" where
  "basic_command cid ty info len k st = do {
     (pRequest, st) \<leftarrow> compose_basic_connect_command cid ty info len st;
     (r, st) \<leftarrow> mbim_call pRequest st;
     case r of
       Inl err \<Rightarrow> Some (err, st)
     | Inr m \<Rightarrow> do {
         n \<leftarrow> rd32 m 44;
         st \<leftarrow> (if n \<noteq> 0 then k m st else Some st);
         Some (0, st) } }"

definition mbim_query_connect :: "int \<Rightarrow> mbim \<Rightarrow> (int \<times> mbim) option" where
  "mbim_query_connect sessionID st =
     basic_command MBIM_CID_CONNECT MBIM_CID_CMD_TYPE_QUERY
       (Some (le32 (word_of_int sessionID) @ uninit 56 st)) 60
       (\<lambda>m st. do {
          s \<leftarrow> rd32 m (48 + 4);
          Some (updated (st\<lparr>ActivationState := s\<rparr>)) }) st"

definition mbim_ms_version_query :: "mbim \<Rightarrow> (int \<times> mbim) option" where
  "mbim_ms_version_query st = do {
     (pRequest, st) \<leftarrow> compose_basic_connect_ext_command MBIM_CID_MS_VERSION MBIM_CID_CMD_TYPE_QUERY
       (Some [0, 1, 0, 2]) 4 st;
     (r, st) \<leftarrow> mbim_call pRequest st;
     case r of
       Inl err \<Rightarrow> Some (err, st)
     | Inr m \<Rightarrow> do {
         n \<leftarrow> rd32 m 44;
         if n \<noteq> 0 then do {
           v \<leftarrow> rd8 m (48 + 3);
           Some (0, st\<lparr>mbim_ms_version := uint v\<rparr>) }
         else Some (0, st) } }"

text \<open>
  The services of the device: \<open>cid_loop\<close> looks through the \<open>n\<close> CIDs at \<open>p\<close>, \<open>service_loop\<close> through the
  \<open>n\<close> references at \<open>p\<close>, each of which leads to an element with its UUID, CID count and CIDs at 0, 24
  and 28.
\<close>

fun cid_loop :: "bytes \<Rightarrow> nat \<Rightarrow> nat \<Rightarrow> bool \<Rightarrow> bool option" where
  "cid_loop m p 0 v2 = Some v2"
| "cid_loop m p (Suc n) v2 = do {
     cid \<leftarrow> rd32 m p;
     cid_loop m (p + 4) n (v2 \<or> cid = MBIM_CID_MS_VERSION) }"

fun service_loop :: "bytes \<Rightarrow> nat \<Rightarrow> nat \<Rightarrow> bool \<times> bool \<Rightarrow> (bool \<times> bool) option" where
  "service_loop m p 0 found = Some found"
| "service_loop m p (Suc n) (v2, qmi) = do {
     offset \<leftarrow> rd32 m p;
     let e = 48 + unat offset;
     uuid \<leftarrow> rdn m e 16;
     found \<leftarrow> (if strcaseeq UUID_BASIC_CONNECT_EXT (uuid2str uuid) then do {
                 count \<leftarrow> rd32 m (e + 24);
                 v2 \<leftarrow> cid_loop m (e + 28) (unat count) v2;
                 Some (v2, qmi) }
               else Some (v2, qmi \<or> strcaseeq uuid_ext_qmux (uuid2str uuid)));
     service_loop m (p + 8) n found }"

definition mbim_device_services_query :: "mbim \<Rightarrow> (int \<times> mbim) option" where
  "mbim_device_services_query st = do {
     (pRequest, st) \<leftarrow> compose_basic_connect_command MBIM_CID_DEVICE_SERVICES MBIM_CID_CMD_TYPE_QUERY None 0 st;
     (r, st) \<leftarrow> mbim_call pRequest st;
     case r of
       Inl err \<Rightarrow> Some (err, st)
     | Inr m \<Rightarrow> do {
         n \<leftarrow> rd32 m 44;
         (v2, qmi) \<leftarrow> (if n \<noteq> 0 then do {
                        count \<leftarrow> rd32 m 48;
                        service_loop m (48 + 8) (unat count) (False, qmi_over_mbim_support st) }
                      else Some (False, qmi_over_mbim_support st));
         let st = st\<lparr>qmi_over_mbim_support := qmi\<rparr>;
         if v2 then do { (_, st) \<leftarrow> mbim_ms_version_query st; Some (0, st) }
         else Some (0, st) } }"

text \<open>The C string that the low bytes of a UTF-16 text give in the 32-byte buffer \<^verbatim>\<open>tmp\<close>.\<close>

definition text_at :: "bytes \<Rightarrow> nat \<Rightarrow> nat \<Rightarrow> string option" where
  "text_at m off_at size_at = do {
     off \<leftarrow> rd32 m off_at;
     size \<leftarrow> rd32 m size_at;
     d \<leftarrow> wchar2char m (48 + unat off) (unat size) 32;
     Some (map (\<lambda>b. char_of (unat b)) (takeWhile (\<lambda>b. b \<noteq> 0) d)) }"

definition text_at_unless_empty :: "bytes \<Rightarrow> nat \<Rightarrow> nat \<Rightarrow> string option option" where
  "text_at_unless_empty m off_at size_at = do {
     off \<leftarrow> rd32 m off_at;
     size \<leftarrow> (if off \<noteq> 0 then rd32 m size_at else Some 0);
     if off \<noteq> 0 \<and> size \<noteq> 0 then map_option Some (text_at m off_at size_at) else Some None }"

definition mbim_device_caps_query :: "profile \<Rightarrow> mbim \<Rightarrow> (int \<times> profile \<times> mbim) option" where
  "mbim_device_caps_query profile st = do {
     (pRequest, st) \<leftarrow> compose_basic_connect_command MBIM_CID_DEVICE_CAPS MBIM_CID_CMD_TYPE_QUERY None 0 st;
     (r, st) \<leftarrow> mbim_call pRequest st;
     case r of
       Inl err \<Rightarrow> Some (err, profile, st)
     | Inr m \<Rightarrow> do {
         n \<leftarrow> rd32 m 44;
         if n = 0 then Some (0, profile, st)
         else do {
           _ \<leftarrow> text_at_unless_empty m (48 + 40) (48 + 44);
           fw \<leftarrow> text_at_unless_empty m (48 + 48) (48 + 52);
           let profile = (case fw of None \<Rightarrow> profile | Some s \<Rightarrow> profile\<lparr>BaseBandVersion := s\<rparr>);
           _ \<leftarrow> text_at_unless_empty m (48 + 56) (48 + 60);
           Some (0, profile, st) } } }"

definition MBIMRadioOn :: u32 where "MBIMRadioOn = 1"

definition mbim_set_radio_state :: "u32 \<Rightarrow> mbim \<Rightarrow> (int \<times> mbim) option" where
  "mbim_set_radio_state RadioState st =
     basic_command MBIM_CID_RADIO_STATE MBIM_CID_CMD_TYPE_SET (Some (le32 RadioState)) 4
       (\<lambda>m st. do {
          _ \<leftarrow> rd32 m 48;
          _ \<leftarrow> rd32 m (48 + 4);
          Some st }) st"

definition mbim_subscriber_status_query :: "mbim \<Rightarrow> (int \<times> mbim) option" where
  "mbim_subscriber_status_query st =
     basic_command MBIM_CID_SUBSCRIBER_READY_STATUS MBIM_CID_CMD_TYPE_QUERY None 0
       (\<lambda>m st. do {
          _ \<leftarrow> text_at m (48 + 4) (48 + 8);
          _ \<leftarrow> text_at m (48 + 12) (48 + 16);
          s \<leftarrow> rd32 m 48;
          Some (updated (st\<lparr>ReadyState := s\<rparr>)) }) st"

definition mbim_register_state_query :: "mbim \<Rightarrow> (int \<times> mbim) option" where
  "mbim_register_state_query st =
     basic_command MBIM_CID_REGISTER_STATE MBIM_CID_CMD_TYPE_QUERY None 0
       (\<lambda>m st. do {
          s \<leftarrow> rd32 m (48 + 4);
          Some (updated (st\<lparr>RegisterState := s\<rparr>)) }) st"

definition mbim_packet_service_query :: "mbim \<Rightarrow> (int \<times> mbim) option" where
  "mbim_packet_service_query st =
     basic_command MBIM_CID_PACKET_SERVICE MBIM_CID_CMD_TYPE_QUERY None 0
       (\<lambda>m st. do {
          s \<leftarrow> rd32 m (48 + 4);
          let st = updated (st\<lparr>PacketServiceState := s\<rparr>);
          n \<leftarrow> rd32 m 44;
          _ \<leftarrow> (if n = 32 then rd32 m (48 + 8) else Some 0);
          Some st }) st"

definition MBIMPacketServiceActionAttach :: u32 where "MBIMPacketServiceActionAttach = 0"

definition mbim_packet_service_set :: "u32 \<Rightarrow> mbim \<Rightarrow> (int \<times> mbim) option" where
  "mbim_packet_service_set action st =
     basic_command MBIM_CID_PACKET_SERVICE MBIM_CID_CMD_TYPE_SET (Some (le32 action)) 4
       (\<lambda>m st. do {
          s \<leftarrow> rd32 m (48 + 4);
          Some (updated (st\<lparr>PacketServiceState := s\<rparr>)) }) st"

section \<open>The connect request\<close>

definition align_32 :: "nat \<Rightarrow> nat" where
  "align_32 len = len + (if len mod 4 \<noteq> 0 then 4 - len mod 4 else 0)"

text \<open>
  The three strings are stored by the same code: the size and the offset of the string in the
  structure, the UTF-16 text behind its 60 bytes.  As in the code, the new \<open>offset\<close> is the number of
  bytes of this string.
\<close>

definition put_string ::
  "nat \<Rightarrow> nat \<Rightarrow> string option \<Rightarrow> nat \<Rightarrow> nat \<times> bytes \<Rightarrow> (nat \<times> bytes) option" where
  "put_string offset_at size_at s buflen r =
     (case r of (offset, b) \<Rightarrow>
      case s of
        None \<Rightarrow> Some (offset, b)
      | Some s \<Rightarrow>
          if s = [] then Some (offset, b)
          else do {
            b \<leftarrow> poke size_at (le32 (of_nat (2 * length s))) b;
            b \<leftarrow> poke offset_at (le32 (of_nat (offset + 60))) b;
            (offset, b) \<leftarrow> char2wchar s (60 + offset) (buflen - offset) b;
            Some (align_32 offset, b) })"

definition string_size :: "string option \<Rightarrow> nat" where
  "string_size s = (case s of None \<Rightarrow> 0 | Some t \<Rightarrow> 2 * length t)"

definition mbim_populate_connect_data :: "mbim \<Rightarrow> ((nat \<times> bytes) option \<times> mbim) option" where
  "mbim_populate_connect_data st = do {
     let buflen = align_32 (string_size (mbim_apn st));
     let buflen = align_32 (buflen + string_size (mbim_user st));
     let buflen = align_32 (buflen + string_size (mbim_pd st));
     let (ok, st) = mbim_alloc st;
     if \<not> ok then Some (None, st)
     else do {
       let b = replicate (60 + buflen) 0;
       r \<leftarrow> put_string 8 12 (mbim_apn st) buflen (0, b);
       r \<leftarrow> put_string 16 20 (mbim_user st) buflen r;
       (_, b) \<leftarrow> put_string 24 28 (mbim_pd st) buflen r;
       Some (Some (buflen, b), st) } }"

definition fill_connect :: "int \<Rightarrow> int \<Rightarrow> mbim \<Rightarrow> bytes \<Rightarrow> bytes option" where
  "fill_connect onoff sessionID st b = do {
     b \<leftarrow> poke 0 (le32 (word_of_int sessionID)) b;
     b \<leftarrow> poke 4 (le32 (if onoff = 0 then 0 else 1)) b;
     b \<leftarrow> poke 32 (le32 0) b;
     b \<leftarrow> poke 36 (le32 (word_of_int (mbim_auth st))) b;
     b \<leftarrow> poke 40 (le32 (word_of_int (mbim_iptype st))) b;
     uuid \<leftarrow> str2uuid UUID_MBIMContextTypeInternet;
     poke 44 uuid b }"

definition mbim_set_connect :: "int \<Rightarrow> int \<Rightarrow> mbim \<Rightarrow> (int \<times> mbim) option" where
  "mbim_set_connect onoff sessionID st = do {
     (r, st) \<leftarrow> mbim_populate_connect_data st;
     case r of
       None \<Rightarrow> Some (ENOMEM, st)
     | Some (buflen, b) \<Rightarrow> do {
         b \<leftarrow> fill_connect onoff sessionID st b;
         basic_command MBIM_CID_CONNECT MBIM_CID_CMD_TYPE_SET (Some b) (of_nat (60 + buflen))
           (\<lambda>m st. do {
              s \<leftarrow> rd32 m (48 + 4);
              Some (updated (st\<lparr>ActivationState := s\<rparr>)) }) st } }"

section \<open>The IP configuration\<close>

text \<open>
  The addresses are read where the offsets of the response lead; \<open>None\<close> also stands for a shift by 32
  or more, which the prefix lengths outside 1 to 32 ask for.
\<close>

definition subnet_mask :: "u8 \<Rightarrow> u32 option" where
  "subnet_mask prefix =
     (if 1 \<le> prefix \<and> prefix \<le> 32
      then Some (push_bit (32 - unat prefix) (drop_bit (32 - unat prefix) 0xFFFFFFFF)) else None)"

definition ip_config_v4 :: "bytes \<Rightarrow> profile \<Rightarrow> (u32 \<times> profile) option" where
  "ip_config_v4 m profile = do {
     avail \<leftarrow> rd32 m (48 + 4);
     if avail AND 0x1 = 0 then Some (1500, profile)
     else do {
       off \<leftarrow> rd32 m (48 + 16);
       plen \<leftarrow> rd32 m (48 + unat off);
       let prefix = (ucast plen :: u8);
       gw \<leftarrow> (if avail AND 0x2 \<noteq> 0 then do { g \<leftarrow> rd32 m (48 + 28); Some (Some (48 + unat g)) } else Some None);
       dns \<leftarrow> (if avail AND 0x4 \<noteq> 0 then do { d \<leftarrow> rd32 m (48 + 40); Some (Some (48 + unat d)) } else Some None);
       count \<leftarrow> (if avail AND 0x4 \<noteq> 0 then rd32 m (48 + 36) else Some 0);
       mtu \<leftarrow> (if avail AND 0x8 \<noteq> 0 then rd32 m (48 + 52) else Some 1500);
       a \<leftarrow> rd32 m (48 + unat off + 4);
       let v4 = (ipv4 profile)\<lparr>v4_Address := mbim2qmi_ipv4addr a\<rparr>;
       v4 \<leftarrow> (case gw of
           None \<Rightarrow> Some v4
         | Some p \<Rightarrow> do { g \<leftarrow> rd32 m p; Some (v4\<lparr>v4_Gateway := mbim2qmi_ipv4addr g\<rparr>) });
       mask \<leftarrow> subnet_mask prefix;
       let v4 = v4\<lparr>v4_SubnetMask := mbim2qmi_ipv4addr mask\<rparr>;
       v4 \<leftarrow> (case dns of
           None \<Rightarrow> Some v4
         | Some p \<Rightarrow> do { d \<leftarrow> rd32 m p; Some (v4\<lparr>v4_DnsPrimary := mbim2qmi_ipv4addr d\<rparr>) });
       v4 \<leftarrow> (case dns of
           None \<Rightarrow> Some v4
         | Some p \<Rightarrow> if count = 2
             then do { d \<leftarrow> rd32 m (p + 4); Some (v4\<lparr>v4_DnsSecondary := mbim2qmi_ipv4addr d\<rparr>) } else Some v4);
       Some (mtu, profile\<lparr>ipv4 := v4\<lparr>v4_Mtu := mbim2qmi_ipv4addr mtu\<rparr>\<rparr>) } }"

definition ip_config_v6 :: "bytes \<Rightarrow> u32 \<Rightarrow> profile \<Rightarrow> profile option" where
  "ip_config_v6 m mtu profile = do {
     avail \<leftarrow> rd32 m (48 + 8);
     if avail AND 0x1 = 0 then Some profile
     else do {
       off \<leftarrow> rd32 m (48 + 24);
       plen \<leftarrow> rd32 m (48 + unat off);
       let prefix = (ucast plen :: u8);
       gw \<leftarrow> (if avail AND 0x2 \<noteq> 0 then do { g \<leftarrow> rd32 m (48 + 32); Some (Some (48 + unat g)) } else Some None);
       dns \<leftarrow> (if avail AND 0x4 \<noteq> 0 then do { d \<leftarrow> rd32 m (48 + 48); Some (Some (48 + unat d)) } else Some None);
       count \<leftarrow> (if avail AND 0x4 \<noteq> 0 then rd32 m (48 + 44) else Some 0);
       mtu \<leftarrow> (if avail AND 0x8 \<noteq> 0 then rd32 m (48 + 56) else Some mtu);
       a \<leftarrow> rdn m (48 + unat off + 4) 16;
       let v6 = (ipv6 profile)\<lparr>v6_Address := a\<rparr>;
       v6 \<leftarrow> (case gw of
           None \<Rightarrow> Some v6
         | Some p \<Rightarrow> do { g \<leftarrow> rdn m p 16; Some (v6\<lparr>v6_Gateway := g\<rparr>) });
       v6 \<leftarrow> (case dns of
           None \<Rightarrow> Some v6
         | Some p \<Rightarrow> do { d \<leftarrow> rdn m p 16; Some (v6\<lparr>v6_DnsPrimary := d\<rparr>) });
       v6 \<leftarrow> (case dns of
           None \<Rightarrow> Some v6
         | Some p \<Rightarrow> if count = 2 then do { d \<leftarrow> rdn m (p + 16) 16; Some (v6\<lparr>v6_DnsSecondary := d\<rparr>) } else Some v6);
       Some (profile\<lparr>ipv6 := v6\<lparr>v6_PrefixLengthIPAddr := prefix, v6_PrefixLengthGateway := prefix,
               v6_Mtu := mbim2qmi_ipv4addr mtu\<rparr>\<rparr>) } }"

definition mbim_ip_config :: "profile \<Rightarrow> int \<Rightarrow> mbim \<Rightarrow> (int \<times> profile \<times> mbim) option" where
  "mbim_ip_config profile sessionID st = do {
     (pRequest, st) \<leftarrow> compose_basic_connect_command MBIM_CID_IP_CONFIGURATION MBIM_CID_CMD_TYPE_QUERY
       (Some (le32 (word_of_int sessionID) @ uninit 56 st)) 60 st;
     (r, st) \<leftarrow> mbim_call pRequest st;
     case r of
       Inl err \<Rightarrow> Some (err, profile, st)
     | Inr m \<Rightarrow> do {
         n \<leftarrow> rd32 m 44;
         if n = 0 then Some (0, profile, st)
         else do {
           (mtu, profile) \<leftarrow> ip_config_v4 m profile;
           profile \<leftarrow> ip_config_v6 m mtu profile;
           Some (0, profile, st) } } }"

section \<open>Start and end\<close>

definition mbim_proxy_configure :: "string \<Rightarrow> mbim \<Rightarrow> (int \<times> mbim) option" where
  "mbim_proxy_configure dev st = do {
     (pRequest, st) \<leftarrow> compose_basic_connect_command MBIM_CID_PROXY_CONTROL_CONFIGURATION
       MBIM_CID_CMD_TYPE_SET None (of_nat (12 + length dev * 2)) st;
     pRequest \<leftarrow> (case pRequest of
         None \<Rightarrow> Some None
       | Some m \<Rightarrow> do {
           uuid \<leftarrow> str2uuid UUID_LIBMBIM_PROXY;
           m \<leftarrow> poke 20 uuid m;
           m \<leftarrow> poke 48 (le32 12) m;
           (n, m) \<leftarrow> char2wchar dev 60 (length dev * 2) m;
           m \<leftarrow> poke 52 (le32 (of_nat n)) m;
           m \<leftarrow> poke 56 (le32 15) m;
           Some (Some m) });
     (r, st) \<leftarrow> mbim_call pRequest st;
     case r of Inl err \<Rightarrow> Some (err, st) | Inr m \<Rightarrow> Some (0, st) }"

fun open_loop :: "nat \<Rightarrow> int \<Rightarrow> mbim \<Rightarrow> (int \<times> mbim) option" where
  "open_loop 0 retval st = Some (retval, st)"
| "open_loop (Suc n) retval st = do {
     (retval, st) \<leftarrow> mbim_open_device 4096 st;
     if retval \<noteq> ETIMEDOUT then Some (retval, st) else open_loop n retval st }"

definition LIBMBIM_PROXY :: string where "LIBMBIM_PROXY = ''mbim-proxy''"

text \<open>
  \<open>qmichannel\<close> is the path of the device.  The client of QMI over MBIM is part of \<^verbatim>\<open>CONFIG_CELLINFO\<close>,
  which \<^verbatim>\<open>QMIThread.h\<close> does not define, so \<^verbatim>\<open>qmi_over_mbim_nas\<close> stays 0.
\<close>

definition mbim_init :: "string \<Rightarrow> profile \<Rightarrow> mbim \<Rightarrow> (int \<times> profile \<times> mbim) option" where
  "mbim_init qmichannel profile st = do {
     (retval, st) \<leftarrow> (if proxy profile = LIBMBIM_PROXY then mbim_proxy_configure qmichannel st else Some (0, st));
     if retval \<noteq> 0 then Some (retval, profile, st)
     else do {
       (retval, st) \<leftarrow> open_loop 10 retval st;
       if retval \<noteq> 0 then Some (retval, profile, st)
       else do {
         (retval, profile, st) \<leftarrow> mbim_device_caps_query profile st;
         if retval \<noteq> 0 then Some (retval, profile, st)
         else do {
           (retval, st) \<leftarrow> mbim_device_services_query (updated st);
           if retval \<noteq> 0 then Some (retval, profile, st)
           else do {
             (retval, st) \<leftarrow> mbim_set_radio_state MBIMRadioOn (updated st);
             if retval \<noteq> 0 then Some (retval, profile, st)
             else do {
               let st = updated st;
               Some (0, profile, if qmi_over_mbim_support st \<and> mb_socketpair st
                                 then st\<lparr>qmi_over_mbim_sk := True\<rparr> else st) } } } } } }"

text \<open>The descriptors of the socket pair are closed but keep their values.\<close>

definition mbim_deinit :: "mbim \<Rightarrow> mbim option" where
  "mbim_deinit st = do { (_, st) \<leftarrow> mbim_close_device st; Some st }"

section \<open>Requests of the connection manager\<close>

definition mbim_requestBaseBandVersion :: "profile \<Rightarrow> mbim \<Rightarrow> (int \<times> profile \<times> mbim) option" where
  "mbim_requestBaseBandVersion profile st = Some (0, profile, st)"

definition sim_status_of :: "u32 \<Rightarrow> SIM_Status" where
  "sim_status_of s =
     (if s = 0 then SIM_NOT_READY
      else if s = 1 then SIM_READY
      else if s = 2 then SIM_ABSENT
      else if s = 3 then SIM_BAD
      else if s = 4 then SIM_ABSENT
      else if s = 5 then SIM_ABSENT
      else if s = 6 then SIM_PIN
      else SIM_ABSENT)"

definition mbim_requestGetSIMStatus :: "SIM_Status \<Rightarrow> mbim \<Rightarrow> (int \<times> SIM_Status \<times> mbim) option" where
  "mbim_requestGetSIMStatus pSIMStatus st = do {
     (retval, st) \<leftarrow> mbim_subscriber_status_query st;
     if retval \<noteq> 0 then Some (retval, SIM_ABSENT, st)
     else let st = updated st in Some (retval, sim_status_of (ReadyState st), st) }"

definition MBIMRegisterStateHome :: u32 where "MBIMRegisterStateHome = 3"
definition MBIMRegisterStateRoaming :: u32 where "MBIMRegisterStateRoaming = 4"
definition MBIMPacketServiceStateAttached :: u32 where "MBIMPacketServiceStateAttached = 2"

definition mbim_requestRegistrationState :: "u8 \<Rightarrow> mbim \<Rightarrow> (int \<times> u8 \<times> mbim) option" where
  "mbim_requestRegistrationState pPSAttachedState st = do {
     (retval, st) \<leftarrow> mbim_register_state_query st;
     if retval \<noteq> 0 then Some (retval, 0, st)
     else do {
       let st = updated st;
       let ps = (if RegisterState st = MBIMRegisterStateHome \<or> RegisterState st = MBIMRegisterStateRoaming
                 then 1 else 0 :: u8);
       if ps = 0 then Some (retval, ps, st)
       else do {
         (retval, st) \<leftarrow> mbim_packet_service_query st;
         if retval \<noteq> 0 then Some (retval, ps, st)
         else do {
           let ps = (if PacketServiceState st = MBIMPacketServiceStateAttached then 1 else 0 :: u8);
           if ps = 0 then do {
             (_, st) \<leftarrow> mbim_packet_service_set MBIMPacketServiceActionAttach st;
             Some (retval, ps, st) }
           else Some (retval, ps, st) } } } }"

definition select_connect_settings :: "profile \<Rightarrow> mbim \<Rightarrow> mbim" where
  "select_connect_settings profile st =
     st\<lparr>mbim_apn := (if apn profile \<noteq> None then apn profile else mbim_apn st),
        mbim_user := (if user profile \<noteq> None then user profile else mbim_user st),
        mbim_pd := (if pd profile \<noteq> None then pd profile else mbim_pd st),
        mbim_auth := (if auth profile \<noteq> 0 then auth profile else mbim_auth st),
        mbim_iptype := (if enable_ipv4 profile \<noteq> 0 \<and> enable_ipv6 profile \<noteq> 0 then 4
                        else if enable_ipv6 profile \<noteq> 0 then 2
                        else if enable_ipv4 profile \<noteq> 0 then 1 else mbim_iptype st)\<rparr>"

definition mbim_requestSetupDataCall :: "profile \<Rightarrow> int \<Rightarrow> mbim \<Rightarrow> (int \<times> profile \<times> mbim) option" where
  "mbim_requestSetupDataCall profile family st = do {
     let st = select_connect_settings profile st;
     (retval, st) \<leftarrow> mbim_set_connect 1 (mbim_sessionID st) st;
     Some (retval, profile, st) }"

definition MBIMActivationStateUnknown :: u32 where "MBIMActivationStateUnknown = 0"
definition MBIMActivationStateActivated :: u32 where "MBIMActivationStateActivated = 1"

definition mbim_requestQueryDataCall :: "u8 \<Rightarrow> int \<Rightarrow> mbim \<Rightarrow> (int \<times> u8 \<times> mbim) option" where
  "mbim_requestQueryDataCall pConnectionStatus family st = do {
     (retval, st) \<leftarrow> mbim_query_connect (mbim_sessionID st) st;
     Some (retval,
       if retval \<noteq> 0 then QWDS_PKT_DATA_DISCONNECTED
       else if ActivationState st = MBIMActivationStateUnknown then QWDS_PKT_DATA_UNKNOW
       else if ActivationState st = MBIMActivationStateActivated then QWDS_PKT_DATA_CONNECTED
       else QWDS_PKT_DATA_DISCONNECTED, st) }"

definition mbim_requestDeactivateDefaultPDP :: "profile \<Rightarrow> int \<Rightarrow> mbim \<Rightarrow> (int \<times> profile \<times> mbim) option" where
  "mbim_requestDeactivateDefaultPDP profile family st = do {
     (retval, st) \<leftarrow> mbim_set_connect 0 (mbim_sessionID st) st;
     Some (retval, profile, st) }"

definition mbim_requestGetIPAddress :: "profile \<Rightarrow> int \<Rightarrow> mbim \<Rightarrow> (int \<times> profile \<times> mbim) option" where
  "mbim_requestGetIPAddress profile family st = mbim_ip_config profile (mbim_sessionID st) st"

text \<open>The requests the table leaves NULL are absent; nothing in the file stores into \<^verbatim>\<open>g_pdn_conflict\<close>.\<close>

definition mbim_request_ops :: "mbim request_ops" where
  "mbim_request_ops = \<lparr>
     ops_kind = mbim_ops_kind,
     op_requestBaseBandVersion = Some mbim_requestBaseBandVersion,
     op_requestSetEthMode = None,
     op_requestSetLoopBackState = None,
     op_requestGetSIMStatus = Some mbim_requestGetSIMStatus,
     op_requestEnterSimPin = None,
     op_requestSetProfile = None,
     op_requestGetProfile = None,
     op_requestRegistrationState = mbim_requestRegistrationState,
     op_requestSetupDataCall = mbim_requestSetupDataCall,
     op_requestQueryDataCall = mbim_requestQueryDataCall,
     op_requestDeactivateDefaultPDP = mbim_requestDeactivateDefaultPDP,
     op_requestGetIPAddress = mbim_requestGetIPAddress,
     op_print_requests = [],
     op_sim_requests = [],
     op_pdn_conflict = (\<lambda>_. 0),
     op_clear_pdn_conflict = (\<lambda>st. st)\<rparr>"

definition mbim_dev_ops :: "string \<Rightarrow> mbim qmi_device_ops" where
  "mbim_dev_ops qmichannel = \<lparr>dev_init = Some (mbim_init qmichannel), dev_deinit = Some mbim_deinit\<rparr>"

section \<open>QMI over MBIM\<close>

text \<open>
  Sends a QMI message inside an MBIM command and hands the answer to the socket pair; \<open>wr\<close> is what
  \<^verbatim>\<open>write\<close> returns there for a given length.  The result has the QMI message with the client id filled
  in and the bytes handed on.
\<close>

definition qmi_over_mbim_qmidev_send ::
  "(nat \<Rightarrow> int) \<Rightarrow> bytes \<Rightarrow> mbim \<Rightarrow> (int \<times> bytes \<times> bytes option \<times> mbim) option" where
  "qmi_over_mbim_qmidev_send wr pQMI st = do {
     n \<leftarrow> rd16 pQMI 1;
     let len = unat n + 1;
     ty \<leftarrow> rd8 pQMI 4;
     pQMI \<leftarrow> (if ty = QMUX_TYPE_NAS then poke 5 [0] pQMI else Some pQMI);
     cid \<leftarrow> rd8 pQMI 5;
     if ty \<noteq> QMUX_TYPE_CTL \<and> cid = 0 then Some (- ENODEV, pQMI, None, st)
     else do {
       (pRequest, st) \<leftarrow> compose_qmi_over_mbim_command 1 MBIM_CID_CMD_TYPE_SET (Some pQMI) (of_nat len) st;
       (r, st) \<leftarrow> mbim_call pRequest st;
       case r of
         Inl err \<Rightarrow> Some (err, pQMI, None, st)
       | Inr m \<Rightarrow> do {
           k \<leftarrow> rd32 m 44;
           if k = 0 then Some (-1, pQMI, None, st)
           else do {
             out \<leftarrow> rdn m 48 (unat k);
             Some (if wr (unat k) = int (unat k) then 0 else -1, pQMI, Some out, st) } } } }"

section \<open>The reader thread\<close>

definition mbim_proxy_read :: "bytes \<Rightarrow> u64 \<Rightarrow> bytes \<Rightarrow> (nat \<times> bytes) option" where
  "mbim_proxy_read stream bufsize buf = do {
     let hdr = take 12 stream;
     buf \<leftarrow> poke 0 hdr buf;
     if length hdr \<noteq> 12 then Some (length hdr, buf)
     else do {
       len \<leftarrow> rd32 buf 4;
       if (ucast len :: u64) \<le> bufsize then do {
         let msg = take (unat ((ucast len :: u64) - 12)) (drop 12 stream);
         buf \<leftarrow> poke 12 msg buf;
         Some (12 + length msg, buf) }
       else Some (12, buf) } }"

record mbim_reader =
  mr_st :: mbim
  mr_buf :: bytes
  mr_wait :: bool
  mr_running :: bool

text \<open>
  \<open>MReady (e, i) stream (ce, ci) ev\<close>: the error and input flags of the device and of the control
  descriptor, the bytes the device has and the event read.  The descriptor of the socket pair is
  watched only for QMI over MBIM and is left out.
\<close>

datatype mbim_poll = MTimeout | MError | MReady "bool \<times> bool" bytes "bool \<times> bool" "cm_event option"

definition mbim_read_quit :: "mbim_reader \<Rightarrow> mbim_reader option" where
  "mbim_read_quit r = do {
     (_, st) \<leftarrow> mbim_recv_command None ((mr_st r)\<lparr>mbim_fd := -1\<rparr>);
     Some (r\<lparr>mr_st := (send_event_to_main RIL_INDICATE_DEVICE_DISCONNECTED st)\<lparr>s_tid_reader := False\<rparr>,
             mr_running := False\<rparr>) }"

definition mbim_read_start :: "int \<Rightarrow> profile \<Rightarrow> mbim_reader \<Rightarrow> (profile \<times> mbim_reader) option" where
  "mbim_read_start fd profile r = do {
     let st = (mr_st r)\<lparr>s_tid_reader := True\<rparr>;
     let muxed = (qmap_mode profile > 1 \<and> qmapnet_adapter profile \<noteq> []);
     let profile = (if muxed \<and> proxy profile = [] then profile\<lparr>proxy := ''quectel-mbim-proxy''\<rparr> else profile);
     let st = (if muxed then st\<lparr>mbim_sessionID := pdp profile\<rparr> else st);
     let st = st\<lparr>mbim_fd := fd\<rparr>;
     if fd \<le> 0 then do { r \<leftarrow> mbim_read_quit (r\<lparr>mr_st := st\<rparr>); Some (profile, r) }
     else Some (profile, r\<lparr>mr_st := send_event_to_main RIL_INDICATE_DEVICE_CONNECTED st,
                           mr_wait := False, mr_running := True\<rparr>) }"

definition mbim_read_device :: "profile \<Rightarrow> bytes \<Rightarrow> mbim_reader \<Rightarrow> (bool \<times> mbim_reader) option" where
  "mbim_read_device profile stream r = do {
     (nreads, buf) \<leftarrow> (if proxy profile \<noteq> [] then mbim_proxy_read stream (of_nat (length (mr_buf r))) (mr_buf r)
                       else let msg = take (length (mr_buf r)) stream in do {
                         buf \<leftarrow> poke 0 msg (mr_buf r);
                         Some (length msg, buf) });
     if nreads = 0 then Some (False, r\<lparr>mr_buf := buf\<rparr>)
     else do {
       (_, st) \<leftarrow> mbim_recv_command (Some buf) (mr_st r);
       Some (True, r\<lparr>mr_buf := buf, mr_st := st\<rparr>) } }"

definition mbim_read_step :: "profile \<Rightarrow> mbim_poll \<Rightarrow> mbim_reader \<Rightarrow> mbim_reader option" where
  "mbim_read_step profile p r =
     (case p of
        MTimeout \<Rightarrow> if mr_wait r then mbim_read_quit r else Some r
      | MError \<Rightarrow> mbim_read_quit r
      | MReady (e, i) stream (ce, ci) ev \<Rightarrow>
          if e then mbim_read_quit r
          else do {
            (go_on, r) \<leftarrow> (if i then mbim_read_device profile stream r else Some (True, r));
            if \<not> go_on then Some r
            else if ce then mbim_read_quit r
            else if ci \<and> ev = Some RIL_REQUEST_QUIT then mbim_read_quit r
            else if ci \<and> ev = Some SIG_EVENT_STOP then Some (r\<lparr>mr_wait := True\<rparr>)
            else Some r })"

end
