(* ===== verification/MbimLink.thy ===== *)
theory MbimLink
  imports Mbim
begin

text \<open>
  The link of the MBIM backend: the texts of UUIDs, the handshake between a request and the reader
  thread, and the invariant that all requests keep: the transaction ids stay in the range the proxy
  leaves to a client, and the states the reader compares indications with are the current ones.
\<close>

section \<open>Reading what was stored\<close>

lemma rd32_rdn: "rd32 b i = map_option (\<lambda>v. le32_to_cpu (v ! 0) (v ! 1) (v ! 2) (v ! 3)) (rdn b i 4)"
  by (simp add: rd32_def rdn_def)

lemma rdn_poke_same: "poke i xs b = Some b' \<Longrightarrow> n = length xs \<Longrightarrow> rdn b' i n = Some xs"
  by (auto simp: poke_def rdn_def split: if_splits)

lemma rdn_poke_other:
  assumes "poke i xs b = Some b'" and "j + n \<le> i \<or> i + length xs \<le> j"
  shows "rdn b' j n = rdn b j n"
proof -
  from assms(1) have l: "i + length xs \<le> length b" and b': "b' = take i b @ xs @ drop (i + length xs) b"
    by (auto simp: poke_def split: if_splits)
  from assms(2) have "take n (drop j b') = take n (drop j b)"
  proof
    assume "j + n \<le> i"
    then have "take n (drop j b') = take n (take (i - j) (drop j b))" using l by (simp add: b' drop_take)
    also have "\<dots> = take n (drop j b)" using \<open>j + n \<le> i\<close> by (simp add: min_def)
    finally show ?thesis .
  next
    assume "i + length xs \<le> j"
    then show ?thesis using l by (simp add: b' min_def)
  qed
  then show ?thesis using poke_length [OF assms(1)] by (simp add: rdn_def)
qed

lemma rd32_poke_same: "poke i (le32 w) b = Some b' \<Longrightarrow> rd32 b' i = Some w"
  by (simp add: rd32_rdn rdn_poke_same) (simp add: le32_def)

lemma rd32_poke_other:
  "poke i xs b = Some b' \<Longrightarrow> j + 4 \<le> i \<or> i + length xs \<le> j \<Longrightarrow> rd32 b' j = rd32 b j"
  by (simp add: rd32_rdn rdn_poke_other)

section \<open>UUIDs\<close>

lemma hex_digit_val: "v < 16 \<Longrightarrow> digit_val 16 (digit_char v) = Some v"
  by (rule digit_val_digit_char) simp_all

lemma hex_digit_lower: "v < 16 \<Longrightarrow> c_tolower (digit_char v) = digit_char v"
  by (auto simp: c_tolower_def of_char_digit_char)

lemma nibbles: "(of_nat (16 * (unat b div 16) + unat b mod 16) :: u8) = b"
proof -
  have "16 * (unat b div 16) + unat b mod 16 = unat b" by (rule mult_div_mod_eq)
  then show ?thesis by simp
qed

lemma nibble_bounds: "unat (b :: u8) div 16 < 16" "unat b mod 16 < 16"
  using unsigned_less [of b, where 'a = nat] by (simp_all add: less_mult_imp_div_less)

lemma scan_printed:
  "n \<le> length d \<Longrightarrow> scan_bytes n (concat (map print_02x (take n d)) @ s) = Some (take n d, s)"
proof (induction n arbitrary: d)
  case (Suc n)
  then obtain b d' where d: "d = b # d'" by (cases d) auto
  with Suc show ?case using nibbles [of b]
    by (simp add: print_02x_def [of b] hex_digit_val nibble_bounds del: of_nat_add of_nat_mult)
qed simp

lemma scan_print_groups:
  "ns \<noteq> [] \<Longrightarrow> sum_list ns \<le> length d \<Longrightarrow> scan_groups ns (print_groups ns d) = Some (take (sum_list ns) d)"
proof (induction ns d rule: print_groups.induct)
  case (2 n d)
  then show ?case using scan_printed [of n d "[]"] by simp
next
  case (3 n m ns d)
  then have "scan_groups (m # ns) (print_groups (m # ns) (drop n d)) = Some (take (sum_list (m # ns)) (drop n d))"
    by (intro 3) auto
  moreover have "scan_bytes n (print_groups (n # m # ns) d) = Some (take n d, CHR ''-'' # print_groups (m # ns) (drop n d))"
    using 3(3) scan_printed [of n d] by simp
  ultimately show ?case by (simp add: take_add)
qed simp

lemma tolower_printed: "map c_tolower (concat (map print_02x d)) = concat (map print_02x d)"
  by (induction d) (simp_all add: print_02x_def hex_digit_lower nibble_bounds)

lemma tolower_dash: "c_tolower CHR ''-'' = CHR ''-''"
  by (simp add: c_tolower_def)

lemma tolower_print_groups: "map c_tolower (print_groups ns d) = print_groups ns d"
  by (induction ns d rule: print_groups.induct) (simp_all add: tolower_printed tolower_dash)

lemma length_printed: "length (concat (map print_02x d)) = 2 * length d"
  by (induction d) (simp_all add: print_02x_def)

text \<open>
  Printing a UUID and scanning the text gives the UUID back, for all 16-byte values.
\<close>

theorem uuid_roundtrip:
  assumes "length d = 16"
  shows "str2uuid (uuid2str d) = Some d"
proof -
  have "length (uuid2str d) = 36"
    using assms by (simp add: uuid2str_def uuid_groups_def length_printed)
  moreover have "scan_groups uuid_groups (uuid2str d) = Some d"
    using assms scan_print_groups [of uuid_groups d] by (simp add: uuid2str_def uuid_groups_def)
  ultimately show ?thesis by (simp add: str2uuid_def uuid2str_def tolower_print_groups)
qed

section \<open>The handshake\<close>

text \<open>What the reader thread changes: the response, the script of allocations and the events.\<close>

definition reader_rest :: "mbim \<Rightarrow> mbim" where
  "reader_rest st = st\<lparr>mb_mallocs := [], mb_events := [], mbim_pResponse := None\<rparr>"

definition reader_change :: "mbim \<Rightarrow> mbim \<Rightarrow> bool" where
  "reader_change st st' \<longleftrightarrow> reader_rest st' = reader_rest st"

lemma reader_change_refl [simp]: "reader_change st st"
  by (simp add: reader_change_def)

lemma reader_change_trans: "reader_change a b \<Longrightarrow> reader_change b c \<Longrightarrow> reader_change a c"
  by (simp add: reader_change_def)

lemma reader_change_upd:
  "reader_change st (st\<lparr>mb_mallocs := ms\<rparr>)"
  "reader_change st (st\<lparr>mb_events := es\<rparr>)"
  "reader_change st (st\<lparr>mb_mallocs := ms, mbim_pResponse := pr\<rparr>)"
  by (simp_all add: reader_change_def reader_rest_def)

lemma reader_changeD:
  assumes "reader_change st st'"
  shows "mbim_pRequest st' = mbim_pRequest st" "mb_sent st' = mb_sent st" "mbim_fd st' = mbim_fd st"
    "s_tid_reader st' = s_tid_reader st" "mbim_TransactionId st' = mbim_TransactionId st"
    "mb_replies st' = mb_replies st"
    "ReadyState st' = ReadyState st" "RegisterState st' = RegisterState st"
    "PacketServiceState st' = PacketServiceState st" "ActivationState st' = ActivationState st"
    "oldReadyState st' = oldReadyState st" "oldRegisterState st' = oldRegisterState st"
    "oldPacketServiceState st' = oldPacketServiceState st" "oldActivationState st' = oldActivationState st"
    "mbim_apn st' = mbim_apn st" "mbim_user st' = mbim_user st" "mbim_pd st' = mbim_pd st"
    "mbim_auth st' = mbim_auth st" "mbim_iptype st' = mbim_iptype st" "mbim_sessionID st' = mbim_sessionID st"
  using assms by (cases st; cases st'; simp add: reader_change_def reader_rest_def)+

lemma reader_change_request:
  "reader_change a b \<Longrightarrow> reader_change (a\<lparr>mbim_pRequest := x\<rparr>) (b\<lparr>mbim_pRequest := x, mbim_pResponse := y\<rparr>)"
  by (cases a; cases b) (simp add: reader_change_def reader_rest_def)

lemma recv_indicate_cases:
  "always (\<lambda>st'. st' = st \<or> (\<exists>e. st' = send_event_to_main e st)) (recv_indicate_status m st)"
  unfolding recv_indicate_status_def
  by (intro always_bind_any always_if always_Some) auto

lemma recv_indicate_change:
  assumes "recv_indicate_status m st = Some st'"
  shows "reader_change st st'" and "mbim_pResponse st' = mbim_pResponse st"
  using alwaysD [OF recv_indicate_cases assms] by (auto simp: send_event_to_main_def reader_change_upd)

lemma mbim_recv_change:
  assumes "mbim_recv_command m st = Some (sig, st')"
  shows "reader_change st st'"
  using assms
  by (auto simp: mbim_recv_command_def mbim_alloc_def run_conv Let_def reader_change_upd
      dest: recv_indicate_change(1) split: option.splits list.splits)

text \<open>The response the reader stores is the message that carries the request's transaction id.\<close>

lemma mbim_recv_response:
  assumes "mbim_recv_command m st = Some (sig, st')" and "mbim_pResponse st = None"
    and "mbim_pResponse st' = Some d"
  shows "\<exists>b r len. m = Some b \<and> mbim_pRequest st = Some r \<and> rd32 b 8 = rd32 r 8
     \<and> rd32 b 4 = Some len \<and> rdn b 0 (unat len) = Some d \<and> sig"
proof (cases m)
  case None
  with assms show ?thesis by (simp add: mbim_recv_command_def)
next
  case (Some b)
  show ?thesis
  proof (cases "\<exists>r. mbim_pRequest st = Some r \<and> rd32 r 8 = rd32 b 8")
    case True
    with assms Some show ?thesis
      by (auto simp: mbim_recv_command_def mbim_alloc_def run_conv Let_def split: if_splits)
  next
    case False
    then have "mbim_pResponse st' = mbim_pResponse st" using assms(1) Some
      by (auto simp: mbim_recv_command_def run_conv dest: recv_indicate_change(2) split: if_splits option.splits)
    with assms show ?thesis by simp
  qed
qed

lemma mbim_recv_unsignalled:
  "mbim_recv_command m st = Some (False, st') \<Longrightarrow> mbim_pResponse st' = mbim_pResponse st"
  by (auto simp: mbim_recv_command_def mbim_alloc_def run_conv Let_def dest: recv_indicate_change(2)
      split: if_splits option.splits)

lemma mbim_wait_change: "mbim_wait ms ret st = Some (ret', st') \<Longrightarrow> reader_change st st'"
proof (induction ms arbitrary: st)
  case (Cons m ms)
  then obtain sig st1 where st1: "mbim_recv_command m st = Some (sig, st1)"
    and rest: "st' = st1 \<or> mbim_wait ms ret st1 = Some (ret', st')"
    by (auto simp: run_conv split: if_splits)
  with Cons.IH have "reader_change st1 st'" by auto
  with mbim_recv_change [OF st1] show ?case by (rule reader_change_trans)
qed simp

lemma mbim_wait_response:
  assumes "mbim_wait ms ret st = Some (ret', st')" and "mbim_pResponse st = None"
    and "mbim_pResponse st' = Some d"
  shows "\<exists>b r len. Some b \<in> set ms \<and> mbim_pRequest st = Some r \<and> rd32 b 8 = rd32 r 8
     \<and> rd32 b 4 = Some len \<and> rdn b 0 (unat len) = Some d"
  using assms
proof (induction ms arbitrary: st)
  case (Cons m ms)
  from Cons.prems(1) obtain sig st1 where st1: "mbim_recv_command m st = Some (sig, st1)"
    and rest: "if sig then ret' = 0 \<and> st' = st1 else mbim_wait ms ret st1 = Some (ret', st')"
    by (auto simp: run_conv)
  show ?case
  proof (cases sig)
    case True
    with rest Cons.prems(3) have "mbim_pResponse st1 = Some d" by simp
    from mbim_recv_response [OF st1 Cons.prems(2) this] show ?thesis by (elim exE conjE) auto
  next
    case False
    with st1 have "mbim_pResponse st1 = None" using mbim_recv_unsignalled Cons.prems(2) by simp
    moreover from rest False have "mbim_wait ms ret st1 = Some (ret', st')" by simp
    ultimately obtain b r len where "Some b \<in> set ms" "mbim_pRequest st1 = Some r" "rd32 b 8 = rd32 r 8"
      "rd32 b 4 = Some len" "rdn b 0 (unat len) = Some d"
      using Cons.IH [of st1] Cons.prems(3) by blast
    then show ?thesis using reader_changeD(1) [OF mbim_recv_change [OF st1]]
      by (intro exI [of _ b] exI [of _ r] exI [of _ len]) simp
  qed
qed simp

text \<open>A request as the composers make it: its header is there and states its length.\<close>

definition request_wf :: "bytes \<Rightarrow> bool" where
  "request_wf m \<longleftrightarrow> 12 \<le> length m \<and> length m < 2 ^ 32 \<and> rd32 m 4 = Some (of_nat (length m))"

lemma renumber_wf:
  assumes "renumber m st = Some (m', st')" and "request_wf m"
  shows "request_wf m'" and "rdn m' 0 (length m') = Some m'"
proof -
  have "length m' = length m \<and> rd32 m' 4 = rd32 m 4"
    using assms(1) by (auto simp: renumber_def run_conv poke_length rd32_poke_other)
  with assms(2) show "request_wf m'" by (simp add: request_wf_def)
qed (simp add: rdn_def)

lemma request_wf_length: "request_wf m \<Longrightarrow> rd32 m 4 = Some w \<Longrightarrow> unat w = length m"
  by (auto simp: request_wf_def unat_of_nat)

text \<open>
  One exchange in terms of the request that was written: what a caller of \<open>mbim_send_command\<close> learns.
\<close>

definition exchange_start :: "bytes \<Rightarrow> mbim \<Rightarrow> mbim" where
  "exchange_start m st = st\<lparr>mbim_pRequest := Some m, mbim_pResponse := None, mb_sent := mb_sent st @ [m],
     mb_replies := tl (mb_replies st)\<rparr>"

lemma next_reply_start:
  "next_reply (st\<lparr>mbim_pRequest := Some m, mbim_pResponse := None, mb_sent := mb_sent st @ [m]\<rparr>)
     = (fst (next_reply st), exchange_start m st)"
  by (simp add: next_reply_def exchange_start_def split: list.splits)

lemma mbim_send_open:
  assumes "renumber m st = Some (m1, st1)" and "request_wf m" and "mbim_fd st > 0" and "s_tid_reader st"
  shows "mbim_send_command (Some m) st = do {
     let rep = fst (next_reply st1);
     let n = int (length m1);
     let ret = (case write_result rep of None \<Rightarrow> n | Some k \<Rightarrow> k);
     (ret, st) \<leftarrow> (if ret > 0 \<and> ret = n then mbim_wait (received rep) (wait_result rep) (exchange_start m1 st1)
                  else Some (ret, exchange_start m1 st1));
     Some (ret, if ret = 0 then mbim_pResponse st else None, st\<lparr>mbim_pRequest := None, mbim_pResponse := None\<rparr>) }"
proof -
  have wf: "request_wf m1" and out: "rdn m1 0 (length m1) = Some m1" using renumber_wf [OF assms(1,2)] by auto
  then obtain len where len: "rd32 m1 4 = Some len" by (auto simp: request_wf_def)
  with wf have n: "unat len = length m1" by (rule request_wf_length)
  then have u: "uint len = int (length m1)" by (simp flip: n)
  have "m1 \<noteq> []" using wf by (auto simp: request_wf_def)
  then show ?thesis
    using assms(3,4) by (simp add: mbim_send_command_def assms(1) len n u out next_reply_start Let_def
        cong: option.case_cong)
qed

lemma mbim_send_exchange:
  assumes "mbim_send_command (Some m) st = Some (ret, resp, st')" and "renumber m st = Some (m1, st1)"
    and "request_wf m" and "mbim_fd st > 0" and "s_tid_reader st"
  shows "reader_change ((exchange_start m1 st1)\<lparr>mbim_pRequest := None\<rparr>) st'"
    and "mbim_pResponse st' = None"
    and "resp = Some d \<Longrightarrow> ret = 0 \<and>
          (\<exists>b len. Some b \<in> set (received (fst (next_reply st1))) \<and> rd32 b 8 = rd32 m1 8
             \<and> rd32 b 4 = Some len \<and> rdn b 0 (unat len) = Some d)"
proof -
  let ?rep = "fst (next_reply st1)" and ?st = "exchange_start m1 st1"
  define r0 where "r0 = (case write_result ?rep of None \<Rightarrow> int (length m1) | Some k \<Rightarrow> k)"
  obtain a where w: "(if r0 > 0 \<and> r0 = int (length m1) then mbim_wait (received ?rep) (wait_result ?rep) ?st
        else Some (r0, ?st)) = Some a"
    and e: "(case a of (ret, st) \<Rightarrow> Some (ret, if ret = 0 then mbim_pResponse st else None,
        st\<lparr>mbim_pRequest := None, mbim_pResponse := None\<rparr>)) = Some (ret, resp, st')"
    using assms(1) unfolding mbim_send_open [OF assms(2-5)] Let_def r0_def [symmetric]
    by (rule bind_SomeE)
  obtain st3 where a: "a = (ret, st3)" and resp: "resp = (if ret = 0 then mbim_pResponse st3 else None)"
    and st': "st' = st3\<lparr>mbim_pRequest := None, mbim_pResponse := None\<rparr>"
    using e by (cases a) simp
  from w a have st3: "st3 = ?st \<or> (\<exists>w. mbim_wait (received ?rep) w ?st = Some (ret, st3))"
    by (simp split: if_splits) blast
  from st3 have c: "reader_change ?st st3" using mbim_wait_change by auto
  then show "reader_change (?st\<lparr>mbim_pRequest := None\<rparr>) st'"
    by (simp add: st' reader_change_request)
  show "mbim_pResponse st' = None" by (simp add: st')
  assume d: "resp = Some d"
  with resp have ret: "ret = 0" and p: "mbim_pResponse st3 = Some d" by (simp_all split: if_splits)
  have "mbim_pResponse ?st = None" "mbim_pRequest ?st = Some m1" by (simp_all add: exchange_start_def)
  with st3 p obtain w where w: "mbim_wait (received ?rep) w ?st = Some (ret, st3)" by auto
  show "ret = 0 \<and> (\<exists>b len. Some b \<in> set (received ?rep) \<and> rd32 b 8 = rd32 m1 8
      \<and> rd32 b 4 = Some len \<and> rdn b 0 (unat len) = Some d)"
    using mbim_wait_response [OF w \<open>mbim_pResponse ?st = None\<close> p] \<open>mbim_pRequest ?st = Some m1\<close> ret by auto
qed

text \<open>
  The response that \<open>mbim_send_command\<close> hands to its caller is the message among those received
  during the wait that carries the transaction id of the request just written, cut to the length it
  states; no other message is ever taken for the answer.
\<close>

theorem mbim_response_answers:
  assumes "mbim_send_command (Some m) st = Some (ret, Some d, st')" and "request_wf m"
    and "mbim_fd st > 0" and "s_tid_reader st"
  shows "\<exists>out b len. mb_sent st' = mb_sent st @ [out] \<and> ret = 0
     \<and> Some b \<in> set (received (fst (next_reply st))) \<and> rd32 b 8 = rd32 out 8
     \<and> rd32 b 4 = Some len \<and> d = take (unat len) b"
proof -
  from assms obtain m1 st1 where r: "renumber m st = Some (m1, st1)"
    by (cases "renumber m st") (auto simp: mbim_send_command_def)
  then have st1: "st1 = st \<or> st1 = st\<lparr>mbim_TransactionId := 2\<rparr>"
    by (auto simp: renumber_def run_conv split: if_splits)
  note x = mbim_send_exchange [OF assms(1) r assms(2-4)]
  have "mb_sent st' = mb_sent st @ [m1]" using reader_changeD(2) [OF x(1)] st1 by (auto simp: exchange_start_def)
  moreover have "received (fst (next_reply st1)) = received (fst (next_reply st))"
    using st1 by (auto simp: next_reply_def split: list.splits)
  ultimately show ?thesis using x(3) [OF refl] by (auto simp: rdn_def split: if_splits)
qed

section \<open>Transaction ids and mirrored states\<close>

definition tid_ok :: "bytes \<Rightarrow> bool" where
  "tid_ok m \<longleftrightarrow> (\<exists>t. rd32 m 8 = Some t \<and> 1 \<le> t \<and> t \<le> 0xFFFFFF)"

definition mirrored :: "mbim \<Rightarrow> bool" where
  "mirrored st \<longleftrightarrow> oldReadyState st = ReadyState st \<and> oldRegisterState st = RegisterState st
     \<and> oldPacketServiceState st = PacketServiceState st \<and> oldActivationState st = ActivationState st"

definition small :: "string option \<Rightarrow> bool" where
  "small s \<longleftrightarrow> string_size s < 2 ^ 28"

definition mbim_inv :: "mbim \<Rightarrow> bool" where
  "mbim_inv st \<longleftrightarrow> mbim_fd st > 0 \<and> s_tid_reader st \<and> mbim_pRequest st = None \<and> mbim_pResponse st = None
     \<and> 1 \<le> mbim_TransactionId st \<and> mbim_TransactionId st \<le> 0x1000000 \<and> list_all tid_ok (mb_sent st)
     \<and> mirrored st \<and> small (mbim_apn st) \<and> small (mbim_user st) \<and> small (mbim_pd st)"

text \<open>A composed request that has not been sent: it carries the id before the current one.\<close>

definition composed :: "bytes option \<Rightarrow> mbim \<Rightarrow> bool" where
  "composed r st \<longleftrightarrow>
     (case r of
        None \<Rightarrow> mbim_inv st
      | Some m \<Rightarrow> request_wf m \<and> (\<exists>t. rd32 m 8 = Some t \<and> mbim_TransactionId st = t + 1
                     \<and> mbim_inv (st\<lparr>mbim_TransactionId := t\<rparr>)))"

lemma mbim_inv_alloc: "mbim_alloc st = (ok, st') \<Longrightarrow> mbim_inv st' = mbim_inv st \<and> mbim_TransactionId st' = mbim_TransactionId st"
  by (auto simp: mbim_alloc_def mbim_inv_def mirrored_def)

lemma mbim_inv_alloc_tid:
  "mbim_alloc st = (ok, st') \<Longrightarrow> mbim_inv (st'\<lparr>mbim_TransactionId := mbim_TransactionId st\<rparr>) = mbim_inv st"
  by (auto simp: mbim_alloc_def)  (auto simp: mbim_inv_def mirrored_def)

lemma command_wf:
  assumes "length uuid = 16" and "length info = unat len" and "unat len < 2 ^ 31"
  shows "request_wf (le32 a @ le32 (48 + len) @ le32 t @ le32 b @ le32 c @ uuid @ le32 d @ le32 e @ le32 f @ info)"
    (is "request_wf ?m")
    and "rd32 (le32 a @ le32 (48 + len) @ le32 t @ le32 b @ le32 c @ uuid @ le32 d @ le32 e @ le32 f @ info) 8 = Some t"
proof -
  have l: "length ?m = 48 + unat len" using assms by simp
  have "(of_nat (48 + unat len) :: u32) = 48 + len" by simp
  moreover have "rd32 ?m 4 = Some (48 + len)"
    using rd32_append [of "le32 a" _ 0] by (simp add: rd32_le32)
  ultimately show "request_wf ?m" using l assms(3) by (simp add: request_wf_def)
  show "rd32 ?m 8 = Some t"
    using rd32_append [of "le32 a @ le32 (48 + len)" _ 0] by (simp add: rd32_le32)
qed

lemma length_basic_uuid: "str2uuid UUID_BASIC_CONNECT = Some u \<Longrightarrow> length u = 16"
  by (auto simp: str2uuid_constants)

lemma compose_basic_composed:
  assumes "compose_basic_connect_command cid ty info len st = Some (r, st')" and "mbim_inv st"
    and "unat len < 2 ^ 31"
  shows "composed r st'"
proof -
  obtain ok st1 where a: "mbim_alloc st = (ok, st1)" by (cases "mbim_alloc st")
  with assms(2) have inv: "mbim_inv st1" by (simp add: mbim_inv_alloc)
  show ?thesis
  proof (cases ok)
    case False
    with assms(1) a inv show ?thesis by (simp add: compose_basic_connect_command_def composed_def)
  next
    case True
    then obtain u n b where u: "str2uuid UUID_BASIC_CONNECT = Some u" and b: "length b = unat len"
      and r: "r = Some (le32 MBIM_COMMAND_MSG @ le32 (48 + len) @ le32 (mbim_TransactionId st1) @ le32 1
          @ le32 0 @ u @ le32 cid @ le32 ty @ le32 n @ b)"
      and st': "st' = st1\<lparr>mbim_TransactionId := mbim_TransactionId st1 + 1\<rparr>"
      using assms(1) a
      by (auto simp: compose_basic_connect_command_def run_conv uninit_def rdn_def split: option.splits if_splits)
    show ?thesis
      using command_wf [OF length_basic_uuid [OF u] b assms(3)] inv by (simp add: composed_def r st')
  qed
qed

lemma header_wf:
  assumes "length rest = unat n - 12" and "12 \<le> unat n"
  shows "request_wf (le32 a @ le32 n @ le32 t @ rest)" and "rd32 (le32 a @ le32 n @ le32 t @ rest) 8 = Some t"
proof -
  have "rd32 (le32 a @ le32 n @ le32 t @ rest) 4 = Some n"
    using rd32_append [of "le32 a" _ 0] by (simp add: rd32_le32)
  then show "request_wf (le32 a @ le32 n @ le32 t @ rest)"
    using assms unsigned_less [of n, where 'a = nat] by (simp add: request_wf_def)
  show "rd32 (le32 a @ le32 n @ le32 t @ rest) 8 = Some t"
    using rd32_append [of "le32 a @ le32 n" _ 0] by (simp add: rd32_le32)
qed

lemma compose_open_composed: "compose_open_command n st = (r, st') \<Longrightarrow> mbim_inv st \<Longrightarrow> composed r st'"
  using header_wf [where n = 16 and rest = "le32 n"]
  by (auto simp: compose_open_command_def composed_def mbim_inv_alloc mbim_inv_alloc_tid split: prod.splits if_splits)

lemma compose_close_composed: "compose_close_command st = (r, st') \<Longrightarrow> mbim_inv st \<Longrightarrow> composed r st'"
  using header_wf [where n = 12 and rest = "[]"]
  by (auto simp: compose_close_command_def composed_def mbim_inv_alloc mbim_inv_alloc_tid split: prod.splits if_splits)

lemma poke_composed:
  assumes "poke i xs m = Some m'" and "composed (Some m) st" and "12 \<le> i"
  shows "composed (Some m') st"
  using assms by (auto simp: composed_def request_wf_def poke_length rd32_poke_other)

lemma set_service_composed:
  assumes "set_service s (r, st) = Some (r', st')" and "composed r st"
  shows "composed r' st'"
  using assms by (cases r) (auto simp: set_service_def run_conv intro: poke_composed)

lemma tid_bounds:
  assumes "1 \<le> t" and "t \<le> (0x1000000 :: u32)" and "t \<noteq> 0x1000000"
  shows "t \<le> 0xFFFFFF" and "1 \<le> t + 1" and "t + 1 \<le> 0x1000000"
proof -
  have n: "1 \<le> unat t" "unat t \<le> 16777216" "unat t \<noteq> 16777216"
    using assms by (simp_all add: word_le_nat_alt word_unat_eq_iff)
  then have "unat (t + 1) = unat t + 1" by (simp add: unat_word_ariths)
  with n show "t \<le> 0xFFFFFF" "1 \<le> t + 1" "t + 1 \<le> 0x1000000" by (simp_all add: word_le_nat_alt)
qed

lemma mbim_inv_change:
  assumes "reader_change st st'" and "mbim_inv (st\<lparr>mbim_pResponse := None\<rparr>)" and "mbim_pResponse st' = None"
  shows "mbim_inv st'"
  using assms(2,3) by (simp add: mbim_inv_def mirrored_def reader_changeD [OF assms(1)])

lemma mbim_send_inv:
  assumes "mbim_send_command r st = Some (ret, resp, st')" and "composed r st"
  shows "mbim_inv st'"
proof (cases r)
  case None
  with assms show ?thesis by (auto simp: mbim_send_command_def composed_def mbim_inv_def)
next
  case (Some m)
  then obtain t where wf: "request_wf m" and t: "rd32 m 8 = Some t" "mbim_TransactionId st = t + 1"
    and inv: "mbim_inv (st\<lparr>mbim_TransactionId := t\<rparr>)"
    using assms(2) by (auto simp: composed_def)
  have fd: "mbim_fd st > 0" "s_tid_reader st" and b: "1 \<le> t" "t \<le> 0x1000000" using inv by (simp_all add: mbim_inv_def)
  obtain m1 st1 where r: "renumber m st = Some (m1, st1)"
    using assms(1) Some fd by (cases "renumber m st") (auto simp: mbim_send_command_def)
  have m1: "tid_ok m1 \<and> mbim_inv st1"
  proof (cases "t = 0x1000000")
    case True
    then have "st1 = st\<lparr>mbim_TransactionId := 2\<rparr>" "rd32 m1 8 = Some 1"
      using r t by (auto simp: renumber_def run_conv rd32_poke_same)
    then show ?thesis using inv by (simp add: tid_ok_def mbim_inv_def mirrored_def)
  next
    case False
    then have "st1 = st" "m1 = m" using r t by (auto simp: renumber_def)
    then show ?thesis using inv t tid_bounds [OF b False] b(1) by (simp add: tid_ok_def mbim_inv_def mirrored_def)
  qed
  note x = mbim_send_exchange [OF assms(1) [unfolded Some] r wf fd]
  show ?thesis
    by (rule mbim_inv_change [OF x(1) _ x(2)]) (use m1 in \<open>simp add: exchange_start_def mbim_inv_def mirrored_def\<close>)
qed

lemma mbim_status_code_keeps: "mbim_status_code r st = Some (s, st') \<Longrightarrow> st' = st \<or> st' = st\<lparr>mbim_open_state := 0\<rparr>"
  by (cases r) (auto simp: mbim_status_code_def run_conv split: if_splits)

lemma mbim_call_inv:
  assumes "mbim_call r st = Some (x, st')" and "composed r st"
  shows "mbim_inv st'"
proof -
  from assms(1) obtain a where a: "mbim_send_command r st = Some a"
    and e: "(case a of (err, pCmdDone, st) \<Rightarrow> mbim_check_err err pCmdDone st) = Some (x, st')"
    unfolding mbim_call_def by (rule bind_SomeE)
  obtain ret resp st1 where st1: "a = (ret, resp, st1)" by (cases a)
  from e obtain c where c: "mbim_status_code resp st1 = Some c" and st': "st' = snd c"
    unfolding st1 prod.case mbim_check_err_def by (rule bind_SomeE) (auto split: option.splits)
  have "mbim_inv st1" using mbim_send_inv a assms(2) unfolding st1 by blast
  moreover have "st' = st1 \<or> st' = st1\<lparr>mbim_open_state := 0\<rparr>"
    using mbim_status_code_keeps c st' by (cases c) simp
  ultimately show ?thesis by (auto simp: mbim_inv_def mirrored_def)
qed

abbreviation inv2 :: "'a \<times> mbim \<Rightarrow> bool" where "inv2 r \<equiv> mbim_inv (snd r)"
abbreviation inv3 :: "'a \<times> 'b \<times> mbim \<Rightarrow> bool" where "inv3 r \<equiv> mbim_inv (snd (snd r))"

named_theorems mbim_keeps

lemma inv2_bind:
  "always inv2 m \<Longrightarrow> (\<And>a st. mbim_inv st \<Longrightarrow> always Q (f a st)) \<Longrightarrow> always Q (Option.bind m (\<lambda>(a, st). f a st))"
  by (erule always_bind) (auto split: prod.splits)

lemma inv3_bind:
  "always inv3 m \<Longrightarrow> (\<And>a b st. mbim_inv st \<Longrightarrow> always Q (f a b st)) \<Longrightarrow>
     always Q (Option.bind m (\<lambda>(a, b, st). f a b st))"
  by (erule always_bind) (auto split: prod.splits)

lemma updated_inv [simp]:
  "mbim_inv st \<Longrightarrow> mbim_inv (updated st)"
  "mbim_inv st \<Longrightarrow> mbim_inv (updated (st\<lparr>ReadyState := s\<rparr>))"
  "mbim_inv st \<Longrightarrow> mbim_inv (updated (st\<lparr>RegisterState := s\<rparr>))"
  "mbim_inv st \<Longrightarrow> mbim_inv (updated (st\<lparr>PacketServiceState := s\<rparr>))"
  "mbim_inv st \<Longrightarrow> mbim_inv (updated (st\<lparr>ActivationState := s\<rparr>))"
  by (simp_all add: mbim_update_state_def mbim_inv_def mirrored_def)

lemma other_fields_inv [simp]:
  "mbim_inv (st\<lparr>mbim_ms_version := v\<rparr>) = mbim_inv st"
  "mbim_inv (st\<lparr>qmi_over_mbim_support := b\<rparr>) = mbim_inv st"
  "mbim_inv (st\<lparr>qmi_over_mbim_sk := b\<rparr>) = mbim_inv st"
  by (simp_all add: mbim_inv_def mirrored_def)

lemma mbim_call_keeps: "composed r st \<Longrightarrow> always inv2 (mbim_call r st)"
  by (auto intro!: alwaysI dest: mbim_call_inv)

lemma compose_basic_keeps:
  assumes "mbim_inv st" and "unat len < 2 ^ 31"
  shows "always (\<lambda>(r, st). composed r st) (compose_basic_connect_command cid ty info len st)"
  using assms by (auto intro!: alwaysI dest: compose_basic_composed)

lemma composed_bind:
  "always (\<lambda>(r, st). composed r st) m \<Longrightarrow> (\<And>r st. composed r st \<Longrightarrow> always Q (f r st)) \<Longrightarrow>
     always Q (Option.bind m (\<lambda>(r, st). f r st))"
  by (erule always_bind) (simp split: prod.splits)

lemma basic_command_keeps:
  assumes "mbim_inv st" and "unat len < 2 ^ 31" and "\<And>m st. mbim_inv st \<Longrightarrow> always mbim_inv (k m st)"
  shows "always inv2 (basic_command cid ty info len k st)"
  unfolding basic_command_def
  by (intro composed_bind [OF compose_basic_keeps [OF assms(1,2)]] inv2_bind [OF mbim_call_keeps] always_sum
      always_bind_any always_bind [where P = mbim_inv] always_if assms(3) always_Some) auto

lemma status_reply_keeps:
  "composed r st \<Longrightarrow> always inv2 (do {
     (x, st) \<leftarrow> mbim_call r st;
     case x of Inl err \<Rightarrow> Some (err, st) | Inr m \<Rightarrow> do { s \<leftarrow> rd32 m 12; Some (sint s, st) } })"
  by (rule inv2_bind [OF mbim_call_keeps]) (assumption, intro always_sum always_bind_any always_Some, simp_all)

lemma open_close_keeps [mbim_keeps]:
  assumes "mbim_inv st"
  shows "always inv2 (mbim_open_device n st)" "always inv2 (mbim_close_device st)"
  unfolding mbim_open_device_def mbim_close_device_def Let_def
  by (cases "compose_open_command n st"; simp add: status_reply_keeps compose_open_composed [OF _ assms])
    (cases "compose_close_command st"; simp add: status_reply_keeps compose_close_composed [OF _ assms])

lemma queries_keep [mbim_keeps]:
  assumes "mbim_inv st"
  shows "always inv2 (mbim_query_connect sid st)" "always inv2 (mbim_set_radio_state w st)"
    "always inv2 (mbim_subscriber_status_query st)" "always inv2 (mbim_register_state_query st)"
    "always inv2 (mbim_packet_service_query st)" "always inv2 (mbim_packet_service_set w st)"
  unfolding mbim_query_connect_def mbim_set_radio_state_def mbim_subscriber_status_query_def
    mbim_register_state_query_def mbim_packet_service_query_def mbim_packet_service_set_def Let_def
  by (rule basic_command_keeps [OF assms], simp,
      rule always_bind_any | intro always_bind_any always_Some; simp)+

lemma set_service_keeps:
  assumes "composed r st"
  shows "always (\<lambda>(r, st). composed r st) (set_service s (r, st))"
  using set_service_composed [OF _ assms] by (auto intro!: alwaysI)

lemma compose_ext_keeps:
  assumes "mbim_inv st" and "unat len < 2 ^ 31"
  shows "always (\<lambda>(r, st). composed r st) (compose_basic_connect_ext_command cid ty info len st)"
  unfolding compose_basic_connect_ext_command_def
  by (rule always_bind [OF compose_basic_keeps [OF assms]]) (auto intro!: set_service_keeps)

lemma ms_version_keeps [mbim_keeps]:
  assumes "mbim_inv st"
  shows "always inv2 (mbim_ms_version_query st)"
  unfolding mbim_ms_version_query_def
  by (rule composed_bind [OF compose_ext_keeps [OF assms]], simp, rule inv2_bind [OF mbim_call_keeps], assumption)
    (intro always_sum always_bind_any always_if always_Some; simp)

lemma services_keeps [mbim_keeps]:
  assumes "mbim_inv st"
  shows "always inv2 (mbim_device_services_query st)"
  unfolding mbim_device_services_query_def Let_def
  by (rule composed_bind [OF compose_basic_keeps [OF assms]], simp, rule inv2_bind [OF mbim_call_keeps], assumption)
    (intro always_sum always_bind_any always_prod always_if inv2_bind [OF ms_version_keeps] always_Some; simp)

lemma caps_keeps [mbim_keeps]:
  assumes "mbim_inv st"
  shows "always inv3 (mbim_device_caps_query p st)"
  unfolding mbim_device_caps_query_def Let_def
  by (rule composed_bind [OF compose_basic_keeps [OF assms]], simp, rule inv2_bind [OF mbim_call_keeps], assumption)
    (intro always_sum always_bind_any always_if always_Some; simp)

lemma ip_config_keeps [mbim_keeps]:
  assumes "mbim_inv st"
  shows "always inv3 (mbim_ip_config p sid st)"
  unfolding mbim_ip_config_def Let_def
  by (rule composed_bind [OF compose_basic_keeps [OF assms]], simp, rule inv2_bind [OF mbim_call_keeps], assumption)
    (intro always_sum always_bind_any always_if always_prod always_Some; simp)

text \<open>The connect request: how long its buffer is.\<close>

lemma align_32_le: "align_32 n \<le> n + 3"
proof (cases "n mod 4 = 0")
  case False
  then have "4 - n mod 4 \<le> 3" by linarith
  then show ?thesis by (simp add: align_32_def)
qed (simp add: align_32_def)

lemma populate_length:
  assumes "mbim_populate_connect_data st = Some (r, st')"
  shows "st' = snd (mbim_alloc st)" and "r = Some (n, b) \<Longrightarrow> n \<le> string_size (mbim_apn st)
      + string_size (mbim_user st) + string_size (mbim_pd st) + 9"
proof -
  let ?n = "align_32 (align_32 (align_32 (string_size (mbim_apn st)) + string_size (mbim_user st)) + string_size (mbim_pd st))"
  show "st' = snd (mbim_alloc st)"
    using assms by (auto simp: mbim_populate_connect_data_def run_conv Let_def split: prod.splits if_splits)
  assume "r = Some (n, b)"
  then have "n = ?n"
    using assms by (auto simp: mbim_populate_connect_data_def run_conv Let_def split: prod.splits if_splits)
  then show "n \<le> string_size (mbim_apn st) + string_size (mbim_user st) + string_size (mbim_pd st) + 9"
    using align_32_le [of "string_size (mbim_apn st)"]
      align_32_le [of "align_32 (string_size (mbim_apn st)) + string_size (mbim_user st)"]
      align_32_le [of "align_32 (align_32 (string_size (mbim_apn st)) + string_size (mbim_user st)) + string_size (mbim_pd st)"]
    by linarith
qed

lemma unat_of_nat32: "n < 2 ^ 32 \<Longrightarrow> unat (of_nat n :: u32) = n"
  by (simp add: unat_of_nat)

lemma connect_size:
  assumes "mbim_inv st" and "n \<le> string_size (mbim_apn st) + string_size (mbim_user st) + string_size (mbim_pd st) + 9"
  shows "unat (of_nat (60 + n) :: u32) = 60 + n" and "60 + n < 2 ^ 31"
proof -
  from assms show "60 + n < 2 ^ 31" by (simp add: mbim_inv_def small_def)
  then have "60 + n < 2 ^ 32" by simp
  then show "unat (of_nat (60 + n) :: u32) = 60 + n" by (rule unat_of_nat32)
qed

definition connect_ready :: "(nat \<times> bytes) option \<times> mbim \<Rightarrow> bool" where
  "connect_ready x \<longleftrightarrow> mbim_inv (snd x) \<and> (\<forall>n b. fst x = Some (n, b) \<longrightarrow> unat (of_nat (60 + n) :: u32) < 2 ^ 31)"

lemma populate_ready:
  assumes "mbim_inv st"
  shows "always connect_ready (mbim_populate_connect_data st)"
proof (rule alwaysI)
  fix x assume x: "mbim_populate_connect_data st = Some x"
  obtain r st' where r: "x = (r, st')" by (cases x)
  have "mbim_inv st'" using populate_length(1) [OF x [unfolded r]] assms
    by (cases "mbim_alloc st") (simp add: mbim_inv_alloc)
  moreover have "unat (of_nat (60 + n) :: u32) < 2 ^ 31" if "r = Some (n, b)" for n b
    using connect_size [OF assms populate_length(2) [OF x [unfolded r] that]] by simp
  ultimately show "connect_ready x" by (simp add: r connect_ready_def)
qed

lemma set_connect_keeps [mbim_keeps]:
  assumes "mbim_inv st"
  shows "always inv2 (mbim_set_connect onoff sid st)"
  unfolding mbim_set_connect_def
proof (rule always_bind [OF populate_ready [OF assms]])
  fix x assume x: "connect_ready x"
  obtain r st' where r: "x = (r, st')" by (cases x)
  show "always inv2 (case x of (r, st) \<Rightarrow> (case r of None \<Rightarrow> Some (ENOMEM, st) | Some (buflen, b) \<Rightarrow> do {
         b \<leftarrow> fill_connect onoff sid st b;
         basic_command MBIM_CID_CONNECT MBIM_CID_CMD_TYPE_SET (Some b) (of_nat (60 + buflen))
           (\<lambda>m st. do {
              s \<leftarrow> rd32 m (48 + 4);
              Some (updated (st\<lparr>ActivationState := s\<rparr>)) }) st }))"
    using x unfolding r prod.case connect_ready_def
    by (intro always_option always_prod always_bind_any basic_command_keeps always_Some) auto
qed

lemma proxy_configure_keeps [mbim_keeps]:
  assumes "mbim_inv st" and "length dev < 2 ^ 28"
  shows "always inv2 (mbim_proxy_configure dev st)"
proof -
  have "(12 + length dev * 2) < 2 ^ 32" using assms(2) by simp
  then have n: "unat (of_nat (12 + length dev * 2) :: u32) < 2 ^ 31" using assms(2) by (simp only: unat_of_nat32) simp
  show ?thesis
    unfolding mbim_proxy_configure_def
  proof (rule composed_bind [OF compose_basic_keeps [OF assms(1) n]])
    fix r st assume c: "composed r st"
    have "always (\<lambda>r. composed r st) (case r of None \<Rightarrow> Some None | Some m \<Rightarrow> do {
           uuid \<leftarrow> str2uuid UUID_LIBMBIM_PROXY;
           m \<leftarrow> poke 20 uuid m;
           m \<leftarrow> poke 48 (le32 12) m;
           (n, m) \<leftarrow> char2wchar dev 60 (length dev * 2) m;
           m \<leftarrow> poke 52 (le32 (of_nat n)) m;
           m \<leftarrow> poke 56 (le32 15) m;
           Some (Some m) })"
      using c by (intro alwaysI)
        (auto simp: run_conv char2wchar_def Let_def split: option.splits elim!: poke_composed)
    then show "always inv2 (do {
        pRequest \<leftarrow> (case r of None \<Rightarrow> Some None | Some m \<Rightarrow> do {
           uuid \<leftarrow> str2uuid UUID_LIBMBIM_PROXY;
           m \<leftarrow> poke 20 uuid m;
           m \<leftarrow> poke 48 (le32 12) m;
           (n, m) \<leftarrow> char2wchar dev 60 (length dev * 2) m;
           m \<leftarrow> poke 52 (le32 (of_nat n)) m;
           m \<leftarrow> poke 56 (le32 15) m;
           Some (Some m) });
        (r, st) \<leftarrow> mbim_call pRequest st;
        case r of Inl err \<Rightarrow> Some (err, st) | Inr m \<Rightarrow> Some (0, st) })"
      by (rule always_bind) (rule inv2_bind [OF mbim_call_keeps], assumption, intro always_sum always_Some, simp_all)
  qed
qed

lemma open_loop_keeps [mbim_keeps]: "mbim_inv st \<Longrightarrow> always inv2 (open_loop n retval st)"
proof (induction n arbitrary: retval st)
  case (Suc n)
  show ?case
    unfolding open_loop.simps
    by (rule inv2_bind [OF open_close_keeps(1) [OF Suc.prems]]) (intro always_if always_Some Suc.IH; simp)
qed (simp add: always_Some)

lemma mbim_init_keeps [mbim_keeps]:
  assumes "mbim_inv st" and "length dev < 2 ^ 28"
  shows "always inv3 (mbim_init dev p st)"
  unfolding mbim_init_def Let_def
  using assms
  by (intro inv2_bind inv3_bind always_if mbim_keeps always_Some) simp_all

lemma requests_keep:
  assumes "mbim_inv st"
  shows "always inv3 (mbim_requestGetSIMStatus s st)" "always inv3 (mbim_requestRegistrationState a st)"
    "always inv3 (mbim_requestQueryDataCall c f st)" "always inv3 (mbim_requestDeactivateDefaultPDP p f st)"
    "always inv3 (mbim_requestGetIPAddress p f st)" "always mbim_inv (mbim_deinit st)"
    "small (apn p) \<Longrightarrow> small (user p) \<Longrightarrow> small (pd p) \<Longrightarrow> always inv3 (mbim_requestSetupDataCall p f st)"
proof -
  show "always inv3 (mbim_requestGetSIMStatus s st)" "always inv3 (mbim_requestRegistrationState a st)"
    "always inv3 (mbim_requestQueryDataCall c f st)" "always inv3 (mbim_requestDeactivateDefaultPDP p f st)"
    "always inv3 (mbim_requestGetIPAddress p f st)" "always mbim_inv (mbim_deinit st)"
    unfolding mbim_requestGetSIMStatus_def mbim_requestRegistrationState_def mbim_requestQueryDataCall_def
      mbim_requestDeactivateDefaultPDP_def mbim_requestGetIPAddress_def mbim_deinit_def Let_def
    by (intro inv2_bind always_if mbim_keeps assms always_Some; simp)+
  assume "small (apn p)" "small (user p)" "small (pd p)"
  then have "mbim_inv (select_connect_settings p st)"
    using assms by (simp add: select_connect_settings_def mbim_inv_def mirrored_def)
  then show "always inv3 (mbim_requestSetupDataCall p f st)"
    unfolding mbim_requestSetupDataCall_def Let_def
    by (intro inv2_bind mbim_keeps always_Some; simp)
qed

section \<open>Every sequence of requests\<close>

text \<open>The static variables as the file initialises them, with the device opened by the reader thread.\<close>

definition mbim_opened :: "int \<Rightarrow> int \<Rightarrow> bool list \<Rightarrow> mbim_reply list \<Rightarrow> (nat \<Rightarrow> u8) \<Rightarrow> bool \<Rightarrow> mbim" where
  "mbim_opened fd sid ms rs g sp = \<lparr>mbim_fd = fd, s_tid_reader = True, mbim_TransactionId = 1,
     mbim_apn = None, mbim_user = None, mbim_pd = None, mbim_iptype = 0, mbim_auth = 0, mbim_sessionID = sid,
     mbim_pRequest = None, mbim_pResponse = None, qmi_over_mbim_support = False, qmi_over_mbim_sk = False,
     mbim_ms_version = 1, mbim_open_state = 0, ReadyState = 0, RegisterState = 0, PacketServiceState = 0,
     ActivationState = 0, oldReadyState = 0, oldRegisterState = 0, oldPacketServiceState = 0,
     oldActivationState = 0, mb_mallocs = ms, mb_replies = rs, mb_sent = [],
     mb_events = [RIL_INDICATE_DEVICE_CONNECTED], mb_garbage = g, mb_socketpair = sp\<rparr>"

inductive mbim_step :: "mbim \<Rightarrow> mbim \<Rightarrow> bool" where
  init: "mbim_init dev p st = Some (e, p', st') \<Longrightarrow> length dev < 2 ^ 28 \<Longrightarrow> mbim_step st st'"
| sim: "mbim_requestGetSIMStatus s st = Some (e, s', st') \<Longrightarrow> mbim_step st st'"
| registration: "mbim_requestRegistrationState a st = Some (e, a', st') \<Longrightarrow> mbim_step st st'"
| setup_call: "mbim_requestSetupDataCall p f st = Some (e, p', st') \<Longrightarrow>
    small (apn p) \<Longrightarrow> small (user p) \<Longrightarrow> small (pd p) \<Longrightarrow> mbim_step st st'"
| query: "mbim_requestQueryDataCall c f st = Some (e, c', st') \<Longrightarrow> mbim_step st st'"
| deactivate: "mbim_requestDeactivateDefaultPDP p f st = Some (e, p', st') \<Longrightarrow> mbim_step st st'"
| getip: "mbim_requestGetIPAddress p f st = Some (e, p', st') \<Longrightarrow> mbim_step st st'"
| deinit: "mbim_deinit st = Some st' \<Longrightarrow> mbim_step st st'"
| message: "mbim_recv_command (Some m) st = Some (sig, st') \<Longrightarrow> mbim_step st st'"

lemma recv_idle_inv:
  assumes "mbim_recv_command m st = Some (sig, st')" and "mbim_inv st"
  shows "mbim_inv st'"
proof (rule mbim_inv_change [OF mbim_recv_change [OF assms(1)]])
  show "mbim_inv (st\<lparr>mbim_pResponse := None\<rparr>)" using assms(2) by (simp add: mbim_inv_def mirrored_def)
  show "mbim_pResponse st' = None"
  proof (cases "mbim_pResponse st'")
    case (Some d)
    from mbim_recv_response [OF assms(1) _ this] assms(2) show ?thesis by (simp add: mbim_inv_def)
  qed
qed

lemma mbim_step_inv: "mbim_step st st' \<Longrightarrow> mbim_inv st \<Longrightarrow> mbim_inv st'"
proof (induction rule: mbim_step.induct)
  case (message m st sig st')
  then show ?case by (rule recv_idle_inv)
qed (auto dest: alwaysD [OF requests_keep(1)] alwaysD [OF requests_keep(2)] alwaysD [OF requests_keep(3)]
    alwaysD [OF requests_keep(4)] alwaysD [OF requests_keep(5)] alwaysD [OF requests_keep(6)]
    alwaysD [OF requests_keep(7)] alwaysD [OF mbim_init_keeps])

lemma mbim_steps_inv: "mbim_step\<^sup>*\<^sup>* st st' \<Longrightarrow> mbim_inv st \<Longrightarrow> mbim_inv st'"
  by (induction rule: rtranclp_induct) (auto dest: mbim_step_inv)

lemma mbim_opened_inv: "fd > 0 \<Longrightarrow> mbim_inv (mbim_opened fd sid ms rs g sp)"
  by (simp add: mbim_opened_def mbim_inv_def mirrored_def small_def string_size_def)

text \<open>
  C25: Over every sequence of start-ups, requests and received messages, whatever the modem answers, every
  message written carries a transaction id from 1 to \<^verbatim>\<open>0xFFFFFF\<close>, which leaves the byte free in which the
  proxy keeps its client; and the states that indications are compared with are the current ones.
\<close>

theorem mbim_transaction_ids:
  assumes "fd > 0" and "mbim_step\<^sup>*\<^sup>* (mbim_opened fd sid ms rs g sp) st" and "m \<in> set (mb_sent st)"
  shows "(\<exists>t. rd32 m 8 = Some t \<and> 1 \<le> t \<and> t \<le> 0xFFFFFF)
     \<and> oldReadyState st = ReadyState st \<and> oldRegisterState st = RegisterState st
     \<and> oldPacketServiceState st = PacketServiceState st \<and> oldActivationState st = ActivationState st"
  using mbim_steps_inv [OF assms(2) mbim_opened_inv [OF assms(1)]] assms(3)
  by (auto simp: mbim_inv_def mirrored_def tid_ok_def list_all_iff)

section \<open>Examples\<close>

text \<open>A device that answers with the given replies.\<close>

definition example_mbim :: "mbim_reply list \<Rightarrow> mbim" where
  "example_mbim rs = mbim_opened 3 0 [] rs (\<lambda>_. 0) False"

theorem uuid_roundtrip_witness:
  "length (replicate 16 (0xa2 :: u8)) = 16 \<and> str2uuid (uuid2str (replicate 16 0xa2)) = Some (replicate 16 0xa2)"
  using uuid_roundtrip [of "replicate 16 0xa2"] by simp

definition example_close :: bytes where "example_close = le32 2 @ le32 12 @ le32 1"
definition example_closed :: "u32 \<Rightarrow> bytes" where
  "example_closed t = le32 0x80000002 @ le32 16 @ le32 t @ le32 0"

lemma example_close_wf: "request_wf example_close"
  unfolding example_close_def using header_wf(1) [where n = 12 and rest = "[]"] by simp

text \<open>A message with another transaction id comes before the answer.\<close>

theorem mbim_response_answers_witness:
  "\<exists>st' out b len. mbim_send_command (Some example_close) (example_mbim [\<lparr>write_result = None,
       received = [Some (example_closed 7), Some (example_closed 1)], wait_result = ETIMEDOUT\<rparr>])
       = Some (0, Some (example_closed 1), st')
     \<and> mb_sent st' = [out] \<and> rd32 b 8 = rd32 out 8 \<and> rd32 b 4 = Some len \<and> example_closed 1 = take (unat len) b"
proof -
  let ?st = "example_mbim [\<lparr>write_result = None,
    received = [Some (example_closed 7), Some (example_closed 1)], wait_result = ETIMEDOUT\<rparr>]"
  have "map_option (\<lambda>(r, d, s). (r, d)) (mbim_send_command (Some example_close) ?st) = Some (0, Some (example_closed 1))"
    by code_simp
  then obtain st' where st': "mbim_send_command (Some example_close) ?st = Some (0, Some (example_closed 1), st')"
    by auto
  have "mbim_fd ?st > 0" "s_tid_reader ?st" "mb_sent ?st = []" by (simp_all add: example_mbim_def mbim_opened_def)
  with mbim_response_answers [OF st' example_close_wf] st' show ?thesis by auto
qed

theorem mbim_transaction_ids_witness:
  "\<exists>st m. mbim_step (example_mbim []) st \<and> m \<in> set (mb_sent st) \<and> (\<exists>t. rd32 m 8 = Some t \<and> 1 \<le> t \<and> t \<le> 0xFFFFFF)"
proof -
  have "map_option (\<lambda>(e, c, s). length (mb_sent s)) (mbim_requestQueryDataCall 0 4 (example_mbim [])) = Some 1"
    by code_simp
  then obtain e c st where q: "mbim_requestQueryDataCall 0 4 (example_mbim []) = Some (e, c, st)" and l: "length (mb_sent st) = 1"
    by auto
  from l obtain m where m: "m \<in> set (mb_sent st)" by (cases "mb_sent st") auto
  have step: "mbim_step (example_mbim []) st" by (rule mbim_step.query [OF q])
  then have steps: "mbim_step\<^sup>*\<^sup>* (mbim_opened 3 0 [] [] (\<lambda>_. 0) False) st"
    unfolding example_mbim_def by (rule r_into_rtranclp)
  have "0 < (3 :: int)" by simp
  from mbim_transaction_ids [OF this steps m] step m
  show ?thesis by blast
qed

end
