(* ===== verification/MbimProps.thy ===== *)
theory MbimProps
  imports MbimLink
begin

text \<open>
  What the requests of the MBIM backend do: the strings of the connect request, the IP configuration,
  the registration request, and the invariant of the event loop over this table of requests.
\<close>

section \<open>The strings of the connect request\<close>

definition text_of :: "string option \<Rightarrow> bytes" where
  "text_of s = (case s of None \<Rightarrow> [] | Some t \<Rightarrow> wide t)"

text \<open>How a device reads a string of the structure: the bytes its offset and size fields lead to.\<close>

definition segment :: "bytes \<Rightarrow> nat \<Rightarrow> nat \<Rightarrow> bytes option" where
  "segment b offset_at size_at = do {
     off \<leftarrow> rd32 b offset_at;
     n \<leftarrow> rd32 b size_at;
     if n = 0 then Some [] else rdn b (unat off) (unat n) }"

text \<open>The text \<open>t\<close> is read through these fields and lies between the structure and \<open>lim\<close> of the data.\<close>

definition holds :: "bytes \<Rightarrow> nat \<Rightarrow> nat \<Rightarrow> bytes \<Rightarrow> nat \<Rightarrow> bool" where
  "holds b offset_at size_at t lim \<longleftrightarrow>
     (\<exists>off n. rd32 b offset_at = Some off \<and> rd32 b size_at = Some n \<and> unat n = length t
        \<and> (t \<noteq> [] \<longrightarrow> 60 \<le> unat off \<and> unat off + length t \<le> 60 + lim \<and> rdn b (unat off) (length t) = Some t))"

lemma holds_segment: "holds b i j t lim \<Longrightarrow> segment b i j = Some t"
  by (auto simp: holds_def segment_def unat_eq_zero)

lemma length_wide [simp]: "length (wide s) = 2 * length s"
  by (induction s) (simp_all add: wide_def cbytes_def)

lemma length_text_of [simp]: "length (text_of s) = string_size s"
  by (simp add: text_of_def string_size_def split: option.splits)

text \<open>A store elsewhere leaves a text alone: in the fields of the structure, or behind the text.\<close>

lemma holds_poke:
  assumes "holds b i j t lim" and "poke p xs b = Some b'"
    and "i + 4 \<le> p \<or> p + length xs \<le> i" and "j + 4 \<le> p \<or> p + length xs \<le> j"
    and "p + length xs \<le> 60 \<or> 60 + lim \<le> p"
  shows "holds b' i j t lim"
proof -
  from assms(1) obtain off n where h: "rd32 b i = Some off" "rd32 b j = Some n" "unat n = length t"
    and t: "t \<noteq> [] \<longrightarrow> 60 \<le> unat off \<and> unat off + length t \<le> 60 + lim \<and> rdn b (unat off) (length t) = Some t"
    by (auto simp: holds_def)
  have "rdn b' (unat off) (length t) = rdn b (unat off) (length t)" if "t \<noteq> []"
    by (rule rdn_poke_other [OF assms(2)]) (use t that assms(5) in linarith)
  then show ?thesis
    using h t by (simp add: holds_def rd32_poke_other [OF assms(2,3)] rd32_poke_other [OF assms(2,4)])
qed

lemma put_string_empty: "string_size s = 0 \<Longrightarrow> put_string i j s n (p, b) = Some (p, b)"
  by (cases s) (simp_all add: put_string_def string_size_def)

text \<open>Storing a string where it fits.\<close>

lemma put_string_fits:
  assumes "string_size s \<noteq> 0" and "length b = 60 + n" and "p + string_size s \<le> n"
    and "i + 4 \<le> 60" and "j + 4 \<le> 60"
  obtains b1 b2 b3 where "poke j (le32 (of_nat (string_size s))) b = Some b1"
    and "poke i (le32 (of_nat (p + 60))) b1 = Some b2" and "poke (60 + p) (text_of s) b2 = Some b3"
    and "put_string i j s n (p, b) = Some (align_32 (string_size s), b3)" and "length b3 = length b"
proof -
  obtain t where s: "s = Some t" "t \<noteq> []" "string_size s = 2 * length t"
    using assms(1) by (cases s) (auto simp: string_size_def)
  obtain b1 where b1: "poke j (le32 (of_nat (string_size s))) b = Some b1"
    using assms(2,5) by (simp add: poke_def)
  obtain b2 where b2: "poke i (le32 (of_nat (p + 60))) b1 = Some b2"
    using assms(2,4) poke_length [OF b1] by (simp add: poke_def)
  have l2: "length b2 = length b" using poke_length [OF b1] poke_length [OF b2] by simp
  obtain b3 where b3: "poke (60 + p) (text_of s) b2 = Some b3"
    using assms(2,3) l2 by (simp add: poke_def)
  have "min (length t) ((n - p) div 2) = length t" using assms(3) s(3) by simp
  then have "put_string i j s n (p, b) = Some (align_32 (string_size s), b3)"
    using b1 b2 b3 s by (simp add: put_string_def char2wchar_def text_of_def)
  with b1 b2 b3 l2 poke_length [OF b3] that show thesis by simp
qed

lemma put_string_new:
  assumes "length b = 60 + n" and "p + string_size s \<le> n" and "n < 2 ^ 31"
    and "rd32 b i = Some 0" and "rd32 b j = Some 0" and "i + 4 \<le> 60" and "j + 4 \<le> 60" and "i + 4 \<le> j"
  obtains b' where "put_string i j s n (p, b) = Some (if string_size s = 0 then p else align_32 (string_size s), b')"
    and "length b' = length b" and "holds b' i j (text_of s) (p + string_size s)"
    and "\<And>i' j' t. holds b i' j' t lim \<Longrightarrow> lim \<le> p \<Longrightarrow> i' + 4 \<le> i \<or> j + 4 \<le> i' \<Longrightarrow>
           j' + 4 \<le> i \<or> j + 4 \<le> j' \<Longrightarrow> i' + 4 \<le> 60 \<Longrightarrow> j' + 4 \<le> 60 \<Longrightarrow> holds b' i' j' t lim"
    and "\<And>k. k + 4 \<le> i \<or> j + 4 \<le> k \<and> k + 4 \<le> 60 \<Longrightarrow> rd32 b' k = rd32 b k"
proof (cases "string_size s = 0")
  case True
  then have "text_of s = []" by (metis length_text_of length_0_conv)
  with True assms(4,5) that [of b] put_string_empty [OF True] show thesis by (auto simp: holds_def)
next
  case False
  obtain b1 b2 b3 where b1: "poke j (le32 (of_nat (string_size s))) b = Some b1"
    and b2: "poke i (le32 (of_nat (p + 60))) b1 = Some b2" and b3: "poke (60 + p) (text_of s) b2 = Some b3"
    and put: "put_string i j s n (p, b) = Some (align_32 (string_size s), b3)" and l: "length b3 = length b"
    by (rule put_string_fits [OF False assms(1,2,6,7)])
  have u: "unat (of_nat (string_size s) :: u32) = string_size s" "unat (of_nat (p + 60) :: u32) = p + 60"
    by (rule unat_of_nat32; use assms(2,3) in simp)+
  have "rd32 b3 j = Some (of_nat (string_size s))"
    using rd32_poke_other [OF b3, of j] rd32_poke_other [OF b2, of j] rd32_poke_same [OF b1] assms(7,8) by simp
  moreover have "rd32 b3 i = Some (of_nat (p + 60))"
    using rd32_poke_other [OF b3, of i] rd32_poke_same [OF b2] assms(6) by simp
  moreover have "rdn b3 (p + 60) (string_size s) = Some (text_of s)"
    using rdn_poke_same [OF b3, of "string_size s"] by (simp add: add.commute)
  ultimately have new: "holds b3 i j (text_of s) (p + string_size s)" by (auto simp: holds_def u simp del: of_nat_add)
  have other: "holds b3 i' j' t lim" if h: "holds b i' j' t lim" "lim \<le> p" "i' + 4 \<le> i \<or> j + 4 \<le> i'"
    "j' + 4 \<le> i \<or> j + 4 \<le> j'" "i' + 4 \<le> 60" "j' + 4 \<le> 60" for i' j' t
    using h assms(6-8) holds_poke [OF holds_poke [OF holds_poke [OF h(1) b1] b2] b3] by auto
  have k: "rd32 b3 k = rd32 b k" if "k + 4 \<le> i \<or> j + 4 \<le> k \<and> k + 4 \<le> 60" for k
    using that assms(6-8) rd32_poke_other [OF b3, of k] rd32_poke_other [OF b2, of k] rd32_poke_other [OF b1, of k] by auto
  show thesis by (rule that [OF _ l new other k]) (use put False in auto)
qed

lemma holds_empty: "rd32 b i = Some off \<Longrightarrow> rd32 b j = Some 0 \<Longrightarrow> holds b i j [] lim"
  by (simp add: holds_def)

lemma holds_mono: "holds b i j t lim \<Longrightarrow> lim \<le> lim' \<Longrightarrow> holds b i j t lim'"
  by (fastforce simp: holds_def)

lemma rd32_zeros: "k + 4 \<le> n \<Longrightarrow> rd32 (replicate n 0) k = Some 0"
  by (simp add: rd32_def le32_to_cpu_def)

lemma align_32_ge: "n \<le> align_32 n"
  by (simp add: align_32_def)

lemma align_32_0 [simp]: "align_32 0 = 0"
  by (simp add: align_32_def)

definition connect_bytes :: "mbim \<Rightarrow> nat" where
  "connect_bytes st = align_32 (align_32 (align_32 (string_size (mbim_apn st)) + string_size (mbim_user st))
     + string_size (mbim_pd st))"

text \<open>
  When one of the three strings is empty each of them is stored behind the ones before it.
\<close>

lemma populate_holds:
  assumes "connect_bytes st < 2 ^ 31"
    and "string_size (mbim_apn st) = 0 \<or> string_size (mbim_user st) = 0 \<or> string_size (mbim_pd st) = 0"
    and "fst (mbim_alloc st)"
  obtains b where "mbim_populate_connect_data st = Some (Some (connect_bytes st, b), snd (mbim_alloc st))"
    and "length b = 60 + connect_bytes st" and "holds b 8 12 (text_of (mbim_apn st)) (connect_bytes st)"
    and "holds b 16 20 (text_of (mbim_user st)) (connect_bytes st)"
    and "holds b 24 28 (text_of (mbim_pd st)) (connect_bytes st)"
proof -
  let ?n = "connect_bytes st" and ?b = "replicate (60 + connect_bytes st) (0 :: u8)"
  let ?a = "string_size (mbim_apn st)" and ?u = "string_size (mbim_user st)" and ?d = "string_size (mbim_pd st)"
  define p1 where "p1 = (if ?a = 0 then 0 else align_32 ?a)"
  define p2 where "p2 = (if ?u = 0 then p1 else align_32 ?u)"
  have n: "align_32 ?a + ?u \<le> align_32 (align_32 ?a + ?u)" "align_32 (align_32 ?a + ?u) + ?d \<le> ?n" "?a \<le> align_32 ?a"
    unfolding connect_bytes_def by (rule align_32_ge)+
  have p1: "p1 = align_32 ?a" by (simp add: p1_def)
  have p2: "?d \<noteq> 0 \<Longrightarrow> p1 + ?u \<le> p2" "?a \<le> p1 + ?u" "?d \<noteq> 0 \<Longrightarrow> p2 + ?d \<le> ?n" "?d = 0 \<or> p2 + ?d \<le> ?n"
    using assms(2) n align_32_ge [of ?u] by (auto simp: p2_def p1 connect_bytes_def intro: align_32_ge)
  have m: "mbim_apn (snd (mbim_alloc st)) = mbim_apn st" "mbim_user (snd (mbim_alloc st)) = mbim_user st"
    "mbim_pd (snd (mbim_alloc st)) = mbim_pd st" by (simp_all add: mbim_alloc_def)
  have l: "length ?b = 60 + ?n" and z: "rd32 ?b k = Some 0" if "k + 4 \<le> 60" for k
    using that by (simp_all add: rd32_zeros)
  obtain b1 where b1: "put_string 8 12 (mbim_apn st) ?n (0, ?b) = Some (p1, b1)" "length b1 = 60 + ?n"
    "holds b1 8 12 (text_of (mbim_apn st)) ?a" "\<And>k. 16 \<le> k \<Longrightarrow> k + 4 \<le> 60 \<Longrightarrow> rd32 b1 k = Some 0"
    by (rule put_string_new [of ?b ?n 0 "mbim_apn st" 8 12]) (use n assms(1) z in \<open>auto simp: p1_def\<close>)
  obtain b2 where b2: "put_string 16 20 (mbim_user st) ?n (p1, b1) = Some (p2, b2)" "length b2 = 60 + ?n"
    "holds b2 16 20 (text_of (mbim_user st)) (p1 + ?u)" "holds b2 8 12 (text_of (mbim_apn st)) ?a"
    "\<And>k. 24 \<le> k \<Longrightarrow> k + 4 \<le> 60 \<Longrightarrow> rd32 b2 k = Some 0"
    by (rule put_string_new [of b1 ?n p1 "mbim_user st" 16 20 ?a])
      (use n assms(1) b1 in \<open>auto simp: p1 p2_def\<close>)
  have h2: "holds b2 8 12 (text_of (mbim_apn st)) (p1 + ?u)" "p1 + ?u \<le> ?n"
    using holds_mono [OF b2(4)] p2(2) n by (auto simp: p1)
  obtain p3 b3 where b3: "put_string 24 28 (mbim_pd st) ?n (p2, b2) = Some (p3, b3)" "length b3 = 60 + ?n"
    "holds b3 8 12 (text_of (mbim_apn st)) ?n" "holds b3 16 20 (text_of (mbim_user st)) ?n"
    "holds b3 24 28 (text_of (mbim_pd st)) ?n"
  proof (cases "?d = 0")
    case True
    then have "text_of (mbim_pd st) = []" by (metis length_text_of length_0_conv)
    then show thesis
      by (intro that [OF put_string_empty [OF True] b2(2)] holds_mono [OF h2(1)] holds_mono [OF b2(3)])
        (use h2(2) b2(5) in \<open>simp_all add: holds_empty\<close>)
  next
    case False
    obtain b' where b': "put_string 24 28 (mbim_pd st) ?n (p2, b2) = Some (align_32 ?d, b')" "length b' = 60 + ?n"
      "holds b' 24 28 (text_of (mbim_pd st)) (p2 + ?d)" "holds b' 8 12 (text_of (mbim_apn st)) (p1 + ?u)"
      "holds b' 16 20 (text_of (mbim_user st)) (p1 + ?u)"
      by (rule put_string_new [of b2 ?n p2 "mbim_pd st" 24 28 "p1 + ?u"]) (use False n assms(1) b2 h2 p2 in auto)
    show thesis
      by (rule that [OF b'(1,2) holds_mono [OF b'(4)] holds_mono [OF b'(5)] holds_mono [OF b'(3)]])
        (use h2(2) p2(3) False in auto)
  qed
  obtain st1 where a: "mbim_alloc st = (True, st1)" using assms(3) by (cases "mbim_alloc st") simp
  show thesis
    by (rule that [OF _ b3(2-5)])
      (use b1(1) b2(1) b3(1) m in \<open>simp add: mbim_populate_connect_data_def Let_def a flip: connect_bytes_def\<close>)
qed

section \<open>The message a command sends\<close>

lemma mbim_call_sent:
  assumes "mbim_call (Some m) st = Some (x, st')" and "composed (Some m) st"
  obtains m1 where "mb_sent st' = mb_sent st @ [m1]" and "length m1 = length m"
    and "\<forall>i n. 12 \<le> i \<longrightarrow> rdn m1 i n = rdn m i n"
proof -
  from assms(1) obtain a where a: "mbim_send_command (Some m) st = Some a"
    and e: "(case a of (err, pCmdDone, st) \<Rightarrow> mbim_check_err err pCmdDone st) = Some (x, st')"
    unfolding mbim_call_def by (rule bind_SomeE)
  obtain ret resp st1 where st1: "a = (ret, resp, st1)" by (cases a)
  from e obtain c where c: "mbim_status_code resp st1 = Some c" and st': "st' = snd c"
    unfolding st1 prod.case mbim_check_err_def by (rule bind_SomeE) (auto split: option.splits)
  have s: "mb_sent st' = mb_sent st1" using mbim_status_code_keeps [of resp st1 "fst c" "snd c"] c st' by auto
  have wf: "request_wf m" and fd: "mbim_fd st > 0" "s_tid_reader st"
    using assms(2) by (auto simp: composed_def mbim_inv_def)
  obtain m1 st2 where r: "renumber m st = Some (m1, st2)"
    using a fd by (cases "renumber m st") (auto simp: mbim_send_command_def)
  then have m1: "mb_sent st2 = mb_sent st" "m1 = m \<or> poke 8 (le32 1) m = Some m1"
    by (auto simp: renumber_def run_conv split: if_splits)
  have "mb_sent st1 = mb_sent st @ [m1]"
    using reader_changeD(2) [OF mbim_send_exchange(1) [OF a [unfolded st1] r wf fd]] m1(1) by (simp add: exchange_start_def)
  with s m1(2) show thesis by (intro that [of m1]) (auto simp: poke_length rdn_poke_other)
qed

lemma basic_command_sent:
  assumes "basic_command cid ty (Some info) len k st = Some (e, st')" and "mbim_inv st" and "fst (mbim_alloc st)"
    and "length info = unat len" and "0 < unat len" and "unat len < 2 ^ 31"
    and k: "\<And>m st. always (\<lambda>st'. mb_sent st' = mb_sent st) (k m st)"
  obtains m where "mb_sent st' = mb_sent st @ [m]" and "rdn m 48 (length info) = Some info"
    and "rd32 m 36 = Some cid" and "rd32 m 40 = Some ty" and "length m = 48 + length info"
proof -
  obtain st0 where a: "mbim_alloc st = (True, st0)" using assms(3) by (cases "mbim_alloc st") simp
  obtain u where u: "str2uuid UUID_BASIC_CONNECT = Some u" "length u = 16" by (simp add: str2uuid_constants)
  let ?st1 = "st0\<lparr>mbim_TransactionId := mbim_TransactionId st0 + 1\<rparr>"
  let ?m = "le32 MBIM_COMMAND_MSG @ le32 (48 + len) @ le32 (mbim_TransactionId st0) @ le32 1 @ le32 0 @ u
      @ le32 cid @ le32 ty @ le32 len @ info"
  have c: "compose_basic_connect_command cid ty (Some info) len st = Some (Some ?m, ?st1)"
    using assms(4,5) u by (simp add: compose_basic_connect_command_def a rdn_def unat_gt_0)
  have s0: "mb_sent ?st1 = mb_sent st" using a by (auto simp: mbim_alloc_def)
  obtain x st2 where x: "mbim_call (Some ?m) ?st1 = Some (x, st2)" and st': "mb_sent st' = mb_sent st2"
    using assms(1) unfolding basic_command_def c
    by (auto simp: run_conv split: sum.splits if_splits dest: alwaysD [OF k])
  obtain m1 where m1: "mb_sent st2 = mb_sent ?st1 @ [m1]" "length m1 = length ?m"
    "\<forall>i n. 12 \<le> i \<longrightarrow> rdn m1 i n = rdn ?m i n"
    by (rule mbim_call_sent [OF x compose_basic_composed [OF c assms(2,6)]])
  have "rdn ?m 36 4 = Some (le32 cid)" "rdn ?m 40 4 = Some (le32 ty)" "rdn ?m 48 (length info) = Some info"
    using u(2) by (simp_all add: rdn_def)
  then have "rdn m1 48 (length info) = Some info" "rd32 m1 36 = Some cid" "rd32 m1 40 = Some ty"
    using m1(3) by (simp_all add: rd32_rdn) (simp_all add: le32_def)
  moreover have "length m1 = 48 + length info" using m1(2) u(2) by simp
  ultimately show thesis using that [of m1] st' m1(1) s0 by simp
qed

lemma fill_connect_fields:
  assumes "60 \<le> length b"
  obtains b' where "fill_connect onoff sid st b = Some b'" and "length b' = length b"
    and "\<forall>i j t lim. holds b i j t lim \<longrightarrow> 8 \<le> i \<longrightarrow> i + 4 \<le> 32 \<longrightarrow> 8 \<le> j \<longrightarrow> j + 4 \<le> 32 \<longrightarrow> holds b' i j t lim"
    and "rd32 b' 0 = Some (word_of_int sid)" and "rd32 b' 4 = Some (if onoff = 0 then 0 else 1)"
    and "rd32 b' 36 = Some (word_of_int (mbim_auth st))" and "rd32 b' 40 = Some (word_of_int (mbim_iptype st))"
proof -
  obtain u where u: "str2uuid UUID_MBIMContextTypeInternet = Some u" "length u = 16" by (simp add: str2uuid_constants)
  obtain b1 where b1: "poke 0 (le32 (word_of_int sid)) b = Some b1" using assms by (simp add: poke_def)
  note l1 = poke_length [OF b1]
  obtain b2 where b2: "poke 4 (le32 (if onoff = 0 then 0 else 1)) b1 = Some b2" using assms l1 by (simp add: poke_def)
  note l2 = poke_length [OF b2]
  obtain b3 where b3: "poke 32 (le32 0) b2 = Some b3" using assms l1 l2 by (simp add: poke_def)
  note l3 = poke_length [OF b3]
  obtain b4 where b4: "poke 36 (le32 (word_of_int (mbim_auth st))) b3 = Some b4"
    using assms l1 l2 l3 by (simp add: poke_def)
  note l4 = poke_length [OF b4]
  obtain b5 where b5: "poke 40 (le32 (word_of_int (mbim_iptype st))) b4 = Some b5"
    using assms l1 l2 l3 l4 by (simp add: poke_def)
  note l5 = poke_length [OF b5]
  obtain b6 where b6: "poke 44 u b5 = Some b6" using assms l1 l2 l3 l4 l5 u(2) by (simp add: poke_def)
  have f: "fill_connect onoff sid st b = Some b6" by (simp add: fill_connect_def b1 b2 b3 b4 b5 b6 u)
  have h: "holds b6 i j t lim" if "holds b i j t lim" "8 \<le> i" "i + 4 \<le> 32" "8 \<le> j" "j + 4 \<le> 32" for i j t lim
    using that u(2) holds_poke [OF holds_poke [OF holds_poke [OF holds_poke [OF holds_poke [OF holds_poke
      [OF that(1) b1] b2] b3] b4] b5] b6] by simp
  show thesis
    by (rule that [OF f]) (use l1 l2 l3 l4 l5 poke_length [OF b6] h u(2) in
      \<open>auto simp: rd32_poke_same [OF b1] rd32_poke_same [OF b2] rd32_poke_same [OF b4] rd32_poke_same [OF b5]
         rd32_poke_other [OF b2] rd32_poke_other [OF b3] rd32_poke_other [OF b4] rd32_poke_other [OF b5]
         rd32_poke_other [OF b6]\<close>)
qed

lemma connect_bytes_small:
  assumes "mbim_inv st"
  shows "connect_bytes st + 60 < 2 ^ 31"
  using assms align_32_le [of "string_size (mbim_apn st)"]
    align_32_le [of "align_32 (string_size (mbim_apn st)) + string_size (mbim_user st)"]
    align_32_le [of "align_32 (align_32 (string_size (mbim_apn st)) + string_size (mbim_user st)) + string_size (mbim_pd st)"]
  by (simp add: mbim_inv_def small_def connect_bytes_def)

lemma set_connect_sent:
  assumes "mbim_set_connect onoff sid st = Some (e, st')" and "mbim_inv st" and "mb_mallocs st = []"
    and "string_size (mbim_apn st) = 0 \<or> string_size (mbim_user st) = 0 \<or> string_size (mbim_pd st) = 0"
  obtains m info where "mb_sent st' = mb_sent st @ [m]" and "rdn m 48 (length m - 48) = Some info"
    and "rd32 m 36 = Some 12" and "rd32 m 40 = Some 1"
    and "rd32 info 0 = Some (word_of_int sid)" and "rd32 info 4 = Some (if onoff = 0 then 0 else 1)"
    and "rd32 info 36 = Some (word_of_int (mbim_auth st))" and "rd32 info 40 = Some (word_of_int (mbim_iptype st))"
    and "segment info 8 12 = Some (text_of (mbim_apn st))" and "segment info 16 20 = Some (text_of (mbim_user st))"
    and "segment info 24 28 = Some (text_of (mbim_pd st))"
proof -
  let ?n = "connect_bytes st" and ?st = "snd (mbim_alloc st)"
  have a: "mbim_alloc st = (True, st)" using assms(3) by (simp add: mbim_alloc_def)
  obtain b where pop: "mbim_populate_connect_data st = Some (Some (?n, b), st)" and lb: "length b = 60 + ?n"
    and h: "holds b 8 12 (text_of (mbim_apn st)) ?n" "holds b 16 20 (text_of (mbim_user st)) ?n"
      "holds b 24 28 (text_of (mbim_pd st)) ?n"
    by (rule populate_holds [OF _ assms(4)]) (use connect_bytes_small [OF assms(2)] a in auto)
  obtain b' where f: "fill_connect onoff sid st b = Some b'" "length b' = length b"
    "\<forall>i j t lim. holds b i j t lim \<longrightarrow> 8 \<le> i \<longrightarrow> i + 4 \<le> 32 \<longrightarrow> 8 \<le> j \<longrightarrow> j + 4 \<le> 32 \<longrightarrow> holds b' i j t lim"
    and fields: "rd32 b' 0 = Some (word_of_int sid)" "rd32 b' 4 = Some (if onoff = 0 then 0 else 1)"
      "rd32 b' 36 = Some (word_of_int (mbim_auth st))" "rd32 b' 40 = Some (word_of_int (mbim_iptype st))"
    by (rule fill_connect_fields [of b]) (use lb in simp)
  have u: "unat (of_nat (60 + ?n) :: u32) = 60 + ?n"
    by (rule unat_of_nat32) (use connect_bytes_small [OF assms(2)] in simp)
  have cmd: "basic_command MBIM_CID_CONNECT MBIM_CID_CMD_TYPE_SET (Some b') (of_nat (60 + ?n))
      (\<lambda>m st. do { s \<leftarrow> rd32 m (48 + 4); Some (updated (st\<lparr>ActivationState := s\<rparr>)) }) st = Some (e, st')"
    using assms(1) by (simp add: mbim_set_connect_def pop f(1))
  obtain m where m: "mb_sent st' = mb_sent st @ [m]" "rdn m 48 (length b') = Some b'"
    "rd32 m 36 = Some MBIM_CID_CONNECT" "rd32 m 40 = Some MBIM_CID_CMD_TYPE_SET" "length m = 48 + length b'"
    by (rule basic_command_sent [OF cmd assms(2)])
      (use a u lb f(2) connect_bytes_small [OF assms(2)] in
        \<open>auto simp: mbim_update_state_def simp del: of_nat_add intro!: always_bind_any always_Some\<close>)
  have seg: "segment b' 8 12 = Some (text_of (mbim_apn st))" "segment b' 16 20 = Some (text_of (mbim_user st))"
    "segment b' 24 28 = Some (text_of (mbim_pd st))"
    by (rule holds_segment [of _ _ _ _ ?n]; use h f(3) in simp)+
  show thesis
    by (rule that [OF m(1) _ _ _ fields seg])
      (use m in \<open>simp_all add: MBIM_CID_CONNECT_def MBIM_CID_CMD_TYPE_SET_def\<close>)
qed


section \<open>Answered requests\<close>

text \<open>The response of a device to the command with this transaction id, and the reply that delivers it.\<close>

definition done_msg :: "u32 \<Rightarrow> bytes \<Rightarrow> u32 \<Rightarrow> u32 \<Rightarrow> bytes \<Rightarrow> bytes" where
  "done_msg t u cid status info = le32 0x80000003 @ le32 (of_nat (48 + length info)) @ le32 t @ le32 1 @ le32 0
     @ u @ le32 cid @ le32 status @ le32 (of_nat (length info)) @ info"

definition answer :: "bytes \<Rightarrow> mbim_reply" where
  "answer m = \<lparr>write_result = None, received = [Some m], wait_result = ETIMEDOUT\<rparr>"

lemma done_msg_fields:
  assumes "length u = 16" and "length info < 2 ^ 31"
  shows "rd32 (done_msg t u cid s info) 0 = Some 0x80000003"
    "rd32 (done_msg t u cid s info) 4 = Some (of_nat (48 + length info))"
    "rd32 (done_msg t u cid s info) 8 = Some t" "rd32 (done_msg t u cid s info) 40 = Some s"
    "rd32 (done_msg t u cid s info) 44 = Some (of_nat (length info))"
    "rd32 (done_msg t u cid s info) (48 + i) = rd32 info i" "rdn (done_msg t u cid s info) (48 + i) n = rdn info i n"
    "length (done_msg t u cid s info) = 48 + length info"
proof -
  let ?pre = "le32 0x80000003 @ le32 (of_nat (48 + length info)) @ le32 t @ le32 1 @ le32 0 @ u @ le32 cid @ le32 s
    @ le32 (of_nat (length info))"
  have pre: "done_msg t u cid s info = ?pre @ info" "length ?pre = 48" using assms(1) by (simp_all add: done_msg_def)
  show "length (done_msg t u cid s info) = 48 + length info" using pre by simp
  show "rd32 (done_msg t u cid s info) (48 + i) = rd32 info i"
    "rdn (done_msg t u cid s info) (48 + i) n = rdn info i n"
    using rd32_append [of ?pre info i] rdn_append [of ?pre info i n] pre by simp_all
  have at: "rd32 (done_msg t u cid s info) (length xs) = Some w" if "done_msg t u cid s info = xs @ le32 w @ ys" for xs w ys
    using rd32_append [of xs "le32 w @ ys" 0] that by (simp add: rd32_le32)
  show "rd32 (done_msg t u cid s info) 0 = Some 0x80000003"
    "rd32 (done_msg t u cid s info) 4 = Some (of_nat (48 + length info))"
    "rd32 (done_msg t u cid s info) 8 = Some t"
    using at [of "[]"] at [of "le32 0x80000003"] at [of "le32 0x80000003 @ le32 (of_nat (48 + length info))"]
    by (simp_all add: done_msg_def)
  show "rd32 (done_msg t u cid s info) 40 = Some s" "rd32 (done_msg t u cid s info) 44 = Some (of_nat (length info))"
    using assms(1) at [of "le32 0x80000003 @ le32 (of_nat (48 + length info)) @ le32 t @ le32 1 @ le32 0 @ u @ le32 cid"]
      at [of "le32 0x80000003 @ le32 (of_nat (48 + length info)) @ le32 t @ le32 1 @ le32 0 @ u @ le32 cid @ le32 s"]
    by (simp_all add: done_msg_def)
qed

lemma sint_zero_iff: "sint (w :: u32) = 0 \<longleftrightarrow> w = 0"
  using signed_word_eqI [of w 0] by (auto simp: signed_0)

lemma idle_fields:
  "mbim_pRequest st = None \<Longrightarrow> mbim_pResponse st = None \<Longrightarrow> mb_mallocs st = [] \<Longrightarrow>
     (exchange_start m st)\<lparr>mb_mallocs := [], mbim_pRequest := None, mbim_pResponse := None\<rparr>
       = st\<lparr>mb_sent := mb_sent st @ [m], mb_replies := tl (mb_replies st)\<rparr>"
  by (cases st) (simp add: exchange_start_def)

lemma recv_done:
  assumes "mbim_pRequest st = Some m" and "rd32 m 8 = Some t" and "mb_mallocs st = []"
    and "length u = 16" and "length info < 2 ^ 31"
  shows "mbim_recv_command (Some (done_msg t u cid s info)) st
     = Some (True, st\<lparr>mb_mallocs := [], mbim_pResponse := Some (done_msg t u cid s info)\<rparr>)"
proof -
  have "unat (of_nat (48 + length info) :: u32) = 48 + length info" by (rule unat_of_nat32) (use assms(5) in simp)
  then show ?thesis
    using assms(1-3) done_msg_fields [OF assms(4,5)]
    by (simp add: mbim_recv_command_def mbim_alloc_def rdn_def del: of_nat_add)
qed

lemma mbim_call_answered:
  assumes "composed (Some m) st" and "rd32 m 8 = Some t" and "t \<noteq> 0x1000000" and "mb_mallocs st = []"
    and "mb_replies st = answer (done_msg t u cid s info) # rest" and "length u = 16" and "length info < 2 ^ 31"
  shows "mbim_call (Some m) st = Some (if s = 0 then Inr (done_msg t u cid s info) else Inl (sint s),
     st\<lparr>mb_sent := mb_sent st @ [m], mb_replies := rest\<rparr>)"
proof -
  have wf: "request_wf m" and fd: "mbim_fd st > 0" "s_tid_reader st" "mbim_pRequest st = None" "mbim_pResponse st = None"
    using assms(1) by (auto simp: composed_def mbim_inv_def)
  have r: "renumber m st = Some (m, st)" using assms(2,3) by (simp add: renumber_def)
  let ?st = "exchange_start m st"
  have st: "mbim_pRequest ?st = Some m" "mb_mallocs ?st = []" using assms(4) by (simp_all add: exchange_start_def)
  note w = recv_done [OF st(1) assms(2) st(2) assms(6,7), of cid s]
  have "m \<noteq> []" using wf by (auto simp: request_wf_def)
  moreover have "fst (next_reply st) = answer (done_msg t u cid s info)"
    using assms(5) by (simp add: next_reply_def)
  ultimately have "mbim_send_command (Some m) st = Some (0, Some (done_msg t u cid s info),
      st\<lparr>mb_sent := mb_sent st @ [m], mb_replies := rest\<rparr>)"
    using mbim_send_open [OF r wf fd(1,2)] idle_fields [OF fd(3,4) assms(4), of m] assms(5)
    by (simp add: answer_def Let_def w)
  then show ?thesis using done_msg_fields [OF assms(6,7)]
    by (simp add: mbim_call_def mbim_check_err_def mbim_status_code_def MBIM_OPEN_DONE_def MBIM_CLOSE_DONE_def
        MBIM_COMMAND_DONE_def sint_zero_iff)
qed

definition command_of :: "bytes \<Rightarrow> u32 option \<times> u32 option" where
  "command_of m = (rd32 m 36, rd32 m 40)"

text \<open>Composing when memory is there, with no buffer or with one of the stated length.\<close>

lemma compose_basic_ok:
  assumes "mb_mallocs st = []" and "len = 0 \<or> (\<exists>b. info = Some b \<and> length b = unat len)"
  obtains m where "compose_basic_connect_command cid ty info len st
      = Some (Some m, st\<lparr>mbim_TransactionId := mbim_TransactionId st + 1\<rparr>)"
    and "rd32 m 8 = Some (mbim_TransactionId st)" and "command_of m = (Some cid, Some ty)"
proof -
  have a: "mbim_alloc st = (True, st)" using assms(1) by (simp add: mbim_alloc_def)
  obtain u where u: "str2uuid UUID_BASIC_CONNECT = Some u" "length u = 16" by (simp add: str2uuid_constants)
  define n where "n = len"
  define b where "b = (if len = 0 then [] else the info)"
  have c: "compose_basic_connect_command cid ty info len st
      = Some (Some (le32 MBIM_COMMAND_MSG @ le32 (48 + len) @ le32 (mbim_TransactionId st) @ le32 1 @ le32 0 @ u
          @ le32 cid @ le32 ty @ le32 n @ b), st\<lparr>mbim_TransactionId := mbim_TransactionId st + 1\<rparr>)"
    using assms(2) by (cases info) (auto simp: compose_basic_connect_command_def a u uninit_def rdn_def n_def b_def)
  let ?m = "le32 MBIM_COMMAND_MSG @ le32 (48 + len) @ le32 (mbim_TransactionId st) @ le32 1 @ le32 0 @ u
          @ le32 cid @ le32 ty @ le32 n @ b"
  have at: "rd32 ?m (length xs) = Some w" if "?m = xs @ le32 w @ ys" for xs w ys
    using rd32_append [of xs "le32 w @ ys" 0] that by (simp add: rd32_le32)
  have "rd32 ?m 8 = Some (mbim_TransactionId st)" "rd32 ?m 36 = Some cid" "rd32 ?m 40 = Some ty"
    using u(2) at [of "le32 MBIM_COMMAND_MSG @ le32 (48 + len)"]
      at [of "le32 MBIM_COMMAND_MSG @ le32 (48 + len) @ le32 (mbim_TransactionId st) @ le32 1 @ le32 0 @ u"]
      at [of "le32 MBIM_COMMAND_MSG @ le32 (48 + len) @ le32 (mbim_TransactionId st) @ le32 1 @ le32 0 @ u @ le32 cid"]
    by simp_all
  then show thesis using that [OF c] by (simp add: command_of_def)
qed

text \<open>The state a command leaves to what it does with the response.\<close>

definition commanded :: "bytes \<Rightarrow> mbim \<Rightarrow> mbim" where
  "commanded m st = st\<lparr>mbim_TransactionId := mbim_TransactionId st + 1, mb_sent := mb_sent st @ [m],
     mb_replies := tl (mb_replies st)\<rparr>"

lemma basic_command_answered:
  assumes "mbim_inv st" and "mb_mallocs st = []" and "len = 0 \<or> (\<exists>b. info = Some b \<and> length b = unat len)"
    and "unat len < 2 ^ 31" and "mbim_TransactionId st \<noteq> 0x1000000"
    and "mb_replies st = answer (done_msg (mbim_TransactionId st) u c 0 ri) # rest"
    and "length u = 16" and "ri \<noteq> []" and "length ri < 2 ^ 31"
  obtains m where "command_of m = (Some cid, Some ty)"
    and "basic_command cid ty info len k st = do {
       st' \<leftarrow> k (done_msg (mbim_TransactionId st) u c 0 ri) (commanded m st);
       Some (0, st') }"
proof -
  obtain m where m: "compose_basic_connect_command cid ty info len st
      = Some (Some m, st\<lparr>mbim_TransactionId := mbim_TransactionId st + 1\<rparr>)"
    "rd32 m 8 = Some (mbim_TransactionId st)" "command_of m = (Some cid, Some ty)"
    by (rule compose_basic_ok [OF assms(2,3)])
  have "unat (of_nat (length ri) :: u32) = length ri" by (rule unat_of_nat32) (use assms(9) in simp)
  then have "(of_nat (length ri) :: u32) \<noteq> 0" using assms(8) by (metis length_0_conv unat_0)
  moreover have "mbim_call (Some m) (st\<lparr>mbim_TransactionId := mbim_TransactionId st + 1\<rparr>)
      = Some (Inr (done_msg (mbim_TransactionId st) u c 0 ri), commanded m st)"
    using mbim_call_answered [OF compose_basic_composed [OF m(1) assms(1,4)] m(2) assms(5), of u c 0 ri rest] assms(2,6,7,9)
    by (simp add: commanded_def)
  ultimately show thesis
    using that [OF m(3)] done_msg_fields(5) [OF assms(7,9)] by (simp add: basic_command_def m(1))
qed

lemma basic_command_timeout:
  assumes "mbim_inv st" and "mb_mallocs st = []" and "len = 0 \<or> (\<exists>b. info = Some b \<and> length b = unat len)"
    and "unat len < 2 ^ 31" and "mbim_TransactionId st \<noteq> 0x1000000" and "mb_replies st = []"
  obtains m st' where "command_of m = (Some cid, Some ty)"
    and "basic_command cid ty info len k st = Some (ETIMEDOUT, st')" and "mb_sent st' = mb_sent st @ [m]"
proof -
  obtain m where m: "compose_basic_connect_command cid ty info len st
      = Some (Some m, st\<lparr>mbim_TransactionId := mbim_TransactionId st + 1\<rparr>)"
    "rd32 m 8 = Some (mbim_TransactionId st)" "command_of m = (Some cid, Some ty)"
    by (rule compose_basic_ok [OF assms(2,3)])
  let ?st = "st\<lparr>mbim_TransactionId := mbim_TransactionId st + 1\<rparr>"
  have wf: "request_wf m" and fd: "mbim_fd ?st > 0" "s_tid_reader ?st"
    using compose_basic_composed [OF m(1) assms(1,4)] by (auto simp: composed_def mbim_inv_def)
  have r: "renumber m ?st = Some (m, ?st)" using m(2) assms(5) by (simp add: renumber_def)
  have "m \<noteq> []" using wf by (auto simp: request_wf_def)
  moreover have "fst (next_reply ?st) = \<lparr>write_result = None, received = [], wait_result = ETIMEDOUT\<rparr>"
    using assms(6) by (simp add: next_reply_def)
  ultimately have "mbim_send_command (Some m) ?st = Some (ETIMEDOUT, None,
      (exchange_start m ?st)\<lparr>mbim_pRequest := None, mbim_pResponse := None\<rparr>)"
    using mbim_send_open [OF r wf fd] by (simp add: Let_def ETIMEDOUT_def)
  then show thesis
    by (intro that [OF m(3), of "(exchange_start m ?st)\<lparr>mbim_pRequest := None, mbim_pResponse := None\<rparr>"])
      (simp_all add: basic_command_def m(1) mbim_call_def mbim_check_err_def mbim_status_code_def ETIMEDOUT_def exchange_start_def)
qed

section \<open>Registration\<close>

lemma update_fields [simp]:
  "mb_sent (updated st) = mb_sent st" "mb_mallocs (updated st) = mb_mallocs st" "mb_replies (updated st) = mb_replies st"
  "mbim_TransactionId (updated st) = mbim_TransactionId st" "RegisterState (updated st) = RegisterState st"
  "PacketServiceState (updated st) = PacketServiceState st" "updated (updated st) = updated st"
  by (simp_all add: mbim_update_state_def)

lemma commanded_fields [simp]:
  "mb_sent (commanded m st) = mb_sent st @ [m]" "mb_mallocs (commanded m st) = mb_mallocs st"
  "mb_replies (commanded m st) = tl (mb_replies st)" "mbim_TransactionId (commanded m st) = mbim_TransactionId st + 1"
  by (simp_all add: commanded_def)

lemma register_answered:
  assumes "mbim_inv st" and "mb_mallocs st = []" and "mbim_TransactionId st \<noteq> 0x1000000"
    and "mb_replies st = answer (done_msg (mbim_TransactionId st) u c 0 ri) # rest" and "length u = 16"
    and "rd32 ri 4 = Some r" and "length ri < 2 ^ 31"
  obtains m st' where "mbim_register_state_query st = Some (0, st')" and "command_of m = (Some 9, Some 0)"
    and "mb_sent st' = mb_sent st @ [m]" and "mb_replies st' = rest" and "mb_mallocs st' = []"
    and "mbim_TransactionId st' = mbim_TransactionId st + 1" and "RegisterState st' = r" and "updated st' = st'"
    and "mbim_inv st'"
proof -
  have ri: "ri \<noteq> []" using assms(6) by (auto simp: rd32_def)
  obtain m where m: "command_of m = (Some MBIM_CID_REGISTER_STATE, Some MBIM_CID_CMD_TYPE_QUERY)"
    "mbim_register_state_query st = Some (0, updated ((commanded m st)\<lparr>RegisterState := r\<rparr>))"
    unfolding mbim_register_state_query_def
    by (rule basic_command_answered [OF assms(1,2) _ _ assms(3,4,5) ri assms(7),
        where cid = MBIM_CID_REGISTER_STATE and ty = MBIM_CID_CMD_TYPE_QUERY and info = None and len = 0
          and k = "\<lambda>m st. do { s \<leftarrow> rd32 m (48 + 4); Some (updated (st\<lparr>RegisterState := s\<rparr>)) }"])
      (use done_msg_fields(6) [OF assms(5,7), of _ _ _ 4] assms(6) in auto)
  show thesis
    by (rule that [OF m(2)]) (use m assms(2,4) alwaysD [OF queries_keep(4) [OF assms(1)] m(2)] in
      \<open>simp_all add: MBIM_CID_REGISTER_STATE_def MBIM_CID_CMD_TYPE_QUERY_def\<close>)
qed

lemma packet_service_answered:
  assumes "mbim_inv st" and "mb_mallocs st = []" and "mbim_TransactionId st \<noteq> 0x1000000"
    and "mb_replies st = answer (done_msg (mbim_TransactionId st) u c 0 pi) # rest" and "length u = 16"
    and "rd32 pi 4 = Some s" and "12 \<le> length pi" and "length pi < 2 ^ 31"
  obtains m st' where "mbim_packet_service_query st = Some (0, st')" and "command_of m = (Some 10, Some 0)"
    and "mb_sent st' = mb_sent st @ [m]" and "mb_replies st' = rest" and "mb_mallocs st' = []"
    and "mbim_TransactionId st' = mbim_TransactionId st + 1" and "PacketServiceState st' = s" and "mbim_inv st'"
proof -
  have pi: "pi \<noteq> []" using assms(7) by auto
  obtain w where w: "rd32 pi 8 = Some w" using assms(7) by (simp add: rd32_def)
  obtain m where m: "command_of m = (Some MBIM_CID_PACKET_SERVICE, Some MBIM_CID_CMD_TYPE_QUERY)"
    "mbim_packet_service_query st = Some (0, updated ((commanded m st)\<lparr>PacketServiceState := s\<rparr>))"
    unfolding mbim_packet_service_query_def
    by (rule basic_command_answered [OF assms(1,2) _ _ assms(3,4,5) pi assms(8),
        where cid = MBIM_CID_PACKET_SERVICE and ty = MBIM_CID_CMD_TYPE_QUERY and info = None and len = 0
          and k = "\<lambda>m st. do {
            s \<leftarrow> rd32 m (48 + 4);
            let st = updated (st\<lparr>PacketServiceState := s\<rparr>);
            n \<leftarrow> rd32 m 44;
            _ \<leftarrow> (if n = 32 then rd32 m (48 + 8) else Some 0);
            Some st }"])
      (use done_msg_fields(5) [OF assms(5,8)] done_msg_fields(6) [OF assms(5,8), of _ _ _ 4]
         done_msg_fields(6) [OF assms(5,8), of _ _ _ 8] assms(6) w in auto)
  show thesis
    by (rule that [OF m(2)]) (use m assms(2,4) alwaysD [OF queries_keep(5) [OF assms(1)] m(2)] in
      \<open>simp_all add: MBIM_CID_PACKET_SERVICE_def MBIM_CID_CMD_TYPE_QUERY_def\<close>)
qed

lemma tid_room: "unat (t :: u32) + n < 0x1000000 \<Longrightarrow> t + of_nat n \<noteq> 0x1000000"
  by (auto simp: word_unat_eq_iff unat_word_ariths unat_of_nat)

text \<open>
  The modem counts as attached exactly when it is registered at home or roaming and its packet service
  is attached.  The packet service is asked for only when registered, and when it is not attached the
  request to attach is sent: the commands written are the register query, the packet service query and
  the packet service set command, in this order, as far as each is needed.
\<close>

theorem mbim_registration_attach:
  assumes "mbim_inv st" and "mb_mallocs st = []" and "unat (mbim_TransactionId st) + 2 < 0x1000000"
    and "mb_replies st = [answer (done_msg (mbim_TransactionId st) u 9 0 ri),
           answer (done_msg (mbim_TransactionId st + 1) u 10 0 pi)]"
    and "length u = 16" and "rd32 ri 4 = Some r" and "length ri < 2 ^ 31"
    and "rd32 pi 4 = Some s" and "12 \<le> length pi" and "length pi < 2 ^ 31"
  shows "\<exists>st'. mbim_requestRegistrationState a st = Some (0, if (r = 3 \<or> r = 4) \<and> s = 2 then 1 else 0, st')
     \<and> map command_of (drop (length (mb_sent st)) (mb_sent st'))
         = [(Some 9, Some 0)] @ (if r = 3 \<or> r = 4 then [(Some 10, Some 0)] @ (if s = 2 then [] else [(Some 10, Some 1)]) else [])"
proof -
  have t: "mbim_TransactionId st \<noteq> 0x1000000" "mbim_TransactionId st + 1 \<noteq> 0x1000000"
    "mbim_TransactionId st + 1 + 1 \<noteq> 0x1000000"
    using assms(3) tid_room [of "mbim_TransactionId st" 0] tid_room [of "mbim_TransactionId st" 1]
      tid_room [of "mbim_TransactionId st" 2] by (simp_all add: add.assoc)
  obtain m1 st1 where s1: "mbim_register_state_query st = Some (0, st1)" "command_of m1 = (Some 9, Some 0)"
    "mb_sent st1 = mb_sent st @ [m1]" "mb_replies st1 = [answer (done_msg (mbim_TransactionId st + 1) u 10 0 pi)]"
    "mb_mallocs st1 = []" "mbim_TransactionId st1 = mbim_TransactionId st + 1" "RegisterState st1 = r" "updated st1 = st1"
    "mbim_inv st1"
    by (rule register_answered [OF assms(1,2) t(1) assms(4-7)])
  obtain m2 st2 where s2: "mbim_packet_service_query st1 = Some (0, st2)" "command_of m2 = (Some 10, Some 0)"
    "mb_sent st2 = mb_sent st1 @ [m2]" "mb_replies st2 = []" "mb_mallocs st2 = []"
    "mbim_TransactionId st2 = mbim_TransactionId st1 + 1" "PacketServiceState st2 = s" "mbim_inv st2"
    by (rule packet_service_answered [OF s1(9,5) _ s1(4) [folded s1(6)] assms(5,8-10)]) (use s1(6) t(2) in auto)
  obtain m3 st3 where s3: "command_of m3 = (Some MBIM_CID_PACKET_SERVICE, Some MBIM_CID_CMD_TYPE_SET)"
    "mbim_packet_service_set MBIMPacketServiceActionAttach st2 = Some (ETIMEDOUT, st3)" "mb_sent st3 = mb_sent st2 @ [m3]"
    unfolding mbim_packet_service_set_def
    by (rule basic_command_timeout [OF s2(8,5) _ _ _ s2(4),
        where cid = MBIM_CID_PACKET_SERVICE and ty = MBIM_CID_CMD_TYPE_SET
          and info = "Some (le32 MBIMPacketServiceActionAttach)" and len = 4
          and k = "\<lambda>m st. do { s \<leftarrow> rd32 m (48 + 4); Some (updated (st\<lparr>PacketServiceState := s\<rparr>)) }"])
      (use s1(6) s2(6) t(3) in auto)
  note codes = MBIMRegisterStateHome_def MBIMRegisterStateRoaming_def MBIMPacketServiceStateAttached_def
    MBIM_CID_PACKET_SERVICE_def MBIM_CID_CMD_TYPE_SET_def
  show ?thesis
    using s1 s2 s3 by (auto simp: mbim_requestRegistrationState_def Let_def codes)
qed

section \<open>The IP configuration\<close>

definition swap32 :: "u32 \<Rightarrow> u32" where
  "swap32 w = le32_to_cpu (ucast (drop_bit 24 w)) (ucast (drop_bit 16 w)) (ucast (drop_bit 8 w)) (ucast w)"

lemma byte_masks: "(0xff00 :: u32) = push_bit 8 (mask 8)" "(0xff0000 :: u32) = push_bit 16 (mask 8)"
  by (simp_all add: mask_eq_exp_minus_1 push_bit_eq_mult)

lemma bit_beyond: "32 \<le> n \<Longrightarrow> \<not> bit (w :: u32) n" "8 \<le> n \<Longrightarrow> \<not> bit (b :: u8) n"
  using bit_imp_le_length by fastforce+

lemma mbim2qmi_swap: "mbim2qmi_ipv4addr w = swap32 w"
  unfolding mbim2qmi_ipv4addr_def swap32_def le32_to_cpu_def byte_masks
  apply (rule bit_word_eqI)
  subgoal for n
    by (cases "n < 8"; cases "n < 16"; cases "n < 24") (auto simp: bit_simps bit_beyond)
  done

text \<open>The address of four bytes in network order, as the rest of the program keeps it.\<close>

definition be32 :: "bytes \<Rightarrow> u32" where
  "be32 v = le32_to_cpu (v ! 3) (v ! 2) (v ! 1) (v ! 0)"

lemma le32_to_cpu_bytes:
  "ucast (le32_to_cpu a b c d) = a" "ucast (drop_bit 8 (le32_to_cpu a b c d)) = b"
  "ucast (drop_bit 16 (le32_to_cpu a b c d)) = c" "ucast (drop_bit 24 (le32_to_cpu a b c d)) = d"
  unfolding le32_to_cpu_def
  by ((rule bit_word_eqI, auto simp: bit_simps bit_beyond)[1])+

lemma mbim_address: "rdn m p 4 = Some v \<Longrightarrow> rd32 m p = Some (swap32 (be32 v))"
  by (simp add: rd32_rdn swap32_def be32_def le32_to_cpu_bytes)

lemma swap32_swap32 [simp]: "swap32 (swap32 w) = w"
  by (simp add: swap32_def le32_to_cpu_bytes)

lemma subnet_mask_bits:
  assumes "1 \<le> n" and "n \<le> 32"
  shows "subnet_mask (of_nat n) = Some (NOT (mask (32 - n)))"
proof -
  have u: "unat (of_nat n :: u8) = n" using assms by (simp add: unat_of_nat)
  then have "1 \<le> (of_nat n :: u8)" "(of_nat n :: u8) \<le> 32" using assms by (simp_all add: word_le_nat_alt)
  moreover have "push_bit (32 - n) (drop_bit (32 - n) (0xFFFFFFFF :: u32)) = NOT (mask (32 - n))"
  proof -
    have "(0xFFFFFFFF :: u32) = - 1" by simp
    then show ?thesis by (simp only:) (rule bit_word_eqI, auto simp: bit_simps)
  qed
  ultimately show ?thesis by (simp add: subnet_mask_def u)
qed

text \<open>Where the fields of an IPv4 configuration lie in the buffer of the response.\<close>

definition has_ipv4 :: "bytes \<Rightarrow> nat \<Rightarrow> bytes \<Rightarrow> bytes \<Rightarrow> bytes \<Rightarrow> bytes \<Rightarrow> u32 \<Rightarrow> bool" where
  "has_ipv4 info prefix addr gw dns1 dns2 mtu \<longleftrightarrow>
     (\<exists>a g d. rd32 info 4 = Some 0xF \<and> rd32 info 8 = Some 0
        \<and> rd32 info 16 = Some a \<and> rd32 info (unat a) = Some (of_nat prefix) \<and> rdn info (unat a + 4) 4 = Some addr
        \<and> rd32 info 28 = Some g \<and> rdn info (unat g) 4 = Some gw
        \<and> rd32 info 36 = Some 2 \<and> rd32 info 40 = Some d \<and> rdn info (unat d) 4 = Some dns1
        \<and> rdn info (unat d + 4) 4 = Some dns2 \<and> rd32 info 52 = Some mtu)"

lemma mbim_ip_config_answered:
  assumes "mbim_inv st" and "mb_mallocs st = []" and "mbim_TransactionId st \<noteq> 0x1000000"
    and "mb_replies st = answer (done_msg (mbim_TransactionId st) u c 0 ri) # rest"
    and "length u = 16" and "ri \<noteq> []" and "length ri < 2 ^ 31"
  obtains st' where "mbim_ip_config p sid st = do {
     (mtu, p) \<leftarrow> ip_config_v4 (done_msg (mbim_TransactionId st) u c 0 ri) p;
     p \<leftarrow> ip_config_v6 (done_msg (mbim_TransactionId st) u c 0 ri) mtu p;
     Some (0, p, st') }"
proof -
  let ?q = "Some (le32 (word_of_int sid) @ uninit 56 st)"
  have q: "(60 :: u32) = 0 \<or> (\<exists>b. ?q = Some b \<and> length b = unat (60 :: u32))" by (simp add: uninit_def)
  obtain m where m: "compose_basic_connect_command MBIM_CID_IP_CONFIGURATION MBIM_CID_CMD_TYPE_QUERY ?q 60 st
      = Some (Some m, st\<lparr>mbim_TransactionId := mbim_TransactionId st + 1\<rparr>)" "rd32 m 8 = Some (mbim_TransactionId st)"
    by (rule compose_basic_ok [OF assms(2) q])
  have "unat (of_nat (length ri) :: u32) = length ri" by (rule unat_of_nat32) (use assms(7) in simp)
  then have n: "(of_nat (length ri) :: u32) \<noteq> 0" using assms(6) by (metis length_0_conv unat_0)
  have "mbim_call (Some m) (st\<lparr>mbim_TransactionId := mbim_TransactionId st + 1\<rparr>)
      = Some (Inr (done_msg (mbim_TransactionId st) u c 0 ri), commanded m st)"
    using mbim_call_answered [OF compose_basic_composed [OF m(1) assms(1)] m(2) assms(3), of u c 0 ri rest] assms(2,4,5,7)
    by (simp add: commanded_def)
  then show thesis
    using that [of "commanded m st"] n done_msg_fields(5) [OF assms(5,7)] by (simp add: mbim_ip_config_def m(1))
qed


section \<open>The event loop over this backend\<close>

lemma mbim_setup_profile: "mbim_requestSetupDataCall p f s = Some (e, p', s') \<Longrightarrow> p' = p"
  by (auto simp: mbim_requestSetupDataCall_def Let_def run_conv)

lemma ip_config_v4_settings: "always (\<lambda>(_, q). user_settings q = user_settings p) (ip_config_v4 m p)"
  unfolding ip_config_v4_def Let_def
  by (intro always_bind_any always_if always_Some) (auto simp: user_settings_def)

lemma ip_config_v6_settings: "always (\<lambda>q. user_settings q = user_settings p) (ip_config_v6 m w p)"
  unfolding ip_config_v6_def Let_def
  by (intro always_bind_any always_if always_Some) (auto simp: user_settings_def)

lemma mbim_getip_settings:
  assumes "mbim_requestGetIPAddress p f s = Some (e, p', s')"
  shows "user_settings p' = user_settings p"
  using assms alwaysD [OF ip_config_v4_settings] alwaysD [OF ip_config_v6_settings]
  by (fastforce simp: mbim_requestGetIPAddress_def mbim_ip_config_def run_conv split: sum.splits if_splits)

lemma mbim_deactivate_profile: "mbim_requestDeactivateDefaultPDP p f s = Some (e, p', s') \<Longrightarrow> p' = p"
  by (auto simp: mbim_requestDeactivateDefaultPDP_def run_conv)

interpretation mbim_ops: data_call_ops mbim_request_ops
  by unfold_locales
    (auto simp: mbim_request_ops_def dest: mbim_setup_profile mbim_getip_settings mbim_deactivate_profile)

text \<open>
  The loop invariant also holds on the MBIM backend: over every interleaving of poll results, modem
  events, alarms and signals only enabled address families are connected, and the link state is one of
  unknown, none, IPv4, IPv6, both.
\<close>

theorem mbim_loop_invariant:
  assumes "qmi_main_start mbim_request_ops dev env now first lnk p s = Some c0"
    and "lnk \<in> {-1, 0, 16, 64, 80}" and "(cm_step mbim_request_ops dev env)\<^sup>*\<^sup>* c0 c"
  shows "(IPv4ConnectionStatus c = QWDS_PKT_DATA_CONNECTED \<longrightarrow> enable_ipv4 (cm_profile c) \<noteq> 0)
       \<and> (IPv6ConnectionStatus c = QWDS_PKT_DATA_CONNECTED \<longrightarrow> enable_ipv6 (cm_profile c) \<noteq> 0)
       \<and> s_link c \<in> {-1, 0, 16, 64, 80}"
  using mbim_ops.cm_steps_inv [OF assms(3) mbim_ops.start_inv [OF assms(1,2)]] by (simp add: cm_inv_def)

section \<open>Examples\<close>

definition example_internet :: profile where
  "example_internet = zero_profile\<lparr>apn := Some ''internet'', user := Some ''me'', enable_ipv4 := 1\<rparr>"

lemma example_mbim_inv: "mbim_inv (example_mbim rs)" "mb_mallocs (example_mbim rs) = []"
    "mb_replies (example_mbim rs) = rs" "mbim_TransactionId (example_mbim rs) = 1" "mb_sent (example_mbim rs) = []"
  using mbim_opened_inv [of 3] by (simp_all add: example_mbim_def) (simp_all add: mbim_opened_def)


definition example_uuid :: bytes where "example_uuid = replicate 16 0"
definition example_home :: bytes where "example_home = le32 0 @ le32 3"
definition example_attached :: bytes where "example_attached = le32 0 @ le32 2 @ le32 0"

theorem mbim_registration_attach_witness:
  "\<exists>st'. mbim_requestRegistrationState 0 (example_mbim [answer (done_msg 1 example_uuid 9 0 example_home),
       answer (done_msg 2 example_uuid 10 0 example_attached)]) = Some (0, 1, st')
     \<and> map command_of (mb_sent st') = [(Some 9, Some 0), (Some 10, Some 0)]"
proof -
  let ?st = "example_mbim [answer (done_msg 1 example_uuid 9 0 example_home),
       answer (done_msg 2 example_uuid 10 0 example_attached)]"
  have f: "rd32 example_home 4 = Some 3" "rd32 example_attached 4 = Some 2"
    by code_simp+
  have l: "length example_uuid = 16" "length example_home < 2 ^ 31" "12 \<le> length example_attached"
      "length example_attached < 2 ^ 31"
    by (simp_all add: example_uuid_def example_home_def example_attached_def)
  have "unat (mbim_TransactionId ?st) + 2 < 0x1000000" "mb_replies ?st = [answer (done_msg (mbim_TransactionId ?st) example_uuid 9 0 example_home),
       answer (done_msg (mbim_TransactionId ?st + 1) example_uuid 10 0 example_attached)]"
    by (simp_all add: example_mbim_inv)
  from mbim_registration_attach [OF example_mbim_inv(1,2) this l(1) f(1) l(2) f(2) l(3,4), of 0]
  show ?thesis by (simp add: example_mbim_inv)
qed

text \<open>Address 10.0.0.7/24, gateway 10.0.0.1, name servers 8.8.8.8 and 8.8.4.4, MTU 1500.\<close>

definition example_ip_info :: bytes where
  "example_ip_info = concat (map le32 [0, 0xF, 0, 1, 60, 0, 0, 68, 0, 2, 72, 0, 0, 1500, 0])
     @ le32 24 @ [10, 0, 0, 7] @ [10, 0, 0, 1] @ [8, 8, 8, 8] @ [8, 8, 4, 4]"

lemma example_ip_info_has: "has_ipv4 example_ip_info 24 [10, 0, 0, 7] [10, 0, 0, 1] [8, 8, 8, 8] [8, 8, 4, 4] 1500"
  unfolding has_ipv4_def
  by (rule exI [of _ 60], rule exI [of _ 68], rule exI [of _ 72]) code_simp


text \<open>A start on a device that answers nothing.\<close>

theorem mbim_loop_invariant_witness:
  "\<exists>c0. qmi_main_start mbim_request_ops \<lparr>dev_init = None, dev_deinit = None\<rparr> example_env 0
          (Some RIL_INDICATE_DEVICE_CONNECTED) (-1) zero_profile (example_mbim []) = Some c0
      \<and> s_link (ql_sigaction False c0) \<in> {-1, 0, 16, 64, 80}"
proof -
  let ?dev = "\<lparr>dev_init = None, dev_deinit = None\<rparr> :: mbim qmi_device_ops"
  have "qmi_main_start mbim_request_ops ?dev example_env 0 (Some RIL_INDICATE_DEVICE_CONNECTED) (-1)
      zero_profile (example_mbim []) \<noteq> None"
    by code_simp
  then obtain c0 where c0: "qmi_main_start mbim_request_ops ?dev example_env 0
      (Some RIL_INDICATE_DEVICE_CONNECTED) (-1) zero_profile (example_mbim []) = Some c0" by blast
  have "(cm_step mbim_request_ops ?dev example_env)\<^sup>*\<^sup>* c0 (ql_sigaction False c0)"
    by (rule r_into_rtranclp) (rule cm_step.signal)
  from mbim_loop_invariant [OF c0 _ this] c0 show ?thesis by simp
qed

text \<open>
  When the APN, the user name and the password are all set, the offset of the password counts only the
  user name, and the password is stored over the APN.
\<close>

theorem connect_password_over_apn:
  "map_option (\<lambda>(r, st). map_option (\<lambda>(n, b). (segment b 8 12, segment b 24 28)) r)
     (mbim_populate_connect_data ((example_mbim [])\<lparr>mbim_apn := Some ''internet'', mbim_user := Some ''user'',
        mbim_pd := Some ''pass''\<rparr>))
   = Some (Some (Some (wide ''intepass''), Some (wide ''pass'')))"
  by code_simp

end
