(* ===== verification/MbimProxy.thy ===== *)
theory MbimProxy
  imports Prelude
begin

text \<open>
  The MBIM proxy (quectel-mbim-proxy.c): one process owns the control device and lets up to 32
  clients share it over a local socket.  The proxy puts the number of a client's slot into the top
  byte of the transaction id of each request it forwards, and takes it out of the response again to
  find the client that asked.

  The state is the file's globals together with the two facts of the operating system the code
  depends on: which bytes were given to \<open>write\<close>, and whether the socket name is held by an open
  socket.  What \<open>poll\<close>, \<open>read\<close>, \<open>socket\<close>, \<open>setsockopt\<close>, \<open>bind\<close> and \<open>open\<close> return is an argument;
  \<open>accept\<close> is a parameter \<open>acc\<close>, with what POSIX promises of it as the hypothesis \<open>fresh_accept\<close>.
\<close>

section \<open>Data\<close>

record cm_client =
  client_fd :: int
  client_idx :: int

definition CM_MAX_CLIENT :: nat where "CM_MAX_CLIENT = 32"
definition TID_MASK :: u32 where "TID_MASK = 0xFFFFFF"
definition TID_SHIFT :: nat where "TID_SHIFT = 24"
definition MBIM_OPEN_MSG :: u32 where "MBIM_OPEN_MSG = 1"
definition MBIM_CLOSE_MSG :: u32 where "MBIM_CLOSE_MSG = 2"
definition MBIM_OPEN_DONE :: u32 where "MBIM_OPEN_DONE = 0x80000001"

record mbim_proxy =
  cm_clients :: "cm_client list"
  cm_recv_buffer :: bytes
  mbim_server_fd :: int
  name_bound :: bool
  verbose :: bool
  written :: "(int \<times> bytes) list"

lemmas proxy_consts = CM_MAX_CLIENT_def TID_MASK_def TID_SHIFT_def MBIM_OPEN_MSG_def
  MBIM_CLOSE_MSG_def MBIM_OPEN_DONE_def

definition no_clients :: "cm_client list" where
  "no_clients = replicate CM_MAX_CLIENT \<lparr>client_fd = 0, client_idx = 0\<rparr>"

definition initial_proxy :: "bool \<Rightarrow> mbim_proxy" where
  "initial_proxy v =
     \<lparr>cm_clients = no_clients, cm_recv_buffer = replicate 4096 0, mbim_server_fd = -1,
      name_bound = False, verbose = v, written = []\<rparr>"

section \<open>Writing\<close>

text \<open>
  \<open>non_block_write\<close> waits for the descriptor, writes, logs a failure of either call, and returns the
  length it was asked to write in every case.
\<close>

definition non_block_write :: "int \<Rightarrow> bytes \<Rightarrow> mbim_proxy \<Rightarrow> nat \<times> mbim_proxy" where
  "non_block_write fd data st = (length data, st\<lparr>written := written st @ [(fd, data)]\<rparr>)"

definition mbim_send_open_msg :: "int \<Rightarrow> u32 \<Rightarrow> mbim_proxy \<Rightarrow> nat \<times> mbim_proxy" where
  "mbim_send_open_msg mbim_dev_fd MaxControlTransfer st =
     non_block_write mbim_dev_fd
       (le32 MBIM_OPEN_MSG @ le32 16 @ le32 1 @ le32 MaxControlTransfer) st"

section \<open>Server socket\<close>

text \<open>
  What the socket calls return: the descriptor of \<open>socket\<close> (negative when it failed), whether
  \<open>setsockopt\<close> succeeded, and whether \<open>bind\<close> would, were the name free.  A name held by an open
  socket cannot be bound again.
\<close>

record socket_env =
  env_socket :: int
  env_setsockopt :: bool
  env_bind :: bool

definition proxy_make_server :: "socket_env \<Rightarrow> mbim_proxy \<Rightarrow> int \<times> mbim_proxy" where
  "proxy_make_server env st =
     (if env_socket env < 0 then (-1, st)
      else let fd = (if env_setsockopt env then env_socket env else -1) in
      if 0 \<le> fd \<and> env_bind env \<and> \<not> name_bound st then (fd, st\<lparr>name_bound := True\<rparr>)
      else (-1, st))"

section \<open>Client table\<close>

fun first_slot :: "(cm_client \<Rightarrow> bool) \<Rightarrow> cm_client list \<Rightarrow> nat option" where
  "first_slot P [] = None"
| "first_slot P (c # cs) = (if P c then Some 0 else map_option Suc (first_slot P cs))"

definition handle_client_connect :: "(mbim_proxy \<Rightarrow> int) \<Rightarrow> mbim_proxy \<Rightarrow> int \<times> mbim_proxy" where
  "handle_client_connect acc st =
     (let fd = acc st in
      if fd < 0 then (-1, st)
      else case first_slot (\<lambda>c. client_fd c \<le> 0) (cm_clients st) of
        Some i \<Rightarrow>
          (0, st\<lparr>cm_clients := (cm_clients st)[i := \<lparr>client_fd = fd, client_idx = int i + 1\<rparr>]\<rparr>)
      | None \<Rightarrow> (-1, st))"

definition safe_close_client :: "cm_client \<Rightarrow> cm_client" where
  "safe_close_client c = (if 0 < client_fd c then c\<lparr>client_fd := -1\<rparr> else c)"

definition handle_client_disconnect :: "int \<Rightarrow> mbim_proxy \<Rightarrow> mbim_proxy" where
  "handle_client_disconnect fd st =
     (case first_slot (\<lambda>c. client_fd c = fd) (cm_clients st) of
        Some i \<Rightarrow> st\<lparr>cm_clients := (cm_clients st)[i := safe_close_client (cm_clients st ! i)]\<rparr>
      | None \<Rightarrow> st)"

section \<open>Requests and responses\<close>

text \<open>
  Both work on the first \<open>len\<close> bytes of \<open>cm_recv_buffer\<close>, in place.  \<open>None\<close> is the read of
  \<open>cm_clients[client_idx]\<close> that the verbose log line makes: the slots are numbered from one, so for
  the last slot it is outside the table.
\<close>

definition handle_client_request ::
  "int \<Rightarrow> int \<Rightarrow> nat \<Rightarrow> mbim_proxy \<Rightarrow> (int \<times> mbim_proxy) option" where
  "handle_client_request mbim_dev_fd fd len st = do {
     TransactionId \<leftarrow> rd32 (cm_recv_buffer st) 8;
     case first_slot (\<lambda>c. client_fd c = fd) (cm_clients st) of
       None \<Rightarrow> Some (-1, st)
     | Some i \<Rightarrow> do {
         let idx = client_idx (cm_clients st ! i);
         if idx = -1 then Some (-1, st)
         else do {
           MessageType \<leftarrow> rd32 (cm_recv_buffer st) 0;
           if MessageType = MBIM_OPEN_MSG \<or> MessageType = MBIM_CLOSE_MSG
           then Some (0, snd (non_block_write fd
             (le32 (MessageType OR 0x80000000) @ le32 16 @ le32 TransactionId @ le32 0) st))
           else do {
             buf \<leftarrow> poke 8 (le32 (TransactionId OR push_bit TID_SHIFT (of_int idx)))
                      (cm_recv_buffer st);
             let st = st\<lparr>cm_recv_buffer := buf\<rparr>;
             if verbose st \<and> \<not> nat idx < length (cm_clients st) then None
             else do {
               msg \<leftarrow> rdn buf 0 len;
               let (ret, st) = non_block_write mbim_dev_fd msg st;
               if ret = len then Some (0, st) else Some (-1, st)
             }
           }
         }
       }
   }"

definition handle_device_response :: "nat \<Rightarrow> mbim_proxy \<Rightarrow> (int \<times> mbim_proxy) option" where
  "handle_device_response len st = do {
     TransactionId \<leftarrow> rd32 (cm_recv_buffer st) 8;
     if TransactionId = 0 then do {
       msg \<leftarrow> rdn (cm_recv_buffer st) 0 len;
       Some (0, fold (\<lambda>c st. if 0 < client_fd c then snd (non_block_write (client_fd c) msg st)
                               else st) (cm_clients st) st)
     }
     else case first_slot (\<lambda>c. client_idx c = int (unat (drop_bit TID_SHIFT TransactionId)) \<and>
                                0 < client_fd c) (cm_clients st) of
       None \<Rightarrow> Some (0, st)
     | Some i \<Rightarrow> do {
         buf \<leftarrow> poke 8 (le32 (TransactionId AND TID_MASK)) (cm_recv_buffer st);
         msg \<leftarrow> rdn buf 0 len;
         Some (0, snd (non_block_write (client_fd (cm_clients st ! i)) msg
                         (st\<lparr>cm_recv_buffer := buf\<rparr>)))
       }
   }"

section \<open>The poll loop\<close>

text \<open>
  What \<open>poll\<close> reports of one descriptor, with what the calls made on it return: \<open>ev_err\<close> is
  POLLERR, POLLHUP or POLLNVAL, \<open>ev_in\<close> is POLLIN, \<open>ev_read\<close> the bytes read (\<open>None\<close> for a failed
  read, no byte for the end of the stream).
\<close>

record pevent =
  ev_err :: bool
  ev_in :: bool
  ev_read :: "bytes option"
  ev_socket :: socket_env

definition no_event :: pevent where
  "no_event = \<lparr>ev_err = False, ev_in = False, ev_read = None,
     ev_socket = \<lparr>env_socket = -1, env_setsockopt = True, env_bind = True\<rparr>\<rparr>"

datatype loop_ctl = Next_event | Goto_error | Return_len

definition recv_into :: "bytes \<Rightarrow> mbim_proxy \<Rightarrow> mbim_proxy" where
  "recv_into bs st = st\<lparr>cm_recv_buffer := bs @ drop (length bs) (cm_recv_buffer st)\<rparr>"

definition device_message :: "pevent \<Rightarrow> nat \<Rightarrow> mbim_proxy \<Rightarrow> (loop_ctl \<times> mbim_proxy) option" where
  "device_message ev len st =
     (if mbim_server_fd st = -1 then do {
        MessageType \<leftarrow> rd32 (cm_recv_buffer st) 0;
        if MessageType = MBIM_OPEN_DONE then do {
          Status \<leftarrow> rd32 (cm_recv_buffer st) 12;
          if Status \<noteq> 0 then Some (Goto_error, st)
          else do {
            let (fd, st) = proxy_make_server (ev_socket ev) st;
            Some (Next_event, st\<lparr>mbim_server_fd := fd\<rparr>)
          }
        }
        else Some (Next_event, st)
      }
      else do {
        (_, st) \<leftarrow> handle_device_response len st;
        Some (Next_event, st)
      })"

definition proxy_event ::
  "(mbim_proxy \<Rightarrow> int) \<Rightarrow> int \<Rightarrow> int \<Rightarrow> pevent \<Rightarrow> mbim_proxy \<Rightarrow> (loop_ctl \<times> mbim_proxy) option" where
  "proxy_event acc mbim_dev_fd fd ev st =
     (if ev_err ev then
        (if fd = mbim_dev_fd then Some (Goto_error, st)
         else if fd = mbim_server_fd st then Some (Next_event, st)
         else Some (Next_event, handle_client_disconnect fd st))
      else if \<not> ev_in ev then Some (Next_event, st)
      else if fd = mbim_server_fd st then Some (Next_event, snd (handle_client_connect acc st))
      else case ev_read ev of
        None \<Rightarrow>
          if fd = mbim_dev_fd then Some (Goto_error, st)
          else Some (Return_len, handle_client_disconnect fd st)
      | Some bs0 \<Rightarrow> do {
          let bs = take 4096 bs0;
          let len = length bs;
          if len = 0 then
            (if fd = mbim_dev_fd then Some (Goto_error, st)
             else Some (Return_len, handle_client_disconnect fd st))
          else do {
            let st = recv_into bs st;
            if fd = mbim_dev_fd then device_message ev len st
            else do {
              (_, st) \<leftarrow> handle_client_request mbim_dev_fd fd len st;
              Some (Next_event, st)
            }
          }
        })"

definition pollfds :: "int \<Rightarrow> mbim_proxy \<Rightarrow> int list" where
  "pollfds mbim_dev_fd st =
     mbim_dev_fd #
       (if 0 < mbim_server_fd st
        then mbim_server_fd st # filter (\<lambda>fd. 0 < fd) (map client_fd (cm_clients st)) else [])"

fun proxy_events ::
  "(mbim_proxy \<Rightarrow> int) \<Rightarrow> int \<Rightarrow> (int \<times> pevent) list \<Rightarrow> mbim_proxy \<Rightarrow>
     (loop_ctl \<times> mbim_proxy) option" where
  "proxy_events acc mbim_dev_fd [] st = Some (Next_event, st)"
| "proxy_events acc mbim_dev_fd ((fd, ev) # evs) st = do {
     (ctl, st) \<leftarrow> proxy_event acc mbim_dev_fd fd ev st;
     if ctl = Next_event then proxy_events acc mbim_dev_fd evs st else Some (ctl, st)
   }"

definition proxy_error :: "mbim_proxy \<Rightarrow> mbim_proxy" where
  "proxy_error st =
     (let st = (if 0 < mbim_server_fd st then st\<lparr>mbim_server_fd := -1, name_bound := False\<rparr>
                else st)
      in st\<lparr>cm_clients := map safe_close_client (cm_clients st)\<rparr>)"

text \<open>
  The loop, driven by what \<open>poll\<close> answers: \<open>None\<close> is a return of zero or less.  When the answers are
  used up the loop is still running, and \<open>Next_event\<close> is returned with its state.
\<close>

fun proxy_loop ::
  "(mbim_proxy \<Rightarrow> int) \<Rightarrow> int \<Rightarrow> pevent list option list \<Rightarrow> mbim_proxy \<Rightarrow>
     (loop_ctl \<times> mbim_proxy) option" where
  "proxy_loop acc mbim_dev_fd [] st = Some (Next_event, st)"
| "proxy_loop acc mbim_dev_fd (p # ps) st =
     (if \<not> 0 < mbim_dev_fd then Some (Goto_error, proxy_error st)
      else case p of
        None \<Rightarrow> Some (Goto_error, proxy_error st)
      | Some evs \<Rightarrow> do {
          (ctl, st) \<leftarrow> proxy_events acc mbim_dev_fd (zip (pollfds mbim_dev_fd st) evs) st;
          case ctl of
            Next_event \<Rightarrow> proxy_loop acc mbim_dev_fd ps st
          | Goto_error \<Rightarrow> Some (Goto_error, proxy_error st)
          | Return_len \<Rightarrow> Some (Return_len, st)
        })"

text \<open>
  One turn of the loop of \<open>main\<close>: open the device, clear the table, open the MBIM session, run the
  loop.  \<open>mbim_server_fd\<close> is a local of \<open>proxy_loop\<close>, so each turn starts with -1.
\<close>

definition proxy_session ::
  "(mbim_proxy \<Rightarrow> int) \<Rightarrow> int \<Rightarrow> pevent list option list \<Rightarrow> mbim_proxy \<Rightarrow> mbim_proxy option" where
  "proxy_session acc mbim_dev_fd polls st =
     (if mbim_dev_fd < 0 then Some st
      else do {
        let st = st\<lparr>cm_clients := no_clients\<rparr>;
        let (_, st) = mbim_send_open_msg mbim_dev_fd 4096 st;
        (_, st) \<leftarrow> proxy_loop acc mbim_dev_fd polls (st\<lparr>mbim_server_fd := -1\<rparr>);
        Some st
      })"

fun proxy_main ::
  "(mbim_proxy \<Rightarrow> int) \<Rightarrow> (int \<times> pevent list option list) list \<Rightarrow> mbim_proxy \<Rightarrow> mbim_proxy option"
where
  "proxy_main acc [] st = Some st"
| "proxy_main acc ((fd, polls) # ss) st = do {
     st \<leftarrow> proxy_session acc fd polls st;
     proxy_main acc ss st
   }"

section \<open>Slots\<close>

lemma first_slot_SomeD:
  "first_slot P cs = Some i \<Longrightarrow> i < length cs \<and> P (cs ! i)"
  by (induction cs arbitrary: i) (auto split: if_splits)

lemma first_slot_NoneD:
  "first_slot P cs = None \<Longrightarrow> i < length cs \<Longrightarrow> \<not> P (cs ! i)"
  by (induction cs arbitrary: i) (auto simp: nth_Cons' split: if_splits)

lemma first_slot_unique:
  assumes "i < length cs" and "P (cs ! i)" and "\<And>j. j < length cs \<Longrightarrow> P (cs ! j) \<Longrightarrow> j = i"
  shows "first_slot P cs = Some i"
proof (cases "first_slot P cs")
  case None
  then show ?thesis using first_slot_NoneD [OF None assms(1)] assms(2) by simp
next
  case (Some j)
  then show ?thesis using first_slot_SomeD [OF Some] assms(3) by blast
qed

section \<open>Invariant\<close>

text \<open>
  A used slot (one with a positive descriptor) carries its own number plus one; no two used slots
  share a descriptor, and none has that of the device or of the server; clients exist only while the
  server does, and the server holds the socket name.
\<close>

definition proxy_ok :: "int \<Rightarrow> mbim_proxy \<Rightarrow> bool" where
  "proxy_ok dev st \<longleftrightarrow>
     length (cm_clients st) = CM_MAX_CLIENT \<and> length (cm_recv_buffer st) = 4096 \<and>
     (0 < mbim_server_fd st \<longrightarrow> name_bound st) \<and>
     (\<forall>i < CM_MAX_CLIENT. 0 < client_fd (cm_clients st ! i) \<longrightarrow>
        client_idx (cm_clients st ! i) = int i + 1 \<and> client_fd (cm_clients st ! i) \<noteq> dev \<and>
        client_fd (cm_clients st ! i) \<noteq> mbim_server_fd st \<and> 0 < mbim_server_fd st) \<and>
     (\<forall>i < CM_MAX_CLIENT. \<forall>j < CM_MAX_CLIENT. 0 < client_fd (cm_clients st ! i) \<and>
        client_fd (cm_clients st ! i) = client_fd (cm_clients st ! j) \<longrightarrow> i = j)"

text \<open>When \<open>accept\<close> succeeds it returns a descriptor that is not in use.\<close>

definition fresh_accept :: "(mbim_proxy \<Rightarrow> int) \<Rightarrow> int \<Rightarrow> bool" where
  "fresh_accept acc dev \<longleftrightarrow>
     (\<forall>st. 0 \<le> acc st \<longrightarrow> acc st \<noteq> dev \<and> acc st \<noteq> mbim_server_fd st \<and>
           acc st \<notin> client_fd ` set (cm_clients st))"

lemma proxy_ok_frame:
  assumes "proxy_ok dev st" and "cm_clients st' = cm_clients st"
    and "length (cm_recv_buffer st') = length (cm_recv_buffer st)"
    and "mbim_server_fd st' = mbim_server_fd st" and "name_bound st' = name_bound st"
  shows "proxy_ok dev st'"
  using assms by (simp add: proxy_ok_def)

lemma connect_ok:
  assumes "proxy_ok dev st" and "fresh_accept acc dev" and "0 < mbim_server_fd st"
  shows "proxy_ok dev (snd (handle_client_connect acc st))"
proof (cases "first_slot (\<lambda>c. client_fd c \<le> 0) (cm_clients st) = None \<or> acc st < 0")
  case True
  then show ?thesis using assms by (auto simp: handle_client_connect_def Let_def)
next
  case False
  then obtain i where Some: "first_slot (\<lambda>c. client_fd c \<le> 0) (cm_clients st) = Some i"
    and acc: "0 \<le> acc st" by auto
  note i = first_slot_SomeD [OF Some]
  have fresh: "acc st \<noteq> dev" "acc st \<noteq> mbim_server_fd st"
    using assms(2) acc by (simp_all add: fresh_accept_def)
  have "client_fd (cm_clients st ! j) \<noteq> acc st" if "j < length (cm_clients st)" for j
    using assms(2) acc imageI [OF nth_mem [OF that], of client_fd]
    by (metis fresh_accept_def)
  note fresh = fresh this
  let ?new = "\<lparr>client_fd = acc st, client_idx = int i + 1\<rparr>"
  have "proxy_ok dev (st\<lparr>cm_clients := (cm_clients st)[i := ?new]\<rparr>)"
    unfolding proxy_ok_def
  proof (intro conjI allI impI)
    fix j k
    assume jk: "j < CM_MAX_CLIENT" "k < CM_MAX_CLIENT"
      and "0 < client_fd (cm_clients (st\<lparr>cm_clients := (cm_clients st)[i := ?new]\<rparr>) ! j) \<and>
        client_fd (cm_clients (st\<lparr>cm_clients := (cm_clients st)[i := ?new]\<rparr>) ! j) =
        client_fd (cm_clients (st\<lparr>cm_clients := (cm_clients st)[i := ?new]\<rparr>) ! k)"
    with assms(1) fresh(3) [of j] fresh(3) [of k] i show "j = k"
      by (simp add: proxy_ok_def nth_list_update split: if_splits)
  qed (use assms(1,3) i fresh(1,2) in \<open>simp_all add: proxy_ok_def nth_list_update split: if_splits\<close>)
  then show ?thesis using assms(1) acc by (simp add: handle_client_connect_def Let_def Some)
qed

lemma closing_ok:
  assumes "proxy_ok dev st"
    and "cm_clients st' = cs" and "length cs = CM_MAX_CLIENT"
    and "\<And>j. j < CM_MAX_CLIENT \<Longrightarrow> 0 < client_fd (cs ! j) \<Longrightarrow> cs ! j = cm_clients st ! j"
    and "cm_recv_buffer st' = cm_recv_buffer st"
    and "mbim_server_fd st' = mbim_server_fd st" and "name_bound st' = name_bound st"
  shows "proxy_ok dev st'"
  using assms unfolding proxy_ok_def by metis

lemma disconnect_ok:
  assumes "proxy_ok dev st"
  shows "proxy_ok dev (handle_client_disconnect fd st)"
proof (cases "first_slot (\<lambda>c. client_fd c = fd) (cm_clients st)")
  case None
  then show ?thesis using assms by (simp add: handle_client_disconnect_def)
next
  case (Some i)
  let ?cs = "(cm_clients st)[i := safe_close_client (cm_clients st ! i)]"
  show ?thesis
  proof (rule closing_ok [OF assms, where cs = ?cs])
    show "length ?cs = CM_MAX_CLIENT" using assms by (simp add: proxy_ok_def)
    show "?cs ! j = cm_clients st ! j" if "j < CM_MAX_CLIENT" "0 < client_fd (?cs ! j)" for j
      using that assms first_slot_SomeD [OF Some]
      by (auto simp: proxy_ok_def nth_list_update safe_close_client_def split: if_splits)
  qed (simp_all add: handle_client_disconnect_def Some)
qed

lemma write_frame [simp]:
  "cm_clients (snd (non_block_write fd m st)) = cm_clients st"
  "cm_recv_buffer (snd (non_block_write fd m st)) = cm_recv_buffer st"
  "mbim_server_fd (snd (non_block_write fd m st)) = mbim_server_fd st"
  "name_bound (snd (non_block_write fd m st)) = name_bound st"
  "verbose (snd (non_block_write fd m st)) = verbose st"
  "written (snd (non_block_write fd m st)) = written st @ [(fd, m)]"
  "fst (non_block_write fd m st) = length m"
  by (simp_all add: non_block_write_def)

text \<open>What the two message handlers leave alone.\<close>

definition table_of :: "mbim_proxy \<Rightarrow> cm_client list \<times> nat \<times> int \<times> bool \<times> bool" where
  "table_of st = (cm_clients st, length (cm_recv_buffer st), mbim_server_fd st, name_bound st,
     verbose st)"

lemma table_write [simp]: "table_of (snd (non_block_write fd m st)) = table_of st"
  by (simp add: table_of_def)

lemma table_written [simp]: "table_of (st\<lparr>written := w\<rparr>) = table_of st"
  by (simp add: table_of_def)

lemma table_buffer [simp]:
  "length b = length (cm_recv_buffer st) \<Longrightarrow> table_of (st\<lparr>cm_recv_buffer := b\<rparr>) = table_of st"
  by (simp add: table_of_def)

lemma table_ok: "table_of st' = table_of st \<Longrightarrow> proxy_ok dev st \<Longrightarrow> proxy_ok dev st'"
  by (rule proxy_ok_frame) (simp_all add: table_of_def)

lemma table_fold:
  "table_of (fold (\<lambda>c st. if 0 < client_fd c then snd (non_block_write (client_fd c) m st) else st)
     cs st) = table_of st"
  by (induction cs arbitrary: st) simp_all

lemma rd32_in: "i + 4 \<le> length bs \<Longrightarrow> \<exists>w. rd32 bs i = Some w"
  by (simp add: rd32_def)

lemma poke_in: "i + length xs \<le> length bs \<Longrightarrow> \<exists>b. poke i xs bs = Some b \<and> length b = length bs"
  by (simp add: poke_def)

lemma rdn_in: "i + n \<le> length bs \<Longrightarrow> \<exists>v. rdn bs i n = Some v \<and> length v = n"
  by (simp add: rdn_def)

lemma response_runs:
  assumes "length (cm_recv_buffer st) = 4096" and "len \<le> 4096"
  shows "\<exists>r st'. handle_device_response len st = Some (r, st') \<and> table_of st' = table_of st"
proof -
  from rd32_in [of 8 "cm_recv_buffer st"] assms(1) obtain tid
    where tid: "rd32 (cm_recv_buffer st) 8 = Some tid" by auto
  from rdn_in [of 0 len "cm_recv_buffer st"] assms obtain m
    where m: "rdn (cm_recv_buffer st) 0 len = Some m" by auto
  from poke_in [of 8 "le32 (tid AND TID_MASK)" "cm_recv_buffer st"] assms(1) obtain b
    where b: "poke 8 (le32 (tid AND TID_MASK)) (cm_recv_buffer st) = Some b" "length b = 4096"
    by auto
  from rdn_in [of 0 len b] assms(2) b(2) obtain m' where m': "rdn b 0 len = Some m'" by auto
  show ?thesis
    by (simp add: handle_device_response_def tid m b m' assms(1) table_fold split: option.split)
qed

lemma request_runs:
  assumes "length (cm_recv_buffer st) = 4096" and "len \<le> 4096" and "\<not> verbose st"
  shows "\<exists>r st'. handle_client_request dev fd len st = Some (r, st') \<and> table_of st' = table_of st"
proof (cases "first_slot (\<lambda>c. client_fd c = fd) (cm_clients st)")
  case None
  from rd32_in [of 8 "cm_recv_buffer st"] assms(1) obtain tid
    where "rd32 (cm_recv_buffer st) 8 = Some tid" by auto
  then show ?thesis by (simp add: handle_client_request_def None)
next
  case (Some i)
  let ?idx = "client_idx (cm_clients st ! i)"
  from rd32_in [of 8 "cm_recv_buffer st"] assms(1) obtain tid
    where tid: "rd32 (cm_recv_buffer st) 8 = Some tid" by auto
  from rd32_in [of 0 "cm_recv_buffer st"] assms(1) obtain ty
    where ty: "rd32 (cm_recv_buffer st) 0 = Some ty" by auto
  let ?id = "le32 (tid OR push_bit TID_SHIFT (of_int ?idx))"
  from poke_in [of 8 ?id "cm_recv_buffer st"] assms(1) obtain b
    where b: "poke 8 ?id (cm_recv_buffer st) = Some b" "length b = 4096" by auto
  from rdn_in [of 0 len b] assms(2) b(2) obtain m' where m': "rdn b 0 len = Some m'" "length m' = len"
    by auto
  show ?thesis
    by (simp add: handle_client_request_def Some tid ty b m' assms(1,3) Let_def case_prod_unfold)
qed

section \<open>Every event keeps the invariant\<close>

lemma recv_length:
  "proxy_ok dev st \<Longrightarrow> length bs \<le> 4096 \<Longrightarrow> length (cm_recv_buffer (recv_into bs st)) = 4096"
  by (simp add: recv_into_def proxy_ok_def)

lemma recv_ok:
  assumes "proxy_ok dev st" and "length bs \<le> 4096"
  shows "proxy_ok dev (recv_into bs st)"
  using assms(1)
proof (rule proxy_ok_frame)
  show "length (cm_recv_buffer (recv_into bs st)) = length (cm_recv_buffer st)"
    using recv_length [OF assms] assms(1) by (simp add: proxy_ok_def)
qed (simp_all add: recv_into_def)

lemma server_ok:
  assumes "proxy_ok dev st" and "mbim_server_fd st = -1"
    and "proxy_make_server env st = (fd, st')"
  shows "proxy_ok dev (st'\<lparr>mbim_server_fd := fd\<rparr>)"
proof -
  have "\<not> 0 < client_fd (cm_clients st ! i)" if "i < CM_MAX_CLIENT" for i
    using assms(1,2) that by (auto simp: proxy_ok_def)
  then show ?thesis
    using assms by (auto simp: proxy_make_server_def proxy_ok_def Let_def split: if_splits)
qed

lemma server_verbose:
  "proxy_make_server env st = (fd, st') \<Longrightarrow> verbose st' = verbose st"
  by (auto simp: proxy_make_server_def Let_def split: if_splits)

lemma device_message_ok:
  assumes "proxy_ok dev st" and "len \<le> 4096"
  shows "\<exists>c st'. device_message ev len st = Some (c, st') \<and> proxy_ok dev st' \<and>
           verbose st' = verbose st"
proof (cases "mbim_server_fd st = -1")
  case True
  from assms(1) have l: "length (cm_recv_buffer st) = 4096" by (simp add: proxy_ok_def)
  from rd32_in [of 0 "cm_recv_buffer st"] l obtain ty
    where ty: "rd32 (cm_recv_buffer st) 0 = Some ty" by auto
  from rd32_in [of 12 "cm_recv_buffer st"] l obtain status
    where status: "rd32 (cm_recv_buffer st) 12 = Some status" by auto
  obtain fd st' where s: "proxy_make_server (ev_socket ev) st = (fd, st')" by (cases rule: prod.exhaust)
  show ?thesis
    using assms(1) server_ok [OF assms(1) True s] server_verbose [OF s]
    by (simp add: device_message_def True ty status s Let_def)
next
  case False
  from assms(1) have "length (cm_recv_buffer st) = 4096" by (simp add: proxy_ok_def)
  from response_runs [OF this assms(2)] obtain r st'
    where r: "handle_device_response len st = Some (r, st')" "table_of st' = table_of st" by auto
  then show ?thesis
    using table_ok [OF r(2) assms(1)] by (simp add: device_message_def False table_of_def)
qed

lemma connect_verbose: "verbose (snd (handle_client_connect acc st)) = verbose st"
  by (simp add: handle_client_connect_def Let_def split: option.split)

lemma disconnect_verbose: "verbose (handle_client_disconnect fd st) = verbose st"
  by (simp add: handle_client_disconnect_def split: option.split)

lemma proxy_event_ok:
  assumes ok: "proxy_ok dev st" and "fresh_accept acc dev" and "\<not> verbose st" and "0 < fd"
  shows "\<exists>c st'. proxy_event acc dev fd ev st = Some (c, st') \<and> proxy_ok dev st' \<and> \<not> verbose st'"
proof -
  note base = ok disconnect_ok [OF ok, of fd] connect_ok [OF ok assms(2)] assms(3,4)
    disconnect_verbose connect_verbose
  show ?thesis
  proof (cases "ev_read ev")
    case None
    then show ?thesis using base by (auto simp: proxy_event_def)
  next
    case (Some bs0)
    let ?bs = "take 4096 bs0"
    let ?st = "recv_into ?bs st"
    have r: "proxy_ok dev ?st" using recv_ok [OF ok, of ?bs] by simp
    have v: "\<not> verbose ?st" using assms(3) by (simp add: recv_into_def)
    from device_message_ok [OF r, of "length ?bs" ev] obtain c st'
      where d: "device_message ev (length ?bs) ?st = Some (c, st')" "proxy_ok dev st'"
        "verbose st' = verbose ?st" by auto
    from request_runs [OF recv_length [OF ok, of ?bs] _ v, of "length ?bs" dev fd] obtain q st''
      where q: "handle_client_request dev fd (length ?bs) ?st = Some (q, st'')"
        "table_of st'' = table_of ?st" by auto
    have q': "proxy_ok dev st''" "\<not> verbose st''"
      using table_ok [OF q(2) r] q(2) v by (simp_all add: table_of_def)
    show ?thesis
      using base d q q' v by (auto simp: proxy_event_def Some Let_def simp del: length_take)
  qed
qed

lemma proxy_events_ok:
  assumes "proxy_ok dev st" and "fresh_accept acc dev" and "\<not> verbose st"
    and "\<forall>(fd, ev) \<in> set evs. 0 < fd"
  shows "\<exists>c st'. proxy_events acc dev evs st = Some (c, st') \<and> proxy_ok dev st' \<and> \<not> verbose st'"
  using assms
proof (induction evs arbitrary: st)
  case Nil
  then show ?case by simp
next
  case (Cons e evs)
  obtain fd ev where e: "e = (fd, ev)" by (cases e)
  from proxy_event_ok [OF Cons.prems(1-3), of fd ev] Cons.prems(4) e obtain c st'
    where s: "proxy_event acc dev fd ev st = Some (c, st')" "proxy_ok dev st'" "\<not> verbose st'"
    by auto
  show ?case
    using Cons.IH [OF s(2) Cons.prems(2) s(3)] Cons.prems(4) s by (simp add: e)
qed

lemma pollfds_pos: "0 < dev \<Longrightarrow> (fd, ev) \<in> set (zip (pollfds dev st) evs) \<Longrightarrow> 0 < fd"
  by (drule set_zip_leftD) (auto simp: pollfds_def split: if_splits)

lemma error_ok: "proxy_ok dev st \<Longrightarrow> proxy_ok dev (proxy_error st)"
  by (auto simp: proxy_ok_def proxy_error_def Let_def safe_close_client_def)

lemma proxy_loop_ok:
  assumes "proxy_ok dev st" and "fresh_accept acc dev" and "\<not> verbose st"
  shows "\<exists>c st'. proxy_loop acc dev polls st = Some (c, st') \<and> proxy_ok dev st' \<and> \<not> verbose st'"
  using assms
proof (induction polls arbitrary: st)
  case Nil
  then show ?case by simp
next
  case (Cons p polls)
  have err: "proxy_ok dev (proxy_error s)" "\<not> verbose (proxy_error s)"
    if "proxy_ok dev s" "\<not> verbose s" for s
    using that error_ok by (simp_all add: proxy_error_def Let_def)
  show ?case
  proof (cases "0 < dev \<and> p \<noteq> None")
    case False
    then show ?thesis using err Cons.prems by auto
  next
    case True
    then obtain evs where p: "p = Some evs" by auto
    have pos: "\<forall>(fd, ev) \<in> set (zip (pollfds dev st) evs). 0 < fd"
      using pollfds_pos True by fast
    from proxy_events_ok [OF Cons.prems pos] obtain c st'
      where s: "proxy_events acc dev (zip (pollfds dev st) evs) st = Some (c, st')"
        "proxy_ok dev st'" "\<not> verbose st'" by auto
    show ?thesis
      using Cons.IH [OF s(2) Cons.prems(2) s(3)] err [OF s(2,3)] s True p
      by (cases c) simp_all
  qed
qed

lemma no_clients_ok:
  "length (cm_recv_buffer st) = 4096 \<Longrightarrow> cm_clients st = no_clients \<Longrightarrow> mbim_server_fd st = -1 \<Longrightarrow>
     proxy_ok dev st"
  by (simp add: proxy_ok_def no_clients_def)

section \<open>Transaction ids through the proxy\<close>

definition readable :: "bytes \<Rightarrow> pevent" where
  "readable m = no_event\<lparr>ev_in := True, ev_read := Some m\<rparr>"

definition id_field :: "bytes \<Rightarrow> u32 option" where
  "id_field m = rd32 m 8"

definition with_id :: "u32 \<Rightarrow> bytes \<Rightarrow> bytes" where
  "with_id t m = take 8 m @ le32 t @ drop 12 m"

text \<open>The id the device sees: the slot number in the top byte, the client's id below it.\<close>

definition tagged :: "nat \<Rightarrow> u32 \<Rightarrow> u32" where
  "tagged i tid = tid OR push_bit TID_SHIFT (of_int (int i + 1))"

lemma low_id_bits: "tid AND TID_MASK = tid \<Longrightarrow> 24 \<le> n \<Longrightarrow> \<not> bit tid n"
proof -
  assume a: "tid AND TID_MASK = tid" and n: "24 \<le> n"
  have M: "TID_MASK = mask 24" by (simp add: TID_MASK_def mask_eq_exp_minus_1)
  have "bit tid n = bit (tid AND TID_MASK) n" by (simp only: a)
  then show ?thesis using n by (simp add: M bit_and_iff bit_mask_iff)
qed

lemma unat_tag:
  assumes "i < CM_MAX_CLIENT"
  shows "unat (of_int (int i + 1) :: u32) = i + 1"
proof -
  have k: "of_int (int i + 1) = (of_nat (i + 1) :: u32)" by simp
  show ?thesis
    unfolding k unat_of_nat using assms by (simp add: CM_MAX_CLIENT_def)
qed

lemma tag_bits:
  assumes "i < CM_MAX_CLIENT" and "8 \<le> n"
  shows "\<not> bit (of_int (int i + 1) :: u32) n"
proof -
  have "i + 1 < 2 ^ n"
    using assms power_increasing [of 8 n "2 :: nat"] by (simp add: CM_MAX_CLIENT_def)
  then have "\<not> bit (unat (of_int (int i + 1) :: u32)) n"
    by (simp only: unat_tag [OF assms(1)]) (simp add: bit_iff_odd)
  then show ?thesis by (simp add: bit_unsigned_iff del: of_int_add)
qed

lemma drop_tagged:
  assumes "tid AND TID_MASK = tid" and "i < CM_MAX_CLIENT"
  shows "drop_bit TID_SHIFT (tagged i tid) = of_int (int i + 1)"
proof (rule bit_word_eqI)
  fix n assume n: "n < LENGTH(32)"
  show "bit (drop_bit TID_SHIFT (tagged i tid)) n = bit (of_int (int i + 1) :: u32) n"
    using low_id_bits [OF assms(1), of "24 + n"] tag_bits [OF assms(2), of n] n
    by (cases "n < 8") (auto simp: tagged_def TID_SHIFT_def bit_drop_bit_eq bit_or_iff
        bit_push_bit_iff simp del: of_int_add)
qed

lemma slot_tagged:
  assumes "tid AND TID_MASK = tid" and "i < CM_MAX_CLIENT"
  shows "int (unat (drop_bit TID_SHIFT (tagged i tid))) = int i + 1"
  by (simp only: drop_tagged [OF assms] unat_tag [OF assms(2)] of_nat_add of_nat_1)

lemma mask_tagged:
  assumes "tid AND TID_MASK = tid"
  shows "tagged i tid AND TID_MASK = tid"
proof (rule bit_word_eqI)
  have M: "TID_MASK = mask 24" by (simp add: TID_MASK_def mask_eq_exp_minus_1)
  fix n assume n: "n < LENGTH(32)"
  show "bit (tagged i tid AND TID_MASK) n = bit tid n"
    using low_id_bits [OF assms, of n] n
    by (cases "n < 24") (auto simp: tagged_def M TID_SHIFT_def bit_and_iff bit_or_iff bit_mask_iff
        bit_push_bit_iff simp del: of_int_add)
qed

lemma tagged_nonzero:
  assumes "tid AND TID_MASK = tid" and "i < CM_MAX_CLIENT"
  shows "tagged i tid \<noteq> 0"
  using slot_tagged [OF assms] by auto

lemma poke_received:
  assumes "12 \<le> length m" and "length m \<le> length b"
  shows "poke 8 (le32 t) (m @ drop (length m) b) = Some (with_id t m @ drop (length m) b)"
  using assms by (simp add: poke_def with_id_def)

lemma length_with_id [simp]: "12 \<le> length m \<Longrightarrow> length (with_id t m) = length m"
  by (simp add: with_id_def)

lemma id_with_id: "12 \<le> length m \<Longrightarrow> id_field (with_id t m) = Some t"
  using rd32_append [of "take 8 m" "le32 t @ drop 12 m" 0]
  by (simp add: id_field_def with_id_def rd32_le32 min_def)

lemma rd32_received: "i + 4 \<le> length m \<Longrightarrow> rd32 (m @ b) i = rd32 m i"
  by (simp add: rd32_def nth_append)

lemma used_slot:
  assumes "proxy_ok dev st" and "i < CM_MAX_CLIENT" and "0 < client_fd (cm_clients st ! i)"
  shows "first_slot (\<lambda>c. client_fd c = client_fd (cm_clients st ! i)) (cm_clients st) = Some i"
    and "first_slot (\<lambda>c. client_idx c = int i + 1 \<and> 0 < client_fd c) (cm_clients st) = Some i"
  using assms by (auto simp: proxy_ok_def intro!: first_slot_unique)

lemma request_forwarded:
  assumes "proxy_ok dev st" and "i < CM_MAX_CLIENT" and "0 < client_fd (cm_clients st ! i)"
    and "\<not> verbose st" and "12 \<le> length m" and "length m \<le> 4096"
    and "id_field m = Some tid" and "tid AND TID_MASK = tid"
    and "rd32 m 0 = Some ty" and "ty \<noteq> MBIM_OPEN_MSG" and "ty \<noteq> MBIM_CLOSE_MSG"
  shows "\<exists>st'. proxy_event acc dev (client_fd (cm_clients st ! i)) (readable m) st =
             Some (Next_event, st') \<and>
           written st' = written st @
             [(dev, with_id (tagged i tid) m)]"
proof -
  let ?fd = "client_fd (cm_clients st ! i)"
  let ?b = "m @ drop (length m) (cm_recv_buffer st)"
  let ?id = "tagged i tid"
  from assms(1-3) have x: "?fd \<noteq> dev" "?fd \<noteq> mbim_server_fd st"
    "client_idx (cm_clients st ! i) = int i + 1" "length (cm_recv_buffer st) = 4096"
    by (auto simp: proxy_ok_def)
  have t: "rd32 ?b 8 = Some tid" "rd32 ?b 0 = Some ty"
    using assms(5,7,9) by (simp_all add: rd32_received id_field_def)
  have p: "poke 8 (le32 ?id) ?b = Some (with_id ?id m @ drop (length m) (cm_recv_buffer st))"
    using assms(5,6) x(4) by (intro poke_received) simp_all
  have r: "rdn (with_id ?id m @ drop (length m) (cm_recv_buffer st)) 0 (length m) =
      Some (with_id ?id m)"
    using rdn_prefix [of "with_id ?id m"] assms(5) by simp
  have m: "take 4096 m = m" "m \<noteq> []" using assms(5,6) by auto
  show ?thesis
    using x used_slot [OF assms(1-3)] assms(4,5,10,11) m
    by (simp add: proxy_event_def readable_def no_event_def recv_into_def handle_client_request_def
        t p [unfolded tagged_def] r [unfolded tagged_def] tagged_def Let_def case_prod_unfold
        non_block_write_def del: of_int_add)
qed

lemma response_returned:
  assumes "proxy_ok dev st" and "i < CM_MAX_CLIENT" and "0 < client_fd (cm_clients st ! i)"
    and "dev \<noteq> mbim_server_fd st" and "12 \<le> length r" and "length r \<le> 4096"
    and "tid AND TID_MASK = tid"
    and "id_field r = Some (tagged i tid)"
  shows "\<exists>st'. proxy_event acc dev dev (readable r) st = Some (Next_event, st') \<and>
           written st' = written st @ [(client_fd (cm_clients st ! i), with_id tid r)]"
proof -
  let ?b = "r @ drop (length r) (cm_recv_buffer st)"
  let ?id = "tagged i tid"
  from assms(1-3) have x: "mbim_server_fd st \<noteq> -1" "length (cm_recv_buffer st) = 4096"
    by (auto simp: proxy_ok_def)
  have t: "rd32 ?b 8 = Some ?id"
    using assms(5,8) by (simp add: rd32_received id_field_def)
  have p: "poke 8 (le32 (?id AND TID_MASK)) ?b =
      Some (with_id tid r @ drop (length r) (cm_recv_buffer st))"
    unfolding mask_tagged [OF assms(7)] using assms(5,6) x(2) by (intro poke_received) simp_all
  have q: "rdn (with_id tid r @ drop (length r) (cm_recv_buffer st)) 0 (length r) = Some (with_id tid r)"
    using rdn_prefix [of "with_id tid r"] assms(5) by simp
  have m: "take 4096 r = r" "r \<noteq> []" using assms(5,6) by auto
  have h: "handle_device_response (length r) (recv_into r st) =
      Some (0, snd (non_block_write (client_fd (cm_clients st ! i)) (with_id tid r)
        (st\<lparr>cm_recv_buffer := with_id tid r @ drop (length r) (cm_recv_buffer st)\<rparr>)))"
    unfolding handle_device_response_def recv_into_def
    using used_slot(2) [OF assms(1-3)] tagged_nonzero [OF assms(7,2)]
    by (simp add: t slot_tagged [OF assms(7,2)] p q del: of_nat_unat)
  have server: "mbim_server_fd (recv_into r st) = mbim_server_fd st" by (simp add: recv_into_def)
  show ?thesis
    using x assms(4) m
    by (simp add: proxy_event_def readable_def no_event_def device_message_def h server)
qed

text \<open>C20:
  A request of a client comes back to that client and to nobody else.  In a state that satisfies the
  table invariant, let the client of slot \<open>i\<close> send a message (not an open or close) whose
  transaction id fits in 24 bits.  The proxy writes exactly one message, to the device: the client's
  message with the tagged id in place of its own.  And in every later state that satisfies the
  invariant and in which the slot still belongs to that client, a device message that carries this
  tagged id makes the proxy write exactly one message, to that client, with the client's own
  transaction id restored and every other byte unchanged.
\<close>

theorem proxy_request_roundtrip:
  assumes "proxy_ok dev st" and "i < CM_MAX_CLIENT" and "0 < client_fd (cm_clients st ! i)"
    and "\<not> verbose st" and "12 \<le> length m" and "length m \<le> 4096"
    and "id_field m = Some tid" and "tid AND TID_MASK = tid"
    and "rd32 m 0 = Some ty" and "ty \<noteq> MBIM_OPEN_MSG" and "ty \<noteq> MBIM_CLOSE_MSG"
  shows "(\<exists>st'. proxy_event acc dev (client_fd (cm_clients st ! i)) (readable m) st =
               Some (Next_event, st') \<and>
             written st' = written st @ [(dev, with_id (tagged i tid) m)]) \<and>
         (\<forall>later r. proxy_ok dev later \<longrightarrow>
            client_fd (cm_clients later ! i) = client_fd (cm_clients st ! i) \<longrightarrow>
            dev \<noteq> mbim_server_fd later \<longrightarrow> 12 \<le> length r \<longrightarrow> length r \<le> 4096 \<longrightarrow>
            id_field r = id_field (with_id (tagged i tid) m) \<longrightarrow>
            (\<exists>st'. proxy_event acc dev dev (readable r) later = Some (Next_event, st') \<and>
               written st' = written later @ [(client_fd (cm_clients st ! i), with_id tid r)]))"
proof (intro conjI allI impI)
  show "\<exists>st'. proxy_event acc dev (client_fd (cm_clients st ! i)) (readable m) st =
          Some (Next_event, st') \<and> written st' = written st @ [(dev, with_id (tagged i tid) m)]"
    by (rule request_forwarded [OF assms])
next
  fix later r
  assume l: "proxy_ok dev later" "client_fd (cm_clients later ! i) = client_fd (cm_clients st ! i)"
    "dev \<noteq> mbim_server_fd later" "12 \<le> length r" "length r \<le> 4096"
    "id_field r = id_field (with_id (tagged i tid) m)"
  have "id_field r = Some (tagged i tid)" using l(6) id_with_id [OF assms(5)] by simp
  from response_returned [OF l(1) assms(2) _ l(3-5) assms(8) this, of acc] l(2) assms(3)
  show "\<exists>st'. proxy_event acc dev dev (readable r) later = Some (Next_event, st') \<and>
          written st' = written later @ [(client_fd (cm_clients st ! i), with_id tid r)]"
    by simp
qed

section \<open>A session as a whole\<close>

text \<open>C21:
  The proxy stays inside its buffers and its client table stays consistent.  If \<open>accept\<close> returns
  descriptors that are not in use and the verbose log is off, then from any state with a receive
  buffer of 4096 bytes a session runs without an access outside the table or the buffer, whatever the
  device and the clients send and in whatever order the descriptors become ready; at every point of
  it the used slots carry their own numbers, have distinct descriptors that are neither the device's
  nor the server's, and exist only while the server does.
\<close>

theorem proxy_session_invariant:
  assumes "fresh_accept acc dev" and "0 \<le> dev" and "\<not> verbose st"
    and "length (cm_recv_buffer st) = 4096"
  shows "\<exists>st'. proxy_session acc dev polls st = Some st' \<and> proxy_ok dev st'"
proof -
  let ?st = "snd (mbim_send_open_msg dev 4096 (st\<lparr>cm_clients := no_clients\<rparr>))\<lparr>mbim_server_fd := -1\<rparr>"
  have "proxy_ok dev ?st"
    using assms(4) by (intro no_clients_ok) (simp_all add: mbim_send_open_msg_def)
  moreover have "\<not> verbose ?st" using assms(3) by (simp add: mbim_send_open_msg_def)
  ultimately obtain c st' where "proxy_loop acc dev polls ?st = Some (c, st')" "proxy_ok dev st'"
    using proxy_loop_ok [OF _ assms(1)] by blast
  then show ?thesis using assms(2) by (simp add: proxy_session_def Let_def case_prod_unfold)
qed

section \<open>The end of a client's stream\<close>

text \<open>
  While the socket name is held by a socket no descriptor refers to, no session gets a server.
\<close>

lemma bound_make_server:
  "name_bound st \<Longrightarrow> proxy_make_server env st = (-1, st)"
  by (simp add: proxy_make_server_def Let_def)

definition locked_out :: "mbim_proxy \<Rightarrow> bool" where
  "locked_out st \<longleftrightarrow> name_bound st \<and> mbim_server_fd st = -1 \<and> length (cm_recv_buffer st) = 4096 \<and>
     (\<forall>c \<in> set (cm_clients st). \<not> 0 < client_fd c)"

lemma locked_event:
  assumes "locked_out st" and "0 < dev"
  shows "\<exists>c st'. proxy_event acc dev dev ev st = Some (c, st') \<and> c \<noteq> Return_len \<and> locked_out st' \<and>
           written st' = written st"
proof (cases "ev_read ev")
  case None
  then show ?thesis using assms by (auto simp: proxy_event_def locked_out_def)
next
  case (Some bs0)
  let ?st = "recv_into (take 4096 bs0) st"
  have l: "locked_out ?st" "written ?st = written st"
    using assms(1) by (auto simp: locked_out_def recv_into_def)
  then have b: "length (cm_recv_buffer ?st) = 4096" "mbim_server_fd ?st = -1" "name_bound ?st"
    by (auto simp: locked_out_def)
  from rd32_in [of 0 "cm_recv_buffer ?st"] b(1) obtain ty
    where ty: "rd32 (cm_recv_buffer ?st) 0 = Some ty" by auto
  from rd32_in [of 12 "cm_recv_buffer ?st"] b(1) obtain status
    where status: "rd32 (cm_recv_buffer ?st) 12 = Some status" by auto
  have l': "locked_out (?st\<lparr>mbim_server_fd := - 1\<rparr>)" using l(1) by (simp add: locked_out_def)
  have d: "\<exists>c st'. device_message ev (length (take 4096 bs0)) ?st = Some (c, st') \<and>
      c \<noteq> Return_len \<and> locked_out st' \<and> written st' = written st"
    using l l' by (simp add: device_message_def b(2) ty status bound_make_server [OF b(3)] Let_def)
  have "mbim_server_fd st \<noteq> dev" using assms by (auto simp: locked_out_def)
  then show ?thesis
    using assms(1) d by (auto simp: proxy_event_def Some Let_def)
qed

lemma locked_loop:
  assumes "locked_out st"
  shows "\<exists>c st'. proxy_loop acc dev polls st = Some (c, st') \<and> name_bound st' \<and>
           length (cm_recv_buffer st') = 4096 \<and> written st' = written st"
  using assms
proof (induction polls arbitrary: st)
  case Nil
  then show ?case by (simp add: locked_out_def)
next
  case (Cons p polls)
  have err: "name_bound (proxy_error s)" "length (cm_recv_buffer (proxy_error s)) = 4096"
    "written (proxy_error s) = written s" if "locked_out s" for s
    using that by (simp_all add: proxy_error_def locked_out_def Let_def)
  show ?case
  proof (cases "0 < dev \<and> p \<noteq> None")
    case False
    then show ?thesis using err [OF Cons.prems] by auto
  next
    case True
    then obtain evs where p: "p = Some evs" by auto
    have fds: "pollfds dev st = [dev]" using Cons.prems by (simp add: pollfds_def locked_out_def)
    show ?thesis
    proof (cases evs)
      case Nil
      then show ?thesis using Cons.IH [OF Cons.prems] True p by simp
    next
      case (Cons ev evs')
      from locked_event [OF Cons.prems, of dev acc ev] True obtain c st'
        where s: "proxy_event acc dev dev ev st = Some (c, st')" "c \<noteq> Return_len" "locked_out st'"
          "written st' = written st" by auto
      show ?thesis
        using Cons.IH [OF s(3)] err [OF s(3)] s True p Cons fds by (cases c) simp_all
    qed
  qed
qed

definition open_message :: bytes where
  "open_message = le32 MBIM_OPEN_MSG @ le32 16 @ le32 1 @ le32 4096"

lemma locked_session:
  assumes "name_bound st" and "length (cm_recv_buffer st) = 4096"
  shows "\<exists>st'. proxy_session acc dev polls st = Some st' \<and> name_bound st' \<and>
           length (cm_recv_buffer st') = 4096 \<and>
           written st' = written st @ (if 0 \<le> dev then [(dev, open_message)] else [])"
proof (cases "0 \<le> dev")
  case False
  then show ?thesis using assms by (simp add: proxy_session_def)
next
  case True
  let ?st = "snd (mbim_send_open_msg dev 4096 (st\<lparr>cm_clients := no_clients\<rparr>))\<lparr>mbim_server_fd := -1\<rparr>"
  have "locked_out ?st"
    using assms by (simp add: locked_out_def mbim_send_open_msg_def no_clients_def)
  from locked_loop [OF this, of acc dev polls] True show ?thesis
    by (auto simp: proxy_session_def Let_def case_prod_unfold mbim_send_open_msg_def open_message_def)
qed

lemma locked_main:
  assumes "name_bound st" and "length (cm_recv_buffer st) = 4096"
  shows "\<exists>st'. proxy_main acc ss st = Some st' \<and>
           written st' = written st @ [(fd, open_message). (fd, polls) \<leftarrow> ss, 0 \<le> fd]"
  using assms
proof (induction ss arbitrary: st)
  case Nil
  then show ?case by simp
next
  case (Cons x ss)
  obtain fd polls where x: "x = (fd, polls)" by (cases x)
  from locked_session [OF Cons.prems, of acc fd polls] obtain st'
    where s: "proxy_session acc fd polls st = Some st'" "name_bound st'"
      "length (cm_recv_buffer st') = 4096"
      "written st' = written st @ (if 0 \<le> fd then [(fd, open_message)] else [])" by auto
  from Cons.IH [OF s(2,3)] show ?case using s by (auto simp: x)
qed


section \<open>A concrete proxy\<close>

text \<open>An \<open>accept\<close> that hands out the next number above every descriptor in use.\<close>

definition next_fd :: "int \<Rightarrow> mbim_proxy \<Rightarrow> int" where
  "next_fd dev st = 1 + foldr max (dev # mbim_server_fd st # map client_fd (cm_clients st)) 2"

lemma foldr_max_upper: "x \<in> set xs \<Longrightarrow> x \<le> foldr max xs (a :: int)"
  by (induction xs) auto

lemma next_fd_fresh: "fresh_accept (next_fd dev) dev"
  unfolding fresh_accept_def
proof (intro allI impI)
  fix st :: mbim_proxy
  let ?xs = "dev # mbim_server_fd st # map client_fd (cm_clients st)"
  have "x \<noteq> next_fd dev st" if "x \<in> set ?xs" for x
    using foldr_max_upper [OF that, of 2] by (simp only: next_fd_def)
  then have "next_fd dev st \<notin> set ?xs" by blast
  then show "next_fd dev st \<noteq> dev \<and> next_fd dev st \<noteq> mbim_server_fd st \<and>
      next_fd dev st \<notin> client_fd ` set (cm_clients st)"
    by simp
qed

lemma initial_fields:
  "\<not> verbose (initial_proxy False)" "length (cm_recv_buffer (initial_proxy False)) = 4096"
  by (simp_all only: initial_proxy_def mbim_proxy.simps length_replicate not_False_eq_True)

definition example_proxy :: mbim_proxy where
  "example_proxy = (initial_proxy False)\<lparr>
     cm_clients := \<lparr>client_fd = 5, client_idx = 1\<rparr> # \<lparr>client_fd = 6, client_idx = 2\<rparr> #
       replicate 30 \<lparr>client_fd = 0, client_idx = 0\<rparr>,
     mbim_server_fd := 4, name_bound := True\<rparr>"

lemma example_slots:
  "i < 32 \<Longrightarrow> cm_clients example_proxy ! i =
     (if i = 0 then \<lparr>client_fd = 5, client_idx = 1\<rparr>
      else if i = 1 then \<lparr>client_fd = 6, client_idx = 2\<rparr> else \<lparr>client_fd = 0, client_idx = 0\<rparr>)"
  by (auto simp: example_proxy_def nth_Cons')

lemma example_proxy_ok: "proxy_ok 3 example_proxy"
proof -
  have "length (cm_clients example_proxy) = CM_MAX_CLIENT"
    "length (cm_recv_buffer example_proxy) = 4096"
    "mbim_server_fd example_proxy = 4" "name_bound example_proxy"
    by (simp_all add: example_proxy_def initial_proxy_def CM_MAX_CLIENT_def)
  then show ?thesis
    by (auto simp: proxy_ok_def CM_MAX_CLIENT_def example_slots split: if_splits)
qed

lemma example_fields: "\<not> verbose example_proxy" "written example_proxy = []"
  by (simp_all add: example_proxy_def initial_proxy_def)

definition example_request :: bytes where
  "example_request = le32 3 @ le32 16 @ le32 7 @ le32 0"

theorem proxy_request_roundtrip_witness:
  "\<exists>st'. proxy_event (next_fd 3) 3 6 (readable example_request) example_proxy =
       Some (Next_event, st') \<and>
     written st' = [(3, le32 3 @ le32 16 @ le32 0x02000007 @ le32 0)]"
proof -
  have slot: "cm_clients example_proxy ! Suc 0 = \<lparr>client_fd = 6, client_idx = 2\<rparr>"
    by (simp add: example_slots)
  have "(\<exists>st'. proxy_event (next_fd 3) 3 (client_fd (cm_clients example_proxy ! 1))
        (readable example_request) example_proxy = Some (Next_event, st') \<and>
      written st' = written example_proxy @ [(3, with_id (tagged 1 7) example_request)])"
    by (rule conjunct1 [OF proxy_request_roundtrip [OF example_proxy_ok, where ty = 3]])
       (simp_all add: slot CM_MAX_CLIENT_def TID_MASK_def MBIM_OPEN_MSG_def MBIM_CLOSE_MSG_def
         example_request_def id_field_def rd32_def le32_def le32_to_cpu_def
         example_fields)
  moreover have "with_id (tagged 1 7) example_request = le32 3 @ le32 16 @ le32 0x02000007 @ le32 0"
    by (simp add: with_id_def tagged_def TID_SHIFT_def example_request_def le32_def)
  ultimately show ?thesis by (simp add: slot example_fields)
qed

theorem proxy_session_invariant_witness:
  "\<exists>st'. proxy_session (next_fd 3) 3
       [Some [readable (le32 MBIM_OPEN_DONE @ le32 16 @ le32 1 @ le32 0)]] (initial_proxy False) =
       Some st' \<and> proxy_ok 3 st'"
  by (rule proxy_session_invariant [OF next_fd_fresh]) (simp_all only: initial_fields, simp_all)


end
