(* ===== verification/Qmap.thy ===== *)
theory Qmap
  imports Prelude
begin

text \<open>
  The data path of the modem's network interface (mhi_netdev_quectel.c): the QMAP and MBIM framing
  of outgoing packets, the handlers that take received blocks apart and deliver their packets to the
  virtual interfaces, the modem's flow control with its deadline, and the stopping and waking of the
  transmit queues.  The build modelled is the one of this router: no \<open>MHI_NETDEV_ONE_CARD_MODE\<close>, no
  Qualcomm NSS, \<open>QUECTEL_BRIDGE_MODE\<close> defined.

  A received block is the byte list of its \<open>sk_buff\<close>; a packet to send is a \<open>skb\<close> with the bytes that
  lie before and after its data, since the framing grows into them.  \<open>None\<close> is a fault: an access
  outside a buffer or an array, a null or dangling \<open>net_device\<close>, or a push beyond the headroom.  The
  loops of the two receive handlers may not end; they are partial functions into a second \<open>option\<close>,
  whose \<open>None\<close> is a loop that does not return.
\<close>

section \<open>Data\<close>

datatype mhi_net_type = MHI_NET_UNKNOW | MHI_NET_RMNET | MHI_NET_MBIM | MHI_NET_ETHER

record skb =
  head_room :: bytes
  skb_data :: bytes
  tail_room :: bytes

text \<open>A virtual interface: the fields of its \<open>net_device\<close> and its \<open>qmap_priv\<close> the code uses.\<close>

record vnd =
  v_live :: bool
  v_mtu :: u32
  v_ether :: bool
  dev_addr :: bytes
  v_stopped :: bool
  v_carrier :: bool
  v_fraglist :: bool
  mux_id :: u8
  v_qmap_version :: u32
  bridge_mode :: u32
  bridge_ipv4 :: u32
  bridge_mac :: bytes
  v_rx_packets :: u64
  v_rx_bytes :: u64
  v_tx_packets :: u64
  v_tx_bytes :: u64
  v_tx_errors :: u64

text \<open>A received packet on its way up: the interface, the protocol, its Ethernet header (none on a
  raw-IP interface) and its bytes.\<close>

record rx_skb =
  rx_dev :: nat
  rx_protocol :: u16
  rx_eth :: bytes
  rx_data :: bytes
  rx_summed :: bool

datatype net_effect =
    Netif_receive rx_skb
  | Gro_receive rx_skb
  | Queue_xmit bytes
  | Mhi_queue bytes
  | Arp_reply bytes bytes bytes

record mhi_netdev =
  net_type :: mhi_net_type
  qmap_mode :: u32
  qmap_version :: u32
  dl_minimum_padding :: u32
  mpQmapNetDev :: "vnd option list"
  ndev_stopped :: bool
  ndev_carrier :: bool
  ndev_tx_packets :: u64
  ndev_tx_bytes :: u64
  ndev_tx_errors :: u64
  link_state :: u32
  net_enabled :: bool
  flow_control :: u32
  fc_pending :: bool
  fc_armed :: bool
  rmnet_map_command_stats :: "u32 list"
  alloc_failed :: u32
  mbim_mux_id :: u32
  tx_seq :: u16
  rx_seq :: u16
  rx_max :: u32
  rx_gro :: bool
  rx_gro_fraglist :: bool
  rx_csum_trust :: bool
  rx_recycled :: nat
  allocs :: "bool list"
  effects :: "net_effect list"

definition QUECTEL_QMAP_MUX_ID :: u8 where "QUECTEL_QMAP_MUX_ID = 0x81"
definition ETH_P_IP :: u16 where "ETH_P_IP = 0x0800"
definition ETH_P_ARP :: u16 where "ETH_P_ARP = 0x0806"
definition ETH_P_IPV6 :: u16 where "ETH_P_IPV6 = 0x86DD"
definition ETH_P_MAP :: u16 where "ETH_P_MAP = 0xDA1A"
definition USB_CDC_NCM_NTH16_SIGN :: u32 where "USB_CDC_NCM_NTH16_SIGN = 0x484D434E"
definition USB_CDC_MBIM_NDP16_IPS_SIGN :: u32 where "USB_CDC_MBIM_NDP16_IPS_SIGN = 0x00535049"
definition USB_CDC_MBIM_NDP16_DSS_SIGN :: u32 where "USB_CDC_MBIM_NDP16_DSS_SIGN = 0x00535344"
definition default_modem_addr :: bytes where "default_modem_addr = [0x02, 0x50, 0xf3, 0, 0, 0]"
definition mbim_hdr_size :: nat where "mbim_hdr_size = 28"

definition RMNET_MAP_COMMAND_FLOW_DISABLE :: u8 where "RMNET_MAP_COMMAND_FLOW_DISABLE = 1"
definition RMNET_MAP_COMMAND_FLOW_ENABLE :: u8 where "RMNET_MAP_COMMAND_FLOW_ENABLE = 2"
definition RMNET_MAP_COMMAND_UNKNOWN :: nat where "RMNET_MAP_COMMAND_UNKNOWN = 9"
definition RMNET_MAP_COMMAND_ENUM_LENGTH :: nat where "RMNET_MAP_COMMAND_ENUM_LENGTH = 10"
definition RMNET_MAP_COMMAND_ACK :: u8 where "RMNET_MAP_COMMAND_ACK = 1"
definition RMNET_MAP_COMMAND_UNSUPPORTED :: u8 where "RMNET_MAP_COMMAND_UNSUPPORTED = 2"

section \<open>Byte order and socket buffers\<close>

definition be16 :: "u16 \<Rightarrow> bytes" where
  "be16 w = [ucast (drop_bit 8 w), ucast w]"

definition rdbe16 :: "bytes \<Rightarrow> nat \<Rightarrow> u16 option" where
  "rdbe16 bs i = (if i + 2 \<le> length bs then Some (le16_to_cpu (bs ! (i + 1)) (bs ! i)) else None)"

text \<open>\<open>skb_push\<close> and \<open>__skb_put\<close> take bytes over as they are; a push beyond the headroom stops the
  kernel.  \<open>skb_pull\<close> by more than the length leaves the buffer as it was.\<close>

definition skb_push :: "nat \<Rightarrow> skb \<Rightarrow> skb option" where
  "skb_push n s =
     (if length (head_room s) < n then None
      else let k = length (head_room s) - n in
        Some (s\<lparr>head_room := take k (head_room s),
                skb_data := drop k (head_room s) @ skb_data s\<rparr>))"

definition skb_put :: "nat \<Rightarrow> skb \<Rightarrow> skb option" where
  "skb_put n s =
     (if length (tail_room s) < n then None
      else Some (s\<lparr>skb_data := skb_data s @ take n (tail_room s),
                   tail_room := drop n (tail_room s)\<rparr>))"

definition skb_pull :: "nat \<Rightarrow> bytes \<Rightarrow> bytes" where
  "skb_pull n d = (if length d < n then d else drop n d)"

definition poke_skb :: "nat \<Rightarrow> bytes \<Rightarrow> skb \<Rightarrow> skb option" where
  "poke_skb i bs s = do { d \<leftarrow> poke i bs (skb_data s); Some (s\<lparr>skb_data := d\<rparr>) }"

section \<open>Framing of outgoing packets\<close>

text \<open>Four-byte alignment, where the tail has room for it; the pad bytes are not cleared.\<close>

definition qmap_pad :: "skb \<Rightarrow> (nat \<times> skb) option" where
  "qmap_pad s =
     (let pad = length (skb_data s) mod 4 in
      if pad = 0 then Some (0, s)
      else let pad = 4 - pad in
      if length (tail_room s) < pad then Some (0, s)
      else do { s \<leftarrow> skb_put pad s; Some (pad, s) })"

definition add_qhdr :: "skb \<Rightarrow> u8 \<Rightarrow> skb option" where
  "add_qhdr s mux = do {
     (pad, s) \<leftarrow> qmap_pad s;
     s \<leftarrow> skb_push 4 s;
     s \<leftarrow> poke_skb 0 [of_nat pad] s;
     s \<leftarrow> poke_skb 1 [mux] s;
     poke_skb 2 (be16 (of_nat (length (skb_data s) - 4))) s
   }"

definition add_qhdr_v5 :: "skb \<Rightarrow> u8 \<Rightarrow> skb option" where
  "add_qhdr_v5 s mux = do {
     let map_datalen = length (skb_data s);
     (padding, s) \<leftarrow> qmap_pad s;
     s \<leftarrow> skb_push 8 s;
     s \<leftarrow> poke_skb 0 [of_nat padding OR 0x40] s;
     s \<leftarrow> poke_skb 1 [mux] s;
     s \<leftarrow> poke_skb 2 (be16 (of_nat (map_datalen + padding))) s;
     s \<leftarrow> poke_skb 4 [0, 0, 0, 0] s;
     poke_skb 4 [push_bit 1 2] s
   }"

text \<open>\<open>add_mbim_hdr\<close> returns a null pointer (the inner \<open>None\<close>) when the headroom is too small.  The
  sequence number is left to \<open>mhi_netdev_xmit\<close>.\<close>

definition add_mbim_hdr :: "u32 \<Rightarrow> skb \<Rightarrow> u8 \<Rightarrow> skb option option" where
  "add_mbim_hdr mode s mux = do {
     let skb_len = length (skb_data s);
     let tci = (ucast mux :: u16) + (if 1 < mode then 1 else 0);
     if length (head_room s) < mbim_hdr_size then Some None
     else do {
       s \<leftarrow> skb_push mbim_hdr_size s;
       s \<leftarrow> poke_skb 0 (le32 USB_CDC_NCM_NTH16_SIGN) s;
       s \<leftarrow> poke_skb 4 (le16 12) s;
       s \<leftarrow> poke_skb 8 (le16 (of_nat (length (skb_data s)))) s;
       s \<leftarrow> poke_skb 10 (le16 12) s;
       s \<leftarrow> poke_skb 12 (take 3 (le32 USB_CDC_MBIM_NDP16_IPS_SIGN) @ [ucast tci]) s;
       s \<leftarrow> poke_skb 16 (le16 16) s;
       s \<leftarrow> poke_skb 18 (le16 0) s;
       s \<leftarrow> poke_skb 20 (le16 28) s;
       s \<leftarrow> poke_skb 22 (le16 (of_nat skb_len)) s;
       s \<leftarrow> poke_skb 24 (le16 0) s;
       s \<leftarrow> poke_skb 26 (le16 0) s;
       Some (Some s)
     }
   }"

section \<open>Interfaces\<close>

text \<open>
  The entry of \<open>mpQmapNetDev\<close> at an index, dereferenced: \<open>None\<close> outside the array or for a pointer to
  a freed device, \<open>Some None\<close> for a null pointer.
\<close>

definition vnd_at :: "mhi_netdev \<Rightarrow> nat \<Rightarrow> vnd option option" where
  "vnd_at st i =
     (if length (mpQmapNetDev st) \<le> i then None
      else case mpQmapNetDev st ! i of
        None \<Rightarrow> Some None
      | Some v \<Rightarrow> if v_live v then Some (Some v) else None)"

definition set_vnd :: "nat \<Rightarrow> vnd \<Rightarrow> mhi_netdev \<Rightarrow> mhi_netdev" where
  "set_vnd i v st = st\<lparr>mpQmapNetDev := (mpQmapNetDev st)[i := Some v]\<rparr>"

definition emit :: "net_effect \<Rightarrow> mhi_netdev \<Rightarrow> mhi_netdev" where
  "emit e st = st\<lparr>effects := effects st @ [e]\<rparr>"

text \<open>What the allocator answers, in the order it is asked; it succeeds once the list is used up.\<close>

definition alloc_skb :: "mhi_netdev \<Rightarrow> bool \<times> mhi_netdev" where
  "alloc_skb st =
     (case allocs st of [] \<Rightarrow> (True, st) | b # bs \<Rightarrow> (b, st\<lparr>allocs := bs\<rparr>))"

definition rmnet_vnd_upate_rx_stats :: "u64 \<Rightarrow> u64 \<Rightarrow> vnd \<Rightarrow> vnd" where
  "rmnet_vnd_upate_rx_stats n k v =
     v\<lparr>v_rx_packets := v_rx_packets v + n, v_rx_bytes := v_rx_bytes v + k\<rparr>"

definition rmnet_vnd_upate_tx_stats :: "u64 \<Rightarrow> u64 \<Rightarrow> vnd \<Rightarrow> vnd" where
  "rmnet_vnd_upate_tx_stats n k v =
     v\<lparr>v_tx_packets := v_tx_packets v + n, v_tx_bytes := v_tx_bytes v + k\<rparr>"

text \<open>
  Registration: a pointer to the new device, a null pointer when it cannot be allocated, and a
  pointer to the device just freed when a later step fails.
\<close>

record reg_env =
  reg_alloc :: bool
  reg_stats :: bool
  reg_gro :: bool
  reg_err :: int

definition rmnet_vnd_register_device ::
  "reg_env \<Rightarrow> bytes \<Rightarrow> u32 \<Rightarrow> u32 \<Rightarrow> u32 \<Rightarrow> nat \<Rightarrow> u8 \<Rightarrow> vnd option" where
  "rmnet_vnd_register_device env real_addr version bridge_modes mtu offset_id mux =
     (if \<not> reg_alloc env then None
      else let v = \<lparr>v_live = True, v_mtu = mtu, v_ether = True,
                    dev_addr = real_addr[5 := of_nat (offset_id + 1)],
                    v_stopped = False, v_carrier = False, v_fraglist = False, mux_id = mux,
                    v_qmap_version = version,
                    bridge_mode = (if bit bridge_modes offset_id then 1 else 0),
                    bridge_ipv4 = 0, bridge_mac = replicate 6 0,
                    v_rx_packets = 0, v_rx_bytes = 0, v_tx_packets = 0, v_tx_bytes = 0,
                    v_tx_errors = 0\<rparr> in
      if \<not> reg_stats env \<or> \<not> reg_gro env \<or> reg_err env < 0 then Some (v\<lparr>v_live := False\<rparr>)
      else Some v)"

section \<open>Bridge mode\<close>

text \<open>
  Packets leave a bridged interface with their Ethernet header; the network header follows it at
  offset 14.  An ARP request for an address of the modem's subnet other than its own is answered here
  (the arguments of \<open>arp_create\<close> are recorded), every ARP frame is consumed, and only frames of the
  host that last asked for a lease by DHCP go on.
\<close>

definition bridge_arp_reply :: "bytes \<Rightarrow> u32 \<Rightarrow> mhi_netdev \<Rightarrow> (bool \<times> mhi_netdev) option" where
  "bridge_arp_reply d bridge_ip st = do {
     ar_hrd \<leftarrow> rdbe16 d 14;
     ar_pro \<leftarrow> rdbe16 d 16;
     ar_hln \<leftarrow> rd8 d 18;
     ar_pln \<leftarrow> rd8 d 19;
     ar_op \<leftarrow> rdbe16 d 20;
     if ar_hrd = 1 \<and> ar_pro = ETH_P_IP \<and> ar_op = 1 \<and> ar_hln = 6 \<and> ar_pln = 4 then do {
       sha \<leftarrow> rdn d 22 6;
       sip \<leftarrow> rdn d 28 4;
       tip \<leftarrow> rdn d 38 4;
       let ipv4 = rev (le32 bridge_ip);
       if tip ! 0 = ipv4 ! 0 \<and> tip ! 1 = ipv4 ! 1 \<and> (tip ! 2) AND 0xFC = (ipv4 ! 2) AND 0xFC \<and>
          tip ! 3 \<noteq> ipv4 ! 3
       then do {
         let (ok, st) = alloc_skb st;
         Some (True, if ok then emit (Arp_reply sip tip sha) st else st)
       }
       else Some (True, st)
     }
     else Some (False, st)
   }"

definition bridge_mode_tx_fixup ::
  "bytes \<Rightarrow> vnd \<Rightarrow> mhi_netdev \<Rightarrow> (bool \<times> vnd \<times> mhi_netdev) option" where
  "bridge_mode_tx_fixup d v st = do {
     h_source \<leftarrow> rdn d 6 6;
     h_proto \<leftarrow> rdbe16 d 12;
     if h_proto = ETH_P_ARP then
       (if bridge_ipv4 v \<noteq> 0 then do {
          (_, st) \<leftarrow> bridge_arp_reply d (bridge_ipv4 v) st;
          Some (False, v, st)
        }
        else Some (False, v, st))
     else do {
       dhcp \<leftarrow>
         (if h_proto = ETH_P_IP then do {
            protocol \<leftarrow> rd8 d 23;
            if protocol \<noteq> 17 then Some False
            else do {
              saddr \<leftarrow> rd32 d 26;
              daddr \<leftarrow> rd32 d 30;
              Some (saddr = 0 \<and> daddr = 0xFFFFFFFF)
            }
          }
          else Some False);
       let v = (if dhcp then v\<lparr>bridge_mac := h_source\<rparr> else v);
       Some (h_source = bridge_mac v, v, st)
     }
   }"

definition bridge_mode_rx_fixup :: "vnd \<Rightarrow> bytes \<Rightarrow> bytes" where
  "bridge_mode_rx_fixup v eth = (if bridge_mode v \<noteq> 0 then bridge_mac v @ drop 6 eth else eth)"

text \<open>The Ethernet header a received packet gets on an interface that is not raw IP.\<close>

definition rx_ether_header :: "vnd \<Rightarrow> u16 \<Rightarrow> bytes" where
  "rx_ether_header v protocol =
     (if v_ether v
      then bridge_mode_rx_fixup v (dev_addr v @ default_modem_addr @ be16 protocol) else [])"

section \<open>Flow control\<close>

definition rmnet_map_send_ack :: "u8 \<Rightarrow> bytes \<Rightarrow> mhi_netdev \<Rightarrow> mhi_netdev option" where
  "rmnet_map_send_ack ty frame st = do {
     let (ok, st) = alloc_skb st;
     if \<not> ok then Some st
     else do {
       d \<leftarrow> rdn frame 0 20;
       b \<leftarrow> rd8 d 5;
       d \<leftarrow> poke 5 [(b AND 0xFC) OR (ty AND 3)] d;
       Some (emit (Queue_xmit d) st)
     }
   }"

text \<open>
  The loop over the interfaces below \<open>qmap_mode\<close> that four functions have: at each index that
  satisfies \<open>P\<close>, change the interface, unless its entry is null.
\<close>

fun for_vnds :: "(nat \<Rightarrow> bool) \<Rightarrow> (vnd \<Rightarrow> vnd) \<Rightarrow> nat \<Rightarrow> mhi_netdev \<Rightarrow> mhi_netdev option" where
  "for_vnds P f 0 st = Some st"
| "for_vnds P f (Suc n) st = do {
     st \<leftarrow> for_vnds P f n st;
     if length (mpQmapNetDev st) \<le> n then None
     else if \<not> P n then Some st
     else do {
       v \<leftarrow> vnd_at st n;
       case v of
         None \<Rightarrow> Some st
       | Some v \<Rightarrow> Some (set_vnd n (f v) st)
     }
   }"

definition netif_wake_queue :: "vnd \<Rightarrow> vnd" where
  "netif_wake_queue v = v\<lparr>v_stopped := False\<rparr>"

definition netif_stop_queue :: "vnd \<Rightarrow> vnd" where
  "netif_stop_queue v = v\<lparr>v_stopped := True\<rparr>"

definition mhi_netdev_fc_timeout :: "mhi_netdev \<Rightarrow> mhi_netdev option" where
  "mhi_netdev_fc_timeout st = do {
     let held = flow_control st;
     let st = st\<lparr>flow_control := 0, fc_pending := False, fc_armed := False\<rparr>;
     if \<not> net_enabled st then Some st
     else for_vnds (bit held) netif_wake_queue (unat (qmap_mode st)) st
   }"

definition rmnet_data_vnd_do_flow_control :: "bool \<Rightarrow> vnd \<Rightarrow> vnd" where
  "rmnet_data_vnd_do_flow_control enable v =
     (if enable then netif_wake_queue v else netif_stop_queue v)"

text \<open>The two halves of the handler: the bit and the deadline, then the queue.\<close>

definition fc_set_bit :: "nat \<Rightarrow> bool \<Rightarrow> mhi_netdev \<Rightarrow> mhi_netdev" where
  "fc_set_bit i enable st =
     st\<lparr>flow_control := (if enable then unset_bit i (flow_control st)
                         else set_bit i (flow_control st))\<rparr>"

definition fc_deadline :: "mhi_netdev \<Rightarrow> mhi_netdev" where
  "fc_deadline st =
     (if flow_control st \<noteq> 0 then
        (if \<not> fc_pending st \<and> net_enabled st then st\<lparr>fc_pending := True, fc_armed := True\<rparr> else st)
      else if fc_pending st then st\<lparr>fc_pending := False, fc_armed := False\<rparr>
      else st)"

definition rmnet_map_do_flow_control ::
  "bytes \<Rightarrow> bool \<Rightarrow> mhi_netdev \<Rightarrow> (u8 \<times> mhi_netdev) option" where
  "rmnet_map_do_flow_control frame enable st = do {
     mux \<leftarrow> rd8 frame 1;
     let i = mux - QUECTEL_QMAP_MUX_ID;
     if qmap_mode st \<le> ucast i then Some (RMNET_MAP_COMMAND_UNSUPPORTED, st)
     else do {
       vnd \<leftarrow> vnd_at st (unat i);
       case vnd of
         None \<Rightarrow> Some (RMNET_MAP_COMMAND_UNSUPPORTED, st)
       | Some v \<Rightarrow> do {
           _ \<leftarrow> rdn frame 13 7;
           let st = fc_deadline (fc_set_bit (unat i) enable st);
           Some (RMNET_MAP_COMMAND_ACK,
                 set_vnd (unat i) (rmnet_data_vnd_do_flow_control enable v) st)
         }
     }
   }"

definition count_command :: "nat \<Rightarrow> mhi_netdev \<Rightarrow> mhi_netdev" where
  "count_command k st =
     st\<lparr>rmnet_map_command_stats :=
          (rmnet_map_command_stats st)[k := rmnet_map_command_stats st ! k + 1]\<rparr>"

definition rmnet_data_map_command :: "bytes \<Rightarrow> mhi_netdev \<Rightarrow> mhi_netdev option" where
  "rmnet_data_map_command frame st = do {
     command_name \<leftarrow> rd8 frame 4;
     let st = (if unat command_name < RMNET_MAP_COMMAND_ENUM_LENGTH
               then count_command (unat command_name) st else st);
     (rc, st) \<leftarrow>
       (if command_name = RMNET_MAP_COMMAND_FLOW_ENABLE then rmnet_map_do_flow_control frame True st
        else if command_name = RMNET_MAP_COMMAND_FLOW_DISABLE
        then rmnet_map_do_flow_control frame False st
        else Some (RMNET_MAP_COMMAND_UNSUPPORTED, count_command RMNET_MAP_COMMAND_UNKNOWN st));
     if rc = RMNET_MAP_COMMAND_ACK then rmnet_map_send_ack rc frame st else Some st
   }"

section \<open>Delivery\<close>

definition qmap_rx_deliver :: "rx_skb \<Rightarrow> mhi_netdev \<Rightarrow> mhi_netdev option" where
  "qmap_rx_deliver s st =
     (if rx_gro st then do {
        v \<leftarrow> vnd_at st (rx_dev s);
        case v of
          None \<Rightarrow> None
        | Some v \<Rightarrow>
            Some (emit (Gro_receive (if rx_csum_trust st then s\<lparr>rx_summed := True\<rparr> else s))
                    (set_vnd (rx_dev s) (v\<lparr>v_fraglist := rx_gro_fraglist st\<rparr>) st))
      }
      else Some (emit (Netif_receive s) st))"

fun deliver_chain :: "rx_skb list \<Rightarrow> mhi_netdev \<Rightarrow> mhi_netdev option" where
  "deliver_chain [] st = Some st"
| "deliver_chain (s # chain) st = do { st \<leftarrow> qmap_rx_deliver s st; deliver_chain chain st }"

text \<open>The protocol of a packet by the version field of its first byte.\<close>

definition ip_protocol :: "u8 \<Rightarrow> u16 option" where
  "ip_protocol b =
     (if b AND 0xf0 = 0x40 then Some ETH_P_IP
      else if b AND 0xf0 = 0x60 then Some ETH_P_IPV6 else None)"

section \<open>Receiving QMAP\<close>

datatype rx_next = Error_pkt | Skip_pkt nat

definition rx_packet :: "nat \<Rightarrow> vnd \<Rightarrow> u16 \<Rightarrow> bytes \<Rightarrow> rx_skb" where
  "rx_packet i v protocol payload =
     \<lparr>rx_dev = i, rx_protocol = protocol, rx_eth = rx_ether_header v protocol, rx_data = payload,
      rx_summed = False\<rparr>"

text \<open>
  One turn of the loop of \<open>rmnet_qmi_rx_handler\<close>: stop, or pull so many bytes and go on.  The signed
  comparisons of the source are made on unsigned operands, as C's conversions have it.  The first
  definition is the part after the interface is found.
\<close>

definition qmi_rx_to ::
  "bytes \<Rightarrow> u8 \<Rightarrow> nat \<Rightarrow> nat \<Rightarrow> u32 \<Rightarrow> nat \<Rightarrow> vnd \<Rightarrow> rx_skb list \<Rightarrow> mhi_netdev \<Rightarrow>
     (rx_next \<times> rx_skb list \<times> mhi_netdev) option" where
  "qmi_rx_to d b0 pkt_len hdr_size skb_len i v chain st =
     (if v_mtu v < skb_len then Some (Error_pkt, chain, st)
      else if length d < pkt_len + hdr_size then Some (Error_pkt, chain, st)
      else if bit b0 7 then do {
        st \<leftarrow> rmnet_data_map_command d st;
        Some (Skip_pkt (pkt_len + hdr_size), chain, st)
      }
      else do {
        b \<leftarrow> rd8 d hdr_size;
        case ip_protocol b of
          None \<Rightarrow> Some (Error_pkt, chain, st)
        | Some protocol \<Rightarrow> do {
            let (ok, st) = alloc_skb st;
            if \<not> ok then
              Some (Error_pkt, chain, st\<lparr>alloc_failed := alloc_failed st + 1\<rparr>)
            else do {
              payload \<leftarrow> rdn d hdr_size (unat skb_len);
              Some (Skip_pkt (pkt_len + hdr_size),
                    chain @ [rx_packet i v protocol payload],
                    set_vnd i (rmnet_vnd_upate_rx_stats 1 (ucast skb_len) v) st)
            }
          }
      })"

definition qmi_rx_pkt ::
  "bytes \<Rightarrow> rx_skb list \<Rightarrow> mhi_netdev \<Rightarrow> (rx_next \<times> rx_skb list \<times> mhi_netdev) option" where
  "qmi_rx_pkt d chain st = do {
     b0 \<leftarrow> rd8 d 0;
     mux \<leftarrow> rd8 d 1;
     len \<leftarrow> rdbe16 d 2;
     let pkt_len = unat len;
     let hdr_size = (if bit b0 6 then 8 else 4);
     let skb_len = (ucast len :: u32) - ucast (b0 AND 0x3F) -
                     (if qmap_version st = 9 then dl_minimum_padding st else 0);
     let i = (ucast mux :: u32) - ucast QUECTEL_QMAP_MUX_ID;
     if qmap_mode st \<le> i then Some (Error_pkt, chain, st)
     else do {
       vnd \<leftarrow> vnd_at st (unat i);
       case vnd of
         None \<Rightarrow> Some (Skip_pkt (pkt_len + hdr_size), chain, st)
       | Some v \<Rightarrow> qmi_rx_to d b0 pkt_len hdr_size skb_len (unat i) v chain st
     }
   }"

partial_function (option) qmi_rx_loop ::
  "bytes \<Rightarrow> rx_skb list \<Rightarrow> mhi_netdev \<Rightarrow> (rx_skb list \<times> mhi_netdev) option option" where
  "qmi_rx_loop d chain st =
     (if \<not> 4 < length d then Some (Some (chain, st))
      else case qmi_rx_pkt d chain st of
        None \<Rightarrow> Some None
      | Some (next, chain, st) \<Rightarrow>
          (case next of
             Error_pkt \<Rightarrow> Some (Some (chain, st))
           | Skip_pkt n \<Rightarrow> qmi_rx_loop (skb_pull n d) chain st))"

definition rmnet_qmi_rx_handler :: "bytes \<Rightarrow> mhi_netdev \<Rightarrow> mhi_netdev option option" where
  "rmnet_qmi_rx_handler d st =
     map_option (\<lambda>r. do { (chain, st) \<leftarrow> r; deliver_chain chain st }) (qmi_rx_loop d [] st)"

declare qmi_rx_loop.simps [code]

section \<open>Receiving MBIM\<close>

datatype ndp_next = Ndp_error | Ndp_done

text \<open>The datagrams of one NDP, from the pointer entry at \<open>pos\<close> on.\<close>

fun mbim_rx_frames ::
  "bytes \<Rightarrow> nat \<Rightarrow> nat \<Rightarrow> nat \<Rightarrow> rx_skb list \<Rightarrow> mhi_netdev \<Rightarrow>
     (ndp_next \<times> rx_skb list \<times> mhi_netdev) option" where
  "mbim_rx_frames d i 0 pos chain st = Some (Ndp_done, chain, st)"
| "mbim_rx_frames d i (Suc n) pos chain st = do {
     offset \<leftarrow> rd16 d pos;
     skb_len \<leftarrow> rd16 d (pos + 2);
     if offset = 0 \<or> skb_len = 0 then Some (Ndp_done, chain, st)
     else if length d < unat offset + unat skb_len \<or> rx_max st < ucast skb_len
     then Some (Ndp_error, chain, st)
     else do {
       let (ok, st) = alloc_skb st;
       if \<not> ok then Some (Ndp_error, chain, st\<lparr>alloc_failed := alloc_failed st + 1\<rparr>)
       else do {
         b \<leftarrow> rd8 d (unat offset);
         case ip_protocol b of
           None \<Rightarrow> Some (Ndp_error, chain, st)
         | Some protocol \<Rightarrow> do {
             payload \<leftarrow> rdn d (unat offset) (unat skb_len);
             vnd \<leftarrow> vnd_at st i;
             v \<leftarrow> vnd;
             mbim_rx_frames d i n (pos + 4) (chain @ [rx_packet i v protocol payload])
               (set_vnd i (rmnet_vnd_upate_rx_stats 1 (ucast skb_len) v) st)
           }
       }
     }
   }"

definition mbim_tci :: "u32 \<Rightarrow> u16 option" where
  "mbim_tci sign =
     (let c3 = (ucast (drop_bit 24 sign) :: u16) in
      if sign AND 0x00ffffff = USB_CDC_MBIM_NDP16_IPS_SIGN then Some c3
      else if sign AND 0x00ffffff = USB_CDC_MBIM_NDP16_DSS_SIGN then Some (c3 + 256)
      else None)"

text \<open>One turn of the loop over the NDPs: an error, or the offset of the next NDP.\<close>

definition mbim_rx_ndp ::
  "bytes \<Rightarrow> nat \<Rightarrow> rx_skb list \<Rightarrow> mhi_netdev \<Rightarrow> (nat option \<times> rx_skb list \<times> mhi_netdev) option" where
  "mbim_rx_ndp d ndpoffset chain st =
     (if length d < ndpoffset + 8 then Some (None, chain, st)
      else do {
        wLength \<leftarrow> rd16 d (ndpoffset + 4);
        if wLength < 0x10 then Some (None, chain, st)
        else do {
          let nframes = (unat wLength - 8) div 4;
          if length d < 8 + nframes * 4 then Some (None, chain, st)
          else do {
            sign \<leftarrow> rd32 d ndpoffset;
            case mbim_tci sign of
              None \<Rightarrow> Some (None, chain, st)
            | Some tci \<Rightarrow>
                if qmap_mode st = 1 \<and> ucast tci \<noteq> mbim_mux_id st \<or>
                   1 < qmap_mode st \<and> qmap_mode st < ucast tci - mbim_mux_id st
                then Some (None, chain, st)
                else do {
                  let i = (if qmap_mode st = 1 then 0 else unat (ucast tci - 1 - mbim_mux_id st));
                  if length (mpQmapNetDev st) \<le> i then None
                  else do {
                    (next, chain, st) \<leftarrow> mbim_rx_frames d i nframes (ndpoffset + 8) chain st;
                    if next = Ndp_error then Some (None, chain, st)
                    else do {
                      wNextNdpIndex \<leftarrow> rd16 d (ndpoffset + 6);
                      Some (Some (unat wNextNdpIndex), chain, st)
                    }
                  }
                }
          }
        }
      })"

partial_function (option) mbim_rx_loop ::
  "bytes \<Rightarrow> nat \<Rightarrow> rx_skb list \<Rightarrow> mhi_netdev \<Rightarrow> (rx_skb list \<times> mhi_netdev) option option" where
  "mbim_rx_loop d ndpoffset chain st =
     (if \<not> 0 < ndpoffset then Some (Some (chain, st))
      else case mbim_rx_ndp d ndpoffset chain st of
        None \<Rightarrow> Some None
      | Some (next, chain, st) \<Rightarrow>
          (case next of
             None \<Rightarrow> Some (Some (chain, st))
           | Some ndpoffset \<Rightarrow> mbim_rx_loop d ndpoffset chain st))"

declare mbim_rx_loop.simps [code]

text \<open>The checks on the block's header: the offset of its first NDP, or the end of the handler.\<close>

definition mbim_rx_header :: "bytes \<Rightarrow> mhi_netdev \<Rightarrow> (nat option \<times> mhi_netdev) option" where
  "mbim_rx_header d st =
     (if length d < 20 then Some (None, st)
      else do {
        dwSignature \<leftarrow> rd32 d 0;
        if dwSignature \<noteq> USB_CDC_NCM_NTH16_SIGN then Some (None, st)
        else do {
          wBlockLength \<leftarrow> rd16 d 8;
          if rx_max st < ucast wBlockLength then Some (None, st)
          else do {
            wSequence \<leftarrow> rd16 d 6;
            wNdpIndex \<leftarrow> rd16 d 10;
            Some (Some (unat wNdpIndex), st\<lparr>rx_seq := wSequence + 1\<rparr>)
          }
        }
      })"

definition rmnet_mbim_rx_handler :: "bytes \<Rightarrow> mhi_netdev \<Rightarrow> mhi_netdev option option" where
  "rmnet_mbim_rx_handler d st =
     (case mbim_rx_header d st of
        None \<Rightarrow> Some None
      | Some (None, st) \<Rightarrow> Some (Some st)
      | Some (Some ndpoffset, st) \<Rightarrow>
          map_option (\<lambda>r. do { (chain, st) \<leftarrow> r; deliver_chain chain st })
            (mbim_rx_loop d ndpoffset [] st))"

section \<open>The receive hook\<close>

datatype rx_result = RX_HANDLER_CONSUMED | RX_HANDLER_PASS

definition rmnet_rx_handler ::
  "bytes option \<Rightarrow> bool \<Rightarrow> u16 \<Rightarrow> bool \<Rightarrow> mhi_netdev \<Rightarrow> (rx_result \<times> mhi_netdev) option option" where
  "rmnet_rx_handler pskb loopback protocol cloned st =
     (case pskb of
        None \<Rightarrow> Some (Some (RX_HANDLER_CONSUMED, st))
      | Some d \<Rightarrow>
          if loopback then Some (Some (RX_HANDLER_PASS, st))
          else if protocol \<noteq> ETH_P_MAP then Some (Some (RX_HANDLER_PASS, st))
          else map_option (map_option (\<lambda>st.
                 (RX_HANDLER_CONSUMED,
                  if \<not> cloned \<and> rx_recycled st < 128
                  then st\<lparr>rx_recycled := rx_recycled st + 1\<rparr> else st)))
               (if net_type st = MHI_NET_MBIM then rmnet_mbim_rx_handler d st
                else rmnet_qmi_rx_handler d st))"

section \<open>Transmitting\<close>

datatype tx_result = NETDEV_TX_OK | NETDEV_TX_BUSY | Xmit_result int

definition rmnet_vnd_frame :: "mhi_netdev \<Rightarrow> vnd \<Rightarrow> skb \<Rightarrow> skb option option" where
  "rmnet_vnd_frame st v s =
     (if net_type st = MHI_NET_MBIM then add_mbim_hdr (qmap_mode st) s (mux_id v)
      else if v_qmap_version v = 5 then map_option Some (add_qhdr s (mux_id v))
      else if v_qmap_version v = 9 then map_option Some (add_qhdr_v5 s (mux_id v))
      else Some None)"

text \<open>\<open>err\<close> is what \<open>dev_queue_xmit\<close> returns for the frame.\<close>

definition rmnet_vnd_tx_agg :: "int \<Rightarrow> nat \<Rightarrow> bytes \<Rightarrow> nat \<Rightarrow> vnd \<Rightarrow> mhi_netdev \<Rightarrow> mhi_netdev" where
  "rmnet_vnd_tx_agg err skb_len frame i v st =
     set_vnd i (if err = 0 then rmnet_vnd_upate_tx_stats 1 (of_nat skb_len) v
                else v\<lparr>v_tx_errors := v_tx_errors v + 1\<rparr>)
       (emit (Queue_xmit frame) st)"

definition rmnet_vnd_start_xmit ::
  "int \<Rightarrow> skb \<Rightarrow> nat \<Rightarrow> mhi_netdev \<Rightarrow> (tx_result \<times> mhi_netdev) option" where
  "rmnet_vnd_start_xmit err s i st = do {
     vnd \<leftarrow> vnd_at st i;
     v \<leftarrow> vnd;
     let skb_len = length (skb_data s);
     if ndev_stopped st then Some (NETDEV_TX_BUSY, set_vnd i (netif_stop_queue v) st)
     else do {
       (pass, v, st) \<leftarrow>
         (if v_ether v \<and> bridge_mode v \<noteq> 0 then bridge_mode_tx_fixup (skb_data s) v st
          else Some (True, v, st));
       let st = set_vnd i v st;
       if \<not> pass then Some (NETDEV_TX_OK, st)
       else if v_ether v \<and> length (skb_data s) < 14 then Some (NETDEV_TX_OK, st)
       else do {
         let s = (if v_ether v
                  then s\<lparr>head_room := head_room s @ take 14 (skb_data s),
                         skb_data := drop 14 (skb_data s)\<rparr> else s);
         framed \<leftarrow> rmnet_vnd_frame st v s;
         case framed of
           None \<Rightarrow> Some (NETDEV_TX_OK, st)
         | Some s \<Rightarrow> Some (Xmit_result err, rmnet_vnd_tx_agg err skb_len (skb_data s) i v st)
       }
     }
   }"

text \<open>
  The parent's transmit function: \<open>free\<close> is the number of free descriptors of the uplink ring, \<open>res\<close>
  what \<open>mhi_queue_transfer\<close> returns.
\<close>

definition mhi_netdev_xmit :: "nat \<Rightarrow> int \<Rightarrow> bytes \<Rightarrow> u16 \<Rightarrow> mhi_netdev \<Rightarrow> mhi_netdev option" where
  "mhi_netdev_xmit free res d protocol st =
     (if (net_type st = MHI_NET_RMNET \<or> net_type st = MHI_NET_MBIM) \<and> protocol \<noteq> ETH_P_MAP
      then Some st
      else do {
        (d, st) \<leftarrow>
          (if net_type st = MHI_NET_MBIM then do {
             d \<leftarrow> poke 6 (le16 (tx_seq st)) d;
             Some (d, st\<lparr>tx_seq := tx_seq st + 1\<rparr>)
           }
           else Some (d, st));
        st \<leftarrow>
          (if free < 16 then do {
             st \<leftarrow> for_vnds (\<lambda>_. True) netif_stop_queue (unat (qmap_mode st)) st;
             Some (st\<lparr>ndev_stopped := True\<rparr>)
           }
           else Some st);
        Some (if res = 0 then emit (Mhi_queue d) st
              else st\<lparr>ndev_tx_errors := ndev_tx_errors st + 1\<rparr>)
      })"

definition mhi_netdev_upate_tx_stats :: "u64 \<Rightarrow> u64 \<Rightarrow> mhi_netdev \<Rightarrow> mhi_netdev" where
  "mhi_netdev_upate_tx_stats n k st =
     st\<lparr>ndev_tx_packets := ndev_tx_packets st + n, ndev_tx_bytes := ndev_tx_bytes st + k\<rparr>"

text \<open>The completion of an uplink transfer of so many packets and bytes, which belongs to this device
  (\<open>bound\<close>) or not.\<close>

definition mhi_netdev_xfer_ul_cb ::
  "bool \<Rightarrow> int \<Rightarrow> u64 \<Rightarrow> u64 \<Rightarrow> nat \<Rightarrow> mhi_netdev \<Rightarrow> mhi_netdev option" where
  "mhi_netdev_xfer_ul_cb bound status packets len free st =
     (if \<not> bound then Some st
      else if status \<noteq> 0 then Some st
      else do {
        let st = mhi_netdev_upate_tx_stats packets len st;
        if ndev_stopped st \<and> net_enabled st \<and> 32 < free
        then for_vnds (\<lambda>i. \<not> bit (flow_control st) i) netif_wake_queue (unat (qmap_mode st))
               (st\<lparr>ndev_stopped := False\<rparr>)
        else Some st
      })"

section \<open>Settings, reset and removal\<close>

definition rmnet_vnd_change_mtu :: "u32 \<Rightarrow> int \<Rightarrow> vnd \<Rightarrow> (int \<times> vnd)" where
  "rmnet_vnd_change_mtu max_mtu new_mtu v =
     (if new_mtu < 0 then (-22, v)
      else if uint max_mtu < new_mtu then (-22, v)
      else (0, v\<lparr>v_mtu := of_int new_mtu\<rparr>))"

definition qmap_setting_store :: "u32 \<Rightarrow> u32 \<Rightarrow> mhi_netdev \<Rightarrow> int \<times> mhi_netdev" where
  "qmap_setting_store sz dl_padding st =
     (if sz \<noteq> 32 then (-95, st) else (0, st\<lparr>dl_minimum_padding := dl_padding\<rparr>))"

definition link_offset :: "u32 \<Rightarrow> u32 \<Rightarrow> nat" where
  "link_offset mode new = (if 1 < mode then unat ((new AND 0xF) - 1) else 0)"

definition link_state_next :: "u32 \<Rightarrow> u32 \<Rightarrow> u32 \<Rightarrow> u32" where
  "link_state_next mode new old =
     (if 1 < mode then
        (if 0 < new \<and> new \<le> mode then old OR push_bit (link_offset mode new) 1
         else if 0x80 < new \<and> new \<le> 0x80 + mode
         then old AND NOT (push_bit (link_offset mode new) 1)
         else old)
      else if new \<noteq> 0 then 1 else 0)"

definition link_state_store :: "u32 \<Rightarrow> mhi_netdev \<Rightarrow> mhi_netdev option" where
  "link_state_store new st = do {
     let i = link_offset (qmap_mode st) new;
     let link = link_state_next (qmap_mode st) new (link_state st);
     if link_state st = link then Some st
     else do {
       v \<leftarrow> vnd_at st i;
       let st = st\<lparr>link_state := link, ndev_carrier := link \<noteq> 0\<rparr>;
       case v of
         None \<Rightarrow> Some st
       | Some v \<Rightarrow> Some (set_vnd i (v\<lparr>v_carrier := bit link i\<rparr>) st)
     }
   }"

text \<open>The reset; \<open>ret\<close> is what enabling the interface again returns.\<close>

definition mhi_netdev_debugfs_trigger_reset ::
  "int \<Rightarrow> mhi_netdev \<Rightarrow> (int \<times> mhi_netdev) option" where
  "mhi_netdev_debugfs_trigger_reset ret st = do {
     let st = st\<lparr>net_enabled := False\<rparr>;
     let st = st\<lparr>fc_armed := False, flow_control := 0, fc_pending := False, rx_recycled := 0\<rparr>;
     if ret \<noteq> 0 then Some (ret, st)
     else do {
       let st = st\<lparr>net_enabled := True, ndev_stopped := False\<rparr>;
       st \<leftarrow> for_vnds (\<lambda>_. True) netif_wake_queue (unat (qmap_mode st)) st;
       Some (0, st)
     }
   }"

definition mhi_netdev_remove :: "mhi_netdev \<Rightarrow> mhi_netdev option" where
  "mhi_netdev_remove st =
     (let n = unat (qmap_mode st) in
      if length (mpQmapNetDev st) < n then None
      else Some (st\<lparr>net_enabled := False, fc_armed := False,
                    mpQmapNetDev := replicate n None @ drop n (mpQmapNetDev st), rx_recycled := 0\<rparr>))"

end
