(* ===== verification/QmapProps.thy ===== *)
theory QmapProps
  imports Qmap
begin

text \<open>
  What the data path guarantees: frames built by the transmit side come out of the receive side as
  the packets they were made from; the receive loop ends unless an interface is missing; a transmit
  queue that is stopped is either under the parent's back-pressure or held by the modem with the
  deadline running, and the deadline opens it.
\<close>

section \<open>Framing\<close>

lemma length_be16 [simp]: "length (be16 w) = 2"
  by (simp add: be16_def)

lemma rdbe16_be16 [codec]: "rdbe16 (xs @ be16 w @ ys) (length xs) = Some w"
  by (simp add: rdbe16_def be16_def nth_append)

lemma poke_head: "length xs = length ys \<Longrightarrow> poke 0 xs (ys @ zs) = Some (xs @ zs)"
  by (simp add: poke_def)

text \<open>The pad of a packet, as the bytes the padding takes from the tail.\<close>

lemma qmap_pad_result:
  "\<exists>fill s'. qmap_pad s = Some (length fill, s') \<and> skb_data s' = skb_data s @ fill \<and>
     head_room s' = head_room s \<and> length fill < 4"
proof (cases "length (skb_data s) mod 4 = 0 \<or> length (tail_room s) < 4 - length (skb_data s) mod 4")
  case True
  then show ?thesis by (intro exI [of _ "[]"] exI [of _ s]) (auto simp: qmap_pad_def Let_def)
next
  case False
  let ?n = "4 - length (skb_data s) mod 4"
  show ?thesis
    using False
    by (intro exI [of _ "take ?n (tail_room s)"]) (auto simp: qmap_pad_def skb_put_def Let_def)
qed

lemma skb_push_result:
  assumes "n \<le> length (head_room s)"
  shows "\<exists>hdr s'. skb_push n s = Some s' \<and> skb_data s' = hdr @ skb_data s \<and> length hdr = n"
  using assms by (simp add: skb_push_def Let_def)

lemma poke_skb_data:
  "poke_skb i bs s = Some s' \<longleftrightarrow> (\<exists>d. poke i bs (skb_data s) = Some d \<and> s' = s\<lparr>skb_data := d\<rparr>)"
  by (auto simp: poke_skb_def bind_eq_Some_conv)

definition qhdr :: "nat \<Rightarrow> u8 \<Rightarrow> nat \<Rightarrow> bytes" where
  "qhdr pad mux len = [of_nat pad, mux] @ be16 (of_nat len)"

definition qhdr_v5 :: "nat \<Rightarrow> u8 \<Rightarrow> nat \<Rightarrow> bytes" where
  "qhdr_v5 pad mux len = [of_nat pad OR 0x40, mux] @ be16 (of_nat len) @ [4, 0, 0, 0]"

lemma list4: "length xs = 4 \<Longrightarrow> \<exists>a b c d. xs = [a, b, c, d]"
  by (auto simp: eval_nat_numeral length_Suc_conv)

lemma list8: "length xs = 8 \<Longrightarrow> \<exists>a b c d e f g h. xs = [a, b, c, d, e, f, g, h]"
  by (auto simp: eval_nat_numeral length_Suc_conv)

lemma add_qhdr_result:
  assumes "4 \<le> length (head_room s)"
  shows "\<exists>fill s'. add_qhdr s mux = Some s' \<and> length fill < 4 \<and>
           skb_data s' = qhdr (length fill) mux (length (skb_data s) + length fill) @
             skb_data s @ fill"
proof -
  from qmap_pad_result [of s] obtain fill s1
    where pad: "qmap_pad s = Some (length fill, s1)" "skb_data s1 = skb_data s @ fill"
      "head_room s1 = head_room s" "length fill < 4" by blast
  from skb_push_result [of 4 s1] assms pad(3) obtain hdr s2
    where push: "skb_push 4 s1 = Some s2" "skb_data s2 = hdr @ skb_data s1" "length hdr = 4"
    by auto
  from list4 [OF push(3)] obtain a b c e where hdr: "hdr = [a, b, c, e]" by blast
  show ?thesis
    using pad push(1,2)
    by (intro exI [of _ fill])
       (simp add: add_qhdr_def hdr poke_skb_def poke_def qhdr_def be16_def)
qed

lemma add_qhdr_v5_result:
  assumes "8 \<le> length (head_room s)"
  shows "\<exists>fill s'. add_qhdr_v5 s mux = Some s' \<and> length fill < 4 \<and>
           skb_data s' = qhdr_v5 (length fill) mux (length (skb_data s) + length fill) @
             skb_data s @ fill"
proof -
  from qmap_pad_result [of s] obtain fill s1
    where pad: "qmap_pad s = Some (length fill, s1)" "skb_data s1 = skb_data s @ fill"
      "head_room s1 = head_room s" "length fill < 4" by blast
  from skb_push_result [of 8 s1] assms pad(3) obtain hdr s2
    where push: "skb_push 8 s1 = Some s2" "skb_data s2 = hdr @ skb_data s1" "length hdr = 8"
    by auto
  from list8 [OF push(3)] obtain a b c e f g h k where hdr: "hdr = [a, b, c, e, f, g, h, k]" by blast
  show ?thesis
    using pad push(1,2)
    by (intro exI [of _ fill])
       (simp add: add_qhdr_v5_def hdr poke_skb_def poke_def qhdr_v5_def be16_def Let_def)
qed

lemma header_reads:
  assumes "hdr = qhdr k mux len \<or> hdr = qhdr_v5 k mux len" and "k < 4"
  obtains b0 where "\<And>rest. rd8 (hdr @ rest) 0 = Some b0" "\<And>rest. rd8 (hdr @ rest) 1 = Some mux"
    "\<And>rest. rdbe16 (hdr @ rest) 2 = Some (of_nat len)"
    "length hdr = (if bit b0 6 then 8 else 4)" "\<not> bit b0 7" "b0 AND 0x3F = of_nat k"
proof -
  from assms(2) have k: "k = 0 \<or> k = 1 \<or> k = 2 \<or> k = 3" by auto
  from assms(1) show ?thesis
  proof
    assume h: "hdr = qhdr k mux len"
    show ?thesis
      by (rule that [of "of_nat k"])
         (use k in \<open>auto simp: h qhdr_def rd8_def rdbe16_def be16_def\<close>)
  next
    assume h: "hdr = qhdr_v5 k mux len"
    show ?thesis
      by (rule that [of "of_nat k OR 0x40"])
         (use k in \<open>auto simp: h qhdr_v5_def rd8_def rdbe16_def be16_def\<close>)
  qed
qed

section \<open>Receiving one frame\<close>

lemma vnd_at_set [simp]:
  "vnd_at (set_vnd i v st) j =
     (if j = i \<and> i < length (mpQmapNetDev st)
      then (if v_live v then Some (Some v) else None) else vnd_at st j)"
  by (simp add: vnd_at_def set_vnd_def nth_list_update)

lemma vnd_at_bound: "vnd_at st i = Some x \<Longrightarrow> i < length (mpQmapNetDev st)"
  by (auto simp: vnd_at_def split: if_splits)

lemma vnd_at_live: "vnd_at st i = Some (Some v) \<Longrightarrow> v_live v"
  by (auto simp: vnd_at_def split: if_splits option.splits)

definition mux_of :: "nat \<Rightarrow> u8" where
  "mux_of i = QUECTEL_QMAP_MUX_ID + of_nat i"

lemma mux_of_index:
  "i < 8 \<Longrightarrow> unat ((ucast (mux_of i) :: u32) - ucast QUECTEL_QMAP_MUX_ID) = i"
proof -
  assume "i < 8"
  then have "i = 0 \<or> i = 1 \<or> i = 2 \<or> i = 3 \<or> i = 4 \<or> i = 5 \<or> i = 6 \<or> i = 7" by auto
  then show ?thesis by (auto simp: mux_of_def QUECTEL_QMAP_MUX_ID_def)
qed

text \<open>No padding is taken off beyond what a frame's own header says.\<close>

definition plain_padding :: "mhi_netdev \<Rightarrow> bool" where
  "plain_padding st \<longleftrightarrow> qmap_version st \<noteq> 9 \<or> dl_minimum_padding st = 0"

lemma payload_length:
  assumes "n + k < 65536" and "k < 4"
  shows "unat ((ucast (of_nat (n + k) :: u16) :: u32) - ucast (of_nat k :: u8)) = n"
proof -
  have a: "unat (ucast (of_nat (n + k) :: u16) :: u32) = n + k"
    using assms(1) by (simp add: unsigned_ucast_eq unat_of_nat16 take_bit_nat_eq_self del: of_nat_add)
  have b: "unat (ucast (of_nat k :: u8) :: u32) = k"
    using assms(2) by (simp add: unsigned_ucast_eq unat_of_nat take_bit_nat_eq_self)
  show ?thesis
    using a b by (subst unat_sub) (simp_all add: word_le_nat_alt del: of_nat_add)
qed

lemma qmi_rx_frame:
  assumes hdr: "hdr = qhdr (length fill) (mux_of i) (length p + length fill) \<or>
                hdr = qhdr_v5 (length fill) (mux_of i) (length p + length fill)"
    and "length fill < 4" and "p \<noteq> []" and "ip_protocol (hd p) = Some pr"
    and "length p + length fill < 65536" and "i < 8" and "i < unat (qmap_mode st)"
    and "vnd_at st i = Some (Some v)" and "length p \<le> unat (v_mtu v)"
    and "plain_padding st" and "allocs st = []"
  shows "qmi_rx_pkt (hdr @ p @ fill @ rest) chain st =
           Some (Skip_pkt (length (hdr @ p @ fill)), chain @ [rx_packet i v pr p],
             set_vnd i (rmnet_vnd_upate_rx_stats 1 (of_nat (length p)) v) st)"
proof -
  let ?len = "of_nat (length p + length fill) :: u16"
  obtain b0 where b0: "\<And>r. rd8 (hdr @ r) 0 = Some b0" "\<And>r. rd8 (hdr @ r) 1 = Some (mux_of i)"
    "\<And>r. rdbe16 (hdr @ r) 2 = Some ?len" "length hdr = (if bit b0 6 then 8 else 4)" "\<not> bit b0 7"
    "b0 AND 0x3F = of_nat (length fill)"
    using header_reads [OF hdr assms(2)] by metis
  let ?n = "(ucast ?len :: u32) - ucast (b0 AND 0x3F)"
  have n: "unat ?n = length p"
    unfolding b0(6) by (rule payload_length [OF assms(5,2)])
  have mtu: "\<not> v_mtu v < ?n" using assms(9) n by (simp add: word_less_nat_alt)
  have idx: "unat ((ucast (mux_of i) :: u32) - ucast QUECTEL_QMAP_MUX_ID) = i"
    by (rule mux_of_index [OF assms(6)])
  have mode: "\<not> qmap_mode st \<le> (ucast (mux_of i) :: u32) - ucast QUECTEL_QMAP_MUX_ID"
    using assms(7) idx by (simp add: word_le_nat_alt)
  have len: "unat ?len = length p + length fill" using assms(5) by (simp add: unat_of_nat16 del: of_nat_add)
  have first: "rd8 (hdr @ p @ fill @ rest) (length hdr) = Some (hd p)"
    using rd8_append [of hdr "p @ fill @ rest" 0] assms(3) by (cases p) simp_all
  have body: "rdn (hdr @ p @ fill @ rest) (length hdr) (length p) = Some p"
    using rdn_append [of hdr "p @ fill @ rest" 0] rdn_prefix [of p "fill @ rest"] by simp
  have c: "(ucast ?n :: u64) = of_nat (length p)"
    using n by (metis of_nat_unat)
  have pad: "?n - (if qmap_version st = 9 then dl_minimum_padding st else 0) = ?n"
    using assms(10) by (auto simp: plain_padding_def)
  show ?thesis
    unfolding qmi_rx_pkt_def qmi_rx_to_def
    by (simp only: b0(1-3) Option.bind.simps Let_def pad mode if_False idx assms(8) option.case
        mtu len b0(4) [symmetric] b0(5) first assms(4) alloc_skb_def assms(11) list.case prod.case n
        body c if_True not_True_eq_False length_append)
       (simp add: add.commute add.left_commute)
qed

section \<open>Receiving a block\<close>

text \<open>The states of the receive loop differ in the counters of the interfaces only.\<close>

definition uncounted :: "vnd \<Rightarrow> vnd" where
  "uncounted v = v\<lparr>v_rx_packets := 0, v_rx_bytes := 0\<rparr>"

definition counted_since :: "mhi_netdev \<Rightarrow> mhi_netdev \<Rightarrow> bool" where
  "counted_since st0 st \<longleftrightarrow>
     (\<exists>vs. st = st0\<lparr>mpQmapNetDev := vs\<rparr> \<and>
        map (map_option uncounted) vs = map (map_option uncounted) (mpQmapNetDev st0))"

lemma counted_refl: "counted_since st st"
  unfolding counted_since_def by (intro exI [of _ "mpQmapNetDev st"]) simp

lemma counted_fields:
  assumes "counted_since st0 st"
  shows "qmap_mode st = qmap_mode st0" "qmap_version st = qmap_version st0"
    "dl_minimum_padding st = dl_minimum_padding st0" "allocs st = allocs st0"
    "effects st = effects st0" "rx_gro st = rx_gro st0" "rx_csum_trust st = rx_csum_trust st0"
  using assms by (auto simp: counted_since_def)

lemma counted_vnd:
  assumes "counted_since st0 st" and "vnd_at st0 i = Some (Some v)"
  obtains v' where "vnd_at st i = Some (Some v')" "uncounted v' = uncounted v"
proof -
  from assms(1) obtain vs where vs: "st = st0\<lparr>mpQmapNetDev := vs\<rparr>"
    "map (map_option uncounted) vs = map (map_option uncounted) (mpQmapNetDev st0)"
    by (auto simp: counted_since_def)
  from assms(2) have i: "i < length (mpQmapNetDev st0)" "mpQmapNetDev st0 ! i = Some v" "v_live v"
    by (auto simp: vnd_at_def split: if_splits option.splits)
  have len: "length vs = length (mpQmapNetDev st0)" using vs(2) by (metis length_map)
  have "map_option uncounted (vs ! i) = map_option uncounted (mpQmapNetDev st0 ! i)"
    using vs(2) i(1) len by (metis nth_map)
  then obtain v' where v': "vs ! i = Some v'" "uncounted v' = uncounted v"
    using i(2) by auto
  then have "v_live v'" using i(3) by (metis uncounted_def vnd.select_convs(1) vnd.surjective
      vnd.update_convs(13,14))
  then show ?thesis
    using that [of v'] v' vs(1) len i(1) by (simp add: vnd_at_def)
qed

lemma uncounted_eq:
  assumes "uncounted v' = uncounted v"
  shows "v_mtu v' = v_mtu v" and "rx_packet i v' pr p = rx_packet i v pr p"
proof -
  have "f (uncounted v') = f (uncounted v)" for f :: "vnd \<Rightarrow> 'z" using assms by simp
  note e = this [of v_mtu] this [of v_ether] this [of dev_addr] this [of bridge_mode]
    this [of bridge_mac]
  then show "v_mtu v' = v_mtu v" by (simp add: uncounted_def)
  show "rx_packet i v' pr p = rx_packet i v pr p"
    using e by (simp add: uncounted_def rx_packet_def rx_ether_header_def bridge_mode_rx_fixup_def)
qed

lemma counted_step:
  assumes "counted_since st0 st" and "vnd_at st i = Some (Some v)"
  shows "counted_since st0 (set_vnd i (rmnet_vnd_upate_rx_stats n k v) st)"
proof -
  from assms(1) obtain vs where vs: "st = st0\<lparr>mpQmapNetDev := vs\<rparr>"
    "map (map_option uncounted) vs = map (map_option uncounted) (mpQmapNetDev st0)"
    by (auto simp: counted_since_def)
  have i: "i < length vs" "vs ! i = Some v"
    using assms(2) vs(1) by (auto simp: vnd_at_def split: if_splits option.splits)
  have "uncounted (rmnet_vnd_upate_rx_stats n k v) = uncounted v"
    by (simp add: uncounted_def rmnet_vnd_upate_rx_stats_def)
  then have "map (map_option uncounted) (vs[i := Some (rmnet_vnd_upate_rx_stats n k v)]) =
      map (map_option uncounted) vs"
    using i by (simp add: map_update) (metis list_update_id nth_map option.simps(9))
  then show ?thesis
    using vs by (auto simp: counted_since_def set_vnd_def)
qed

text \<open>
  Packets on their way out: the framing (version 5 or not), the interface, the buffer.  The block is
  what the modem would see of them, one after the other.
\<close>

type_synonym outgoing = "bool \<times> nat \<times> skb"

definition out_frame :: "outgoing \<Rightarrow> bytes option" where
  "out_frame x = (case x of (v5, i, s) \<Rightarrow>
     map_option skb_data (if v5 then add_qhdr_v5 s (mux_of i) else add_qhdr s (mux_of i)))"

fun out_block :: "outgoing list \<Rightarrow> bytes option" where
  "out_block [] = Some []"
| "out_block (x # xs) = do { a \<leftarrow> out_frame x; b \<leftarrow> out_block xs; Some (a @ b) }"

definition sendable :: "mhi_netdev \<Rightarrow> outgoing \<Rightarrow> bool" where
  "sendable st x = (case x of (v5, i, s) \<Rightarrow>
     i < 8 \<and> i < unat (qmap_mode st) \<and> skb_data s \<noteq> [] \<and> ip_protocol (hd (skb_data s)) \<noteq> None \<and>
     length (skb_data s) + 3 < 65536 \<and> 8 \<le> length (head_room s) \<and>
     (case vnd_at st i of
        Some (Some v) \<Rightarrow> length (skb_data s) \<le> unat (v_mtu v)
      | _ \<Rightarrow> False))"

definition arrival :: "mhi_netdev \<Rightarrow> outgoing \<Rightarrow> rx_skb" where
  "arrival st x = (case x of (v5, i, s) \<Rightarrow>
     rx_packet i (the (the (vnd_at st i))) (the (ip_protocol (hd (skb_data s)))) (skb_data s))"

lemma sendableD:
  assumes "sendable st (v5, i, s)"
  obtains v pr where "vnd_at st i = Some (Some v)" "length (skb_data s) \<le> unat (v_mtu v)"
    "ip_protocol (hd (skb_data s)) = Some pr" "i < 8" "i < unat (qmap_mode st)" "skb_data s \<noteq> []"
    "length (skb_data s) + 3 < 65536" "8 \<le> length (head_room s)"
    "arrival st (v5, i, s) = rx_packet i v pr (skb_data s)"
  using assms by (auto simp: sendable_def arrival_def split: option.splits)

lemma out_frame_result:
  assumes "8 \<le> length (head_room s)"
  obtains hdr fill where "out_frame (v5, i, s) = Some (hdr @ skb_data s @ fill)" "length fill < 4"
    "hdr = qhdr (length fill) (mux_of i) (length (skb_data s) + length fill) \<or>
     hdr = qhdr_v5 (length fill) (mux_of i) (length (skb_data s) + length fill)"
proof (cases v5)
  case True
  with add_qhdr_v5_result [OF assms, of "mux_of i"] that show ?thesis
    by (auto simp: out_frame_def)
next
  case False
  have "4 \<le> length (head_room s)" using assms by simp
  with add_qhdr_result [of s "mux_of i"] that False show ?thesis
    by (auto simp: out_frame_def)
qed

lemma out_block_received:
  assumes "\<forall>x \<in> set xs. sendable st0 x" and "plain_padding st0" and "allocs st0 = []"
    and "counted_since st0 st"
  shows "\<exists>block st'. out_block xs = Some block \<and> counted_since st0 st' \<and>
           qmi_rx_loop block chain st = Some (Some (chain @ map (arrival st0) xs, st'))"
  using assms(1,4)
proof (induction xs arbitrary: chain st)
  case Nil
  then show ?case by (auto simp: qmi_rx_loop.simps)
next
  case (Cons x xs)
  obtain v5 i s where x: "x = (v5, i, s)" by (cases x)
  from Cons.prems(1) have "sendable st0 (v5, i, s)" by (simp add: x)
  then obtain v pr where v: "vnd_at st0 i = Some (Some v)" "length (skb_data s) \<le> unat (v_mtu v)"
    "ip_protocol (hd (skb_data s)) = Some pr" "i < 8" "i < unat (qmap_mode st0)" "skb_data s \<noteq> []"
    "length (skb_data s) + 3 < 65536" "8 \<le> length (head_room s)"
    "arrival st0 (v5, i, s) = rx_packet i v pr (skb_data s)"
    by (rule sendableD)
  from counted_vnd [OF Cons.prems(2) v(1)] obtain v'
    where v': "vnd_at st i = Some (Some v')" "uncounted v' = uncounted v" .
  from out_frame_result [OF v(8), of v5 i] obtain hdr fill
    where f: "out_frame (v5, i, s) = Some (hdr @ skb_data s @ fill)" "length fill < 4"
      "hdr = qhdr (length fill) (mux_of i) (length (skb_data s) + length fill) \<or>
       hdr = qhdr_v5 (length fill) (mux_of i) (length (skb_data s) + length fill)" .
  note cf = counted_fields [OF Cons.prems(2)]
  let ?st = "set_vnd i (rmnet_vnd_upate_rx_stats 1 (of_nat (length (skb_data s))) v') st"
  have c: "counted_since st0 ?st" by (rule counted_step [OF Cons.prems(2) v'(1)])
  have all: "\<forall>x \<in> set xs. sendable st0 x" using Cons.prems(1) by simp
  from Cons.IH [OF all c, of "chain @ [arrival st0 x]"] obtain block st'
    where ih: "out_block xs = Some block" "counted_since st0 st'"
      "qmi_rx_loop block (chain @ [arrival st0 x]) ?st =
         Some (Some (chain @ map (arrival st0) (x # xs), st'))" by auto
  have "plain_padding st" using assms(2) cf by (simp add: plain_padding_def)
  then have "qmi_rx_pkt (hdr @ skb_data s @ fill @ block) chain st =
      Some (Skip_pkt (length (hdr @ skb_data s @ fill)), chain @ [rx_packet i v' pr (skb_data s)], ?st)"
    using v v' f(2) cf assms(3) uncounted_eq(1) [OF v'(2)]
    by (intro qmi_rx_frame [OF f(3)]) simp_all
  then have step: "qmi_rx_pkt (hdr @ skb_data s @ fill @ block) chain st =
      Some (Skip_pkt (length (hdr @ skb_data s @ fill)), chain @ [arrival st0 x], ?st)"
    using uncounted_eq(2) [OF v'(2)] v(9) by (simp add: x)
  have "4 \<le> length hdr" using f(3) by (auto simp: qhdr_def qhdr_v5_def)
  then have "4 < length (hdr @ skb_data s @ fill @ block)" using v(6) by (simp add: length_greater_0_conv [symmetric] del: length_greater_0_conv)
  then have "qmi_rx_loop (hdr @ skb_data s @ fill @ block) chain st =
      Some (Some (chain @ map (arrival st0) (x # xs), st'))"
    using ih(3) by (subst qmi_rx_loop.simps) (simp add: step skb_pull_def)
  then show ?case using f(1) ih(1,2) by (intro exI [of _ "hdr @ skb_data s @ fill @ block"]) (simp add: x)
qed

section \<open>Delivery\<close>

text \<open>How a packet goes up, by the module parameters.\<close>

definition delivery :: "mhi_netdev \<Rightarrow> rx_skb \<Rightarrow> net_effect" where
  "delivery st s =
     (if rx_gro st then Gro_receive (if rx_csum_trust st then s\<lparr>rx_summed := True\<rparr> else s)
      else Netif_receive s)"

lemma deliver_chain_effects:
  assumes "\<forall>s \<in> set chain. \<exists>v. vnd_at st (rx_dev s) = Some (Some v)"
  shows "\<exists>st'. deliver_chain chain st = Some st' \<and>
           effects st' = effects st @ map (delivery st) chain"
  using assms
proof (induction chain arbitrary: st)
  case Nil
  then show ?case by simp
next
  case (Cons s chain)
  from Cons.prems obtain v where v: "vnd_at st (rx_dev s) = Some (Some v)" by auto
  let ?v = "v\<lparr>v_fraglist := rx_gro_fraglist st\<rparr>"
  let ?st = "if rx_gro st then emit (delivery st s) (set_vnd (rx_dev s) ?v st)
             else emit (delivery st s) st"
  have d: "qmap_rx_deliver s st = Some ?st"
    by (simp add: qmap_rx_deliver_def delivery_def v)
  have e: "effects ?st = effects st @ [delivery st s]" "delivery ?st = delivery st"
    by (auto simp: emit_def set_vnd_def delivery_def fun_eq_iff)
  have at: "vnd_at (emit x t) i = vnd_at t i" for x t i
    by (simp add: emit_def vnd_at_def)
  have "\<exists>v. vnd_at ?st (rx_dev r) = Some (Some v)" if "r \<in> set chain" for r
    using Cons.prems that vnd_at_live [OF v] by (auto simp: at)
  then have "\<forall>r \<in> set chain. \<exists>v. vnd_at ?st (rx_dev r) = Some (Some v)" by blast
  from Cons.IH [OF this] obtain st'
    where "deliver_chain chain ?st = Some st'" "effects st' = effects ?st @ map (delivery ?st) chain"
    by blast
  then show ?case using d e by auto
qed


section \<open>The receive loop ends\<close>

definition no_null_vnd :: "mhi_netdev \<Rightarrow> bool" where
  "no_null_vnd st \<longleftrightarrow> (\<forall>i < unat (qmap_mode st). vnd_at st i \<noteq> Some None)"

text \<open>The packet handlers change no entry of the table into a null pointer.\<close>

definition table_kept :: "mhi_netdev \<Rightarrow> mhi_netdev \<Rightarrow> bool" where
  "table_kept st st' \<longleftrightarrow> qmap_mode st' = qmap_mode st \<and>
     (\<forall>i. vnd_at st i \<noteq> Some None \<longrightarrow> vnd_at st' i \<noteq> Some None)"

lemma table_kept_refl: "table_kept st st"
  by (simp add: table_kept_def)

lemma table_kept_trans: "table_kept a b \<Longrightarrow> table_kept b c \<Longrightarrow> table_kept a c"
  by (simp add: table_kept_def)

lemma table_kept_no_null: "table_kept st st' \<Longrightarrow> no_null_vnd st \<Longrightarrow> no_null_vnd st'"
  by (simp add: table_kept_def no_null_vnd_def)

lemma table_kept_set: "table_kept st (set_vnd i v st)"
  by (simp add: table_kept_def) (simp add: set_vnd_def)

lemma table_kept_same:
  "qmap_mode st' = qmap_mode st \<Longrightarrow> mpQmapNetDev st' = mpQmapNetDev st \<Longrightarrow> table_kept st st'"
  by (simp add: table_kept_def vnd_at_def)

lemma alloc_skb_same:
  "alloc_skb st = (ok, st') \<Longrightarrow> qmap_mode st' = qmap_mode st \<and> mpQmapNetDev st' = mpQmapNetDev st"
  by (auto simp: alloc_skb_def split: list.splits)

lemma deadline_same:
  "qmap_mode (fc_deadline st) = qmap_mode st" "mpQmapNetDev (fc_deadline st) = mpQmapNetDev st"
  "qmap_mode (fc_set_bit i e st) = qmap_mode st" "mpQmapNetDev (fc_set_bit i e st) = mpQmapNetDev st"
  by (simp_all add: fc_deadline_def fc_set_bit_def)

lemma flow_control_kept:
  "rmnet_map_do_flow_control frame enable st = Some (rc, st') \<Longrightarrow> table_kept st st'"
  by (auto simp: rmnet_map_do_flow_control_def bind_eq_Some_conv Let_def deadline_same
      intro!: table_kept_refl table_kept_trans [OF table_kept_same table_kept_set]
      split: if_splits option.splits)

lemma send_ack_kept: "rmnet_map_send_ack ty frame st = Some st' \<Longrightarrow> table_kept st st'"
  by (rule table_kept_same)
     (auto simp: rmnet_map_send_ack_def bind_eq_Some_conv emit_def Let_def alloc_skb_def
      split: if_splits list.splits)

lemma map_command_kept:
  assumes "rmnet_data_map_command frame st = Some st'"
  shows "table_kept st st'"
proof -
  from assms obtain name where name: "rd8 frame 4 = Some name"
    by (auto simp: rmnet_data_map_command_def bind_eq_Some_conv)
  let ?st = "if unat name < RMNET_MAP_COMMAND_ENUM_LENGTH then count_command (unat name) st else st"
  have c: "table_kept s (count_command k s)" for s k
    by (rule table_kept_same) (simp_all add: count_command_def)
  from assms name obtain rc st1
    where r: "(if name = RMNET_MAP_COMMAND_FLOW_ENABLE then rmnet_map_do_flow_control frame True ?st
        else if name = RMNET_MAP_COMMAND_FLOW_DISABLE then rmnet_map_do_flow_control frame False ?st
        else Some (RMNET_MAP_COMMAND_UNSUPPORTED, count_command RMNET_MAP_COMMAND_UNKNOWN ?st)) =
          Some (rc, st1)"
      "(if rc = RMNET_MAP_COMMAND_ACK then rmnet_map_send_ack rc frame st1 else Some st1) = Some st'"
    by (auto simp: rmnet_data_map_command_def bind_eq_Some_conv Let_def)
  have "table_kept st ?st" using c table_kept_refl by simp
  moreover have "table_kept ?st st1"
    using r(1) c flow_control_kept by (auto split: if_splits)
  moreover have "table_kept st1 st'"
    using r(2) send_ack_kept table_kept_refl by (auto split: if_splits)
  ultimately show ?thesis using table_kept_trans by blast
qed

lemma qmi_rx_to_skips:
  assumes "qmi_rx_to d b0 pkt_len hdr_size skb_len i v chain st = Some (Skip_pkt n, chain', st')"
  shows "n = pkt_len + hdr_size \<and> n \<le> length d \<and> table_kept st st'"
proof -
  have kept: "table_kept st (set_vnd i w s)" if "alloc_skb st = (ok, s)" for w s ok
    using alloc_skb_same [OF that] table_kept_same table_kept_set table_kept_trans by blast
  obtain ok s where a: "alloc_skb st = (ok, s)" by (cases "alloc_skb st")
  from assms show ?thesis
    unfolding qmi_rx_to_def
    by (auto simp: bind_eq_Some_conv a split: if_splits option.splits
        dest: map_command_kept intro: kept [OF a])
qed

lemma qmi_rx_pkt_skips:
  assumes "qmi_rx_pkt d chain st = Some (Skip_pkt n, chain', st')"
  shows "4 \<le> n \<and> table_kept st st' \<and> (no_null_vnd st \<longrightarrow> n \<le> length d)"
proof -
  obtain b0 mux len
    where r: "rd8 d 0 = Some b0" "rd8 d (Suc 0) = Some mux" "rdbe16 d 2 = Some len"
    using assms by (auto simp: qmi_rx_pkt_def bind_eq_Some_conv simp del: Let_def)
  let ?h = "if bit b0 6 then 8 else 4 :: nat"
  let ?i = "(ucast mux :: u32) - ucast QUECTEL_QMAP_MUX_ID"
  have i: "\<not> qmap_mode st \<le> ?i" using assms by (auto simp: qmi_rx_pkt_def r Let_def)
  then obtain vnd where vnd: "vnd_at st (unat ?i) = Some vnd"
    using assms by (auto simp: qmi_rx_pkt_def r Let_def bind_eq_Some_conv)
  show ?thesis
  proof (cases vnd)
    case None
    have "\<not> no_null_vnd st"
      using i vnd None by (auto simp: no_null_vnd_def word_le_nat_alt not_le)
    then show ?thesis
      using assms i vnd None table_kept_refl by (auto simp: qmi_rx_pkt_def r Let_def)
  next
    case (Some v)
    have "\<exists>skb_len. qmi_rx_to d b0 (unat len) ?h skb_len (unat ?i) v chain st =
        Some (Skip_pkt n, chain', st')"
      using assms i vnd Some by (auto simp: qmi_rx_pkt_def r Let_def)
    then show ?thesis using qmi_rx_to_skips by fastforce
  qed
qed

lemma qmi_rx_loop_returns:
  assumes "no_null_vnd st"
  shows "\<exists>r. qmi_rx_loop d chain st = Some r"
  using assms
proof (induction d arbitrary: chain st rule: measure_induct_rule [of length])
  case (less d)
  show ?case
  proof (cases "4 < length d")
    case False
    then show ?thesis by (subst qmi_rx_loop.simps) simp
  next
    case True
    show ?thesis
    proof (cases "qmi_rx_pkt d chain st")
      case None
      then show ?thesis using True by (subst qmi_rx_loop.simps) simp
    next
      case (Some t)
      obtain nx chain' st' where t: "t = (nx, chain', st')" by (cases t)
      show ?thesis
      proof (cases nx)
        case Error_pkt
        then show ?thesis using True Some t by (subst qmi_rx_loop.simps) simp
      next
        case (Skip_pkt n)
        from qmi_rx_pkt_skips [of d chain st n chain' st'] Some t Skip_pkt less.prems
        have n: "4 \<le> n" "n \<le> length d" "no_null_vnd st'"
          using table_kept_no_null by auto
        have "length (skb_pull n d) < length d" using n True by (simp add: skb_pull_def)
        from less.IH [OF this n(3)] obtain r where "qmi_rx_loop (skb_pull n d) chain' st' = Some r"
          by blast
        then show ?thesis using True Some t Skip_pkt by (subst qmi_rx_loop.simps) simp
      qed
    qed
  qed
qed

text \<open>C24:
  The receive handler returns on every block.  If no entry of the interface table below
  \<open>qmap_mode\<close> is a null pointer, \<open>rmnet_qmi_rx_handler\<close> ends, whatever bytes the modem sends: each
  turn of its loop stops or takes at least the four bytes of a header off the block.
\<close>

theorem qmi_rx_handler_returns:
  assumes "no_null_vnd st"
  shows "\<exists>r. rmnet_qmi_rx_handler d st = Some r"
  using qmi_rx_loop_returns [OF assms, of d "[]"] by (auto simp: rmnet_qmi_rx_handler_def)

text \<open>
  A header for an interface whose entry is null, with a length beyond the block: the packet is
  skipped before its length is checked, the pull takes nothing off, and the loop sees it again.
\<close>

lemma qmi_rx_loop_stuck:
  assumes "4 < length d" and "\<And>c. qmi_rx_pkt d c st = Some (Skip_pkt n, c, st)" and "length d < n"
  shows "qmi_rx_loop d chain st = None"
proof (rule ccontr)
  assume "qmi_rx_loop d chain st \<noteq> None"
  then obtain r where ret: "qmi_rx_loop d chain st = Some r" by blast
  have "\<not> (d = d \<and> st = st)"
  proof (rule qmi_rx_loop.raw_induct [where P = "\<lambda>d' c st' r. \<not> (d' = d \<and> st' = st)", OF _ ret])
    fix f d' c st' r
    assume IH: "\<And>d' c st' r. f d' c st' = Some r \<Longrightarrow> \<not> (d' = d \<and> st' = st)"
      and eq: "(if \<not> 4 < length d' then Some (Some (c, st'))
         else case qmi_rx_pkt d' c st' of
           None \<Rightarrow> Some None
         | Some (next, chain, st) \<Rightarrow>
             (case next of
                Error_pkt \<Rightarrow> Some (Some (chain, st))
              | Skip_pkt n \<Rightarrow> f (skb_pull n d') chain st)) = Some r"
    show "\<not> (d' = d \<and> st' = st)"
    proof
      assume same: "d' = d \<and> st' = st"
      have "f d c st = Some r"
        using eq assms by (simp add: same skb_pull_def)
      then show False using IH by blast
    qed
  qed
  then show False by simp
qed

text \<open>C39:
  A null interface entry lets one frame stop the receive path.  When the entry of the interface a
  frame is addressed to is null and the length in the frame's header goes beyond the block, the
  handler never returns: it takes the skip before the length check, \<open>skb_pull\<close> refuses to pull more
  than there is, and the loop starts again on the same bytes.
\<close>

theorem qmi_rx_null_vnd_hangs:
  assumes "4 < length d" and "rd8 d 0 = Some b0" and "rd8 d 1 = Some mux" and "rdbe16 d 2 = Some len"
    and "(ucast mux :: u32) - ucast QUECTEL_QMAP_MUX_ID < qmap_mode st"
    and "vnd_at st (unat ((ucast mux :: u32) - ucast QUECTEL_QMAP_MUX_ID)) = Some None"
    and "length d < unat len + (if bit b0 6 then 8 else 4)"
  shows "rmnet_qmi_rx_handler d st = None"
proof -
  have "qmi_rx_pkt d c st = Some (Skip_pkt (unat len + (if bit b0 6 then 8 else 4)), c, st)" for c
    using assms(2-6) by (simp add: qmi_rx_pkt_def Let_def not_le)
  from qmi_rx_loop_stuck [OF assms(1) this assms(7)] show ?thesis
    by (simp add: rmnet_qmi_rx_handler_def)
qed

section \<open>Stopped queues\<close>

text \<open>What the invariant speaks of: the flags, the held bits, and per entry whether the device is
  there and its queue stopped.\<close>

type_synonym queue_view = "bool \<times> bool \<times> bool \<times> u32 \<times> u32 \<times> bool \<times> (bool \<times> bool) option list"

definition queue_view :: "mhi_netdev \<Rightarrow> queue_view" where
  "queue_view st =
     (net_enabled st, fc_pending st, fc_armed st, flow_control st, qmap_mode st, ndev_stopped st,
      map (map_option (\<lambda>v. (v_live v, v_stopped v))) (mpQmapNetDev st))"

fun queue_ok :: "bool \<Rightarrow> u32 \<Rightarrow> bool \<Rightarrow> nat \<Rightarrow> (bool \<times> bool) option \<Rightarrow> bool" where
  "queue_ok en fc parent i None = True"
| "queue_ok en fc parent i (Some (live, stopped)) =
     (live \<and> (bit fc i \<longrightarrow> stopped) \<and> (en \<and> stopped \<longrightarrow> bit fc i \<or> parent))"

text \<open>
  The table has its eight entries; every queue the modem holds is stopped; while the interface is
  enabled a stopped queue is held or the parent is stopped, and the deadline runs while any flow is
  held.
\<close>

fun view_ok :: "queue_view \<Rightarrow> bool" where
  "view_ok (en, pend, armed, fc, mode, parent, xs) =
     (length xs = 8 \<and> unat mode \<le> 8 \<and> (\<forall>i < unat mode. queue_ok en fc parent i (xs ! i)) \<and>
      (en \<longrightarrow> pend = armed \<and> (fc \<noteq> 0 \<longrightarrow> armed)))"

definition queue_inv :: "mhi_netdev \<Rightarrow> bool" where
  "queue_inv st \<longleftrightarrow> view_ok (queue_view st)"

lemma inv_same: "queue_view st' = queue_view st \<Longrightarrow> queue_inv st \<Longrightarrow> queue_inv st'"
  by (simp add: queue_inv_def)

lemma view_set_vnd:
  "queue_view (set_vnd i v st) =
     (net_enabled st, fc_pending st, fc_armed st, flow_control st, qmap_mode st, ndev_stopped st,
      (map (map_option (\<lambda>v. (v_live v, v_stopped v))) (mpQmapNetDev st))
        [i := Some (v_live v, v_stopped v)])"
  by (simp add: queue_view_def set_vnd_def map_update)

lemma view_set_same:
  assumes "vnd_at st i = Some (Some v)" and "v_live w = v_live v" and "v_stopped w = v_stopped v"
  shows "queue_view (set_vnd i w st) = queue_view st"
proof -
  have "i < length (mpQmapNetDev st)" "mpQmapNetDev st ! i = Some v"
    using assms(1) by (auto simp: vnd_at_def split: if_splits option.splits)
  then have "(map (map_option (\<lambda>v. (v_live v, v_stopped v))) (mpQmapNetDev st)) ! i =
      Some (v_live w, v_stopped w)"
    using assms(2,3) by simp
  then have "(map (map_option (\<lambda>v. (v_live v, v_stopped v))) (mpQmapNetDev st))
      [i := Some (v_live w, v_stopped w)] =
      map (map_option (\<lambda>v. (v_live v, v_stopped v))) (mpQmapNetDev st)"
    by (rule subst) (rule list_update_id)
  then show ?thesis unfolding view_set_vnd by (simp add: queue_view_def)
qed

text \<open>The loop over the interfaces, as a change of each entry.\<close>

lemma for_vnds_result:
  assumes "for_vnds P f n st = Some st'" and "\<And>v. v_live (f v) = v_live v"
  shows "n \<le> length (mpQmapNetDev st) \<and>
     (\<exists>vs. st' = st\<lparr>mpQmapNetDev := vs\<rparr> \<and> length vs = length (mpQmapNetDev st) \<and>
       (\<forall>i < length vs. vs ! i =
          (if i < n \<and> P i then map_option f (mpQmapNetDev st ! i) else mpQmapNetDev st ! i)))"
  using assms(1)
proof (induction n arbitrary: st')
  case 0
  then show ?case by (intro conjI exI [of _ "mpQmapNetDev st"]) auto
next
  case (Suc n)
  from Suc.prems obtain st1 where s: "for_vnds P f n st = Some st1"
    and r: "(if length (mpQmapNetDev st1) \<le> n then None
      else if \<not> P n then Some st1
      else Option.bind (vnd_at st1 n) (\<lambda>v. case v of None \<Rightarrow> Some st1
        | Some v \<Rightarrow> Some (set_vnd n (f v) st1))) = Some st'"
    by (auto simp: bind_eq_Some_conv)
  from Suc.IH [OF s] obtain vs where vs: "n \<le> length (mpQmapNetDev st)"
    "st1 = st\<lparr>mpQmapNetDev := vs\<rparr>" "length vs = length (mpQmapNetDev st)"
    "\<And>i. i < length vs \<Longrightarrow> vs ! i =
       (if i < n \<and> P i then map_option f (mpQmapNetDev st ! i) else mpQmapNetDev st ! i)" by blast
  have n: "n < length vs" using r vs(2) by (auto split: if_splits)
  have old: "vs ! n = mpQmapNetDev st ! n" using vs(4) [OF n] by simp
  show ?case
  proof (cases "P n \<and> vs ! n \<noteq> None")
    case False
    then have "st' = st1" using r n vs(2) by (auto simp: vnd_at_def split: if_splits)
    moreover have "vs ! i =
       (if i < Suc n \<and> P i then map_option f (mpQmapNetDev st ! i) else mpQmapNetDev st ! i)"
      if "i < length vs" for i
      using vs(4) [OF that] False old by (auto simp: less_Suc_eq)
    ultimately show ?thesis using vs n by (intro conjI exI [of _ vs]) auto
  next
    case True
    then obtain v where v: "vs ! n = Some v" by auto
    then have "vnd_at st1 n = (if v_live v then Some (Some v) else None)"
      using n vs(2) by (simp add: vnd_at_def)
    then have "st' = set_vnd n (f v) st1" using r True n vs(2) by (auto split: if_splits)
    then have "st' = st\<lparr>mpQmapNetDev := vs[n := Some (f v)]\<rparr>" using vs(2) by (simp add: set_vnd_def)
    moreover have "vs[n := Some (f v)] ! i =
       (if i < Suc n \<and> P i then map_option f (mpQmapNetDev st ! i) else mpQmapNetDev st ! i)"
      if "i < length vs" for i
      using vs(4) [OF that] that True v old by (cases "i = n") (auto simp: less_Suc_eq)
    ultimately show ?thesis using vs n by (intro conjI exI [of _ "vs[n := Some (f v)]"]) auto
  qed
qed

lemma for_vnds_view:
  assumes "for_vnds P f n st = Some st'" and "\<And>v. v_live (f v) = v_live v"
  shows "\<exists>vs. queue_view st' = (net_enabled st, fc_pending st, fc_armed st, flow_control st,
             qmap_mode st, ndev_stopped st, map (map_option (\<lambda>v. (v_live v, v_stopped v))) vs) \<and>
           length vs = length (mpQmapNetDev st) \<and>
           (\<forall>i < length vs. vs ! i =
              (if i < n \<and> P i then map_option f (mpQmapNetDev st ! i) else mpQmapNetDev st ! i))"
  using for_vnds_result [OF assms] by (auto simp: queue_view_def)

lemma queue_live [simp]:
  "v_live (netif_wake_queue v) = v_live v" "v_live (netif_stop_queue v) = v_live v"
  "v_stopped (netif_wake_queue v) = False" "v_stopped (netif_stop_queue v) = True"
  by (simp_all add: netif_wake_queue_def netif_stop_queue_def)

text \<open>The entry of an interface, as the invariant has it.\<close>

lemma inv_entry:
  assumes "queue_inv st" and "i < unat (qmap_mode st)"
  shows "queue_ok (net_enabled st) (flow_control st) (ndev_stopped st) i
           (map_option (\<lambda>v. (v_live v, v_stopped v)) (mpQmapNetDev st ! i))"
  using assms by (auto simp: queue_inv_def queue_view_def)

lemma inv_sizes:
  assumes "queue_inv st"
  shows "length (mpQmapNetDev st) = 8" "unat (qmap_mode st) \<le> 8"
    "net_enabled st \<Longrightarrow> fc_pending st = fc_armed st"
    "net_enabled st \<Longrightarrow> flow_control st \<noteq> 0 \<Longrightarrow> fc_armed st"
  using assms by (auto simp: queue_inv_def queue_view_def)

text \<open>A change of all entries below \<open>qmap_mode\<close> keeps the invariant if each entry is right after it.\<close>

lemma inv_for_vnds:
  assumes "for_vnds P f (unat (qmap_mode st)) st = Some st'" and "\<And>v. v_live (f v) = v_live v"
    and "length (mpQmapNetDev st) = 8" and "unat (qmap_mode st) \<le> 8"
    and "net_enabled st \<Longrightarrow> fc_pending st = fc_armed st \<and> (flow_control st \<noteq> 0 \<longrightarrow> fc_armed st)"
    and "\<And>i. i < unat (qmap_mode st) \<Longrightarrow>
       queue_ok (net_enabled st) (flow_control st) (ndev_stopped st) i
         (map_option (\<lambda>v. (v_live v, v_stopped v))
            (if P i then map_option f (mpQmapNetDev st ! i) else mpQmapNetDev st ! i))"
  shows "queue_inv st'"
proof -
  from for_vnds_view [OF assms(1,2)] obtain vs where vs:
    "queue_view st' = (net_enabled st, fc_pending st, fc_armed st, flow_control st,
       qmap_mode st, ndev_stopped st, map (map_option (\<lambda>v. (v_live v, v_stopped v))) vs)"
    "length vs = length (mpQmapNetDev st)"
    "\<And>i. i < length vs \<Longrightarrow> vs ! i =
       (if i < unat (qmap_mode st) \<and> P i then map_option f (mpQmapNetDev st ! i)
        else mpQmapNetDev st ! i)" by blast
  have "queue_ok (net_enabled st) (flow_control st) (ndev_stopped st) i
      (map (map_option (\<lambda>v. (v_live v, v_stopped v))) vs ! i)" if "i < unat (qmap_mode st)" for i
    using assms(3,4,6) that vs(2,3) by (simp add: vs(3))
  then show ?thesis using vs(1,2) assms(3,4,5) by (simp add: queue_inv_def)
qed

lemma timeout_inv:
  assumes "mhi_netdev_fc_timeout st = Some st'" and "queue_inv st"
  shows "queue_inv st'"
proof -
  note sz = inv_sizes [OF assms(2)]
  let ?st = "st\<lparr>flow_control := 0, fc_pending := False, fc_armed := False\<rparr>"
  show ?thesis
  proof (cases "net_enabled st")
    case False
    then have "st' = ?st" using assms(1) by (simp add: mhi_netdev_fc_timeout_def)
    moreover have "queue_ok False 0 (ndev_stopped st) i
        (map_option (\<lambda>v. (v_live v, v_stopped v)) (mpQmapNetDev st ! i))"
      if "i < unat (qmap_mode st)" for i
      using inv_entry [OF assms(2) that] by (cases "mpQmapNetDev st ! i") auto
    ultimately show ?thesis using sz False by (simp add: queue_inv_def queue_view_def)
  next
    case True
    then have r: "for_vnds (bit (flow_control st)) netif_wake_queue (unat (qmap_mode ?st)) ?st = Some st'"
      using assms(1) by (simp add: mhi_netdev_fc_timeout_def)
    show ?thesis
    proof (rule inv_for_vnds [OF r])
      fix i assume "i < unat (qmap_mode ?st)"
      then have "i < unat (qmap_mode st)" by simp
      from inv_entry [OF assms(2) this]
      show "queue_ok (net_enabled ?st) (flow_control ?st) (ndev_stopped ?st) i
         (map_option (\<lambda>v. (v_live v, v_stopped v))
            (if bit (flow_control st) i then map_option netif_wake_queue (mpQmapNetDev ?st ! i)
             else mpQmapNetDev ?st ! i))"
        using True by (cases "mpQmapNetDev st ! i") auto
    qed (use sz in simp_all)
  qed
qed

lemma ul_cb_inv:
  assumes "mhi_netdev_xfer_ul_cb bound status packets len free st = Some st'" and "queue_inv st"
  shows "queue_inv st'"
proof -
  let ?up = "mhi_netdev_upate_tx_stats packets len st"
  have "queue_view ?up = queue_view st" by (simp add: queue_view_def mhi_netdev_upate_tx_stats_def)
  from inv_same [OF this assms(2)] have up: "queue_inv ?up" .
  note sz = inv_sizes [OF up]
  show ?thesis
  proof (cases "bound \<and> status = 0 \<and> ndev_stopped ?up \<and> net_enabled ?up \<and> 32 < free")
    case False
    then have "st' = st \<or> st' = ?up"
      using assms(1) by (auto simp: mhi_netdev_xfer_ul_cb_def Let_def split: if_splits)
    then show ?thesis using assms(2) up by auto
  next
    case True
    let ?st = "?up\<lparr>ndev_stopped := False\<rparr>"
    have r: "for_vnds (\<lambda>i. \<not> bit (flow_control ?up) i) netif_wake_queue (unat (qmap_mode ?st)) ?st =
        Some st'"
      using assms(1) True by (simp add: mhi_netdev_xfer_ul_cb_def Let_def)
    show ?thesis
    proof (rule inv_for_vnds [OF r])
      fix i assume "i < unat (qmap_mode ?st)"
      then have "i < unat (qmap_mode ?up)" by simp
      from inv_entry [OF up this]
      show "queue_ok (net_enabled ?st) (flow_control ?st) (ndev_stopped ?st) i
         (map_option (\<lambda>v. (v_live v, v_stopped v))
            (if \<not> bit (flow_control ?up) i then map_option netif_wake_queue (mpQmapNetDev ?st ! i)
             else mpQmapNetDev ?st ! i))"
        using True by (cases "mpQmapNetDev ?up ! i") auto
    qed (use sz True in simp_all)
  qed
qed

lemma reset_inv:
  assumes "mhi_netdev_debugfs_trigger_reset ret st = Some (r, st')" and "queue_inv st"
  shows "queue_inv st'"
proof -
  note sz = inv_sizes [OF assms(2)]
  show ?thesis
  proof (cases "ret = 0")
    case False
    then have st': "st' = st\<lparr>net_enabled := False, fc_armed := False, flow_control := 0,
        fc_pending := False, rx_recycled := 0\<rparr>"
      using assms(1) by (simp add: mhi_netdev_debugfs_trigger_reset_def Let_def)
    have "queue_ok False 0 (ndev_stopped st) i
        (map_option (\<lambda>v. (v_live v, v_stopped v)) (mpQmapNetDev st ! i))"
      if "i < unat (qmap_mode st)" for i
      using inv_entry [OF assms(2) that] by (cases "mpQmapNetDev st ! i") auto
    then show ?thesis using sz by (simp add: st' queue_inv_def queue_view_def)
  next
    case True
    let ?st = "st\<lparr>fc_armed := False, flow_control := 0, fc_pending := False, rx_recycled := 0,
        net_enabled := True, ndev_stopped := False\<rparr>"
    have f: "for_vnds (\<lambda>_. True) netif_wake_queue (unat (qmap_mode ?st)) ?st = Some st'"
      using assms(1) True by (auto simp: mhi_netdev_debugfs_trigger_reset_def Let_def bind_eq_Some_conv)
    show ?thesis
    proof (rule inv_for_vnds [OF f])
      fix i assume "i < unat (qmap_mode ?st)"
      then have "i < unat (qmap_mode st)" by simp
      from inv_entry [OF assms(2) this]
      show "queue_ok (net_enabled ?st) (flow_control ?st) (ndev_stopped ?st) i
         (map_option (\<lambda>v. (v_live v, v_stopped v))
            (if True then map_option netif_wake_queue (mpQmapNetDev ?st ! i)
             else mpQmapNetDev ?st ! i))"
        by (cases "mpQmapNetDev st ! i") auto
    qed (use sz in simp_all)
  qed
qed

lemma inv_parent_stop:
  assumes "for_vnds (\<lambda>_. True) netif_stop_queue (unat (qmap_mode st)) st = Some st'" and "queue_inv st"
  shows "queue_inv (st'\<lparr>ndev_stopped := True\<rparr>)"
proof -
  note sz = inv_sizes [OF assms(2)]
  from for_vnds_view [OF assms(1)] obtain vs where vs:
    "queue_view st' = (net_enabled st, fc_pending st, fc_armed st, flow_control st,
       qmap_mode st, ndev_stopped st, map (map_option (\<lambda>v. (v_live v, v_stopped v))) vs)"
    "length vs = length (mpQmapNetDev st)"
    "\<And>i. i < length vs \<Longrightarrow> vs ! i =
       (if i < unat (qmap_mode st) \<and> True then map_option netif_stop_queue (mpQmapNetDev st ! i)
        else mpQmapNetDev st ! i)" by auto
  have "queue_ok (net_enabled st) (flow_control st) True i
      (map (map_option (\<lambda>v. (v_live v, v_stopped v))) vs ! i)" if "i < unat (qmap_mode st)" for i
    using inv_entry [OF assms(2) that] sz that vs(2,3)
    by (cases "mpQmapNetDev st ! i") auto
  then show ?thesis using vs(1,2) sz by (simp add: queue_inv_def queue_view_def)
qed

lemma xmit_inv:
  assumes "mhi_netdev_xmit free res d protocol st = Some st'" and "queue_inv st"
  shows "queue_inv st'"
proof (cases "(net_type st = MHI_NET_RMNET \<or> net_type st = MHI_NET_MBIM) \<and> protocol \<noteq> ETH_P_MAP")
  case True
  then show ?thesis using assms by (simp add: mhi_netdev_xmit_def)
next
  case False
  let ?num = "if net_type st = MHI_NET_MBIM
    then Option.bind (poke 6 (le16 (tx_seq st)) d) (\<lambda>d. Some (d, st\<lparr>tx_seq := tx_seq st + 1\<rparr>))
    else Some (d, st)"
  from assms(1) False obtain d1 st1 st2
    where s: "?num = Some (d1, st1)"
      "(if free < 16 then Option.bind (for_vnds (\<lambda>_. True) netif_stop_queue (unat (qmap_mode st1)) st1)
          (\<lambda>st. Some (st\<lparr>ndev_stopped := True\<rparr>)) else Some st1) = Some st2"
      "st' = (if res = 0 then emit (Mhi_queue d1) st2
              else st2\<lparr>ndev_tx_errors := ndev_tx_errors st2 + 1\<rparr>)"
    unfolding mhi_netdev_xmit_def if_not_P [OF False] by (auto simp: bind_eq_Some_conv simp del: split_paired_Ex split_paired_All)
  have "queue_view st1 = queue_view st"
    using s(1) by (auto simp: queue_view_def bind_eq_Some_conv split: if_splits)
  from inv_same [OF this assms(2)] have "queue_inv st1" .
  then have "queue_inv st2"
    using s(2) inv_parent_stop by (auto simp: bind_eq_Some_conv split: if_splits)
  moreover have "queue_view st' = queue_view st2" by (simp add: s(3) emit_def queue_view_def)
  ultimately show ?thesis using inv_same by blast
qed

text \<open>A packet on a running parent changes no queue; on a stopped one it stops its own.\<close>

lemma emit_view [simp]: "queue_view (emit e st) = queue_view st" "vnd_at (emit e st) i = vnd_at st i"
  by (simp_all add: emit_def queue_view_def vnd_at_def)

definition same_queues :: "mhi_netdev \<Rightarrow> mhi_netdev \<Rightarrow> bool" where
  "same_queues st st' \<longleftrightarrow> queue_view st' = queue_view st \<and> (\<forall>i. vnd_at st' i = vnd_at st i)"

lemma same_queues_refl: "same_queues st st"
  by (simp add: same_queues_def)

lemma alloc_same_queues: "alloc_skb st = (ok, st') \<Longrightarrow> same_queues st st'"
  by (auto simp: alloc_skb_def same_queues_def queue_view_def vnd_at_def split: list.splits)

lemma arp_reply_view:
  "always (\<lambda>(b, st'). same_queues st st') (bridge_arp_reply d ip st)"
  unfolding bridge_arp_reply_def Let_def
  by (intro always_bind_any always_if always_Some always_prod)
     (auto simp: same_queues_def dest!: alloc_same_queues [unfolded same_queues_def])

lemma fixup_view:
  "always (\<lambda>(pass, w, st'). same_queues st st' \<and> v_live w = v_live v \<and> v_stopped w = v_stopped v)
     (bridge_mode_tx_fixup d v st)"
proof -
  have arp: "always (\<lambda>(pass, w, st'). same_queues st st' \<and> v_live w = v_live v \<and> v_stopped w = v_stopped v)
      (Option.bind (bridge_arp_reply d (bridge_ipv4 v) st) (\<lambda>(_, st). Some (False, v, st)))"
    by (rule always_bind [OF arp_reply_view]) (auto intro!: always_Some)
  show ?thesis
    unfolding bridge_mode_tx_fixup_def Let_def
    by (rule always_bind_any, rule always_bind_any, intro always_if, rule arp)
       (auto intro!: always_bind_any always_Some simp: same_queues_refl split: if_splits)
qed

lemma bind_no_vnd:
  "m = None \<or> m = Some None \<Longrightarrow> Option.bind m (\<lambda>x. Option.bind x f) = None"
  by auto

lemma start_xmit_inv:
  assumes "rmnet_vnd_start_xmit err s i st = Some (r, st')" and "queue_inv st"
  shows "queue_inv st'"
proof -
  have "rmnet_vnd_start_xmit err s i st = None" if "vnd_at st i = None \<or> vnd_at st i = Some None"
    using that unfolding rmnet_vnd_start_xmit_def by (rule bind_no_vnd)
  with assms(1) obtain v where v: "vnd_at st i = Some (Some v)" by (cases "vnd_at st i") auto
  have lv: "v_live v" by (rule vnd_at_live [OF v])
  note sz = inv_sizes [OF assms(2)]
  show ?thesis
  proof (cases "ndev_stopped st")
    case True
    have "rmnet_vnd_start_xmit err s i st = Some (NETDEV_TX_BUSY, set_vnd i (netif_stop_queue v) st)"
      unfolding rmnet_vnd_start_xmit_def v Option.bind.simps Let_def if_P [OF True] ..
    with assms(1) have st': "st' = set_vnd i (netif_stop_queue v) st" by simp
    have ok: "queue_ok (net_enabled st) (flow_control st) True j
        (map_option (\<lambda>v. (v_live v, v_stopped v)) (mpQmapNetDev st ! j))"
      if "j < unat (qmap_mode st)" for j
      using inv_entry [OF assms(2) that] True by simp
    show ?thesis
      using sz ok lv True vnd_at_bound [OF v]
      by (auto simp: st' queue_inv_def view_set_vnd nth_list_update)
  next
    case False
    let ?fix = "if v_ether v \<and> bridge_mode v \<noteq> 0 then bridge_mode_tx_fixup (skb_data s) v st
                else Some (True, v, st)"
    have "rmnet_vnd_start_xmit err s i st = None" if "?fix = None"
      unfolding rmnet_vnd_start_xmit_def v Option.bind.simps Let_def if_not_P [OF False] that ..
    with assms(1) obtain t where "?fix = Some t" by (cases ?fix) simp_all
    then obtain pass w st1 where f: "?fix = Some (pass, w, st1)" by (cases t) simp
    have k: "queue_view st1 = queue_view st" "vnd_at st1 i = Some (Some v)"
      "v_live w = v_live v" "v_stopped w = v_stopped v"
      using f v alwaysD [OF fixup_view] by (auto simp: same_queues_def split: if_splits)
    let ?st2 = "set_vnd i w st1"
    have k2: "queue_view ?st2 = queue_view st" using view_set_same [OF k(2-4)] k(1) by simp
    have at2: "vnd_at ?st2 i = Some (Some w)" using k lv vnd_at_bound [OF k(2)] by simp
    have sent: "queue_view (rmnet_vnd_tx_agg err n frame i w ?st2) = queue_view ?st2" for n frame
      using view_set_same [of "emit (Queue_xmit frame) ?st2" i w] at2
      by (simp add: rmnet_vnd_tx_agg_def rmnet_vnd_upate_tx_stats_def)
    let ?s = "if v_ether w then s\<lparr>head_room := head_room s @ take 14 (skb_data s),
      skb_data := drop 14 (skb_data s)\<rparr> else s"
    have rest: "(if \<not> pass then Some (NETDEV_TX_OK, ?st2)
      else if v_ether w \<and> length (skb_data s) < 14 then Some (NETDEV_TX_OK, ?st2)
      else Option.bind (rmnet_vnd_frame ?st2 w ?s) (\<lambda>framed. case framed of
          None \<Rightarrow> Some (NETDEV_TX_OK, ?st2)
        | Some s' \<Rightarrow> Some (Xmit_result err,
            rmnet_vnd_tx_agg err (length (skb_data s)) (skb_data s') i w ?st2))) = Some (r, st')"
      using assms(1) unfolding rmnet_vnd_start_xmit_def v Option.bind.simps Let_def if_not_P [OF False] f
      by simp
    have "queue_view st' = queue_view ?st2"
    proof (cases "\<not> pass \<or> v_ether w \<and> length (skb_data s) < 14")
      case True
      then show ?thesis using rest by (auto split: if_splits)
    next
      case False
      then obtain framed where "rmnet_vnd_frame ?st2 w ?s = Some framed"
        using rest by (cases "rmnet_vnd_frame ?st2 w ?s") auto
      then show ?thesis using rest False sent by (cases framed) auto
    qed
    then show ?thesis using inv_same [OF _ assms(2)] k2 by simp
  qed
qed

text \<open>A flow-control command: the bit, the deadline and the queue go together.\<close>

lemma view_of:
  "queue_inv st \<longleftrightarrow> length (mpQmapNetDev st) = 8 \<and> unat (qmap_mode st) \<le> 8 \<and>
     (\<forall>i < unat (qmap_mode st). queue_ok (net_enabled st) (flow_control st) (ndev_stopped st) i
        (map_option (\<lambda>v. (v_live v, v_stopped v)) (mpQmapNetDev st ! i))) \<and>
     (net_enabled st \<longrightarrow> fc_pending st = fc_armed st \<and> (flow_control st \<noteq> 0 \<longrightarrow> fc_armed st))"
  by (auto simp: queue_inv_def queue_view_def)

lemma queue_ok_other_bit:
  assumes "queue_ok en fc parent j x" and "j \<noteq> i"
  shows "queue_ok en (if e then unset_bit i fc else set_bit i fc) parent j x"
  using assms by (cases x) (auto simp: bit_unset_bit_iff bit_set_bit_iff)

lemma deadline_kept:
  "net_enabled (fc_deadline st) = net_enabled st" "flow_control (fc_deadline st) = flow_control st"
  "ndev_stopped (fc_deadline st) = ndev_stopped st"
  by (simp_all add: fc_deadline_def)

lemma deadline_right:
  assumes "net_enabled st \<Longrightarrow> fc_pending st = fc_armed st" and "net_enabled st"
  shows "fc_pending (fc_deadline st) = fc_armed (fc_deadline st) \<and>
         (flow_control (fc_deadline st) \<noteq> 0 \<longrightarrow> fc_armed (fc_deadline st))"
  using assms by (auto simp: fc_deadline_def)

lemma hold_inv:
  assumes "queue_inv st" and "i < unat (qmap_mode st)" and "vnd_at st i = Some (Some v)"
  shows "queue_inv (set_vnd i (rmnet_data_vnd_do_flow_control enable v)
           (fc_deadline (fc_set_bit i enable st)))"
proof -
  note sz = inv_sizes [OF assms(1)]
  let ?f = "fc_set_bit i enable st"
  let ?d = "fc_deadline ?f"
  let ?st = "set_vnd i (rmnet_data_vnd_do_flow_control enable v) ?d"
  have d: "mpQmapNetDev ?d = mpQmapNetDev st" "qmap_mode ?d = qmap_mode st"
    "net_enabled ?d = net_enabled st" "ndev_stopped ?d = ndev_stopped st"
    "flow_control ?d = (if enable then unset_bit i (flow_control st) else set_bit i (flow_control st))"
    by (simp_all add: deadline_same deadline_kept) (simp_all add: fc_set_bit_def)
  have lv: "v_live v" by (rule vnd_at_live [OF assms(3)])
  have i32: "i < LENGTH(32)" using assms(2) sz(2) by simp
  have "queue_ok (net_enabled ?st) (flow_control ?st) (ndev_stopped ?st) j
      (map_option (\<lambda>v. (v_live v, v_stopped v)) (mpQmapNetDev ?st ! j))"
    if j: "j < unat (qmap_mode ?st)" for j
  proof (cases "j = i")
    case True
    then show ?thesis
      using lv i32 assms(2) sz d
      by (simp add: set_vnd_def rmnet_data_vnd_do_flow_control_def bit_unset_bit_iff bit_set_bit_iff)
  next
    case False
    have "j < unat (qmap_mode st)" using j d by (simp add: set_vnd_def)
    from queue_ok_other_bit [OF inv_entry [OF assms(1) this] False, of enable] show ?thesis
      using False d by (simp add: set_vnd_def)
  qed
  moreover have "net_enabled ?f \<Longrightarrow> fc_pending ?f = fc_armed ?f" using sz(3) by (simp add: fc_set_bit_def)
  from deadline_right [OF this] have "net_enabled ?st \<longrightarrow>
      fc_pending ?st = fc_armed ?st \<and> (flow_control ?st \<noteq> 0 \<longrightarrow> fc_armed ?st)"
    by (simp add: set_vnd_def deadline_kept)
  ultimately show ?thesis
    unfolding view_of using sz d by (simp add: set_vnd_def)
qed

lemma unat_ucast8: "unat (ucast (x :: u8) :: u32) = unat x"
proof -
  have "unat x < 2 ^ 8" using unsigned_less [of x] by simp
  then have "unat x < 2 ^ 32" by simp
  then show ?thesis by (simp add: unsigned_ucast_eq take_bit_nat_eq_self)
qed

lemma flow_control_inv:
  assumes "rmnet_map_do_flow_control frame enable st = Some (rc, st')" and "queue_inv st"
  shows "queue_inv st'"
proof -
  from assms(1) obtain mux where mux: "rd8 frame 1 = Some mux"
    by (auto simp: rmnet_map_do_flow_control_def bind_eq_Some_conv)
  let ?i = "mux - QUECTEL_QMAP_MUX_ID"
  consider (none) "st' = st" | (some) v where "\<not> qmap_mode st \<le> ucast ?i"
    "vnd_at st (unat ?i) = Some (Some v)"
    "st' = set_vnd (unat ?i) (rmnet_data_vnd_do_flow_control enable v)
       (fc_deadline (fc_set_bit (unat ?i) enable st))"
    using assms(1) mux
    by (auto simp: rmnet_map_do_flow_control_def bind_eq_Some_conv Let_def split: if_splits option.splits)
  then show ?thesis
  proof cases
    case none
    then show ?thesis using assms(2) by simp
  next
    case some
    have "unat ?i < unat (qmap_mode st)"
      using some(1) by (simp add: word_le_nat_alt unat_ucast8 not_le)
    from hold_inv [OF assms(2) this some(2)] show ?thesis by (simp add: some(3))
  qed
qed

lemma count_view: "queue_inv (count_command k st) = queue_inv st"
  by (simp add: queue_inv_def queue_view_def count_command_def)

lemma send_ack_inv:
  "rmnet_map_send_ack ty frame st = Some st' \<Longrightarrow> queue_inv st \<Longrightarrow> queue_inv st'"
  by (rule inv_same [of _ st])
     (auto simp: rmnet_map_send_ack_def bind_eq_Some_conv emit_def Let_def alloc_skb_def queue_view_def
      split: if_splits list.splits)

lemma map_command_inv:
  assumes "rmnet_data_map_command frame st = Some st'" and "queue_inv st"
  shows "queue_inv st'"
proof -
  from assms(1) obtain name where name: "rd8 frame 4 = Some name"
    by (auto simp: rmnet_data_map_command_def bind_eq_Some_conv)
  let ?st = "if unat name < RMNET_MAP_COMMAND_ENUM_LENGTH then count_command (unat name) st else st"
  from assms(1) name obtain rc st1
    where r: "(if name = RMNET_MAP_COMMAND_FLOW_ENABLE then rmnet_map_do_flow_control frame True ?st
        else if name = RMNET_MAP_COMMAND_FLOW_DISABLE then rmnet_map_do_flow_control frame False ?st
        else Some (RMNET_MAP_COMMAND_UNSUPPORTED, count_command RMNET_MAP_COMMAND_UNKNOWN ?st)) =
          Some (rc, st1)"
      "(if rc = RMNET_MAP_COMMAND_ACK then rmnet_map_send_ack rc frame st1 else Some st1) = Some st'"
    by (auto simp: rmnet_data_map_command_def bind_eq_Some_conv Let_def)
  have "queue_inv ?st" using assms(2) by (simp add: count_view)
  then have "queue_inv st1"
    using r(1) flow_control_inv by (auto simp: count_view split: if_splits)
  then show ?thesis
    using r(2) send_ack_inv by (auto split: if_splits)
qed

lemma counted_inv:
  assumes "vnd_at st i = Some (Some v)" and "queue_inv st" and "same_queues st st1"
  shows "queue_inv (set_vnd i (rmnet_vnd_upate_rx_stats n k v) st1)"
proof -
  have "vnd_at st1 i = Some (Some v)" "queue_view st1 = queue_view st"
    using assms(1,3) by (simp_all add: same_queues_def)
  then have "queue_view (set_vnd i (rmnet_vnd_upate_rx_stats n k v) st1) = queue_view st"
    using view_set_same [of st1 i v "rmnet_vnd_upate_rx_stats n k v"]
    by (simp add: rmnet_vnd_upate_rx_stats_def)
  from inv_same [OF this assms(2)] show ?thesis .
qed

lemma qmi_rx_to_inv:
  assumes "vnd_at st i = Some (Some v)" and "queue_inv st"
  shows "always (\<lambda>(nx, c, st'). queue_inv st')
           (qmi_rx_to d b0 pkt_len hdr_size skb_len i v chain st)"
proof -
  obtain ok s where a: "alloc_skb st = (ok, s)" by (cases "alloc_skb st")
  have s: "same_queues st s" by (rule alloc_same_queues [OF a])
  then have "queue_view s = queue_view st" by (simp add: same_queues_def)
  from inv_same [OF this assms(2)] have inv_s: "queue_inv s" .
  have "queue_view (s\<lparr>alloc_failed := n\<rparr>) = queue_view s" for n by (simp add: queue_view_def)
  from inv_same [OF this inv_s] have fs: "queue_inv (s\<lparr>alloc_failed := n\<rparr>)" for n .
  have c: "always queue_inv (rmnet_data_map_command d st)"
    using map_command_inv assms(2) by (auto intro: alwaysI)
  show ?thesis
    unfolding qmi_rx_to_def a Let_def
    by (intro always_if always_option always_prod always_Some always_bind [OF c] always_bind_any)
       (use assms(2) fs counted_inv [OF assms s] in auto)
qed

lemma qmi_rx_pkt_inv:
  assumes "queue_inv st"
  shows "always (\<lambda>(nx, c, st'). queue_inv st') (qmi_rx_pkt d chain st)"
proof -
  have vnd: "always (\<lambda>(nx, c, st'). queue_inv st')
     (Option.bind (vnd_at st i) (\<lambda>vnd. case vnd of None \<Rightarrow> Some (Skip_pkt n, chain, st)
        | Some v \<Rightarrow> qmi_rx_to d b0 p h k i v chain st))" for i n b0 p h k
  proof (cases "vnd_at st i")
    case (Some x)
    then show ?thesis
      using assms qmi_rx_to_inv by (cases x) (auto intro: always_Some)
  qed (simp add: always_def)
  show ?thesis
    unfolding qmi_rx_pkt_def Let_def
    by ((rule always_bind_any)+, rule always_if, rule always_Some, simp add: assms, rule vnd)
qed

lemma qmi_rx_loop_inv:
  assumes "qmi_rx_loop d chain st = Some r" and "queue_inv st"
  shows "always (\<lambda>(c, st'). queue_inv st') r"
proof -
  have "queue_inv st \<longrightarrow> always (\<lambda>(c, st'). queue_inv st') r"
  proof (rule qmi_rx_loop.raw_induct
      [where P = "\<lambda>d c st r. queue_inv st \<longrightarrow> always (\<lambda>(c, st'). queue_inv st') r", OF _ assms(1)])
    fix f d c st r
    assume IH: "\<And>d c st r. f d c st = Some r \<Longrightarrow>
        queue_inv st \<longrightarrow> always (\<lambda>(c, st'). queue_inv st') r"
      and eq: "(if \<not> 4 < length d then Some (Some (c, st))
         else case qmi_rx_pkt d c st of
           None \<Rightarrow> Some None
         | Some (next, chain, st) \<Rightarrow>
             (case next of
                Error_pkt \<Rightarrow> Some (Some (chain, st))
              | Skip_pkt n \<Rightarrow> f (skb_pull n d) chain st)) = Some r"
    show "queue_inv st \<longrightarrow> always (\<lambda>(c, st'). queue_inv st') r"
      using eq IH alwaysD [OF qmi_rx_pkt_inv, of st d c]
      by (auto simp: always_def split: if_splits option.splits rx_next.splits)
  qed
  then show ?thesis using assms(2) by simp
qed

lemma deliver_inv:
  assumes "queue_inv st"
  shows "always queue_inv (deliver_chain chain st)"
  using assms
proof (induction chain arbitrary: st)
  case Nil
  then show ?case by (simp add: always_Some)
next
  case (Cons s chain)
  have "always queue_inv (qmap_rx_deliver s st)"
  proof (rule alwaysI)
    fix st' assume r: "qmap_rx_deliver s st = Some st'"
    have "queue_view st' = queue_view st"
      using r view_set_same [of st "rx_dev s"]
      by (auto simp: qmap_rx_deliver_def bind_eq_Some_conv split: if_splits option.splits)
    from inv_same [OF this Cons.prems] show "queue_inv st'" .
  qed
  then show ?case using Cons.IH by (auto intro: always_bind)
qed

lemma qmi_handler_inv:
  assumes "rmnet_qmi_rx_handler d st = Some (Some st')" and "queue_inv st"
  shows "queue_inv st'"
  using assms qmi_rx_loop_inv [of d "[]" st] alwaysD [OF deliver_inv]
  by (auto simp: rmnet_qmi_rx_handler_def bind_eq_Some_conv always_def)

lemma mbim_rx_frames_inv:
  assumes "queue_inv st"
  shows "always (\<lambda>(nx, c, st'). queue_inv st') (mbim_rx_frames d i n pos chain st)"
  using assms
proof (induction n arbitrary: pos chain st)
  case 0
  then show ?case by (simp add: always_Some)
next
  case (Suc n)
  obtain ok s where a: "alloc_skb st = (ok, s)" by (cases "alloc_skb st")
  have s: "same_queues st s" by (rule alloc_same_queues [OF a])
  then have view: "queue_view s = queue_view st" by (simp add: same_queues_def)
  from inv_same [OF view Suc.prems] have inv_s: "queue_inv s" .
  have "queue_view (s\<lparr>alloc_failed := k\<rparr>) = queue_view s" for k by (simp add: queue_view_def)
  from inv_same [OF this inv_s] have fs: "queue_inv (s\<lparr>alloc_failed := k\<rparr>)" for k .
  have step: "always (\<lambda>(nx, c, st'). queue_inv st')
     (Option.bind (vnd_at s i) (\<lambda>vnd. Option.bind vnd (\<lambda>v. mbim_rx_frames d i n (pos + 4)
        (chain @ [rx_packet i v pr p]) (set_vnd i (rmnet_vnd_upate_rx_stats 1 (ucast l) v) s))))"
    for pr p and l :: u16
  proof (cases "vnd_at s i")
    case (Some x)
    show ?thesis
    proof (cases x)
      case (Some v)
      have "queue_inv (set_vnd i (rmnet_vnd_upate_rx_stats 1 (ucast l) v) s)"
        using \<open>vnd_at s i = Some x\<close> Some by (intro counted_inv [OF _ inv_s same_queues_refl]) simp
      from Suc.IH [OF this] show ?thesis using \<open>vnd_at s i = Some x\<close> Some by simp
    qed (simp add: Some always_def)
  qed (simp add: always_def)
  show ?case
    unfolding mbim_rx_frames.simps a Let_def prod.case
    by ((rule always_bind_any)+, intro always_if always_Some, simp add: Suc.prems, simp add: Suc.prems,
        simp add: fs, rule always_bind_any, rule always_option, rule always_Some, simp add: inv_s,
        rule always_bind_any, rule step)
qed

lemma mbim_rx_ndp_inv:
  assumes "queue_inv st"
  shows "always (\<lambda>(nx, c, st'). queue_inv st') (mbim_rx_ndp d pos chain st)"
  unfolding mbim_rx_ndp_def Let_def
  by (intro always_if always_Some always_option always_bind_any
      always_bind [OF mbim_rx_frames_inv [OF assms]] always_prod)
     (auto simp: assms always_def)

lemma mbim_rx_loop_inv:
  assumes "mbim_rx_loop d pos chain st = Some r" and "queue_inv st"
  shows "always (\<lambda>(c, st'). queue_inv st') r"
proof -
  have "queue_inv st \<longrightarrow> always (\<lambda>(c, st'). queue_inv st') r"
  proof (rule mbim_rx_loop.raw_induct
      [where P = "\<lambda>d pos c st r. queue_inv st \<longrightarrow> always (\<lambda>(c, st'). queue_inv st') r", OF _ assms(1)])
    fix f d pos c st r
    assume IH: "\<And>d pos c st r. f d pos c st = Some r \<Longrightarrow>
        queue_inv st \<longrightarrow> always (\<lambda>(c, st'). queue_inv st') r"
      and eq: "(if \<not> 0 < pos then Some (Some (c, st))
         else case mbim_rx_ndp d pos c st of
           None \<Rightarrow> Some None
         | Some (next, chain, st) \<Rightarrow>
             (case next of
                None \<Rightarrow> Some (Some (chain, st))
              | Some ndpoffset \<Rightarrow> f d ndpoffset chain st)) = Some r"
    show "queue_inv st \<longrightarrow> always (\<lambda>(c, st'). queue_inv st') r"
      using eq IH alwaysD [OF mbim_rx_ndp_inv, of st d pos c]
      by (auto simp: always_def split: if_splits option.splits)
  qed
  then show ?thesis using assms(2) by simp
qed

lemma mbim_handler_inv:
  assumes "rmnet_mbim_rx_handler d st = Some (Some st')" and "queue_inv st"
  shows "queue_inv st'"
proof -
  from assms(1) obtain nx st1 where h: "mbim_rx_header d st = Some (nx, st1)"
    by (auto simp: rmnet_mbim_rx_handler_def split: option.splits)
  have "queue_view st1 = queue_view st"
    using h by (auto simp: mbim_rx_header_def bind_eq_Some_conv queue_view_def split: if_splits)
  from inv_same [OF this assms(2)] have "queue_inv st1" .
  then have l: "queue_inv b" if "mbim_rx_loop d p [] st1 = Some (Some (a, b))" for p a b
    using mbim_rx_loop_inv [OF that] by (simp add: always_def)
  show ?thesis
  proof (cases nx)
    case None
    then show ?thesis using assms(1) h \<open>queue_inv st1\<close> by (simp add: rmnet_mbim_rx_handler_def)
  next
    case (Some p)
    then obtain a b where "mbim_rx_loop d p [] st1 = Some (Some (a, b))" "deliver_chain a b = Some st'"
      using assms(1) h by (auto simp: rmnet_mbim_rx_handler_def bind_eq_Some_conv)
    then show ?thesis using l alwaysD [OF deliver_inv] by blast
  qed
qed

lemma rx_handler_inv:
  assumes "rmnet_rx_handler pskb loopback protocol cloned st = Some (Some (r, st'))"
    and "queue_inv st"
  shows "queue_inv st'"
proof -
  have rec: "queue_inv (s\<lparr>rx_recycled := n\<rparr>) = queue_inv s" for s n
    by (simp add: queue_inv_def queue_view_def)
  show ?thesis
    using assms mbim_handler_inv qmi_handler_inv
    by (auto simp: rmnet_rx_handler_def rec split: if_splits option.splits)
qed

lemma link_state_inv:
  assumes "link_state_store new st = Some st'" and "queue_inv st"
  shows "queue_inv st'"
proof -
  let ?l = "link_state_next (qmap_mode st) new (link_state st)"
  let ?i = "link_offset (qmap_mode st) new"
  let ?st = "st\<lparr>link_state := ?l, ndev_carrier := ?l \<noteq> 0\<rparr>"
  have v: "queue_view ?st = queue_view st" by (simp add: queue_view_def)
  have at: "vnd_at ?st i = vnd_at st i" for i by (simp add: vnd_at_def)
  have "queue_view st' = queue_view st"
    using assms(1) v at view_set_same [of ?st ?i]
    by (auto simp: link_state_store_def Let_def bind_eq_Some_conv split: if_splits option.splits)
  from inv_same [OF this assms(2)] show ?thesis .
qed

section \<open>The life of the interface\<close>

text \<open>
  What can happen to an interface, each handler running to its end: a received block, the deadline
  (once it is armed), a packet on a virtual interface, a frame on the parent, a completed transfer,
  a change of the link state, a reset.
\<close>

inductive net_step :: "mhi_netdev \<Rightarrow> mhi_netdev \<Rightarrow> bool" where
  received: "rmnet_rx_handler pskb loopback protocol cloned st = Some (Some (r, st')) \<Longrightarrow> net_step st st'"
| deadline: "fc_armed st \<Longrightarrow> mhi_netdev_fc_timeout st = Some st' \<Longrightarrow> net_step st st'"
| packet: "rmnet_vnd_start_xmit err s i st = Some (t, st') \<Longrightarrow> net_step st st'"
| frame: "mhi_netdev_xmit free res d protocol st = Some st' \<Longrightarrow> net_step st st'"
| completed: "mhi_netdev_xfer_ul_cb bound status packets len free st = Some st' \<Longrightarrow> net_step st st'"
| link: "link_state_store new st = Some st' \<Longrightarrow> net_step st st'"
| reset: "mhi_netdev_debugfs_trigger_reset ret st = Some (r', st') \<Longrightarrow> net_step st st'"

text \<open>The interface as the probe leaves it: its entries registered, every queue running.\<close>

definition net_start :: "mhi_netdev \<Rightarrow> bool" where
  "net_start st \<longleftrightarrow> length (mpQmapNetDev st) = 8 \<and> unat (qmap_mode st) \<le> 8 \<and>
     (\<forall>i < unat (qmap_mode st). case mpQmapNetDev st ! i of
        None \<Rightarrow> True | Some v \<Rightarrow> v_live v \<and> \<not> v_stopped v) \<and>
     flow_control st = 0 \<and> \<not> fc_pending st \<and> \<not> fc_armed st"

lemma net_step_inv: "net_step st st' \<Longrightarrow> queue_inv st \<Longrightarrow> queue_inv st'"
  by (induction rule: net_step.induct)
     (blast intro: rx_handler_inv timeout_inv start_xmit_inv xmit_inv ul_cb_inv link_state_inv
      reset_inv)+

lemma net_start_inv: "net_start st \<Longrightarrow> queue_inv st"
proof -
  assume a: "net_start st"
  have "queue_ok (net_enabled st) 0 (ndev_stopped st) i
      (map_option (\<lambda>v. (v_live v, v_stopped v)) (mpQmapNetDev st ! i))"
    if "i < unat (qmap_mode st)" for i
    using a that by (cases "mpQmapNetDev st ! i") (auto simp: net_start_def)
  then show ?thesis using a by (simp add: view_of net_start_def)
qed

lemma net_reachable_inv: "net_step\<^sup>*\<^sup>* st0 st \<Longrightarrow> net_start st0 \<Longrightarrow> queue_inv st"
  by (induction rule: rtranclp_induct) (auto intro: net_start_inv net_step_inv)

text \<open>The deadline runs without a fault, and opens what was held.\<close>

lemma for_vnds_returns:
  assumes "n \<le> length (mpQmapNetDev st)" and "\<And>v. v_live (f v) = v_live v"
    and "\<forall>i < n. vnd_at st i \<noteq> None"
  shows "\<exists>st'. for_vnds P f n st = Some st'"
  using assms(1,3)
proof (induction n)
  case 0
  then show ?case by simp
next
  case (Suc n)
  then obtain st1 where s: "for_vnds P f n st = Some st1" by auto
  from for_vnds_result [OF s assms(2)] obtain vs where vs: "st1 = st\<lparr>mpQmapNetDev := vs\<rparr>"
    "length vs = length (mpQmapNetDev st)"
    "\<forall>i < length vs. vs ! i =
       (if i < n \<and> P i then map_option f (mpQmapNetDev st ! i) else mpQmapNetDev st ! i)" by blast
  have "vs ! n = mpQmapNetDev st ! n" using vs(2,3) Suc.prems(1) by simp
  then have "vnd_at st1 n = vnd_at st n" using vs(1,2) by (simp add: vnd_at_def)
  then obtain x where "vnd_at st1 n = Some x" using Suc.prems(2) by auto
  moreover have "n < length (mpQmapNetDev st1)" using vs(1,2) Suc.prems(1) by simp
  ultimately show ?case using s by (cases x) auto
qed

lemma inv_no_fault: "queue_inv st \<Longrightarrow> i < unat (qmap_mode st) \<Longrightarrow> vnd_at st i \<noteq> None"
  using inv_entry [of st i] inv_sizes [of st] by (cases "mpQmapNetDev st ! i") (auto simp: vnd_at_def)


text \<open>The deadline can lose a stop.  The receive path does not take the lock the deadline's handler runs
  under, so the handler can run after a FLOW_DISABLE command has set its bit and found the deadline
  already armed for another flow, and before the command stops the queue.  The handler clears the
  bit and the deadline and opens the queue, and then the command stops it: the queue is stopped with
  no flow held, no deadline armed and the parent running.  Nothing but a later command of the modem or
  a reset opens it again, against the bound the comment above the handler promises.
\<close>

theorem deadline_race_loses_stop:
  assumes "queue_inv st" and "net_enabled st" and "fc_pending st" and "\<not> ndev_stopped st"
    and "i < unat (qmap_mode st)" and "vnd_at st i = Some (Some v)"
  shows "\<exists>st'. mhi_netdev_fc_timeout (fc_deadline (fc_set_bit i False st)) = Some st' \<and>
           (let end = set_vnd i (rmnet_data_vnd_do_flow_control False v) st' in
            net_enabled end \<and> vnd_at end i = Some (Some (netif_stop_queue v)) \<and>
            v_stopped (netif_stop_queue v) \<and> flow_control end = 0 \<and> \<not> fc_armed end \<and>
            \<not> ndev_stopped end)"
proof -
  note sz = inv_sizes [OF assms(1)]
  let ?st = "fc_deadline (fc_set_bit i False st)"
  have i32: "i < LENGTH(32)" using assms(5) sz(2) by simp
  have "bit (set_bit i (flow_control st)) i" using i32 by (simp add: bit_set_bit_iff)
  then have nz: "set_bit i (flow_control st) \<noteq> 0" by (metis bit_0_eq bot_apply bot_bool_def)
  then have st: "?st = fc_set_bit i False st"
    using assms(3) by (simp add: fc_deadline_def fc_set_bit_def)
  let ?c = "st\<lparr>flow_control := 0, fc_pending := False, fc_armed := False\<rparr>"
  have "vnd_at ?c j = vnd_at st j" for j by (simp add: vnd_at_def)
  then have "\<forall>j < unat (qmap_mode st). vnd_at ?c j \<noteq> None"
    using inv_no_fault [OF assms(1)] by auto
  then obtain st' where r: "for_vnds (bit (set_bit i (flow_control st))) netif_wake_queue
      (unat (qmap_mode st)) ?c = Some st'"
    using for_vnds_returns [of "unat (qmap_mode st)" ?c netif_wake_queue] sz by auto
  then have t: "mhi_netdev_fc_timeout ?st = Some st'"
    using assms(2) unfolding st by (simp add: mhi_netdev_fc_timeout_def fc_set_bit_def Let_def)
  from for_vnds_result [OF r] obtain vs where "st' = ?c\<lparr>mpQmapNetDev := vs\<rparr>"
    "length vs = length (mpQmapNetDev st)" by auto
  then show ?thesis
    using t assms(2,4,5) vnd_at_live [OF assms(6)] sz
    by (simp add: Let_def set_vnd_def vnd_at_def rmnet_data_vnd_do_flow_control_def)
qed

section \<open>MBIM blocks\<close>

lemma rd16_at: "length pre = n \<Longrightarrow> rd16 (pre @ le16 w @ post) n = Some w"
  using rd16_append [of pre "le16 w @ post" 0] by (auto simp: rd16_le16)

lemma rd32_at: "length pre = n \<Longrightarrow> rd32 (pre @ le32 w @ post) n = Some w"
  using rd32_append [of pre "le32 w @ post" 0] by (auto simp: rd32_le32)

lemma poke_at: "length pre = n \<Longrightarrow> length xs = length ys \<Longrightarrow>
    poke n xs (pre @ ys @ post) = Some (pre @ xs @ post)"
  by (auto simp: poke_def)

definition mbim_block :: "bytes \<Rightarrow> u8 \<Rightarrow> bytes \<Rightarrow> bytes" where
  "mbim_block sq tci p =
     le32 USB_CDC_NCM_NTH16_SIGN @ le16 12 @ sq @ le16 (of_nat (28 + length p)) @ le16 12 @
     (take 3 (le32 USB_CDC_MBIM_NDP16_IPS_SIGN) @ [tci]) @ le16 16 @ le16 0 @
     le16 28 @ le16 (of_nat (length p)) @ le16 0 @ le16 0 @ p"

lemma list28:
  assumes "length h = 28"
  obtains h0 h4 sq h8 h10 h12 h16 h18 h20 h22 h24 h26 where
    "h = h0 @ h4 @ sq @ h8 @ h10 @ h12 @ h16 @ h18 @ h20 @ h22 @ h24 @ h26"
    "length h0 = 4" "length h4 = 2" "length sq = 2" "length h8 = 2" "length h10 = 2" "length h12 = 4"
    "length h16 = 2" "length h18 = 2" "length h20 = 2" "length h22 = 2" "length h24 = 2" "length h26 = 2"
proof -
  let ?t = "\<lambda>n k. take k (drop n h)"
  have s: "drop n h = ?t n k @ drop (n + k) h" for n k
    by (metis append_take_drop_id drop_drop add.commute)
  have "h = ?t 0 4 @ ?t 4 2 @ ?t 6 2 @ ?t 8 2 @ ?t 10 2 @ ?t 12 4 @ ?t 16 2 @ ?t 18 2 @ ?t 20 2 @
      ?t 22 2 @ ?t 24 2 @ ?t 26 2"
    using s [of 0 4] s [of 4 2] s [of 6 2] s [of 8 2] s [of 10 2] s [of 12 4] s [of 16 2] s [of 18 2]
      s [of 20 2] s [of 22 2] s [of 24 2] s [of 26 2] assms by simp
  from that [OF this] assms show ?thesis by simp
qed

lemma add_mbim_hdr_result:
  assumes "28 \<le> length (head_room s)"
  shows "\<exists>sq s'. add_mbim_hdr mode s mux = Some (Some s') \<and> length sq = 2 \<and>
           skb_data s' = mbim_block sq (ucast ((ucast mux :: u16) + (if 1 < mode then 1 else 0)))
             (skb_data s)"
proof -
  from skb_push_result [OF assms] obtain h s1
    where push: "skb_push 28 s = Some s1" "skb_data s1 = h @ skb_data s" "length h = 28" by auto
  from list28 [OF push(3)] obtain h0 h4 sq h8 h10 h12 h16 h18 h20 h22 h24 h26 where h:
    "h = h0 @ h4 @ sq @ h8 @ h10 @ h12 @ h16 @ h18 @ h20 @ h22 @ h24 @ h26"
    "length h0 = 4" "length h4 = 2" "length sq = 2" "length h8 = 2" "length h10 = 2" "length h12 = 4"
    "length h16 = 2" "length h18 = 2" "length h20 = 2" "length h22 = 2" "length h24 = 2" "length h26 = 2"
    by blast
  let ?p = "skb_data s"
  let ?L = "le16 (of_nat (28 + length ?p))"
  let ?P = "le16 (of_nat (length ?p))"
  define tci where "tci = (ucast mux :: u16) + (if 1 < mode then 1 else 0)"
  define sign where "sign = take 3 (le32 USB_CDC_MBIM_NDP16_IPS_SIGN) @ [ucast tci]"
  have "length sign = 4" by (simp add: sign_def)
  note h = h this
  have p0: "poke 0 (le32 USB_CDC_NCM_NTH16_SIGN) (h0 @ h4 @ sq @ h8 @ h10 @ h12 @ h16 @ h18 @ h20 @ h22 @ h24 @ h26 @ ?p) =
      Some (le32 USB_CDC_NCM_NTH16_SIGN @ h4 @ sq @ h8 @ h10 @ h12 @ h16 @ h18 @ h20 @ h22 @ h24 @ h26 @ ?p)"
    using poke_at [of "[]" 0 "le32 USB_CDC_NCM_NTH16_SIGN" h0 "h4 @ sq @ h8 @ h10 @ h12 @ h16 @ h18 @ h20 @ h22 @ h24 @ h26 @ ?p"] h(2-) by simp
  have p4: "poke 4 (le16 12) (le32 USB_CDC_NCM_NTH16_SIGN @ h4 @ sq @ h8 @ h10 @ h12 @ h16 @ h18 @ h20 @ h22 @ h24 @ h26 @ ?p) =
      Some (le32 USB_CDC_NCM_NTH16_SIGN @ le16 12 @ sq @ h8 @ h10 @ h12 @ h16 @ h18 @ h20 @ h22 @ h24 @ h26 @ ?p)"
    using poke_at [of "le32 USB_CDC_NCM_NTH16_SIGN" 4 "le16 12" h4 "sq @ h8 @ h10 @ h12 @ h16 @ h18 @ h20 @ h22 @ h24 @ h26 @ ?p"] h(2-) by simp
  have p8: "poke 8 (?L) (le32 USB_CDC_NCM_NTH16_SIGN @ le16 12 @ sq @ h8 @ h10 @ h12 @ h16 @ h18 @ h20 @ h22 @ h24 @ h26 @ ?p) =
      Some (le32 USB_CDC_NCM_NTH16_SIGN @ le16 12 @ sq @ ?L @ h10 @ h12 @ h16 @ h18 @ h20 @ h22 @ h24 @ h26 @ ?p)"
    using poke_at [of "le32 USB_CDC_NCM_NTH16_SIGN @ le16 12 @ sq" 8 "?L" h8 "h10 @ h12 @ h16 @ h18 @ h20 @ h22 @ h24 @ h26 @ ?p"] h(2-) by simp
  have p10: "poke 10 (le16 12) (le32 USB_CDC_NCM_NTH16_SIGN @ le16 12 @ sq @ ?L @ h10 @ h12 @ h16 @ h18 @ h20 @ h22 @ h24 @ h26 @ ?p) =
      Some (le32 USB_CDC_NCM_NTH16_SIGN @ le16 12 @ sq @ ?L @ le16 12 @ h12 @ h16 @ h18 @ h20 @ h22 @ h24 @ h26 @ ?p)"
    using poke_at [of "le32 USB_CDC_NCM_NTH16_SIGN @ le16 12 @ sq @ ?L" 10 "le16 12" h10 "h12 @ h16 @ h18 @ h20 @ h22 @ h24 @ h26 @ ?p"] h(2-) by simp
  have p12: "poke 12 (sign) (le32 USB_CDC_NCM_NTH16_SIGN @ le16 12 @ sq @ ?L @ le16 12 @ h12 @ h16 @ h18 @ h20 @ h22 @ h24 @ h26 @ ?p) =
      Some (le32 USB_CDC_NCM_NTH16_SIGN @ le16 12 @ sq @ ?L @ le16 12 @ sign @ h16 @ h18 @ h20 @ h22 @ h24 @ h26 @ ?p)"
    using poke_at [of "le32 USB_CDC_NCM_NTH16_SIGN @ le16 12 @ sq @ ?L @ le16 12" 12 "sign" h12 "h16 @ h18 @ h20 @ h22 @ h24 @ h26 @ ?p"] h(2-) by simp
  have p16: "poke 16 (le16 16) (le32 USB_CDC_NCM_NTH16_SIGN @ le16 12 @ sq @ ?L @ le16 12 @ sign @ h16 @ h18 @ h20 @ h22 @ h24 @ h26 @ ?p) =
      Some (le32 USB_CDC_NCM_NTH16_SIGN @ le16 12 @ sq @ ?L @ le16 12 @ sign @ le16 16 @ h18 @ h20 @ h22 @ h24 @ h26 @ ?p)"
    using poke_at [of "le32 USB_CDC_NCM_NTH16_SIGN @ le16 12 @ sq @ ?L @ le16 12 @ sign" 16 "le16 16" h16 "h18 @ h20 @ h22 @ h24 @ h26 @ ?p"] h(2-) by simp
  have p18: "poke 18 (le16 0) (le32 USB_CDC_NCM_NTH16_SIGN @ le16 12 @ sq @ ?L @ le16 12 @ sign @ le16 16 @ h18 @ h20 @ h22 @ h24 @ h26 @ ?p) =
      Some (le32 USB_CDC_NCM_NTH16_SIGN @ le16 12 @ sq @ ?L @ le16 12 @ sign @ le16 16 @ le16 0 @ h20 @ h22 @ h24 @ h26 @ ?p)"
    using poke_at [of "le32 USB_CDC_NCM_NTH16_SIGN @ le16 12 @ sq @ ?L @ le16 12 @ sign @ le16 16" 18 "le16 0" h18 "h20 @ h22 @ h24 @ h26 @ ?p"] h(2-) by simp
  have p20: "poke 20 (le16 28) (le32 USB_CDC_NCM_NTH16_SIGN @ le16 12 @ sq @ ?L @ le16 12 @ sign @ le16 16 @ le16 0 @ h20 @ h22 @ h24 @ h26 @ ?p) =
      Some (le32 USB_CDC_NCM_NTH16_SIGN @ le16 12 @ sq @ ?L @ le16 12 @ sign @ le16 16 @ le16 0 @ le16 28 @ h22 @ h24 @ h26 @ ?p)"
    using poke_at [of "le32 USB_CDC_NCM_NTH16_SIGN @ le16 12 @ sq @ ?L @ le16 12 @ sign @ le16 16 @ le16 0" 20 "le16 28" h20 "h22 @ h24 @ h26 @ ?p"] h(2-) by simp
  have p22: "poke 22 (?P) (le32 USB_CDC_NCM_NTH16_SIGN @ le16 12 @ sq @ ?L @ le16 12 @ sign @ le16 16 @ le16 0 @ le16 28 @ h22 @ h24 @ h26 @ ?p) =
      Some (le32 USB_CDC_NCM_NTH16_SIGN @ le16 12 @ sq @ ?L @ le16 12 @ sign @ le16 16 @ le16 0 @ le16 28 @ ?P @ h24 @ h26 @ ?p)"
    using poke_at [of "le32 USB_CDC_NCM_NTH16_SIGN @ le16 12 @ sq @ ?L @ le16 12 @ sign @ le16 16 @ le16 0 @ le16 28" 22 "?P" h22 "h24 @ h26 @ ?p"] h(2-) by simp
  have p24: "poke 24 (le16 0) (le32 USB_CDC_NCM_NTH16_SIGN @ le16 12 @ sq @ ?L @ le16 12 @ sign @ le16 16 @ le16 0 @ le16 28 @ ?P @ h24 @ h26 @ ?p) =
      Some (le32 USB_CDC_NCM_NTH16_SIGN @ le16 12 @ sq @ ?L @ le16 12 @ sign @ le16 16 @ le16 0 @ le16 28 @ ?P @ le16 0 @ h26 @ ?p)"
    using poke_at [of "le32 USB_CDC_NCM_NTH16_SIGN @ le16 12 @ sq @ ?L @ le16 12 @ sign @ le16 16 @ le16 0 @ le16 28 @ ?P" 24 "le16 0" h24 "h26 @ ?p"] h(2-) by simp
  have p26: "poke 26 (le16 0) (le32 USB_CDC_NCM_NTH16_SIGN @ le16 12 @ sq @ ?L @ le16 12 @ sign @ le16 16 @ le16 0 @ le16 28 @ ?P @ le16 0 @ h26 @ ?p) =
      Some (le32 USB_CDC_NCM_NTH16_SIGN @ le16 12 @ sq @ ?L @ le16 12 @ sign @ le16 16 @ le16 0 @ le16 28 @ ?P @ le16 0 @ le16 0 @ ?p)"
    using poke_at [of "le32 USB_CDC_NCM_NTH16_SIGN @ le16 12 @ sq @ ?L @ le16 12 @ sign @ le16 16 @ le16 0 @ le16 28 @ ?P @ le16 0" 26 "le16 0" h26 "?p"] h(2-) by simp
  have len: "length (le32 USB_CDC_NCM_NTH16_SIGN @ le16 12 @ sq @ h8 @ h10 @ h12 @ h16 @ h18 @ h20 @
      h22 @ h24 @ h26 @ ?p) = 28 + length ?p"
    using h(2-) by simp
  have "add_mbim_hdr mode s mux = Some (Some (s1\<lparr>skb_data := mbim_block sq (ucast tci) ?p\<rparr>))"
    unfolding add_mbim_hdr_def tci_def [symmetric] mbim_hdr_size_def Let_def mbim_block_def
      sign_def [symmetric]
    using assms push(1,2) len
    by (simp add: poke_skb_def h(1) p0 p4 p8 p10 p12 p16 p18 p20 p22 p24 p26
        del: of_nat_add length_append)
  then show ?thesis using h(4) by (auto simp: tci_def)
qed

section \<open>Receiving an MBIM block\<close>

lemma mbim_sign_bits:
  "le32_to_cpu 0x49 0x50 0x53 t AND 0x00ffffff = USB_CDC_MBIM_NDP16_IPS_SIGN"
  "(ucast (drop_bit 24 (le32_to_cpu 0x49 0x50 0x53 t)) :: u16) = ucast t"
proof -
  have e: "le32_to_cpu 0x49 0x50 0x53 t = 0x535049 OR push_bit 24 (ucast t)"
    by (simp add: le32_to_cpu_def flip: or.assoc)
  have m: "(0x00ffffff :: u32) = mask 24" by (simp add: mask_eq_exp_minus_1)
  show "le32_to_cpu 0x49 0x50 0x53 t AND 0x00ffffff = USB_CDC_MBIM_NDP16_IPS_SIGN"
    unfolding e m take_bit_eq_mask [symmetric]
    by (simp add: take_bit_push_bit USB_CDC_MBIM_NDP16_IPS_SIGN_def)
  have "drop_bit 24 (push_bit 24 (ucast t :: u32)) = ucast t"
    by (rule bit_word_eqI) (auto simp: bit_simps dest: bit_imp_le_length)
  then have "drop_bit 24 (le32_to_cpu 0x49 0x50 0x53 t) = (ucast t :: u32)"
    unfolding e by simp
  then show "(ucast (drop_bit 24 (le32_to_cpu 0x49 0x50 0x53 t)) :: u16) = ucast t"
    by (simp add: unsigned_ucast_eq) (rule bit_word_eqI, auto simp: bit_simps)
qed

lemma mbim_block_reads:
  assumes "length sq = 2"
  shows "rd32 (mbim_block sq t p) 0 = Some USB_CDC_NCM_NTH16_SIGN"
    "rd16 (mbim_block sq t p) 8 = Some (of_nat (28 + length p))"
    "rd16 (mbim_block sq t p) 10 = Some (12)"
    "rd16 (mbim_block sq t p) 16 = Some (16)"
    "rd16 (mbim_block sq t p) 18 = Some (0)"
    "rd16 (mbim_block sq t p) 20 = Some (28)"
    "rd16 (mbim_block sq t p) 22 = Some (of_nat (length p))"
    "rd16 (mbim_block sq t p) 24 = Some (0)"
    "rd16 (mbim_block sq t p) 26 = Some (0)"
    "rd32 (mbim_block sq t p) 12 = Some (le32_to_cpu 0x49 0x50 0x53 t)"
    "length (mbim_block sq t p) = 28 + length p"
    "\<exists>w. rd16 (mbim_block sq t p) 6 = Some w"
    "p \<noteq> [] \<Longrightarrow> rd8 (mbim_block sq t p) 28 = Some (hd p)"
    "rdn (mbim_block sq t p) 28 (length p) = Some p"
proof -
  define sign where "sign = take 3 (le32 USB_CDC_MBIM_NDP16_IPS_SIGN) @ [t]"
  have s: "length sign = 4" "sign = [0x49, 0x50, 0x53, t]"
    by (simp_all add: sign_def USB_CDC_MBIM_NDP16_IPS_SIGN_def le32_def)
  note l = assms s(1)
  have b: "mbim_block sq t p = le32 USB_CDC_NCM_NTH16_SIGN @ le16 12 @ sq @ le16 (of_nat (28 + length p)) @ le16 12 @ sign @ le16 16 @ le16 0 @ le16 28 @ le16 (of_nat (length p)) @ le16 0 @ le16 0 @ p"
    by (simp add: mbim_block_def sign_def)
  show "rd32 (mbim_block sq t p) 0 = Some USB_CDC_NCM_NTH16_SIGN"
    unfolding b by (rule rd32_le32)
  show "rd16 (mbim_block sq t p) 8 = Some (of_nat (28 + length p))"
    using rd16_at [of "le32 USB_CDC_NCM_NTH16_SIGN @ le16 12 @ sq" 8 "of_nat (28 + length p)" "le16 12 @ sign @ le16 16 @ le16 0 @ le16 28 @ le16 (of_nat (length p)) @ le16 0 @ le16 0 @ p"] l
    by (simp add: b)
  show "rd16 (mbim_block sq t p) 10 = Some (12)"
    using rd16_at [of "le32 USB_CDC_NCM_NTH16_SIGN @ le16 12 @ sq @ le16 (of_nat (28 + length p))" 10 "12" "sign @ le16 16 @ le16 0 @ le16 28 @ le16 (of_nat (length p)) @ le16 0 @ le16 0 @ p"] l
    by (simp add: b)
  show "rd16 (mbim_block sq t p) 16 = Some (16)"
    using rd16_at [of "le32 USB_CDC_NCM_NTH16_SIGN @ le16 12 @ sq @ le16 (of_nat (28 + length p)) @ le16 12 @ sign" 16 "16" "le16 0 @ le16 28 @ le16 (of_nat (length p)) @ le16 0 @ le16 0 @ p"] l
    by (simp add: b)
  show "rd16 (mbim_block sq t p) 18 = Some (0)"
    using rd16_at [of "le32 USB_CDC_NCM_NTH16_SIGN @ le16 12 @ sq @ le16 (of_nat (28 + length p)) @ le16 12 @ sign @ le16 16" 18 "0" "le16 28 @ le16 (of_nat (length p)) @ le16 0 @ le16 0 @ p"] l
    by (simp add: b)
  show "rd16 (mbim_block sq t p) 20 = Some (28)"
    using rd16_at [of "le32 USB_CDC_NCM_NTH16_SIGN @ le16 12 @ sq @ le16 (of_nat (28 + length p)) @ le16 12 @ sign @ le16 16 @ le16 0" 20 "28" "le16 (of_nat (length p)) @ le16 0 @ le16 0 @ p"] l
    by (simp add: b)
  show "rd16 (mbim_block sq t p) 22 = Some (of_nat (length p))"
    using rd16_at [of "le32 USB_CDC_NCM_NTH16_SIGN @ le16 12 @ sq @ le16 (of_nat (28 + length p)) @ le16 12 @ sign @ le16 16 @ le16 0 @ le16 28" 22 "of_nat (length p)" "le16 0 @ le16 0 @ p"] l
    by (simp add: b)
  show "rd16 (mbim_block sq t p) 24 = Some (0)"
    using rd16_at [of "le32 USB_CDC_NCM_NTH16_SIGN @ le16 12 @ sq @ le16 (of_nat (28 + length p)) @ le16 12 @ sign @ le16 16 @ le16 0 @ le16 28 @ le16 (of_nat (length p))" 24 "0" "le16 0 @ p"] l
    by (simp add: b)
  show "rd16 (mbim_block sq t p) 26 = Some (0)"
    using rd16_at [of "le32 USB_CDC_NCM_NTH16_SIGN @ le16 12 @ sq @ le16 (of_nat (28 + length p)) @ le16 12 @ sign @ le16 16 @ le16 0 @ le16 28 @ le16 (of_nat (length p)) @ le16 0" 26 "0" "p"] l
    by (simp add: b)
  have "rd32 (sign @ le16 16 @ le16 0 @ le16 28 @ le16 (of_nat (length p)) @ le16 0 @ le16 0 @ p) 0 = Some (le32_to_cpu 0x49 0x50 0x53 t)"
    by (simp add: s(2) rd32_def)
  then show "rd32 (mbim_block sq t p) 12 = Some (le32_to_cpu 0x49 0x50 0x53 t)"
    using rd32_append [of "le32 USB_CDC_NCM_NTH16_SIGN @ le16 12 @ sq @ le16 (of_nat (28 + length p)) @ le16 12" "sign @ le16 16 @ le16 0 @ le16 28 @ le16 (of_nat (length p)) @ le16 0 @ le16 0 @ p" 0] l by (simp add: b)
  show len: "length (mbim_block sq t p) = 28 + length p" using l by (simp add: b)
  show "\<exists>w. rd16 (mbim_block sq t p) 6 = Some w" using len by (simp add: rd16_def)
  show "rd8 (mbim_block sq t p) 28 = Some (hd p)" if "p \<noteq> []"
  proof -
    have "rd8 p 0 = Some (hd p)" using that by (cases p) simp_all
    then show ?thesis
      using rd8_append [of "le32 USB_CDC_NCM_NTH16_SIGN @ le16 12 @ sq @ le16 (of_nat (28 + length p)) @ le16 12 @ sign @ le16 16 @ le16 0 @ le16 28 @ le16 (of_nat (length p)) @ le16 0 @ le16 0" p 0] l by (simp add: b)
  qed
  show "rdn (mbim_block sq t p) 28 (length p) = Some p"
    using rdn_append [of "le32 USB_CDC_NCM_NTH16_SIGN @ le16 12 @ sq @ le16 (of_nat (28 + length p)) @ le16 12 @ sign @ le16 16 @ le16 0 @ le16 28 @ le16 (of_nat (length p)) @ le16 0 @ le16 0" p 0 "length p"] l by (simp add: b rdn_def)
qed

text \<open>The session id an interface's frames carry, and the interface it stands for.\<close>

definition session_mux :: "mhi_netdev \<Rightarrow> nat \<Rightarrow> u8" where
  "session_mux st i = of_nat (unat (mbim_mux_id st) + i)"

definition session_tci :: "mhi_netdev \<Rightarrow> nat \<Rightarrow> u16" where
  "session_tci st i = (ucast (session_mux st i) :: u16) + (if 1 < qmap_mode st then 1 else 0)"

lemma unat_session_tci:
  assumes "unat (mbim_mux_id st) + i + 1 < 256"
  shows "unat (ucast (ucast (session_tci st i) :: u8) :: u16) =
           unat (mbim_mux_id st) + i + (if 1 < qmap_mode st then 1 else 0)"
proof -
  let ?m = "unat (mbim_mux_id st) + i"
  have m: "unat (session_mux st i) = ?m"
    using assms by (simp add: session_mux_def unat_of_nat del: of_nat_add)
  have "unat (session_tci st i) = ?m + (if 1 < qmap_mode st then 1 else 0)"
    using assms m
    by (simp add: session_tci_def unat_word_ariths unsigned_ucast_eq take_bit_nat_eq_self)
  then show ?thesis
    using assms by (simp add: unsigned_ucast_eq unsigned_take_bit_eq take_bit_nat_eq_self)
qed

lemma session_index:
  assumes "unat (mbim_mux_id st) + i + 1 < 256" and "i < unat (qmap_mode st)"
    and "t = (ucast (ucast (session_tci st i) :: u8) :: u16)"
  shows "\<not> (qmap_mode st = 1 \<and> ucast t \<noteq> mbim_mux_id st \<or>
             1 < qmap_mode st \<and> qmap_mode st < ucast t - mbim_mux_id st)"
    and "(if qmap_mode st = 1 then 0 else unat (ucast t - 1 - mbim_mux_id st)) = i"
proof -
  have t: "unat t = unat (mbim_mux_id st) + i + (if 1 < qmap_mode st then 1 else 0)"
    unfolding assms(3) by (rule unat_session_tci [OF assms(1)])
  have u: "unat (ucast t :: u32) = unat t"
    using t assms(1) by (simp add: unsigned_ucast_eq take_bit_nat_eq_self)
  have mode: "qmap_mode st = 1 \<or> 1 < qmap_mode st"
    using assms(2) by (auto simp: word_less_nat_alt word_unat_eq_iff)
  have one: "i = 0" if "qmap_mode st = 1" using assms(2) that by simp
  have d: "unat (ucast t - mbim_mux_id st) = i + 1" if "1 < qmap_mode st"
    using t u that by (subst unat_sub) (simp_all add: word_le_nat_alt)
  have e: "unat (ucast t - 1 - mbim_mux_id st) = i" if "1 < qmap_mode st"
  proof -
    have c: "(ucast t :: u32) - 1 - mbim_mux_id st = (ucast t - mbim_mux_id st) - 1" by simp
    have "1 \<le> (ucast t :: u32) - mbim_mux_id st" using d [OF that] by (simp add: word_le_nat_alt)
    then show ?thesis unfolding c using d [OF that] by (simp add: unat_sub)
  qed
  show "\<not> (qmap_mode st = 1 \<and> ucast t \<noteq> mbim_mux_id st \<or>
             1 < qmap_mode st \<and> qmap_mode st < ucast t - mbim_mux_id st)"
    using mode one t u d assms(2) by (auto simp: word_less_nat_alt word_unat_eq_iff)
  show "(if qmap_mode st = 1 then 0 else unat (ucast t - 1 - mbim_mux_id st)) = i"
    using mode one e by auto
qed

definition mbim_sendable :: "mhi_netdev \<Rightarrow> nat \<Rightarrow> vnd \<Rightarrow> skb \<Rightarrow> bool" where
  "mbim_sendable st i v s \<longleftrightarrow>
     net_type st = MHI_NET_MBIM \<and> i < unat (qmap_mode st) \<and> vnd_at st i = Some (Some v) \<and>
     mux_id v = session_mux st i \<and> unat (mbim_mux_id st) + i + 1 < 256 \<and>
     28 \<le> length (head_room s) \<and> skb_data s \<noteq> [] \<and> ip_protocol (hd (skb_data s)) \<noteq> None \<and>
     28 + length (skb_data s) < 65536 \<and> 28 + length (skb_data s) \<le> unat (rx_max st)"

lemma mbim_block_received:
  assumes "mbim_sendable st i v s" and "allocs st = []" and "length sq = 2"
    and "ip_protocol (hd (skb_data s)) = Some pr"
  shows "\<exists>k. mbim_rx_header (mbim_block sq (ucast (session_tci st i)) (skb_data s)) st =
             Some (Some 12, st\<lparr>rx_seq := k\<rparr>) \<and>
           mbim_rx_loop (mbim_block sq (ucast (session_tci st i)) (skb_data s)) 12 [] (st\<lparr>rx_seq := k\<rparr>) =
             Some (Some ([rx_packet i v pr (skb_data s)],
               set_vnd i (rmnet_vnd_upate_rx_stats 1 (of_nat (length (skb_data s))) v)
                 (st\<lparr>rx_seq := k\<rparr>)))"
proof -
  let ?p = "skb_data s"
  let ?t = "ucast (session_tci st i) :: u8"
  let ?d = "mbim_block sq ?t ?p"
  from assms(1) have x: "i < unat (qmap_mode st)" "vnd_at st i = Some (Some v)"
    "unat (mbim_mux_id st) + i + 1 < 256" "?p \<noteq> []" "28 + length ?p < 65536"
    "28 + length ?p \<le> unat (rx_max st)"
    by (simp_all add: mbim_sendable_def)
  note r = mbim_block_reads [OF assms(3), where t = ?t and p = ?p]
  from r(12) obtain w where w: "rd16 ?d 6 = Some w" by blast
  let ?st = "st\<lparr>rx_seq := w + 1\<rparr>"
  have l: "unat (of_nat (28 + length ?p) :: u16) = 28 + length ?p"
    "unat (of_nat (length ?p) :: u16) = length ?p"
    using x(5) by (simp_all add: unat_of_nat16 del: of_nat_add)
  have l32: "unat (ucast (of_nat (28 + length ?p) :: u16) :: u32) = 28 + length ?p"
    "unat (ucast (of_nat (length ?p) :: u16) :: u32) = length ?p"
    using x(5) l by (simp_all add: unsigned_ucast_eq take_bit_nat_eq_self del: of_nat_add)
  have nz: "(of_nat (length ?p) :: u16) \<noteq> 0" using l(2) x(4) by auto
  have hdr: "mbim_rx_header ?d st = Some (Some 12, ?st)"
    using x(6) l32(1) by (simp add: mbim_rx_header_def r w word_less_nat_alt del: of_nat_add)
  have c: "(ucast (of_nat (length ?p) :: u16) :: u64) = of_nat (length ?p)"
    using l(2) by (metis of_nat_unat)
  have "vnd_at ?st i = vnd_at st i" by (simp add: vnd_at_def)
  then have at: "vnd_at ?st i = Some (Some v)" using x(2) by simp
  let ?fin = "set_vnd i (rmnet_vnd_upate_rx_stats 1 (of_nat (length ?p)) v) ?st"
  have "mbim_rx_frames ?d i (Suc (Suc 0)) 20 [] ?st = Some (Ndp_done, [rx_packet i v pr ?p], ?fin)"
    using x(4,6) l l32(2) nz assms(2,4) at c
    by (simp add: r alloc_skb_def word_less_nat_alt del: of_nat_add)
  then have frames: "mbim_rx_frames ?d i 2 20 [] ?st = Some (Ndp_done, [rx_packet i v pr ?p], ?fin)"
    by (simp only: numeral_2_eq_2)
  note idx = session_index [OF x(3,1) refl]
  have ndp: "mbim_rx_ndp ?d 12 [] ?st = Some (Some 0, [rx_packet i v pr ?p], ?fin)"
  proof -
    have off: "12 + 4 = (16 :: nat)" "12 + 6 = (18 :: nat)" "12 + 8 = (20 :: nat)"
      "(unat (16 :: u16) - 8) div 4 = 2" by simp_all
    have g: "\<not> length ?d < 20" "\<not> (16 :: u16) < 0x10" "\<not> length ?d < 8 + 2 * 4"
      "\<not> length (mpQmapNetDev ?st) \<le> i"
      using r(11) vnd_at_bound [OF x(2)] by simp_all
    have tci: "mbim_tci (le32_to_cpu 0x49 0x50 0x53 ?t) = Some (ucast ?t)"
      by (simp add: mbim_tci_def mbim_sign_bits)
    have sel: "qmap_mode ?st = qmap_mode st" "mbim_mux_id ?st = mbim_mux_id st" by simp_all
    show ?thesis
      unfolding mbim_rx_ndp_def
      by (simp only: off r g tci sel idx frames Let_def Option.bind.simps option.case prod.case
          if_not_P if_False not_False_eq_True ndp_next.distinct not_True_eq_False)
         simp
  qed
  have "mbim_rx_loop ?d 12 [] ?st = Some (Some ([rx_packet i v pr ?p], ?fin))"
    by (subst mbim_rx_loop.simps, simp add: ndp, subst mbim_rx_loop.simps, simp)
  then show ?thesis using hdr by (intro exI [of _ "w + 1"]) simp
qed


text \<open>
  A block whose NDP names itself as the next one: the loop comes back to it for ever.  Here the NDP
  has no datagram, so that nothing is allocated on the way.
\<close>

lemma mbim_rx_cycle_hangs:
  assumes "mbim_rx_header d st = Some (Some pos, st1)" and "0 < pos" and "pos < 65536"
    and "pos + 12 \<le> length d" and "rd16 d (pos + 4) = Some 0x10" and "rd16 d (pos + 6) = Some (of_nat pos)"
    and "rd16 d (pos + 8) = Some 0" and "rd32 d pos = Some sign" and "mbim_tci sign = Some tci"
    and "16 \<le> length d"
    and "qmap_mode st1 = 1" and "ucast tci = mbim_mux_id st1" and "mpQmapNetDev st1 \<noteq> []"
  shows "rmnet_mbim_rx_handler d st = None"
proof -
  have "\<exists>x. rd16 d (pos + 8 + 2) = Some x" using assms(4) by (simp add: rd16_def)
  then obtain x where x: "rd16 d (pos + 8 + 2) = Some x" ..
  have "mbim_rx_frames d i (Suc n) (pos + 8) c st1 = Some (Ndp_done, c, st1)" for i n c
    using assms(7) x by simp
  from this [of _ 1] have frames: "mbim_rx_frames d i 2 (pos + 8) c st1 = Some (Ndp_done, c, st1)"
    for i c by (simp only: numeral_2_eq_2 One_nat_def)
  have pos: "unat (of_nat pos :: u16) = pos" using assms(3) by (rule unat_of_nat16)
  have ndp: "mbim_rx_ndp d pos c st1 = Some (Some pos, c, st1)" for c
    using assms(4-13) frames pos by (simp add: mbim_rx_ndp_def Let_def)
  have "mbim_rx_loop d pos c st1 = None" for c
  proof (rule ccontr)
    assume "mbim_rx_loop d pos c st1 \<noteq> None"
    then obtain r where ret: "mbim_rx_loop d pos c st1 = Some r" by blast
    have "\<not> (d = d \<and> pos = pos \<and> st1 = st1)"
    proof (rule mbim_rx_loop.raw_induct
        [where P = "\<lambda>d' p c st' r. \<not> (d' = d \<and> p = pos \<and> st' = st1)", OF _ ret])
      fix f d' p c st' r
      assume IH: "\<And>d' p c st' r. f d' p c st' = Some r \<Longrightarrow> \<not> (d' = d \<and> p = pos \<and> st' = st1)"
        and eq: "(if \<not> 0 < p then Some (Some (c, st'))
           else case mbim_rx_ndp d' p c st' of
             None \<Rightarrow> Some None
           | Some (next, chain, st) \<Rightarrow>
               (case next of
                  None \<Rightarrow> Some (Some (chain, st))
                | Some ndpoffset \<Rightarrow> f d' ndpoffset chain st)) = Some r"
      show "\<not> (d' = d \<and> p = pos \<and> st' = st1)"
      proof
        assume same: "d' = d \<and> p = pos \<and> st' = st1"
        have "f d pos c st1 = Some r" using eq assms(2) by (simp add: same ndp)
        then show False using IH by blast
      qed
    qed
    then show False by simp
  qed
  then show ?thesis using assms(1) by (simp add: rmnet_mbim_rx_handler_def)
qed

text \<open>
  With more than one session, a block for session \<open>mbim_mux_id\<close> itself passes the range check and is
  looked up at index -1.
\<close>

lemma mbim_first_session_faults:
  assumes "pos + 8 \<le> length d" and "rd16 d (pos + 4) = Some 0x10" and "16 \<le> length d"
    and "rd32 d pos = Some sign" and "mbim_tci sign = Some tci" and "1 < qmap_mode st"
    and "ucast tci = mbim_mux_id st" and "length (mpQmapNetDev st) = 8"
  shows "mbim_rx_ndp d pos c st = None"
proof -
  have "unat ((ucast tci :: u32) - 1 - mbim_mux_id st) = unat (- 1 :: u32)"
    using assms(7) by simp
  then have "8 \<le> unat ((ucast tci :: u32) - 1 - mbim_mux_id st)"
    by (simp add: unsigned_minus_1_eq_mask mask_eq_exp_minus_1)
  then show ?thesis
    using assms by (auto simp: mbim_rx_ndp_def Let_def)
qed

section \<open>A concrete interface\<close>

definition example_vnd :: "nat \<Rightarrow> vnd" where
  "example_vnd i = \<lparr>v_live = True, v_mtu = 1500, v_ether = True,
     dev_addr = [0x02, 0x50, 0xf4, 0, 0, of_nat (i + 1)], v_stopped = False, v_carrier = False,
     v_fraglist = False, mux_id = mux_of i, v_qmap_version = 9, bridge_mode = 0, bridge_ipv4 = 0,
     bridge_mac = [0, 0, 0, 0, 0, 0], v_rx_packets = 0, v_rx_bytes = 0, v_tx_packets = 0,
     v_tx_bytes = 0, v_tx_errors = 0\<rparr>"

definition example_netdev :: mhi_netdev where
  "example_netdev = \<lparr>net_type = MHI_NET_RMNET, qmap_mode = 2, qmap_version = 9,
     dl_minimum_padding = 0,
     mpQmapNetDev = [Some (example_vnd 0), Some (example_vnd 1), None, None, None, None, None, None],
     ndev_stopped = False, ndev_carrier = True, ndev_tx_packets = 0, ndev_tx_bytes = 0,
     ndev_tx_errors = 0, link_state = 3, net_enabled = True,
     flow_control = 0, fc_pending = False, fc_armed = False,
     rmnet_map_command_stats = [0, 0, 0, 0, 0, 0, 0, 0, 0, 0], alloc_failed = 0, mbim_mux_id = 0,
     tx_seq = 0, rx_seq = 0, rx_max = 32768, rx_gro = False, rx_gro_fraglist = False,
     rx_csum_trust = True, rx_recycled = 0, allocs = [], effects = []\<rparr>"

text \<open>Two packets, one in each framing, and the command that holds the first flow.\<close>

definition example_out :: "outgoing list" where
  "example_out =
     [(True, 0, \<lparr>head_room = [0, 0, 0, 0, 0, 0, 0, 0], skb_data = [0x45, 1, 2, 3, 4],
                 tail_room = [9, 9, 9]\<rparr>),
      (False, 1, \<lparr>head_room = [0, 0, 0, 0, 0, 0, 0, 0], skb_data = [0x60, 7, 7, 7], tail_room = []\<rparr>)]"

definition hold_frame :: bytes where
  "hold_frame = [0x80, 0x81, 0, 16, 1, 0, 0, 0, 0, 0, 0, 7, 0, 0, 0, 0, 0, 0, 0, 0]"

definition example_held :: mhi_netdev where
  "example_held = example_netdev\<lparr>
     mpQmapNetDev := [Some (netif_stop_queue (example_vnd 0)), Some (example_vnd 1),
       None, None, None, None, None, None],
     flow_control := 1, fc_pending := True, fc_armed := True,
     rmnet_map_command_stats := [0, 1, 0, 0, 0, 0, 0, 0, 0, 0], rx_recycled := 1,
     effects := [Queue_xmit [0x80, 0x81, 0, 16, 1, 1, 0, 0, 0, 0, 0, 7, 0, 0, 0, 0, 0, 0, 0, 0]]\<rparr>"

lemma example_hold:
  "rmnet_rx_handler (Some hold_frame) False ETH_P_MAP False example_netdev =
     Some (Some (RX_HANDLER_CONSUMED, example_held))"
  by code_simp


theorem qmi_rx_handler_returns_witness:
  "\<exists>r. rmnet_qmi_rx_handler [0, 0x81, 0xff, 0xff, 0x45, 0x00] example_netdev = Some r"
proof (rule qmi_rx_handler_returns)
  show "no_null_vnd example_netdev"
    by (auto simp: no_null_vnd_def example_netdev_def vnd_at_def example_vnd_def less_2_cases_iff)
qed

theorem qmi_rx_null_vnd_hangs_witness:
  "rmnet_qmi_rx_handler [0, 0x82, 0xff, 0xff, 0x45, 0x00]
     (example_netdev\<lparr>mpQmapNetDev := [Some (example_vnd 0), None, None, None, None, None, None, None]\<rparr>) =
     None"
  by (rule qmi_rx_null_vnd_hangs [of _ 0 "0x82" "0xffff"])
     (simp_all add: rd8_def rdbe16_def le16_to_cpu_def QUECTEL_QMAP_MUX_ID_def example_netdev_def vnd_at_def)

lemma example_net_start: "net_start example_netdev"
  by (auto simp: net_start_def example_netdev_def example_vnd_def less_2_cases_iff)

lemma held_facts:
  "net_enabled example_held" "0 < unat (qmap_mode example_held)" "fc_pending example_held"
  "vnd_at example_held 0 = Some (Some (netif_stop_queue (example_vnd 0)))"
  "vnd_at example_held 1 = Some (Some (example_vnd 1))"
  "v_stopped (netif_stop_queue (example_vnd 0))" "\<not> ndev_stopped example_held"
  "1 < unat (qmap_mode example_held)"
  by code_simp+


theorem deadline_race_loses_stop_witness:
  "\<exists>st'. mhi_netdev_fc_timeout (fc_deadline (fc_set_bit 1 False example_held)) = Some st' \<and>
     (let end = set_vnd 1 (rmnet_data_vnd_do_flow_control False (example_vnd 1)) st' in
      net_enabled end \<and> vnd_at end 1 = Some (Some (netif_stop_queue (example_vnd 1))) \<and>
      v_stopped (netif_stop_queue (example_vnd 1)) \<and> flow_control end = 0 \<and> \<not> fc_armed end \<and>
      \<not> ndev_stopped end)"
proof (rule deadline_race_loses_stop)
  have "net_step\<^sup>*\<^sup>* example_netdev example_held"
    using net_step.received [OF example_hold] by blast
  from net_reachable_inv [OF this example_net_start] show "queue_inv example_held" .
qed (rule held_facts)+

definition example_mbim_netdev :: mhi_netdev where
  "example_mbim_netdev = example_netdev\<lparr>net_type := MHI_NET_MBIM, mbim_mux_id := 112,
     mpQmapNetDev := [Some ((example_vnd 0)\<lparr>mux_id := 112\<rparr>), Some ((example_vnd 1)\<lparr>mux_id := 113\<rparr>),
       None, None, None, None, None, None]\<rparr>"

definition example_mbim_skb :: skb where
  "example_mbim_skb = \<lparr>head_room = replicate 28 0, skb_data = [0x45, 1, 2, 3, 4], tail_room = []\<rparr>"


end
