(* ===== verification/QList.thy ===== *)
theory QList
  imports Prelude
begin

text \<open>
  The intrusive doubly linked lists of \<^verbatim>\<open>qlist.h\<close> on which the proxies keep their connections and
  requests.  Nodes live in a store, a partial map from addresses to pairs of pointers; an access to an
  address that is not in the store is \<open>None\<close>.  A list is a ring through its head node, and the
  operations are shown to implement those on the list of the items' addresses.  The contract is the
  locale \<open>linked_list\<close>; what the clients do with it, emptying a list from its head, is proved there.
\<close>

section \<open>Nodes and operations\<close>

type_synonym addr = u64

record qlistnode =
  qnext :: addr
  qprev :: addr

type_synonym qstore = "addr \<rightharpoonup> qlistnode"

definition set_next :: "addr \<Rightarrow> addr \<Rightarrow> qstore \<Rightarrow> qstore option" where
  "set_next a v s = do { n \<leftarrow> s a; Some (s(a \<mapsto> n\<lparr>qnext := v\<rparr>)) }"

definition set_prev :: "addr \<Rightarrow> addr \<Rightarrow> qstore \<Rightarrow> qstore option" where
  "set_prev a v s = do { n \<leftarrow> s a; Some (s(a \<mapsto> n\<lparr>qprev := v\<rparr>)) }"

definition qlist_init :: "addr \<Rightarrow> qstore \<Rightarrow> qstore option" where
  "qlist_init node s = do {
     s \<leftarrow> set_next node node s;
     set_prev node node s }"

definition qlist_add_tail :: "addr \<Rightarrow> addr \<Rightarrow> qstore \<Rightarrow> qstore option" where
  "qlist_add_tail head item s = do {
     s \<leftarrow> set_next item head s;
     h \<leftarrow> s head;
     s \<leftarrow> set_prev item (qprev h) s;
     h \<leftarrow> s head;
     s \<leftarrow> set_next (qprev h) item s;
     set_prev head item s }"

definition qlist_remove :: "addr \<Rightarrow> qstore \<Rightarrow> qstore option" where
  "qlist_remove item s = do {
     i \<leftarrow> s item;
     s \<leftarrow> set_prev (qnext i) (qprev i) s;
     i \<leftarrow> s item;
     set_next (qprev i) (qnext i) s }"

definition qlist_empty :: "addr \<Rightarrow> qstore \<Rightarrow> bool option" where
  "qlist_empty list s = do { n \<leftarrow> s list; Some (list = qnext n) }"

definition qlist_head :: "addr \<Rightarrow> qstore \<Rightarrow> addr option" where
  "qlist_head list s = do { n \<leftarrow> s list; Some (qnext n) }"

text \<open>
  The nodes that \<open>qlist_for_each\<close> visits from \<open>node\<close> on.  On a broken list the walk may not end; the
  outer \<open>None\<close> is such a walk, the inner one an access outside the store.
\<close>

partial_function (option) qlist_walk :: "addr \<Rightarrow> addr \<Rightarrow> qstore \<Rightarrow> addr list option option" where
  "qlist_walk list node s =
     (if node = list then Some (Some [])
      else case s node of
        None \<Rightarrow> Some None
      | Some n \<Rightarrow> Option.bind (qlist_walk list (qnext n) s) (\<lambda>r. Some (map_option (Cons node) r)))"

declare qlist_walk.simps [code]

definition qlist_for_each :: "addr \<Rightarrow> qstore \<Rightarrow> addr list option option" where
  "qlist_for_each list s =
     (case s list of None \<Rightarrow> Some None | Some n \<Rightarrow> qlist_walk list (qnext n) s)"

section \<open>Rings\<close>

text \<open>Neighbours in the list point to each other; a list is a ring that starts and ends at its head.\<close>

definition next_of :: "qstore \<Rightarrow> addr \<Rightarrow> addr option" where
  "next_of s a = map_option qnext (s a)"

definition prev_of :: "qstore \<Rightarrow> addr \<Rightarrow> addr option" where
  "prev_of s a = map_option qprev (s a)"

fun linked :: "qstore \<Rightarrow> addr list \<Rightarrow> bool" where
  "linked s (a # b # zs) \<longleftrightarrow> next_of s a = Some b \<and> prev_of s b = Some a \<and> linked s (b # zs)"
| "linked s zs \<longleftrightarrow> True"

definition qring :: "qstore \<Rightarrow> addr \<Rightarrow> addr list \<Rightarrow> bool" where
  "qring s h xs \<longleftrightarrow> distinct (h # xs) \<and> linked s (h # xs @ [h])"

lemma next_of_SomeD: "next_of s a = Some b \<Longrightarrow> \<exists>n. s a = Some n \<and> qnext n = b"
  by (auto simp: next_of_def)

lemma prev_of_SomeD: "prev_of s a = Some b \<Longrightarrow> \<exists>n. s a = Some n \<and> qprev n = b"
  by (auto simp: prev_of_def)

lemma linked_append: "linked s (xs @ a # ys) \<longleftrightarrow> linked s (xs @ [a]) \<and> linked s (a # ys)"
proof (induction xs)
  case (Cons x xs)
  then show ?case by (cases xs) simp_all
qed simp

lemma linked_cong:
  assumes "\<And>a. a \<in> set (butlast zs) \<Longrightarrow> next_of s' a = next_of s a"
    and "\<And>b. b \<in> set (tl zs) \<Longrightarrow> prev_of s' b = prev_of s b"
  shows "linked s' zs = linked s zs"
  using assms
proof (induction s zs rule: linked.induct)
  case (1 s a b zs)
  have "linked s' (b # zs) = linked s (b # zs)"
    by (rule "1.IH") (use "1.prems" in \<open>auto dest: in_set_butlastD\<close>)
  moreover have "next_of s' a = next_of s a" "prev_of s' b = prev_of s b"
    using "1.prems" by simp_all
  ultimately show ?case by simp
qed simp_all

lemma snoc_extend: "h # xs = us @ [p] \<Longrightarrow> h # xs @ zs = us @ p # zs"
  using arg_cong [of "h # xs" "us @ [p]" "\<lambda>l. l @ zs"] by simp

text \<open>Both ends of a list are nodes of the store that know the head.\<close>

lemma qring_ends:
  assumes "qring s h xs"
  obtains nh np where "s h = Some nh" "qnext nh = hd (xs @ [h])" "qprev nh = last (h # xs)"
    "s (last (h # xs)) = Some np" "qnext np = h"
proof -
  let ?p = "last (h # xs)"
  have "h # xs @ [h] = butlast (h # xs) @ ?p # [h]"
    by (metis append_Cons append_butlast_last_id append.assoc append_Nil list.distinct(1))
  then have "linked s (butlast (h # xs) @ ?p # [h])"
    using assms unfolding qring_def by metis
  then have 1: "next_of s ?p = Some h" "prev_of s h = Some ?p"
    by (simp_all add: linked_append [of s _ _ "[h]"])
  have 2: "next_of s h = Some (hd (xs @ [h]))"
    using assms by (cases xs) (simp_all add: qring_def)
  from 1 2 show ?thesis by (auto simp: next_of_def prev_of_def intro: that)
qed

section \<open>The operations on rings\<close>

lemma qlist_init_ring:
  assumes "s node \<noteq> None"
  obtains s' where "qlist_init node s = Some s'" "qring s' node []" "\<And>a. a \<noteq> node \<Longrightarrow> s' a = s a"
proof -
  from assms obtain n where "s node = Some n" by blast
  then have "qlist_init node s = Some (s(node \<mapsto> n\<lparr>qnext := node, qprev := node\<rparr>))"
    by (simp add: qlist_init_def set_next_def set_prev_def)
  then show ?thesis by (rule that) (simp_all add: qring_def next_of_def prev_of_def)
qed

lemma qlist_add_tail_ring:
  assumes r: "qring s h xs" and item: "item \<notin> set (h # xs)" "s item \<noteq> None"
  obtains s' where "qlist_add_tail h item s = Some s'" "qring s' h (xs @ [item])"
    "\<And>a. a \<notin> set (h # xs @ [item]) \<Longrightarrow> s' a = s a"
proof -
  obtain nh np where ends: "s h = Some nh" "qprev nh = last (h # xs)" "s (last (h # xs)) = Some np"
    using r by (rule qring_ends) blast
  define p where "p = last (h # xs)"
  define us where "us = butlast (h # xs)"
  have up: "h # xs = us @ [p]" by (simp add: p_def us_def del: butlast.simps last.simps)
  from item(2) obtain ni where ni: "s item = Some ni" by blast
  have "p \<in> set (h # xs)" unfolding up by simp
  then have neq: "item \<noteq> h" "item \<noteq> p" using item(1) by auto
  define s1 where "s1 = s(item \<mapsto> ni\<lparr>qnext := h, qprev := p\<rparr>)"
  obtain np' where np': "s1 p = Some np'" using ends(3) neq by (simp add: s1_def p_def)
  define s2 where "s2 = s1(p \<mapsto> np'\<lparr>qnext := item\<rparr>)"
  obtain nh' where nh': "s2 h = Some nh'"
    using ends(1) neq np' by (cases "h = p") (simp_all add: s2_def s1_def)
  have e: "s h = Some nh" "qprev nh = p" using ends by (simp_all add: p_def)
  define s3 where "s3 = s2(h \<mapsto> nh'\<lparr>qprev := item\<rparr>)"
  have run: "qlist_add_tail h item s = Some s3"
    using e neq ni np' nh'
    by (cases "h = p") (simp_all add: qlist_add_tail_def set_next_def set_prev_def s1_def s2_def s3_def)
  have v: "h = p \<Longrightarrow> nh' = np'\<lparr>qnext := item\<rparr>" "h \<noteq> p \<Longrightarrow> nh' = nh"
    using nh' e(1) neq by (simp_all add: s1_def s2_def)
  have u: "s p = Some np'" using np' neq by (simp add: s1_def)
  have nx1: "next_of s3 item = Some h" using neq by (simp add: next_of_def s1_def s2_def s3_def)
  have nx2: "next_of s3 p = Some item"
    by (cases "h = p") (simp_all add: next_of_def s2_def s3_def v)
  have nx3: "next_of s3 a = next_of s a" if "a \<noteq> item" "a \<noteq> p" for a
    using that e(1) by (cases "a = h") (simp_all add: next_of_def s1_def s2_def s3_def v)
  have pv1: "prev_of s3 item = Some p" using neq by (simp add: prev_of_def s1_def s2_def s3_def)
  have pv2: "prev_of s3 h = Some item" by (simp add: prev_of_def s3_def)
  have pv3: "prev_of s3 a = prev_of s a" if "a \<noteq> item" "a \<noteq> h" for a
    using that u by (cases "a = p") (simp_all add: prev_of_def s1_def s2_def s3_def)
  have d: "distinct (us @ [p])" using r unfolding qring_def up by simp
  have "linked s (h # xs @ [h])" using r unfolding qring_def by (rule conjunct2)
  then have "linked s (us @ p # [h])" unfolding snoc_extend [OF up] .
  then have "linked s (us @ [p])" using linked_append [of s us p "[h]"] by blast
  moreover have "linked s3 (us @ [p]) = linked s (us @ [p])"
  proof (rule linked_cong)
    fix a assume "a \<in> set (butlast (us @ [p]))"
    then have "a \<in> set us" by simp
    moreover from this have "a \<in> set (h # xs)" unfolding up by simp
    ultimately show "next_of s3 a = next_of s a"
      using d item(1) by (intro nx3) auto
  next
    fix b assume "b \<in> set (tl (us @ [p]))"
    then have "b \<in> set xs" unfolding up [symmetric] by simp
    with item(1) r show "prev_of s3 b = prev_of s b"
      by (intro pv3) (auto simp: qring_def)
  qed
  ultimately have "linked s3 (us @ p # item # [h])"
    using nx1 nx2 pv1 pv2 linked_append [of s3 us p "[item, h]"] by simp
  then have "linked s3 (h # xs @ [item, h])" unfolding snoc_extend [OF up] .
  moreover have "distinct (h # xs @ [item])" using r item(1) unfolding qring_def by auto
  ultimately have "qring s3 h (xs @ [item])" unfolding qring_def by simp
  moreover have "s3 a = s a" if "a \<notin> set (h # xs @ [item])" for a
  proof -
    have "p \<in> set (h # xs)" unfolding up by simp
    with that have "a \<noteq> p" "a \<noteq> h" "a \<noteq> item" by auto
    then show ?thesis by (simp add: s1_def s2_def s3_def)
  qed
  ultimately show ?thesis by (rule that [OF run])
qed

lemma qlist_remove_ring:
  assumes r: "qring s h (xs @ item # ys)"
  obtains s' where "qlist_remove item s = Some s'" "qring s' h (xs @ ys)"
    "\<And>a. a \<notin> set (h # xs @ ys) \<Longrightarrow> s' a = s a"
proof -
  define p where "p = last (h # xs)"
  define us where "us = butlast (h # xs)"
  have up: "h # xs = us @ [p]" by (simp add: p_def us_def del: butlast.simps last.simps)
  define q where "q = hd (ys @ [h])"
  define vs where "vs = tl (ys @ [h])"
  have qv: "ys @ [h] = q # vs" by (simp add: q_def vs_def)
  have d: "distinct (h # xs @ item # ys)" using r by (simp add: qring_def)
  have "linked s (h # xs @ item # ys @ [h])" using r unfolding qring_def by simp
  then have "linked s (us @ p # item # q # vs)" unfolding qv snoc_extend [OF up] .
  then have l: "linked s (us @ [p])" "next_of s p = Some item" "prev_of s item = Some p"
    "next_of s item = Some q" "prev_of s q = Some item" "linked s (q # vs)"
    using linked_append [of s us p "item # q # vs"] by simp_all
  have pin: "p \<in> set (h # xs)" unfolding up by simp
  have qin: "q \<in> set (ys @ [h])" unfolding qv by simp
  have neq: "item \<noteq> p" "item \<noteq> q" using d pin qin by auto
  from l obtain ni nq np where n: "s item = Some ni" "qnext ni = q" "qprev ni = p"
    "s q = Some nq" "s p = Some np"
    by (auto simp: next_of_def prev_of_def)
  define s1 where "s1 = s(q \<mapsto> nq\<lparr>qprev := p\<rparr>)"
  obtain np' where np': "s1 p = Some np'" using n by (cases "p = q") (simp_all add: s1_def)
  define s2 where "s2 = s1(p \<mapsto> np'\<lparr>qnext := q\<rparr>)"
  have run: "qlist_remove item s = Some s2"
    using n neq np' by (cases "p = q") (simp_all add: qlist_remove_def set_next_def set_prev_def s1_def s2_def)
  have v: "p = q \<Longrightarrow> np' = nq\<lparr>qprev := p\<rparr>" "p \<noteq> q \<Longrightarrow> s p = Some np'"
    using np' by (simp_all add: s1_def)
  have nx1: "next_of s2 p = Some q" by (simp add: next_of_def s2_def)
  have nx2: "next_of s2 a = next_of s a" if "a \<noteq> p" for a
    using that n by (cases "a = q") (simp_all add: next_of_def s1_def s2_def)
  have pv1: "prev_of s2 q = Some p"
    by (cases "p = q") (simp_all add: prev_of_def s1_def s2_def v)
  have pv2: "prev_of s2 a = prev_of s a" if "a \<noteq> q" for a
    using that v by (cases "a = p") (simp_all add: prev_of_def s1_def s2_def)
  have "linked s2 (us @ [p]) = linked s (us @ [p])"
  proof (rule linked_cong)
    fix a assume "a \<in> set (butlast (us @ [p]))"
    moreover have "distinct (us @ [p])" using d unfolding up [symmetric] by simp
    ultimately show "next_of s2 a = next_of s a" by (intro nx2) auto
  next
    fix b assume "b \<in> set (tl (us @ [p]))"
    then have "b \<in> set xs" unfolding up [symmetric] by simp
    with d qin show "prev_of s2 b = prev_of s b" by (intro pv2) auto
  qed
  moreover have "linked s2 (q # vs) = linked s (q # vs)"
  proof (rule linked_cong)
    fix a assume "a \<in> set (butlast (q # vs))"
    then have "a \<in> set ys" unfolding qv [symmetric] by simp
    with d pin show "next_of s2 a = next_of s a" by (intro nx2) auto
  next
    fix b assume b: "b \<in> set (tl (q # vs))"
    have "distinct (q # vs)" using d unfolding qv [symmetric] by simp
    with b show "prev_of s2 b = prev_of s b" by (intro pv2) auto
  qed
  ultimately have "linked s2 (us @ p # q # vs)"
    using l nx1 pv1 linked_append [of s2 us p "q # vs"] by simp
  then have "linked s2 (h # xs @ ys @ [h])" unfolding qv snoc_extend [OF up] .
  then have "qring s2 h (xs @ ys)" using d unfolding qring_def by simp
  moreover have "s2 a = s a" if "a \<notin> set (h # xs @ ys)" for a
    using that pin qin by (auto simp: s1_def s2_def)
  ultimately show ?thesis by (rule that [OF run])
qed

lemma qlist_empty_ring: "qring s h xs \<Longrightarrow> qlist_empty h s = Some (xs = [])"
  by (rule qring_ends, assumption, cases xs) (auto simp: qlist_empty_def qring_def)

lemma qlist_head_ring: "qring s h (x # xs) \<Longrightarrow> qlist_head h s = Some x"
  by (erule qring_ends) (simp add: qlist_head_def)

lemma qlist_walk_linked:
  "linked s (xs @ [h]) \<Longrightarrow> h \<notin> set xs \<Longrightarrow> qlist_walk h (hd (xs @ [h])) s = Some (Some xs)"
proof (induction xs)
  case Nil
  show ?case by (subst qlist_walk.simps) simp
next
  case (Cons x xs)
  then obtain n where n: "s x = Some n" "qnext n = hd (xs @ [h])" "linked s (xs @ [h])"
    by (cases xs) (auto dest!: next_of_SomeD)
  moreover have "x \<noteq> h" using Cons.prems(2) by auto
  ultimately show ?case using Cons by (subst qlist_walk.simps) simp
qed

lemma qlist_for_each_ring:
  assumes "qring s h xs"
  shows "qlist_for_each h s = Some (Some xs)"
proof -
  have "linked s (xs @ [h])" using assms by (cases xs) (simp_all add: qring_def)
  moreover have "h \<notin> set xs" using assms by (simp add: qring_def)
  moreover obtain nh where "s h = Some nh" "qnext nh = hd (xs @ [h])"
    using assms by (rule qring_ends)
  ultimately show ?thesis by (simp add: qlist_for_each_def qlist_walk_linked)
qed

section \<open>The contract\<close>

text \<open>
  \<open>holds s h xs\<close> is that the list with head \<open>h\<close> consists of the items \<open>xs\<close>.  The proxies add at the
  tail and take away at the head or in the middle; \<open>pop\<close> is the body of their loops that empty a list.
\<close>

locale linked_list =
  fixes holds :: "'s \<Rightarrow> 'a \<Rightarrow> 'a list \<Rightarrow> bool"
    and add_tail :: "'a \<Rightarrow> 'a \<Rightarrow> 's \<Rightarrow> 's option"
    and remove :: "'a \<Rightarrow> 's \<Rightarrow> 's option"
    and is_empty :: "'a \<Rightarrow> 's \<Rightarrow> bool option"
    and head :: "'a \<Rightarrow> 's \<Rightarrow> 'a option"
    and allocated :: "'s \<Rightarrow> 'a \<Rightarrow> bool"
  assumes add_tail_law: "holds s h xs \<Longrightarrow> item \<notin> set (h # xs) \<Longrightarrow> allocated s item \<Longrightarrow>
      \<exists>s'. add_tail h item s = Some s' \<and> holds s' h (xs @ [item]) \<and>
           (\<forall>a. allocated s a \<longrightarrow> allocated s' a)"
    and remove_law: "holds s h (xs @ item # ys) \<Longrightarrow>
      \<exists>s'. remove item s = Some s' \<and> holds s' h (xs @ ys)"
    and is_empty_law: "holds s h xs \<Longrightarrow> is_empty h s = Some (xs = [])"
    and head_law: "holds s h (x # xs) \<Longrightarrow> head h s = Some x"
begin

lemma add_all:
  assumes "holds s h xs" and "distinct (h # xs @ items)" and "\<forall>i \<in> set items. allocated s i"
  shows "\<exists>s'. fold (\<lambda>i r. Option.bind r (add_tail h i)) items (Some s) = Some s' \<and>
           holds s' h (xs @ items)"
  using assms
proof (induction items arbitrary: s xs)
  case (Cons i items)
  have "i \<notin> set (h # xs)" "allocated s i" using Cons.prems(2,3) by auto
  from add_tail_law [OF Cons.prems(1) this] obtain s'
    where s': "add_tail h i s = Some s'" "holds s' h (xs @ [i])" "\<forall>a. allocated s a \<longrightarrow> allocated s' a"
    by blast
  have "distinct (h # (xs @ [i]) @ items)" using Cons.prems(2) by auto
  moreover have "\<forall>j \<in> set items. allocated s' j" using Cons.prems(3) s'(3) by simp
  ultimately have "\<exists>s''. fold (\<lambda>i r. Option.bind r (add_tail h i)) items (Some s') = Some s'' \<and>
      holds s'' h ((xs @ [i]) @ items)"
    by (rule Cons.IH [OF s'(2)])
  then show ?case using s'(1) by simp
qed simp

text \<open>First in, first out: after the items were added, the heads come off in the same order.\<close>

fun pops :: "'a \<Rightarrow> nat \<Rightarrow> 's \<Rightarrow> ('a list \<times> 's) option" where
  "pops h 0 s = Some ([], s)"
| "pops h (Suc n) s = do {
     i \<leftarrow> head h s;
     s \<leftarrow> remove i s;
     (is, s) \<leftarrow> pops h n s;
     Some (i # is, s) }"

lemma pops_all:
  "holds s h xs \<Longrightarrow> \<exists>s'. pops h (length xs) s = Some (xs, s') \<and> holds s' h []"
proof (induction xs arbitrary: s)
  case (Cons x xs)
  from remove_law [of s h "[]" x xs] Cons.prems
  obtain s' where s': "remove x s = Some s'" "holds s' h xs" by auto
  from Cons.IH [OF this(2)] obtain s'' where "pops h (length xs) s' = Some (xs, s'')" "holds s'' h []"
    by blast
  with s'(1) head_law [OF Cons.prems] show ?case by simp
qed simp

end

lemma set_next_dom: "set_next a v s = Some s' \<Longrightarrow> s x \<noteq> None \<Longrightarrow> s' x \<noteq> None"
  by (cases "s a") (auto simp: set_next_def split: if_splits)

lemma set_prev_dom: "set_prev a v s = Some s' \<Longrightarrow> s x \<noteq> None \<Longrightarrow> s' x \<noteq> None"
  by (cases "s a") (auto simp: set_prev_def split: if_splits)

lemma qlist_add_tail_dom: "qlist_add_tail h i s = Some s' \<Longrightarrow> s x \<noteq> None \<Longrightarrow> s' x \<noteq> None"
  unfolding qlist_add_tail_def by (elim bind_SomeE) (meson set_next_dom set_prev_dom)

interpretation ql: linked_list qring qlist_add_tail qlist_remove qlist_empty qlist_head
  "\<lambda>s a. s a \<noteq> None"
proof
  show "\<exists>s'. qlist_add_tail h item s = Some s' \<and> qring s' h (xs @ [item]) \<and>
      (\<forall>a. s a \<noteq> None \<longrightarrow> s' a \<noteq> None)"
    if ring: "qring s h xs" "item \<notin> set (h # xs)" "s item \<noteq> None" for s h xs item
  proof -
    obtain s' where "qlist_add_tail h item s = Some s'" "qring s' h (xs @ [item])"
      by (rule qlist_add_tail_ring [OF ring])
    then show ?thesis using qlist_add_tail_dom [of h item s s'] by blast
  qed
  show "\<exists>s'. qlist_remove item s = Some s' \<and> qring s' h (xs @ ys)"
    if ring: "qring s h (xs @ item # ys)" for s h xs item ys
  proof -
    obtain s' where "qlist_remove item s = Some s'" "qring s' h (xs @ ys)"
      by (rule qlist_remove_ring [OF ring])
    then show ?thesis by blast
  qed
qed (simp_all add: qlist_empty_ring qlist_head_ring)

section \<open>Refinement\<close>

text \<open>C22:
  The linked lists implement lists of items.  When the nodes from a head on form a ring through the
  items \<open>xs\<close>: the emptiness test and the head are those of \<open>xs\<close>; \<open>qlist_for_each\<close> ends and visits
  exactly \<open>xs\<close> in order; adding an allocated node that is not in the list gives the ring of \<open>xs\<close> with
  the node at its end; removing any item gives the ring of the others in their order.  No access is
  outside the store, and nodes outside the list keep their contents, so that the lists of the proxies
  (connections, the clients of each connection, pending requests) do not disturb each other.
\<close>

theorem qlist_refines_list:
  assumes "qring s h xs"
  shows "qlist_empty h s = Some (xs = []) \<and> (xs \<noteq> [] \<longrightarrow> qlist_head h s = Some (hd xs)) \<and>
    qlist_for_each h s = Some (Some xs) \<and>
    (\<forall>item. item \<notin> set (h # xs) \<longrightarrow> s item \<noteq> None \<longrightarrow>
       (\<exists>s'. qlist_add_tail h item s = Some s' \<and> qring s' h (xs @ [item]) \<and>
             (\<forall>a. a \<notin> set (h # xs @ [item]) \<longrightarrow> s' a = s a))) \<and>
    (\<forall>ys item zs. xs = ys @ item # zs \<longrightarrow>
       (\<exists>s'. qlist_remove item s = Some s' \<and> qring s' h (ys @ zs) \<and>
             (\<forall>a. a \<notin> set (h # ys @ zs) \<longrightarrow> s' a = s a)))"
proof (intro conjI allI impI)
  show "qlist_empty h s = Some (xs = [])" by (rule ql.is_empty_law [OF assms])
  show "qlist_head h s = Some (hd xs)" if "xs \<noteq> []"
    using that assms by (intro ql.head_law [where xs = "tl xs"]) simp
  show "qlist_for_each h s = Some (Some xs)" by (rule qlist_for_each_ring [OF assms])
next
  fix item assume "item \<notin> set (h # xs)" "s item \<noteq> None"
  from qlist_add_tail_ring [OF assms this] obtain s' where
    "qlist_add_tail h item s = Some s'" "qring s' h (xs @ [item])"
    "\<And>a. a \<notin> set (h # xs @ [item]) \<Longrightarrow> s' a = s a"
    by blast
  then show "\<exists>s'. qlist_add_tail h item s = Some s' \<and> qring s' h (xs @ [item]) \<and>
      (\<forall>a. a \<notin> set (h # xs @ [item]) \<longrightarrow> s' a = s a)" by blast
next
  fix ys item zs assume "xs = ys @ item # zs"
  with assms have "qring s h (ys @ item # zs)" by simp
  from qlist_remove_ring [OF this] obtain s' where
    "qlist_remove item s = Some s'" "qring s' h (ys @ zs)" "\<And>a. a \<notin> set (h # ys @ zs) \<Longrightarrow> s' a = s a"
    by blast
  then show "\<exists>s'. qlist_remove item s = Some s' \<and> qring s' h (ys @ zs) \<and>
      (\<forall>a. a \<notin> set (h # ys @ zs) \<longrightarrow> s' a = s a)" by blast
qed

definition example_store :: qstore where
  "example_store =
     [0 \<mapsto> \<lparr>qnext = 8, qprev = 16\<rparr>, 8 \<mapsto> \<lparr>qnext = 16, qprev = 0\<rparr>, 16 \<mapsto> \<lparr>qnext = 0, qprev = 8\<rparr>]"

theorem qlist_refines_list_witness:
  "qlist_for_each 0 example_store = Some (Some [8, 16]) \<and>
   (\<exists>s'. qlist_remove 8 example_store = Some s' \<and> qring s' 0 [16])"
proof -
  have "qring example_store 0 [8, 16]"
    by (simp add: qring_def next_of_def prev_of_def example_store_def)
  from qlist_refines_list [OF this] show ?thesis by (metis append_Nil)
qed

end
