(* ===== verification/QmiProxy.thy ===== *)
theory QmiProxy
  imports Qmux
begin

text \<open>
  The QMI proxy (quectel-qmi-proxy.c): one process owns the control device and lets clients share it
  over a local socket.  Messages of a service are routed by the pair of service and client id that the
  modem assigned; requests of the control service have no client id, so the proxy queues them, keeps
  at most one under way, and gives each response to the client of the request at the head.

  The lists of connections, clients and pending requests are those of \<^verbatim>\<open>qlist.h\<close>, here lists of items
  (the refinement is in \<^verbatim>\<open>QList\<close>).  What the calls of the system return is an input: for each message to
  write whether the descriptor became ready and what \<open>write\<close> returned (\<open>sends\<close>), for each \<open>malloc\<close>
  whether it succeeded, for each descriptor what \<open>poll\<close> and \<open>read\<close> report, and \<open>accept\<close> as a parameter.
  \<open>None\<close> is a fault: a null pointer of a failed \<open>malloc\<close> that is not checked, or the read of bytes
  behind the end of a stored request.  Log output is left out.
\<close>

section \<open>Data\<close>

record qmi_client =
  cl_QMIType :: u8
  cl_ClientId :: u8
  cl_AccessTime :: u32

record qmi_connection =
  client_qnode :: "qmi_client list"
  con_ClientFd :: int
  con_AccessTime :: u32

record qmi_proxy_msg =
  msg_ClientFd :: int
  msg_qmi :: bytes

datatype send_outcome = Sent int | Not_ready int

record qmi_proxy =
  cdc_wdm_fd :: int
  qmi_proxy_server_fd :: int
  qmi_proxy_connection :: "qmi_connection list"
  qmi_proxy_ctl_msg :: "qmi_proxy_msg list"
  qmi_proxy_quit :: nat
  modem_reset_flag :: bool
  qmi_sync_done :: bool
  qmi_buf :: bytes
  loop_running :: bool
  sends :: "send_outcome list"
  malloc_results :: "bool list"
  writes :: "(int \<times> bytes) list"
  closes :: "int list"

definition QMICTL_CTL_FLAG_RSP :: u8 where "QMICTL_CTL_FLAG_RSP = 0x01"
definition QMICTL_CTL_FLAG_IND :: u8 where "QMICTL_CTL_FLAG_IND = 0x02"
definition QMICTL_GET_CLIENT_ID_RESP :: u16 where "QMICTL_GET_CLIENT_ID_RESP = 0x0022"
definition QMICTL_RELEASE_CLIENT_ID_RESP :: u16 where "QMICTL_RELEASE_CLIENT_ID_RESP = 0x0023"
definition QMICTL_REVOKE_CLIENT_ID_IND :: u16 where "QMICTL_REVOKE_CLIENT_ID_IND = 0x0024"
definition QMICTL_SYNC_REQ :: u16 where "QMICTL_SYNC_REQ = 0x0027"

lemmas qctl_consts = QMICTL_CTL_FLAG_RSP_def QMICTL_CTL_FLAG_IND_def QMICTL_GET_CLIENT_ID_RESP_def
  QMICTL_RELEASE_CLIENT_ID_RESP_def QMICTL_REVOKE_CLIENT_ID_IND_def QMICTL_SYNC_REQ_def

section \<open>Sending\<close>

text \<open>
  \<open>poll\<close> waits five seconds for the descriptor; without POLLOUT nothing is written and its result is
  returned.  The size is that of the header's length field.
\<close>

definition send_qmi :: "int \<Rightarrow> bytes \<Rightarrow> qmi_proxy \<Rightarrow> (int \<times> qmi_proxy) option" where
  "send_qmi fd pQMI st =
     (case sends st of
        Not_ready ret # ss \<Rightarrow> Some (ret, st\<lparr>sends := ss\<rparr>)
      | ss \<Rightarrow> do {
          Length \<leftarrow> rd16 pQMI 1;
          let size = unat Length + 1;
          m \<leftarrow> rdn pQMI 0 size;
          Some (case ss of Sent ret # _ \<Rightarrow> ret | _ \<Rightarrow> int size,
                st\<lparr>sends := tl ss, writes := writes st @ [(fd, m)]\<rparr>) })"

definition send_qmi_to_cdc_wdm :: "bytes \<Rightarrow> qmi_proxy \<Rightarrow> (int \<times> qmi_proxy) option" where
  "send_qmi_to_cdc_wdm pQMI st = send_qmi (cdc_wdm_fd st) pQMI st"

definition send_qmi_to_client :: "bytes \<Rightarrow> int \<Rightarrow> qmi_proxy \<Rightarrow> (int \<times> qmi_proxy) option" where
  "send_qmi_to_client pQMI clientFd st = send_qmi clientFd pQMI st"

definition proxy_malloc :: "qmi_proxy \<Rightarrow> bool \<times> qmi_proxy" where
  "proxy_malloc st =
     (case malloc_results st of
        [] \<Rightarrow> (True, st)
      | ok # oks \<Rightarrow> (ok, st\<lparr>malloc_results := oks\<rparr>))"

section \<open>Connections\<close>

fun remove_first :: "('a \<Rightarrow> bool) \<Rightarrow> 'a list \<Rightarrow> 'a list" where
  "remove_first P [] = []"
| "remove_first P (x # xs) = (if P x then xs else x # remove_first P xs)"

text \<open>A connection is stored whatever \<open>accept\<close> returned.\<close>

definition accept_qmi_connection :: "(qmi_proxy \<Rightarrow> int) \<Rightarrow> qmi_proxy \<Rightarrow> qmi_proxy" where
  "accept_qmi_connection acc st =
     (let clientfd = acc st; (ok, st) = proxy_malloc st in
      if ok then
        st\<lparr>qmi_proxy_connection := qmi_proxy_connection st @
             [\<lparr>client_qnode = [], con_ClientFd = clientfd, con_AccessTime = 0\<rparr>]\<rparr>
      else st)"

text \<open>The request with which the proxy gives a client id back to the modem.\<close>

definition release_request :: "u8 \<Rightarrow> u8 \<Rightarrow> bytes" where
  "release_request QMIType ClientId =
     [0x01] @ le16 16 @ [0x00, QMUX_TYPE_CTL, 0x00, 0x00, 255] @ le16 0x0023 @ le16 5 @
     [0x01] @ le16 2 @ [QMIType, ClientId]"

text \<open>A control request is sent at once when no other one is under way, and queued in any case.\<close>

definition queue_ctl_msg :: "bytes \<Rightarrow> qmi_proxy_msg \<Rightarrow> qmi_proxy \<Rightarrow> qmi_proxy option" where
  "queue_ctl_msg pQMI qmi_msg st = do {
     st \<leftarrow> (if qmi_proxy_ctl_msg st = [] then map_option snd (send_qmi_to_cdc_wdm pQMI st) else Some st);
     Some (st\<lparr>qmi_proxy_ctl_msg := qmi_proxy_ctl_msg st @ [qmi_msg]\<rparr>)
   }"

definition release_client :: "qmi_client \<Rightarrow> qmi_proxy \<Rightarrow> qmi_proxy option" where
  "release_client qmi_client st =
     (case proxy_malloc st of (ok, st) \<Rightarrow>
        if \<not> ok then None
        else
          (let pQMI = release_request (cl_QMIType qmi_client) (cl_ClientId qmi_client) in
           queue_ctl_msg pQMI \<lparr>msg_ClientFd = qmi_proxy_server_fd st, msg_qmi = pQMI\<rparr> st))"

fun cleanup_clients :: "bool \<Rightarrow> qmi_client list \<Rightarrow> qmi_proxy \<Rightarrow> qmi_proxy option" where
  "cleanup_clients clientDisconnect [] st = Some st"
| "cleanup_clients clientDisconnect (c # cs) st = do {
     st \<leftarrow> (if clientDisconnect then release_client c st else Some st);
     cleanup_clients clientDisconnect cs st
   }"

definition cleanup_qmi_connection :: "int \<Rightarrow> bool \<Rightarrow> qmi_proxy \<Rightarrow> qmi_proxy option" where
  "cleanup_qmi_connection clientfd clientDisconnect st =
     (case find (\<lambda>qmi_con. con_ClientFd qmi_con = clientfd) (qmi_proxy_connection st) of
        None \<Rightarrow> Some st
      | Some qmi_con \<Rightarrow> do {
          st \<leftarrow> cleanup_clients clientDisconnect (client_qnode qmi_con) st;
          Some (st\<lparr>
            qmi_proxy_ctl_msg :=
              remove_first (\<lambda>m. msg_ClientFd m = con_ClientFd qmi_con) (qmi_proxy_ctl_msg st),
            closes := closes st @ [con_ClientFd qmi_con],
            qmi_proxy_connection :=
              remove_first (\<lambda>c. con_ClientFd c = clientfd) (qmi_proxy_connection st)\<rparr>)
        })"

section \<open>Messages of the modem\<close>

definition get_client_id ::
  "bytes \<Rightarrow> qmi_connection \<Rightarrow> qmi_proxy \<Rightarrow> (qmi_connection \<times> qmi_proxy) option" where
  "get_client_id pQMI qmi_con st = do {
     QMIResult \<leftarrow> rd16 pQMI 15;
     QMIError \<leftarrow> rd16 pQMI 17;
     if QMIResult = 0 \<and> QMIError = 0 then do {
       let (ok, st) = proxy_malloc st;
       if \<not> ok then None
       else do {
         QMIType \<leftarrow> rd8 pQMI 22;
         ClientId \<leftarrow> rd8 pQMI 23;
         Some (qmi_con\<lparr>client_qnode := client_qnode qmi_con @
                 [\<lparr>cl_QMIType = QMIType, cl_ClientId = ClientId, cl_AccessTime = 0\<rparr>]\<rparr>, st)
       }
     }
     else Some (qmi_con, st)
   }"

definition release_client_id :: "bytes \<Rightarrow> qmi_connection \<Rightarrow> qmi_connection option" where
  "release_client_id pQMI qmi_con = do {
     QMIResult \<leftarrow> rd16 pQMI 15;
     QMIError \<leftarrow> rd16 pQMI 17;
     if QMIResult = 0 \<and> QMIError = 0 then do {
       QMIType \<leftarrow> rd8 pQMI 22;
       ClientId \<leftarrow> rd8 pQMI 23;
       Some (qmi_con\<lparr>client_qnode :=
         remove_first (\<lambda>c. QMIType = cl_QMIType c \<and> ClientId = cl_ClientId c) (client_qnode qmi_con)\<rparr>)
     }
     else Some qmi_con
   }"

text \<open>The loop over the connections that hands a control response to the one that asked.\<close>

fun ctl_deliver ::
  "bytes \<Rightarrow> u16 \<Rightarrow> int \<Rightarrow> qmi_connection list \<Rightarrow> qmi_proxy \<Rightarrow> (qmi_connection list \<times> qmi_proxy) option" where
  "ctl_deliver pQMI QMICTLType fd [] st = Some ([], st)"
| "ctl_deliver pQMI QMICTLType fd (qmi_con # cons) st = do {
     (qmi_con, st) \<leftarrow> (if con_ClientFd qmi_con = fd then do {
         (_, st) \<leftarrow> send_qmi_to_client pQMI fd st;
         if QMICTLType = QMICTL_GET_CLIENT_ID_RESP then get_client_id pQMI qmi_con st
         else if QMICTLType = QMICTL_RELEASE_CLIENT_ID_RESP then do {
           qmi_con \<leftarrow> release_client_id pQMI qmi_con;
           Some (qmi_con, st)
         }
         else Some (qmi_con, st)
       } else Some (qmi_con, st));
     (cons, st) \<leftarrow> ctl_deliver pQMI QMICTLType fd cons st;
     Some (qmi_con # cons, st)
   }"

definition ctl_response :: "bytes \<Rightarrow> qmi_proxy_msg \<Rightarrow> qmi_proxy \<Rightarrow> qmi_proxy option" where
  "ctl_response pQMI qmi_msg st = do {
     TransactionId \<leftarrow> rd8 (msg_qmi qmi_msg) 7;
     tid \<leftarrow> rd8 pQMI 7;
     if TransactionId \<noteq> tid then Some st
     else do {
       QMICTLType \<leftarrow> rd16 (msg_qmi qmi_msg) 8;
       ty \<leftarrow> rd16 pQMI 8;
       if QMICTLType \<noteq> ty then Some st
       else if msg_ClientFd qmi_msg = qmi_proxy_server_fd st then Some st
       else do {
         (cons, st) \<leftarrow> ctl_deliver pQMI ty (msg_ClientFd qmi_msg) (qmi_proxy_connection st) st;
         Some (st\<lparr>qmi_proxy_connection := cons\<rparr>)
       }
     }
   }"

text \<open>Whatever the outcome, the request at the head is finished and the next one is sent.\<close>

definition ctl_message :: "bytes \<Rightarrow> qmi_proxy \<Rightarrow> qmi_proxy option" where
  "ctl_message pQMI st = do {
     CtlFlags \<leftarrow> rd8 pQMI 6;
     if CtlFlags = QMICTL_CTL_FLAG_RSP then
       (case qmi_proxy_ctl_msg st of
          [] \<Rightarrow> Some st
        | qmi_msg # _ \<Rightarrow> do {
            st \<leftarrow> ctl_response pQMI qmi_msg st;
            let st = st\<lparr>qmi_proxy_ctl_msg := tl (qmi_proxy_ctl_msg st)\<rparr>;
            case qmi_proxy_ctl_msg st of
              [] \<Rightarrow> Some st
            | qmi_msg # _ \<Rightarrow> map_option snd (send_qmi_to_cdc_wdm (msg_qmi qmi_msg) st)
          })
     else do {
       QMIType \<leftarrow> rd8 pQMI 4;
       if QMIType = QMICTL_CTL_FLAG_IND then do {
         ty \<leftarrow> rd16 pQMI 8;
         if ty = QMICTL_REVOKE_CLIENT_ID_IND then Some (st\<lparr>modem_reset_flag := True\<rparr>) else Some st
       }
       else Some st
     }
   }"

fun service_clients :: "bytes \<Rightarrow> u8 \<Rightarrow> u8 \<Rightarrow> int \<Rightarrow> qmi_client list \<Rightarrow> qmi_proxy \<Rightarrow> qmi_proxy option" where
  "service_clients pQMI QMIType ClientId fd [] st = Some st"
| "service_clients pQMI QMIType ClientId fd (c # cs) st = do {
     st \<leftarrow> (if QMIType = cl_QMIType c \<and> (ClientId = 0 \<or> ClientId = cl_ClientId c)
            then map_option snd (send_qmi_to_client pQMI fd st) else Some st);
     service_clients pQMI QMIType ClientId fd cs st
   }"

fun service_message :: "bytes \<Rightarrow> u8 \<Rightarrow> u8 \<Rightarrow> qmi_connection list \<Rightarrow> qmi_proxy \<Rightarrow> qmi_proxy option" where
  "service_message pQMI QMIType ClientId [] st = Some st"
| "service_message pQMI QMIType ClientId (qmi_con # cons) st = do {
     st \<leftarrow> service_clients pQMI QMIType ClientId (con_ClientFd qmi_con) (client_qnode qmi_con) st;
     service_message pQMI QMIType ClientId cons st
   }"

definition recv_qmi_from_dev :: "qmi_proxy \<Rightarrow> qmi_proxy option" where
  "recv_qmi_from_dev st =
     (if qmi_proxy_server_fd st = -1 then Some (st\<lparr>qmi_sync_done := True\<rparr>)
      else do {
        let pQMI = qmi_buf st;
        QMIType \<leftarrow> rd8 pQMI 4;
        if QMIType = QMUX_TYPE_CTL then ctl_message pQMI st
        else do {
          ClientId \<leftarrow> rd8 pQMI 5;
          service_message pQMI QMIType ClientId (qmi_proxy_connection st) st
        }
      })"

section \<open>Messages of the clients\<close>

definition recv_qmi_from_client :: "nat \<Rightarrow> int \<Rightarrow> qmi_proxy \<Rightarrow> (int \<times> qmi_proxy) option" where
  "recv_qmi_from_client nreads clientfd st =
     (if qmi_proxy_server_fd st = -1 then Some (-1, st)
      else do {
        let pQMI = qmi_buf st;
        QMIType \<leftarrow> rd8 pQMI 4;
        if QMIType = QMUX_TYPE_CTL then do {
          QMICTLType \<leftarrow> rd16 pQMI 8;
          if QMICTLType = QMICTL_SYNC_REQ then Some (0, st)
          else do {
            let (ok, st) = proxy_malloc st;
            if \<not> ok then None
            else do {
              m \<leftarrow> rdn pQMI 0 nreads;
              st \<leftarrow> queue_ctl_msg pQMI \<lparr>msg_ClientFd = clientfd, msg_qmi = m\<rparr> st;
              Some (0, st)
            }
          }
        }
        else do {
          (_, st) \<leftarrow> send_qmi_to_cdc_wdm pQMI st;
          Some (0, st)
        }
      })"

section \<open>The loop\<close>

text \<open>
  What \<open>poll\<close> reports of one descriptor: \<open>qe_err\<close> is POLLERR, POLLHUP or POLLNVAL, \<open>qe_in\<close> is POLLIN,
  \<open>qe_read\<close> what \<open>read\<close> returns (\<open>None\<close> when it fails, no byte at the end of the stream).
\<close>

record qevent =
  qe_err :: bool
  qe_in :: bool
  qe_read :: "bytes option"

datatype fd_ctl = Next_fd | Break_fds | Exit_loop

definition buf_read :: "bytes \<Rightarrow> qmi_proxy \<Rightarrow> qmi_proxy" where
  "buf_read bs st = st\<lparr>qmi_buf := bs @ drop (length bs) (qmi_buf st)\<rparr>"

definition qmi_proxy_event ::
  "(qmi_proxy \<Rightarrow> int) \<Rightarrow> int \<Rightarrow> qevent \<Rightarrow> qmi_proxy \<Rightarrow> (fd_ctl \<times> qmi_proxy) option" where
  "qmi_proxy_event acc fd ev st =
     (if qe_err ev then
        (if fd = cdc_wdm_fd st then Some (Exit_loop, st)
         else if fd = qmi_proxy_server_fd st then Some (Next_fd, st)
         else map_option (Pair Next_fd) (cleanup_qmi_connection fd True st))
      else if \<not> qe_in ev then Some (Next_fd, st)
      else if fd = qmi_proxy_server_fd st then Some (Next_fd, accept_qmi_connection acc st)
      else do {
        let bs = (case qe_read ev of None \<Rightarrow> [] | Some bs \<Rightarrow> take 4096 bs);
        if bs = [] then
          (if fd = cdc_wdm_fd st then Some (Exit_loop, st)
           else map_option (Pair Break_fds) (cleanup_qmi_connection fd True st))
        else do {
          let st = buf_read bs st;
          Length \<leftarrow> rd16 (qmi_buf st) 1;
          if length bs \<noteq> unat Length + 1 then Some (Next_fd, st)
          else if fd = cdc_wdm_fd st then do {
            st \<leftarrow> recv_qmi_from_dev st;
            Some (if modem_reset_flag st then Exit_loop else Next_fd, st)
          }
          else do {
            (_, st) \<leftarrow> recv_qmi_from_client (length bs) fd st;
            Some (Next_fd, st)
          }
        }
      })"

fun qmi_proxy_events ::
  "(qmi_proxy \<Rightarrow> int) \<Rightarrow> (int \<times> qevent) list \<Rightarrow> qmi_proxy \<Rightarrow> (fd_ctl \<times> qmi_proxy) option" where
  "qmi_proxy_events acc [] st = Some (Next_fd, st)"
| "qmi_proxy_events acc ((fd, ev) # evs) st = do {
     (ctl, st) \<leftarrow> qmi_proxy_event acc fd ev st;
     if ctl = Next_fd then qmi_proxy_events acc evs st else Some (ctl, st)
   }"

definition qmi_pollfds :: "qmi_proxy \<Rightarrow> int list" where
  "qmi_pollfds st =
     take (2 + 64)
       (cdc_wdm_fd st # (if 0 < qmi_proxy_server_fd st then [qmi_proxy_server_fd st] else []) @
        map con_ClientFd (qmi_proxy_connection st))"

text \<open>The end of the loop closes all connections, the first one at a time, without releasing their ids.\<close>

lemma send_qmi_frame:
  assumes "send_qmi fd m st = Some (r, st')"
  obtains ss ws where "st' = st\<lparr>sends := ss, writes := ws\<rparr>"
proof (cases "sends st")
  case Nil
  with assms show ?thesis by (auto simp: send_qmi_def bind_eq_Some_conv Let_def intro: that)
next
  case (Cons x xs)
  have "st\<lparr>sends := xs\<rparr> = st\<lparr>sends := xs, writes := writes st\<rparr>" by simp
  with Cons assms show ?thesis
    by (cases x) (auto simp: send_qmi_def bind_eq_Some_conv Let_def intro: that)
qed

lemma proxy_malloc_frame:
  obtains ok oks where "proxy_malloc st = (ok, st\<lparr>malloc_results := oks\<rparr>)"
proof (cases "malloc_results st")
  case Nil
  have "st = st\<lparr>malloc_results := malloc_results st\<rparr>" by simp
  with Nil show ?thesis by (intro that [of True "malloc_results st"]) (simp add: proxy_malloc_def)
next
  case (Cons x xs)
  then show ?thesis by (intro that) (simp add: proxy_malloc_def)
qed

text \<open>\<open>sent_frame\<close>: nothing but the log and the inputs, and perhaps the queue, has changed.\<close>

definition sent_frame :: "qmi_proxy \<Rightarrow> qmi_proxy \<Rightarrow> bool" where
  "sent_frame st st' \<longleftrightarrow>
     cdc_wdm_fd st' = cdc_wdm_fd st \<and> qmi_proxy_server_fd st' = qmi_proxy_server_fd st \<and>
     qmi_proxy_connection st' = qmi_proxy_connection st \<and> qmi_proxy_quit st' = qmi_proxy_quit st \<and>
     modem_reset_flag st' = modem_reset_flag st \<and> qmi_sync_done st' = qmi_sync_done st \<and>
     qmi_buf st' = qmi_buf st \<and> loop_running st' = loop_running st \<and> closes st' = closes st"

lemma sent_frame_trans: "sent_frame a b \<Longrightarrow> sent_frame b c \<Longrightarrow> sent_frame a c"
  by (simp add: sent_frame_def)

lemma sent_frame_refl: "sent_frame a a"
  by (simp add: sent_frame_def)

lemma send_sent_frame:
  assumes "send_qmi fd m st = Some (r, st')"
  shows "sent_frame st st' \<and> qmi_proxy_ctl_msg st' = qmi_proxy_ctl_msg st"
  using assms by (rule send_qmi_frame) (simp add: sent_frame_def)

lemma malloc_sent_frame:
  assumes "proxy_malloc st = (ok, st')"
  shows "sent_frame st st' \<and> qmi_proxy_ctl_msg st' = qmi_proxy_ctl_msg st"
proof -
  obtain ok' oks where "proxy_malloc st = (ok', st\<lparr>malloc_results := oks\<rparr>)"
    by (rule proxy_malloc_frame)
  with assms have "st' = st\<lparr>malloc_results := oks\<rparr>" by simp
  then show ?thesis by (simp add: sent_frame_def)
qed

lemma map_snd_SomeE:
  assumes "map_option snd m = Some st'"
  obtains r where "m = Some (r, st')"
  using assms by (cases m) auto

lemma queue_ctl_msg_frame:
  assumes "queue_ctl_msg p m st = Some st'"
  shows "sent_frame st st' \<and> qmi_proxy_ctl_msg st' = qmi_proxy_ctl_msg st @ [m]"
proof (cases "qmi_proxy_ctl_msg st = []")
  case True
  with assms obtain st1 where 1: "map_option snd (send_qmi (cdc_wdm_fd st) p st) = Some st1"
    "st' = st1\<lparr>qmi_proxy_ctl_msg := qmi_proxy_ctl_msg st1 @ [m]\<rparr>"
    by (auto simp: queue_ctl_msg_def send_qmi_to_cdc_wdm_def bind_eq_Some_conv)
  from 1(1) obtain r where "send_qmi (cdc_wdm_fd st) p st = Some (r, st1)" by (rule map_snd_SomeE)
  from send_sent_frame [OF this] 1(2) show ?thesis by (simp add: sent_frame_def)
next
  case False
  with assms show ?thesis by (auto simp: queue_ctl_msg_def sent_frame_def)
qed

lemma release_client_frame:
  assumes "release_client c st = Some st'"
  shows "sent_frame st st' \<and> qmi_proxy_ctl_msg st' = qmi_proxy_ctl_msg st @
    [\<lparr>msg_ClientFd = qmi_proxy_server_fd st, msg_qmi = release_request (cl_QMIType c) (cl_ClientId c)\<rparr>]"
proof -
  obtain ok oks where m: "proxy_malloc st = (ok, st\<lparr>malloc_results := oks\<rparr>)"
    by (rule proxy_malloc_frame)
  with assms have ok: "ok" by (cases ok) (simp_all add: release_client_def)
  from assms m ok show ?thesis
    by (auto simp: release_client_def Let_def sent_frame_def dest!: queue_ctl_msg_frame)
qed

lemma cleanup_clients_frame:
  "cleanup_clients d cs st = Some st' \<Longrightarrow> sent_frame st st' \<and>
     qmi_proxy_ctl_msg st' = qmi_proxy_ctl_msg st @
       (if d then map (\<lambda>c. \<lparr>msg_ClientFd = qmi_proxy_server_fd st,
          msg_qmi = release_request (cl_QMIType c) (cl_ClientId c)\<rparr>) cs else [])"
proof (induction cs arbitrary: st)
  case (Cons c cs)
  show ?case
  proof (cases d)
    case True
    with Cons.prems obtain st1 where 1: "release_client c st = Some st1" "cleanup_clients d cs st1 = Some st'"
      by (auto simp: bind_eq_Some_conv)
    from release_client_frame [OF 1(1)] Cons.IH [OF 1(2)] True show ?thesis
      by (simp add: sent_frame_def)
  next
    case False
    with Cons show ?thesis by simp
  qed
qed (simp add: sent_frame_def)

lemma find_remove_first:
  "find P xs = Some x \<Longrightarrow> length (remove_first P xs) < length xs"
  by (induction xs) (auto split: if_splits)

lemma cleanup_qmi_connection_frame:
  assumes "cleanup_qmi_connection fd d st = Some st'"
  shows "qmi_proxy_connection st' = remove_first (\<lambda>c. con_ClientFd c = fd) (qmi_proxy_connection st)"
    and "sent_frame st (st'\<lparr>qmi_proxy_connection := qmi_proxy_connection st, closes := closes st\<rparr>)"
proof -
  have none: "remove_first P xs = xs" if "find P xs = None" for P and xs :: "qmi_connection list"
    using that by (induction xs) (auto split: if_splits)
  show "qmi_proxy_connection st' = remove_first (\<lambda>c. con_ClientFd c = fd) (qmi_proxy_connection st)"
    using assms none
    by (cases "find (\<lambda>c. con_ClientFd c = fd) (qmi_proxy_connection st)")
       (auto simp: cleanup_qmi_connection_def bind_eq_Some_conv sent_frame_def dest!: cleanup_clients_frame)
  show "sent_frame st (st'\<lparr>qmi_proxy_connection := qmi_proxy_connection st, closes := closes st\<rparr>)"
    using assms
    by (cases "find (\<lambda>c. con_ClientFd c = fd) (qmi_proxy_connection st)")
       (auto simp: cleanup_qmi_connection_def bind_eq_Some_conv sent_frame_def dest!: cleanup_clients_frame)
qed

function close_connections :: "qmi_proxy \<Rightarrow> qmi_proxy option" where
  "close_connections st =
     (case qmi_proxy_connection st of
        [] \<Rightarrow> Some st
      | qmi_con # _ \<Rightarrow>
          (case cleanup_qmi_connection (con_ClientFd qmi_con) False st of
             None \<Rightarrow> None
           | Some st \<Rightarrow> close_connections st))"
  by pat_completeness auto
termination
  by (relation "measure (\<lambda>st. length (qmi_proxy_connection st))")
     (auto dest!: cleanup_qmi_connection_frame(1))

definition qmi_proxy_loop_exit :: "qmi_proxy \<Rightarrow> qmi_proxy option" where
  "qmi_proxy_loop_exit st = map_option (loop_running_update (\<lambda>_. False)) (close_connections st)"

text \<open>
  One round of the loop: \<open>None\<close> as the answer of \<open>poll\<close> is a failure.  A round of a thread that has
  ended does nothing.
\<close>

definition qmi_proxy_round ::
  "(qmi_proxy \<Rightarrow> int) \<Rightarrow> qevent list option \<Rightarrow> qmi_proxy \<Rightarrow> qmi_proxy option" where
  "qmi_proxy_round acc answer st =
     (if \<not> loop_running st then Some st
      else if \<not> (0 < cdc_wdm_fd st \<and> qmi_proxy_quit st = 0) then qmi_proxy_loop_exit st
      else case answer of
        None \<Rightarrow> qmi_proxy_loop_exit st
      | Some evs \<Rightarrow> do {
          (ctl, st) \<leftarrow> qmi_proxy_events acc (zip (qmi_pollfds st) evs) st;
          if ctl = Exit_loop then qmi_proxy_loop_exit st else Some st
        })"

fun qmi_proxy_rounds ::
  "(qmi_proxy \<Rightarrow> int) \<Rightarrow> qevent list option list \<Rightarrow> qmi_proxy \<Rightarrow> qmi_proxy option" where
  "qmi_proxy_rounds acc [] st = Some st"
| "qmi_proxy_rounds acc (answer # answers) st = do {
     st \<leftarrow> qmi_proxy_round acc answer st;
     qmi_proxy_rounds acc answers st
   }"

section \<open>The main thread\<close>

definition sync_request :: "u8 \<Rightarrow> bytes" where
  "sync_request tid =
     [0x01] @ le16 11 @ [0x00, QMUX_TYPE_CTL, 0x00, 0x00, tid] @ le16 QMICTL_SYNC_REQ @ le16 0"

text \<open>
  \<open>qmi_proxy_init\<close> sends a SYNC request every second until the loop's thread has seen an answer.  The
  rounds that thread makes during each second are an argument.
\<close>

fun qmi_proxy_init_loop ::
  "(qmi_proxy \<Rightarrow> int) \<Rightarrow> nat \<Rightarrow> nat \<Rightarrow> (nat \<Rightarrow> qevent list option list) \<Rightarrow> qmi_proxy \<Rightarrow> qmi_proxy option" where
  "qmi_proxy_init_loop acc i 0 answers st = Some st"
| "qmi_proxy_init_loop acc i (Suc n) answers st = do {
     (ret, st) \<leftarrow> send_qmi_to_cdc_wdm (sync_request (of_nat (i + 1))) st;
     if ret \<le> 0 then Some st
     else do {
       st \<leftarrow> qmi_proxy_rounds acc (answers i) st;
       if qmi_sync_done st then Some st
       else qmi_proxy_init_loop acc (i + 1) n answers st
     }
   }"

definition qmi_proxy_init ::
  "(qmi_proxy \<Rightarrow> int) \<Rightarrow> nat \<Rightarrow> (nat \<Rightarrow> qevent list option list) \<Rightarrow> qmi_proxy \<Rightarrow> (int \<times> qmi_proxy) option" where
  "qmi_proxy_init acc retry answers st = do {
     st \<leftarrow> qmi_proxy_init_loop acc 0 retry answers (st\<lparr>qmi_sync_done := False\<rparr>);
     Some (if qmi_sync_done st then 0 else -1, st)
   }"

text \<open>What the socket calls return; the descriptor of \<open>socket\<close> is negative when it failed.\<close>

record server_env =
  sv_socket :: int
  sv_setsockopt :: bool
  sv_bind :: bool

definition create_local_server :: "server_env \<Rightarrow> int" where
  "create_local_server env =
     (if sv_socket env < 0 then -1
      else if \<not> sv_setsockopt env then -1
      else if \<not> sv_bind env then -1
      else sv_socket env)"

text \<open>
  One turn of \<open>main\<close> with the descriptor that \<open>open\<close> returned, up to the point where the loop's thread
  is joined: start the thread, synchronise, create the server, and let the thread run.  A cancelled
  thread ends without closing its connections.  The thread starts with empty lists.
\<close>

definition qmi_proxy_start ::
  "(qmi_proxy \<Rightarrow> int) \<Rightarrow> int \<Rightarrow> (nat \<Rightarrow> qevent list option list) \<Rightarrow> server_env \<Rightarrow> qmi_proxy \<Rightarrow>
     qmi_proxy option" where
  "qmi_proxy_start acc fd answers env st = do {
     let st = st\<lparr>cdc_wdm_fd := fd, qmi_proxy_connection := [], qmi_proxy_ctl_msg := [],
                loop_running := True\<rparr>;
     (ret, st) \<leftarrow> qmi_proxy_init acc 60 answers st;
     if ret = 0 then do {
       let st = st\<lparr>qmi_proxy_server_fd := create_local_server env\<rparr>;
       Some (if qmi_proxy_server_fd st = -1 then st\<lparr>loop_running := False\<rparr> else st)
     }
     else Some (st\<lparr>loop_running := False\<rparr>)
   }"

definition qmi_proxy_stop :: "qmi_proxy \<Rightarrow> qmi_proxy" where
  "qmi_proxy_stop st =
     (let st = (if qmi_proxy_server_fd st \<noteq> -1 then
                  st\<lparr>closes := closes st @ [qmi_proxy_server_fd st], qmi_proxy_server_fd := -1\<rparr>
                else st)
      in st\<lparr>closes := closes st @ [cdc_wdm_fd st], cdc_wdm_fd := -1, modem_reset_flag := False\<rparr>)"

text \<open>
  The thread is joined once it has ended, so the turn is over only then; \<open>answers'\<close> is what \<open>poll\<close>
  reports after the start.
\<close>

definition qmi_proxy_turn ::
  "(qmi_proxy \<Rightarrow> int) \<Rightarrow> int \<Rightarrow> (nat \<Rightarrow> qevent list option list) \<Rightarrow> server_env \<Rightarrow>
     qevent list option list \<Rightarrow> qmi_proxy \<Rightarrow> qmi_proxy option" where
  "qmi_proxy_turn acc fd answers env answers' st =
     (if qmi_proxy_quit st \<noteq> 0 \<or> fd = -1 then Some st
      else do {
        st \<leftarrow> qmi_proxy_start acc fd answers env st;
        st \<leftarrow> qmi_proxy_rounds acc answers' st;
        Some (if loop_running st then st else qmi_proxy_stop st)
      })"

definition sig_action :: "qmi_proxy \<Rightarrow> qmi_proxy" where
  "sig_action st = st\<lparr>qmi_proxy_quit := qmi_proxy_quit st + 1\<rparr>"

section \<open>Single steps\<close>

text \<open>
  A message as the proxy accepts it: its size is the header's length field plus one.  \<open>quiet\<close> is a system
  in which descriptors are ready to write and memory is available.
\<close>

definition qmi_msg_ok :: "bytes \<Rightarrow> bool" where
  "qmi_msg_ok m \<longleftrightarrow> (case rd16 m 1 of None \<Rightarrow> False | Some Length \<Rightarrow> length m = unat Length + 1)"

definition quiet :: "qmi_proxy \<Rightarrow> bool" where
  "quiet st \<longleftrightarrow> sends st = [] \<and> malloc_results st = []"

definition q_readable :: "bytes \<Rightarrow> qevent" where
  "q_readable m = \<lparr>qe_err = False, qe_in = True, qe_read = Some m\<rparr>"

definition q_hangup :: qevent where
  "q_hangup = \<lparr>qe_err = True, qe_in = False, qe_read = None\<rparr>"

lemma rd8_front: "i < length m \<Longrightarrow> rd8 (m @ r) i = rd8 m i"
  by (simp add: rd8_def nth_append)

lemma rd16_front: "i + 2 \<le> length m \<Longrightarrow> rd16 (m @ r) i = rd16 m i"
  by (simp add: rd16_def nth_append)

lemma qmi_msg_okE:
  assumes "qmi_msg_ok m"
  obtains L where "rd16 m 1 = Some L" "length m = unat L + 1" "3 \<le> length m"
  using assms by (auto simp: qmi_msg_ok_def dest: rd16_SomeD split: option.splits)

lemma send_now:
  assumes "qmi_msg_ok m" and "sends st = []"
  shows "send_qmi fd (m @ rest) st = Some (int (length m), st\<lparr>writes := writes st @ [(fd, m)]\<rparr>)"
proof -
  from assms(1) obtain L where L: "rd16 m 1 = Some L" "length m = unat L + 1" "3 \<le> length m"
    by (rule qmi_msg_okE)
  have "st\<lparr>sends := []\<rparr> = st" using assms(2) by simp
  then show ?thesis using L assms(2) by (simp add: send_qmi_def rd16_front rdn_def)
qed

lemma send_now_whole:
  assumes "qmi_msg_ok m" and "sends st = []"
  shows "send_qmi fd m st = Some (int (length m), st\<lparr>writes := writes st @ [(fd, m)]\<rparr>)"
  using send_now [OF assms, where rest = "[]"] by simp

lemma malloc_now: "malloc_results st = [] \<Longrightarrow> proxy_malloc st = (True, st)"
  by (simp add: proxy_malloc_def)

lemma dev_event:
  assumes "qmi_msg_ok m" and "length m \<le> 4096" and "cdc_wdm_fd st \<noteq> qmi_proxy_server_fd st"
  shows "qmi_proxy_event acc (cdc_wdm_fd st) (q_readable m) st =
     map_option (\<lambda>st. (if modem_reset_flag st then Exit_loop else Next_fd, st))
       (recv_qmi_from_dev (buf_read m st))"
proof -
  from assms(1) obtain L where L: "rd16 m 1 = Some L" "length m = unat L + 1" "3 \<le> length m"
    by (rule qmi_msg_okE)
  then have "m \<noteq> []" by auto
  then show ?thesis using L assms(2,3)
    by (simp add: qmi_proxy_event_def q_readable_def buf_read_def rd16_front
        map_conv_bind_option comp_def)
qed

lemma client_event:
  assumes "qmi_msg_ok m" and "length m \<le> 4096" and "fd \<noteq> qmi_proxy_server_fd st" and "fd \<noteq> cdc_wdm_fd st"
  shows "qmi_proxy_event acc fd (q_readable m) st =
     map_option (\<lambda>(_, st). (Next_fd, st)) (recv_qmi_from_client (length m) fd (buf_read m st))"
proof -
  from assms(1) obtain L where L: "rd16 m 1 = Some L" "length m = unat L + 1" "3 \<le> length m"
    by (rule qmi_msg_okE)
  then have "m \<noteq> []" by auto
  then show ?thesis using L assms(2-4)
    by (simp add: qmi_proxy_event_def q_readable_def buf_read_def rd16_front
        map_conv_bind_option comp_def split_def)
qed

section \<open>Routing of service messages\<close>

definition addressed :: "bytes \<Rightarrow> qmi_client \<Rightarrow> bool" where
  "addressed m c \<longleftrightarrow> m ! 4 = cl_QMIType c \<and> (m ! 5 = 0 \<or> m ! 5 = cl_ClientId c)"

lemma service_clients_writes:
  assumes "qmi_msg_ok m" and "sends st = []"
  shows "service_clients (m @ rest) (m ! 4) (m ! 5) fd cs st =
     Some (st\<lparr>writes := writes st @ map (\<lambda>_. (fd, m)) (filter (addressed m) cs)\<rparr>)"
  using assms(2)
proof (induction cs arbitrary: st)
  case (Cons c cs)
  then show ?case
    by (cases "addressed m c")
       (simp_all add: addressed_def [of m c, symmetric] send_qmi_to_client_def send_now [OF assms(1)])
qed simp

lemma service_message_writes:
  assumes "qmi_msg_ok m" and "sends st = []"
  shows "service_message (m @ rest) (m ! 4) (m ! 5) cons st =
     Some (st\<lparr>writes := writes st @
       concat (map (\<lambda>con. map (\<lambda>_. (con_ClientFd con, m)) (filter (addressed m) (client_qnode con))) cons)\<rparr>)"
  using assms(2)
  by (induction cons arbitrary: st) (simp_all add: service_clients_writes [OF assms(1)])

text \<open>C17:
  A message of a service reaches exactly the clients it is for.  When the modem sends a well-formed
  message of a service other than the control service, the proxy writes it unchanged once for every
  client id that it addresses, to the connection that owns the id: those with the message's service
  and id, or all ids of the service for a broadcast (id 0).  It writes nothing else and changes neither
  the connections nor the queue of control requests.
\<close>

theorem service_message_routed:
  assumes "qmi_msg_ok m" and "6 \<le> length m" and "length m \<le> 4096" and "m ! 4 \<noteq> QMUX_TYPE_CTL"
    and "sends st = []" and "qmi_proxy_server_fd st \<noteq> -1" and "cdc_wdm_fd st \<noteq> qmi_proxy_server_fd st"
  shows "\<exists>ctl st'. qmi_proxy_event acc (cdc_wdm_fd st) (q_readable m) st = Some (ctl, st') \<and>
     writes st' = writes st @ [(con_ClientFd con, m). con \<leftarrow> qmi_proxy_connection st,
                                c \<leftarrow> client_qnode con, addressed m c] \<and>
     qmi_proxy_connection st' = qmi_proxy_connection st \<and> qmi_proxy_ctl_msg st' = qmi_proxy_ctl_msg st"
proof -
  have *: "map (\<lambda>_. (fd, m)) (filter (addressed m) cs) = concat (map (\<lambda>c. if addressed m c then [(fd, m)] else []) cs)"
    for fd and cs :: "qmi_client list"
    by (induction cs) simp_all
  have "rd8 m 4 = Some (m ! 4)" "rd8 m 5 = Some (m ! 5)" using assms(2) by (simp_all add: rd8_def)
  then have "rd8 (qmi_buf (buf_read m st)) 4 = Some (m ! 4)" "rd8 (qmi_buf (buf_read m st)) 5 = Some (m ! 5)"
    using assms(2) by (simp_all add: buf_read_def rd8_front)
  then show ?thesis using assms
    by (simp add: dev_event recv_qmi_from_dev_def service_message_writes [OF assms(1)] buf_read_def *)
qed

section \<open>The queue of control requests\<close>

definition answers :: "qmi_proxy_msg \<Rightarrow> bytes \<Rightarrow> bool" where
  "answers q r \<longleftrightarrow>
     qmi_msg_ok r \<and> 10 \<le> length r \<and> length r \<le> 4096 \<and>
     r ! 4 = QMUX_TYPE_CTL \<and> r ! 6 = QMICTL_CTL_FLAG_RSP \<and>
     rd8 (msg_qmi q) 7 = rd8 r 7 \<and> rd16 (msg_qmi q) 8 = rd16 r 8"

text \<open>What one response makes the proxy write: the response to its client, then the next request.\<close>

definition delivered :: "int \<Rightarrow> int list \<Rightarrow> qmi_proxy_msg \<Rightarrow> bytes \<Rightarrow> (int \<times> bytes) list" where
  "delivered server fds q r =
     (if msg_ClientFd q = server then []
      else map (\<lambda>fd. (fd, r)) (filter (\<lambda>fd. fd = msg_ClientFd q) fds))"

definition next_request :: "int \<Rightarrow> qmi_proxy_msg list \<Rightarrow> (int \<times> bytes) list" where
  "next_request dev qs = (case qs of [] \<Rightarrow> [] | q # _ \<Rightarrow> [(dev, msg_qmi q)])"

fun exchange :: "int \<Rightarrow> int \<Rightarrow> int list \<Rightarrow> qmi_proxy_msg list \<Rightarrow> bytes list \<Rightarrow> (int \<times> bytes) list" where
  "exchange dev server fds (q # qs) (r # rs) =
     delivered server fds q r @ next_request dev qs @ exchange dev server fds qs rs"
| "exchange dev server fds _ _ = []"

lemma get_client_id_run:
  assumes "24 \<le> length p" and "malloc_results st = []"
  obtains con' where "get_client_id p con st = Some (con', st)" "con_ClientFd con' = con_ClientFd con"
proof (cases "rd16 p 15 = Some 0 \<and> rd16 p 17 = Some 0")
  case True
  with assms show ?thesis
    by (intro that [of "con\<lparr>client_qnode := client_qnode con @
          [\<lparr>cl_QMIType = p ! 22, cl_ClientId = p ! 23, cl_AccessTime = 0\<rparr>]\<rparr>"])
       (simp_all add: get_client_id_def malloc_now rd8_def)
next
  case False
  moreover obtain a b where "rd16 p 15 = Some a" "rd16 p 17 = Some b"
    using assms(1) by (simp add: rd16_def)
  ultimately show ?thesis by (intro that [of con]) (auto simp: get_client_id_def)
qed

lemma release_client_id_run:
  assumes "24 \<le> length p"
  obtains con' where "release_client_id p con = Some con'" "con_ClientFd con' = con_ClientFd con"
proof -
  obtain a b where "rd16 p 15 = Some a" "rd16 p 17 = Some b"
    using assms by (simp add: rd16_def)
  then show ?thesis using assms
    by (cases "a = 0 \<and> b = 0") (auto simp: release_client_id_def rd8_def intro: that)
qed

lemma ctl_deliver_run:
  assumes "quiet st" and "qmi_msg_ok r" and "24 \<le> length (r @ rest)"
  shows "\<exists>cons'. ctl_deliver (r @ rest) ty fd cons st =
       Some (cons', st\<lparr>writes := writes st @ map (\<lambda>fd. (fd, r)) (filter (\<lambda>f. f = fd) (map con_ClientFd cons))\<rparr>) \<and>
     map con_ClientFd cons' = map con_ClientFd cons"
  using assms(1)
proof (induction cons arbitrary: st)
  case (Cons con cons)
  show ?case
  proof (cases "con_ClientFd con = fd")
    case True
    let ?st = "st\<lparr>writes := writes st @ [(fd, r)]\<rparr>"
    have send: "send_qmi_to_client (r @ rest) fd st = Some (int (length r), ?st)"
      using Cons.prems by (simp add: send_qmi_to_client_def send_now [OF assms(2)] quiet_def)
    have q: "quiet ?st" using Cons.prems by (simp add: quiet_def)
    obtain c1 where c1: "get_client_id (r @ rest) con ?st = Some (c1, ?st)" "con_ClientFd c1 = fd"
      using get_client_id_run [OF assms(3), of ?st con] q True by (auto simp: quiet_def)
    obtain c2 where c2: "release_client_id (r @ rest) con = Some c2" "con_ClientFd c2 = fd"
      using release_client_id_run [OF assms(3), of con] True by auto
    from Cons.IH [OF q] obtain cons' where
      IH: "ctl_deliver (r @ rest) ty fd cons ?st = Some (cons', ?st\<lparr>writes := writes ?st @
             map (\<lambda>fd. (fd, r)) (filter (\<lambda>f. f = fd) (map con_ClientFd cons))\<rparr>)"
        "map con_ClientFd cons' = map con_ClientFd cons" by blast
    consider "ty = QMICTL_GET_CLIENT_ID_RESP"
      | "ty \<noteq> QMICTL_GET_CLIENT_ID_RESP" "ty = QMICTL_RELEASE_CLIENT_ID_RESP"
      | "ty \<noteq> QMICTL_GET_CLIENT_ID_RESP" "ty \<noteq> QMICTL_RELEASE_CLIENT_ID_RESP" by blast
    then show ?thesis
    proof cases
      case 1
      then show ?thesis using send IH c1 True by (intro exI [of _ "c1 # cons'"]) simp
    next
      case 2
      then show ?thesis using send IH c2 True by (intro exI [of _ "c2 # cons'"]) simp
    next
      case 3
      then show ?thesis using send IH True by (intro exI [of _ "con # cons'"]) simp
    qed
  next
    case False
    from Cons.IH [OF Cons.prems] obtain cons' where
      "ctl_deliver (r @ rest) ty fd cons st = Some (cons', st\<lparr>writes := writes st @
         map (\<lambda>fd. (fd, r)) (filter (\<lambda>f. f = fd) (map con_ClientFd cons))\<rparr>)"
      "map con_ClientFd cons' = map con_ClientFd cons" by blast
    with False show ?thesis by (intro exI [of _ "con # cons'"]) simp
  qed
qed simp

lemma ctl_response_run:
  assumes "quiet st" and "answers q r" and "24 \<le> length (r @ rest)"
  shows "\<exists>cons. ctl_response (r @ rest) q st =
       Some (st\<lparr>qmi_proxy_connection := cons, writes := writes st @
         delivered (qmi_proxy_server_fd st) (map con_ClientFd (qmi_proxy_connection st)) q r\<rparr>) \<and>
     map con_ClientFd cons = map con_ClientFd (qmi_proxy_connection st)"
proof -
  from assms(2) have l: "10 \<le> length r" and ok: "qmi_msg_ok r" by (simp_all add: answers_def)
  obtain t ty where r: "rd8 r 7 = Some t" "rd16 r 8 = Some ty"
    using l by (simp add: rd8_def rd16_def)
  then have b: "rd8 (r @ rest) 7 = Some t" "rd16 (r @ rest) 8 = Some ty"
    using l by (simp_all add: rd8_front rd16_front)
  from assms(2) r have q: "rd8 (msg_qmi q) 7 = Some t" "rd16 (msg_qmi q) 8 = Some ty"
    by (simp_all add: answers_def)
  show ?thesis
  proof (cases "msg_ClientFd q = qmi_proxy_server_fd st")
    case True
    then show ?thesis using b q
      by (intro exI [of _ "qmi_proxy_connection st"]) (simp add: ctl_response_def delivered_def)
  next
    case False
    from ctl_deliver_run [OF assms(1) ok assms(3), of ty "msg_ClientFd q" "qmi_proxy_connection st"]
    obtain cons where c: "ctl_deliver (r @ rest) ty (msg_ClientFd q) (qmi_proxy_connection st) st =
        Some (cons, st\<lparr>writes := writes st @ map (\<lambda>fd. (fd, r))
          (filter (\<lambda>f. f = msg_ClientFd q) (map con_ClientFd (qmi_proxy_connection st)))\<rparr>)"
      "map con_ClientFd cons = map con_ClientFd (qmi_proxy_connection st)" by blast
    show ?thesis using b q c False
      by (intro exI [of _ cons]) (simp add: ctl_response_def delivered_def)
  qed
qed

lemma dev_response:
  assumes "quiet st" and "length (qmi_buf st) = 4096" and "answers q r" and "qmi_proxy_ctl_msg st = q # qs"
    and "\<forall>q \<in> set qs. qmi_msg_ok (msg_qmi q)" and "\<not> modem_reset_flag st"
    and "qmi_proxy_server_fd st \<noteq> -1" and "cdc_wdm_fd st \<noteq> qmi_proxy_server_fd st"
  shows "\<exists>cons. qmi_proxy_event acc (cdc_wdm_fd st) (q_readable r) st =
       Some (Next_fd, (buf_read r st)\<lparr>qmi_proxy_connection := cons, qmi_proxy_ctl_msg := qs,
         writes := writes st @ delivered (qmi_proxy_server_fd st)
             (map con_ClientFd (qmi_proxy_connection st)) q r @ next_request (cdc_wdm_fd st) qs\<rparr>) \<and>
     map con_ClientFd cons = map con_ClientFd (qmi_proxy_connection st)"
proof -
  let ?st = "buf_read r st" and ?rest = "drop (length r) (qmi_buf st)"
  from assms(3) have r: "qmi_msg_ok r" "10 \<le> length r" "length r \<le> 4096" "r ! 4 = QMUX_TYPE_CTL"
    "r ! 6 = QMICTL_CTL_FLAG_RSP" by (simp_all add: answers_def)
  have buf: "qmi_buf ?st = r @ ?rest" "24 \<le> length (r @ ?rest)"
    using assms(2) r(3) by (simp_all add: buf_read_def)
  have b: "rd8 (r @ ?rest) 4 = Some QMUX_TYPE_CTL" "rd8 (r @ ?rest) 6 = Some QMICTL_CTL_FLAG_RSP"
    using r by (simp_all add: rd8_def nth_append)
  have "quiet ?st" using assms(1) by (simp add: quiet_def buf_read_def)
  from ctl_response_run [OF this assms(3) buf(2)] obtain cons where
    c: "ctl_response (r @ ?rest) q ?st =
       Some (?st\<lparr>qmi_proxy_connection := cons, writes := writes ?st @
         delivered (qmi_proxy_server_fd ?st) (map con_ClientFd (qmi_proxy_connection ?st)) q r\<rparr>)"
      "map con_ClientFd cons = map con_ClientFd (qmi_proxy_connection ?st)" by blast
  note ev = dev_event [OF r(1,3) assms(8)]
  show ?thesis
  proof (cases qs)
    case Nil
    with assms(4,6,7) buf b c show ?thesis
      by (intro exI [of _ cons])
         (simp add: ev recv_qmi_from_dev_def ctl_message_def buf_read_def next_request_def)
  next
    case (Cons q' qs')
    with assms(5) have "qmi_msg_ok (msg_qmi q')" by simp
    note send = send_now_whole [OF this]
    from Cons assms(1,4,6,7) buf b c show ?thesis
      by (intro exI [of _ cons])
         (simp add: ev recv_qmi_from_dev_def ctl_message_def buf_read_def next_request_def
           send_qmi_to_cdc_wdm_def send quiet_def)
  qed
qed

lemma queue_drains:
  assumes "quiet st" and "length (qmi_buf st) = 4096" and "list_all2 answers (qmi_proxy_ctl_msg st) rs"
    and "\<forall>q \<in> set (qmi_proxy_ctl_msg st). qmi_msg_ok (msg_qmi q)" and "\<not> modem_reset_flag st"
    and "qmi_proxy_server_fd st \<noteq> -1" and "cdc_wdm_fd st \<noteq> qmi_proxy_server_fd st"
  shows "\<exists>st'. qmi_proxy_events acc (map (\<lambda>r. (cdc_wdm_fd st, q_readable r)) rs) st = Some (Next_fd, st') \<and>
     qmi_proxy_ctl_msg st' = [] \<and> cdc_wdm_fd st' = cdc_wdm_fd st \<and>
     map con_ClientFd (qmi_proxy_connection st') = map con_ClientFd (qmi_proxy_connection st) \<and>
     writes st' = writes st @ exchange (cdc_wdm_fd st) (qmi_proxy_server_fd st)
       (map con_ClientFd (qmi_proxy_connection st)) (qmi_proxy_ctl_msg st) rs"
  using assms
proof (induction rs arbitrary: st)
  case (Cons r rs)
  then obtain q qs where q: "qmi_proxy_ctl_msg st = q # qs" "answers q r" "list_all2 answers qs rs"
    by (auto simp: list_all2_Cons2)
  let ?st = "\<lambda>cons. (buf_read r st)\<lparr>qmi_proxy_connection := cons, qmi_proxy_ctl_msg := qs,
         writes := writes st @ delivered (qmi_proxy_server_fd st)
             (map con_ClientFd (qmi_proxy_connection st)) q r @ next_request (cdc_wdm_fd st) qs\<rparr>"
  have "\<forall>q \<in> set qs. qmi_msg_ok (msg_qmi q)" using Cons.prems(4) q(1) by simp
  from dev_response [OF Cons.prems(1,2) q(2,1) this Cons.prems(5-7)] obtain cons where
    c: "qmi_proxy_event acc (cdc_wdm_fd st) (q_readable r) st = Some (Next_fd, ?st cons)"
      "map con_ClientFd cons = map con_ClientFd (qmi_proxy_connection st)" by blast
  have "length r \<le> 4096" using q(2) by (simp add: answers_def)
  with Cons.prems q(1,3) have "\<exists>st'. qmi_proxy_events acc (map (\<lambda>r. (cdc_wdm_fd (?st cons), q_readable r)) rs) (?st cons) =
      Some (Next_fd, st') \<and>
     qmi_proxy_ctl_msg st' = [] \<and> cdc_wdm_fd st' = cdc_wdm_fd (?st cons) \<and>
     map con_ClientFd (qmi_proxy_connection st') = map con_ClientFd (qmi_proxy_connection (?st cons)) \<and>
     writes st' = writes (?st cons) @ exchange (cdc_wdm_fd (?st cons)) (qmi_proxy_server_fd (?st cons))
       (map con_ClientFd (qmi_proxy_connection (?st cons))) (qmi_proxy_ctl_msg (?st cons)) rs"
    by (intro Cons.IH) (simp_all add: quiet_def buf_read_def)
  then show ?case using c q(1) by (auto simp: buf_read_def)
qed simp

section \<open>Giving client ids back\<close>

definition dev_writes :: "qmi_proxy \<Rightarrow> bytes list" where
  "dev_writes st = map snd (filter (\<lambda>w. fst w = cdc_wdm_fd st) (writes st))"

definition release_msg :: "int \<Rightarrow> qmi_client \<Rightarrow> qmi_proxy_msg" where
  "release_msg server c =
     \<lparr>msg_ClientFd = server, msg_qmi = release_request (cl_QMIType c) (cl_ClientId c)\<rparr>"

lemma release_request_ok: "qmi_msg_ok (release_request ty cid)"
  by (simp add: qmi_msg_ok_def release_request_def rd16_def le16_def le16_to_cpu_def)

lemma cleanup_clients_run:
  assumes "quiet st"
  shows "cleanup_clients True cs st = Some (st\<lparr>
     qmi_proxy_ctl_msg := qmi_proxy_ctl_msg st @ map (release_msg (qmi_proxy_server_fd st)) cs,
     writes := writes st @ (if qmi_proxy_ctl_msg st = []
       then next_request (cdc_wdm_fd st) (map (release_msg (qmi_proxy_server_fd st)) cs) else [])\<rparr>)"
  using assms
proof (induction cs arbitrary: st)
  case Nil
  then show ?case by (simp add: next_request_def)
next
  case (Cons c cs)
  let ?m = "release_msg (qmi_proxy_server_fd st) c"
  let ?st = "st\<lparr>qmi_proxy_ctl_msg := qmi_proxy_ctl_msg st @ [?m],
     writes := writes st @ (if qmi_proxy_ctl_msg st = [] then [(cdc_wdm_fd st, msg_qmi ?m)] else [])\<rparr>"
  have "release_client c st = Some ?st"
    using Cons.prems
    by (simp add: release_client_def malloc_now quiet_def queue_ctl_msg_def send_qmi_to_cdc_wdm_def
        send_now_whole [OF release_request_ok] release_msg_def Let_def)
  moreover have "quiet ?st" using Cons.prems by (simp add: quiet_def)
  ultimately show ?case using Cons.IH [of ?st] by (simp add: next_request_def)
qed

lemma remove_first_none: "\<forall>x \<in> set xs. \<not> P x \<Longrightarrow> remove_first P xs = xs"
  by (induction xs) simp_all

lemma hangup_event:
  assumes "quiet st" and "find (\<lambda>c. con_ClientFd c = fd) (qmi_proxy_connection st) = Some con"
    and "\<forall>q \<in> set (qmi_proxy_ctl_msg st). msg_ClientFd q \<noteq> fd"
    and "fd \<noteq> cdc_wdm_fd st" and "fd \<noteq> qmi_proxy_server_fd st"
  shows "qmi_proxy_event acc fd q_hangup st = Some (Next_fd, st\<lparr>
     qmi_proxy_ctl_msg := qmi_proxy_ctl_msg st @ map (release_msg (qmi_proxy_server_fd st)) (client_qnode con),
     writes := writes st @ (if qmi_proxy_ctl_msg st = []
       then next_request (cdc_wdm_fd st) (map (release_msg (qmi_proxy_server_fd st)) (client_qnode con)) else []),
     closes := closes st @ [fd],
     qmi_proxy_connection := remove_first (\<lambda>c. con_ClientFd c = fd) (qmi_proxy_connection st)\<rparr>)"
proof -
  have fd: "con_ClientFd con = fd" using assms(2) by (auto simp: find_Some_iff)
  let ?q = "qmi_proxy_ctl_msg st @ map (release_msg (qmi_proxy_server_fd st)) (client_qnode con)"
  have "remove_first (\<lambda>m. msg_ClientFd m = fd) ?q = ?q"
    using assms(3,5) by (intro remove_first_none) (auto simp: release_msg_def)
  then show ?thesis using assms(2,4,5) fd
    by (simp add: qmi_proxy_event_def q_hangup_def cleanup_qmi_connection_def cleanup_clients_run [OF assms(1)])
qed

lemma exchange_dev:
  assumes "dev \<notin> set fds" and "length qs = length rs"
  shows "map snd (filter (\<lambda>w. fst w = dev) (exchange dev server fds qs rs)) = map msg_qmi (tl qs)"
  using assms(2)
proof (induction qs rs rule: list_induct2)
  case (Cons q qs r rs)
  have "filter (\<lambda>w. fst w = dev) (delivered server fds q r) = []"
    using assms(1) by (auto simp: delivered_def filter_empty_conv)
  with Cons show ?case by (cases qs) (simp_all add: next_request_def)
qed simp


section \<open>A control request and its response\<close>

text \<open>What a response of at least 24 bytes means for the ids of the connection that asked.\<close>

definition id_update :: "bytes \<Rightarrow> qmi_connection \<Rightarrow> qmi_connection" where
  "id_update r con =
     (if rd16 r 15 = Some 0 \<and> rd16 r 17 = Some 0 then
        if rd16 r 8 = Some QMICTL_GET_CLIENT_ID_RESP then
          con\<lparr>client_qnode := client_qnode con @
            [\<lparr>cl_QMIType = r ! 22, cl_ClientId = r ! 23, cl_AccessTime = 0\<rparr>]\<rparr>
        else if rd16 r 8 = Some QMICTL_RELEASE_CLIENT_ID_RESP then
          con\<lparr>client_qnode := remove_first (\<lambda>c. r ! 22 = cl_QMIType c \<and> r ! 23 = cl_ClientId c)
            (client_qnode con)\<rparr>
        else con
      else con)"

lemma ctl_deliver_skip:
  assumes "\<forall>c \<in> set xs. con_ClientFd c \<noteq> fd"
  shows "ctl_deliver p ty fd (xs @ zs) st =
     map_option (\<lambda>(cons, st). (xs @ cons, st)) (ctl_deliver p ty fd zs st)"
  using assms
proof (induction xs)
  case Nil
  then show ?case by (simp add: option.map_ident split_def)
next
  case (Cons x xs)
  then show ?case by (cases "ctl_deliver p ty fd zs st") auto
qed

lemma ctl_deliver_one:
  assumes "quiet st" and "qmi_msg_ok r" and "24 \<le> length r" and "rd16 r 8 = Some ty"
    and "\<forall>c \<in> set (xs @ ys). con_ClientFd c \<noteq> fd" and "con_ClientFd con = fd"
  shows "ctl_deliver (r @ rest) ty fd (xs @ con # ys) st =
     Some (xs @ id_update r con # ys, st\<lparr>writes := writes st @ [(fd, r)]\<rparr>)"
proof -
  let ?st = "st\<lparr>writes := writes st @ [(fd, r)]\<rparr>"
  have send: "send_qmi_to_client (r @ rest) fd st = Some (int (length r), ?st)"
    using assms(1,2) by (simp add: send_qmi_to_client_def send_now quiet_def)
  have m: "proxy_malloc ?st = (True, ?st)" using assms(1) by (simp add: malloc_now quiet_def)
  have rd: "rd16 (r @ rest) 15 = rd16 r 15" "rd16 (r @ rest) 17 = rd16 r 17"
    "rd8 (r @ rest) 22 = Some (r ! 22)" "rd8 (r @ rest) 23 = Some (r ! 23)"
    using assms(3) by (simp_all add: rd16_front rd8_def nth_append)
  obtain a b where ab: "rd16 r 15 = Some a" "rd16 r 17 = Some b" using assms(3) by (simp add: rd16_def)
  have get: "get_client_id (r @ rest) con ?st = Some (id_update r con, ?st)"
    if "ty = QMICTL_GET_CLIENT_ID_RESP"
    using that assms(4) m by (cases "a = 0 \<and> b = 0") (auto simp: get_client_id_def rd ab id_update_def)
  have rel: "release_client_id (r @ rest) con = Some (id_update r con)"
    if "ty \<noteq> QMICTL_GET_CLIENT_ID_RESP" "ty = QMICTL_RELEASE_CLIENT_ID_RESP"
    using that assms(4) by (cases "a = 0 \<and> b = 0") (auto simp: release_client_id_def rd ab id_update_def)
  have none: "id_update r con = con"
    if "ty \<noteq> QMICTL_GET_CLIENT_ID_RESP" "ty \<noteq> QMICTL_RELEASE_CLIENT_ID_RESP"
    using that assms(4) by (simp add: id_update_def)
  have ys: "ctl_deliver (r @ rest) ty fd ys ?st = Some (ys, ?st)"
    using ctl_deliver_skip [of ys fd "r @ rest" ty "[]" ?st] assms(5) by simp
  consider "ty = QMICTL_GET_CLIENT_ID_RESP"
    | "ty \<noteq> QMICTL_GET_CLIENT_ID_RESP" "ty = QMICTL_RELEASE_CLIENT_ID_RESP"
    | "ty \<noteq> QMICTL_GET_CLIENT_ID_RESP" "ty \<noteq> QMICTL_RELEASE_CLIENT_ID_RESP" by blast
  then have "ctl_deliver (r @ rest) ty fd (con # ys) st = Some (id_update r con # ys, ?st)"
  proof cases
    case 1
    with get send ys assms(6) show ?thesis by simp
  next
    case 2
    with rel send ys assms(6) show ?thesis by simp
  next
    case 3
    with none send ys assms(6) show ?thesis by simp
  qed
  then show ?thesis using assms(5) by (subst ctl_deliver_skip) simp_all
qed

lemma client_ctl_request:
  assumes "quiet st" and "length (qmi_buf st) = 4096"
    and "qmi_msg_ok m" and "10 \<le> length m" and "length m \<le> 4096" and "m ! 4 = QMUX_TYPE_CTL"
    and "rd16 m 8 \<noteq> Some QMICTL_SYNC_REQ" and "qmi_proxy_server_fd st \<noteq> -1"
    and "fd \<noteq> qmi_proxy_server_fd st" and "fd \<noteq> cdc_wdm_fd st"
  shows "qmi_proxy_event acc fd (q_readable m) st =
     Some (Next_fd, (buf_read m st)\<lparr>
       qmi_proxy_ctl_msg := qmi_proxy_ctl_msg st @ [\<lparr>msg_ClientFd = fd, msg_qmi = m\<rparr>],
       writes := writes st @ (if qmi_proxy_ctl_msg st = [] then [(cdc_wdm_fd st, m)] else [])\<rparr>)"
proof -
  let ?rest = "drop (length m) (qmi_buf st)"
  obtain ty where ty: "rd16 m 8 = Some ty" "ty \<noteq> QMICTL_SYNC_REQ"
    using assms(4,7) by (simp add: rd16_def)
  have rd: "rd8 (m @ ?rest) 4 = Some QMUX_TYPE_CTL" "rd16 (m @ ?rest) 8 = Some ty"
    "rdn (m @ ?rest) 0 (length m) = Some m"
    using assms(4,6) ty(1) by (simp_all add: rd8_def nth_append rd16_front rdn_def)
  show ?thesis using assms(1,8) rd ty(2)
    by (simp add: client_event [OF assms(3,5,9,10)] recv_qmi_from_client_def buf_read_def malloc_now
        quiet_def queue_ctl_msg_def send_qmi_to_cdc_wdm_def send_now [OF assms(3)])
qed

lemma ctl_roundtrip:
  assumes "quiet st" and "length (qmi_buf st) = 4096" and "qmi_proxy_ctl_msg st = []"
    and "qmi_proxy_connection st = xs @ con # ys" and "\<forall>c \<in> set (xs @ ys). con_ClientFd c \<noteq> fd"
    and "con_ClientFd con = fd" and "fd \<noteq> cdc_wdm_fd st" and "fd \<noteq> qmi_proxy_server_fd st"
    and "\<not> modem_reset_flag st" and "qmi_proxy_server_fd st \<noteq> -1"
    and "cdc_wdm_fd st \<noteq> qmi_proxy_server_fd st"
    and "qmi_msg_ok m" and "10 \<le> length m" and "length m \<le> 4096" and "m ! 4 = QMUX_TYPE_CTL"
    and "rd16 m 8 \<noteq> Some QMICTL_SYNC_REQ"
    and "answers \<lparr>msg_ClientFd = fd, msg_qmi = m\<rparr> r" and "24 \<le> length r"
  shows "\<exists>st'. qmi_proxy_events acc [(fd, q_readable m), (cdc_wdm_fd st, q_readable r)] st =
      Some (Next_fd, st') \<and>
    writes st' = writes st @ [(cdc_wdm_fd st, m), (fd, r)] \<and> qmi_proxy_ctl_msg st' = [] \<and>
    qmi_proxy_connection st' = xs @ id_update r con # ys"
proof -
  let ?q = "\<lparr>msg_ClientFd = fd, msg_qmi = m\<rparr>"
  define st1 where "st1 = (buf_read m st)\<lparr>qmi_proxy_ctl_msg := [?q], writes := writes st @ [(cdc_wdm_fd st, m)]\<rparr>"
  have ev1: "qmi_proxy_event acc fd (q_readable m) st = Some (Next_fd, st1)"
    using assms(3) client_ctl_request [OF assms(1,2,12-16,10,8,7)] by (simp add: st1_def)
  let ?st = "buf_read r st1" and ?rest = "drop (length r) (qmi_buf st1)"
  from assms(17) have r: "qmi_msg_ok r" "10 \<le> length r" "length r \<le> 4096" "r ! 4 = QMUX_TYPE_CTL"
    "r ! 6 = QMICTL_CTL_FLAG_RSP" "rd8 m 7 = rd8 r 7" "rd16 m 8 = rd16 r 8"
    by (simp_all add: answers_def)
  obtain t ty where rr: "rd8 r 7 = Some t" "rd16 r 8 = Some ty"
    using r(2) by (simp add: rd8_def rd16_def)
  have b: "rd8 (r @ ?rest) 4 = Some QMUX_TYPE_CTL" "rd8 (r @ ?rest) 6 = Some QMICTL_CTL_FLAG_RSP"
    "rd8 (r @ ?rest) 7 = Some t" "rd16 (r @ ?rest) 8 = Some ty"
    using r rr by (simp_all add: rd8_def nth_append rd16_front)
  have "quiet ?st" using assms(1) by (simp add: quiet_def buf_read_def st1_def)
  from ctl_deliver_one [OF this r(1) assms(18) rr(2) assms(5,6), of ?rest]
  have d: "ctl_deliver (r @ ?rest) ty fd (xs @ con # ys) ?st =
     Some (xs @ id_update r con # ys, ?st\<lparr>writes := writes ?st @ [(fd, r)]\<rparr>)" .
  have s: "qmi_proxy_ctl_msg st1 = [?q]" "qmi_proxy_connection st1 = xs @ con # ys"
    "qmi_proxy_server_fd st1 = qmi_proxy_server_fd st" "cdc_wdm_fd st1 = cdc_wdm_fd st"
    "modem_reset_flag st1 = modem_reset_flag st" "writes st1 = writes st @ [(cdc_wdm_fd st, m)]"
    using assms(4) by (simp_all add: st1_def buf_read_def)
  have resp: "ctl_response (r @ ?rest) ?q ?st =
     Some (?st\<lparr>qmi_proxy_connection := xs @ id_update r con # ys, writes := writes ?st @ [(fd, r)]\<rparr>)"
    using b r(6,7) rr d assms(8) s by (simp add: ctl_response_def buf_read_def)
  have ne: "cdc_wdm_fd st1 \<noteq> qmi_proxy_server_fd st1" using s assms(11) by simp
  have "qmi_proxy_event acc (cdc_wdm_fd st1) (q_readable r) st1 = Some (Next_fd,
      ?st\<lparr>qmi_proxy_connection := xs @ id_update r con # ys, writes := writes ?st @ [(fd, r)],
          qmi_proxy_ctl_msg := []\<rparr>)"
    using b s assms(9,10) resp
    by (subst dev_event [OF r(1,3) ne]) (simp add: recv_qmi_from_dev_def ctl_message_def buf_read_def)
  then show ?thesis using ev1 s by (auto simp: buf_read_def)
qed

text \<open>C6:
  A control request comes back to the connection that made it, and the proxy records what it means.
  With no control request under way, a client sends a well-formed control request (not SYNC) and the
  modem answers it with a response of at least 24 bytes that has the same transaction id and type.  The
  proxy writes exactly the request to the modem and exactly the response to that client; the queue is
  empty again; a granted client id is added to the ids of that connection and no other, a released one
  is taken from them, and any other response leaves them alone.
\<close>

theorem ctl_request_roundtrip:
  assumes "quiet st" and "length (qmi_buf st) = 4096" and "qmi_proxy_ctl_msg st = []"
    and "qmi_proxy_connection st = xs @ con # ys" and "\<forall>c \<in> set (xs @ ys). con_ClientFd c \<noteq> fd"
    and "con_ClientFd con = fd" and "fd \<noteq> cdc_wdm_fd st" and "fd \<noteq> qmi_proxy_server_fd st"
    and "\<not> modem_reset_flag st" and "qmi_proxy_server_fd st \<noteq> -1"
    and "cdc_wdm_fd st \<noteq> qmi_proxy_server_fd st"
    and "qmi_msg_ok m" and "10 \<le> length m" and "length m \<le> 4096" and "m ! 4 = QMUX_TYPE_CTL"
    and "rd16 m 8 \<noteq> Some QMICTL_SYNC_REQ"
    and "answers \<lparr>msg_ClientFd = fd, msg_qmi = m\<rparr> r" and "24 \<le> length r"
  shows "\<exists>st'. qmi_proxy_events acc [(fd, q_readable m), (cdc_wdm_fd st, q_readable r)] st =
      Some (Next_fd, st') \<and>
    writes st' = writes st @ [(cdc_wdm_fd st, m), (fd, r)] \<and> qmi_proxy_ctl_msg st' = [] \<and>
    qmi_proxy_connection st' = xs @ id_update r con # ys"
  by (rule ctl_roundtrip [OF assms])

section \<open>Requests that are lost\<close>

text \<open>C37:
  A client that hangs up can cost another client its request.  Client \<open>fd\<close> has a control request
  \<open>a\<close> under way and the next request \<open>b\<close>, of another connection, is waiting behind it.  When \<open>fd\<close> hangs
  up, \<open>a\<close> is taken out of the queue, so that the response to \<open>a\<close>, when it arrives, is compared with
  \<open>b\<close> and finishes it: \<open>b\<close> leaves the queue although it was never written to the modem, and its client
  gets nothing.
\<close>

theorem hangup_loses_request:
  assumes "quiet st" and "length (qmi_buf st) = 4096"
    and "qmi_proxy_ctl_msg st = a # b # rest" and "msg_ClientFd a = fd"
    and "find (\<lambda>c. con_ClientFd c = fd) (qmi_proxy_connection st) = Some con" and "client_qnode con = []"
    and "fd \<noteq> cdc_wdm_fd st" and "fd \<noteq> qmi_proxy_server_fd st"
    and "answers a r" and "\<not> answers b r" and "10 \<le> length (msg_qmi b)"
    and "\<forall>q \<in> set rest. qmi_msg_ok (msg_qmi q)" and "\<not> modem_reset_flag st"
    and "qmi_proxy_server_fd st \<noteq> -1" and "cdc_wdm_fd st \<noteq> qmi_proxy_server_fd st"
  shows "\<exists>st'. qmi_proxy_events acc [(fd, q_hangup), (cdc_wdm_fd st, q_readable r)] st =
      Some (Next_fd, st') \<and>
    qmi_proxy_ctl_msg st' = rest \<and> writes st' = writes st @ next_request (cdc_wdm_fd st) rest"
proof -
  define st1 where "st1 = st\<lparr>qmi_proxy_ctl_msg := b # rest, closes := closes st @ [fd],
    qmi_proxy_connection := remove_first (\<lambda>c. con_ClientFd c = fd) (qmi_proxy_connection st)\<rparr>"
  have fd: "con_ClientFd con = fd" using assms(5) by (auto simp: find_Some_iff)
  have ev1: "qmi_proxy_event acc fd q_hangup st = Some (Next_fd, st1)"
    using assms(3-8) fd
    by (simp add: qmi_proxy_event_def q_hangup_def cleanup_qmi_connection_def st1_def)
  let ?st = "buf_read r st1" and ?rest = "drop (length r) (qmi_buf st1)"
  from assms(9) have r: "qmi_msg_ok r" "10 \<le> length r" "length r \<le> 4096" "r ! 4 = QMUX_TYPE_CTL"
    "r ! 6 = QMICTL_CTL_FLAG_RSP" by (simp_all add: answers_def)
  have no: "rd8 (msg_qmi b) 7 \<noteq> rd8 r 7 \<or> rd16 (msg_qmi b) 8 \<noteq> rd16 r 8"
    using assms(10) r by (simp add: answers_def)
  obtain t ty t' ty' where rr: "rd8 r 7 = Some t" "rd16 r 8 = Some ty"
    "rd8 (msg_qmi b) 7 = Some t'" "rd16 (msg_qmi b) 8 = Some ty'"
    using r(2) assms(11) by (simp add: rd8_def rd16_def)
  have b: "rd8 (r @ ?rest) 4 = Some QMUX_TYPE_CTL" "rd8 (r @ ?rest) 6 = Some QMICTL_CTL_FLAG_RSP"
    "rd8 (r @ ?rest) 7 = Some t" "rd16 (r @ ?rest) 8 = Some ty"
    using r rr by (simp_all add: rd8_def nth_append rd16_front)
  have resp: "ctl_response (r @ ?rest) b ?st = Some ?st"
    using no rr b by (auto simp: ctl_response_def)
  have s: "qmi_proxy_ctl_msg st1 = b # rest" "qmi_proxy_server_fd st1 = qmi_proxy_server_fd st"
    "cdc_wdm_fd st1 = cdc_wdm_fd st" "modem_reset_flag st1 = modem_reset_flag st" "writes st1 = writes st"
    "sends st1 = []"
    using assms(1) by (simp_all add: st1_def quiet_def)
  have ne: "cdc_wdm_fd st1 \<noteq> qmi_proxy_server_fd st1" using s assms(15) by simp
  have "qmi_proxy_event acc (cdc_wdm_fd st1) (q_readable r) st1 = Some (Next_fd,
      ?st\<lparr>qmi_proxy_ctl_msg := rest, writes := writes st @ next_request (cdc_wdm_fd st) rest\<rparr>)"
  proof (cases rest)
    case Nil
    have "?st\<lparr>qmi_proxy_ctl_msg := [], writes := writes st\<rparr> = ?st\<lparr>qmi_proxy_ctl_msg := []\<rparr>"
      using s(5) by (simp add: buf_read_def)
    then show ?thesis using b s assms(13,14) resp Nil
      by (subst dev_event [OF r(1,3) ne])
         (simp add: recv_qmi_from_dev_def ctl_message_def buf_read_def next_request_def)
  next
    case (Cons c cs)
    with assms(12) have "qmi_msg_ok (msg_qmi c)" by simp
    note send = send_now_whole [OF this]
    show ?thesis using b s assms(13,14) resp Cons
      by (subst dev_event [OF r(1,3) ne])
         (simp add: recv_qmi_from_dev_def ctl_message_def buf_read_def next_request_def
           send_qmi_to_cdc_wdm_def send)
  qed
  then show ?thesis using ev1 s by (auto simp: buf_read_def)
qed

text \<open>
  A control request that is too short makes the proxy read behind it.  A client sends a message for
  the control service that ends before its transaction id (5 to 7 bytes); the proxy stores just these
  bytes.  The next response of the modem is compared with the transaction id of the stored request,
  which is outside of it.  (The message type is taken from the bytes an earlier message left in the
  receive buffer; the hypothesis is that these are not those of a SYNC request.)
\<close>

theorem short_request_faults:
  assumes "quiet st" and "length (qmi_buf st) = 4096" and "qmi_proxy_ctl_msg st = []"
    and "qmi_msg_ok m" and "5 \<le> length m" and "length m < 8" and "m ! 4 = QMUX_TYPE_CTL"
    and "rd16 (m @ drop (length m) (qmi_buf st)) 8 \<noteq> Some QMICTL_SYNC_REQ"
    and "fd \<noteq> cdc_wdm_fd st" and "fd \<noteq> qmi_proxy_server_fd st"
    and "qmi_proxy_server_fd st \<noteq> -1" and "cdc_wdm_fd st \<noteq> qmi_proxy_server_fd st"
    and "qmi_msg_ok r" and "7 \<le> length r" and "length r \<le> 4096"
    and "r ! 4 = QMUX_TYPE_CTL" and "r ! 6 = QMICTL_CTL_FLAG_RSP"
  shows "qmi_proxy_events acc [(fd, q_readable m), (cdc_wdm_fd st, q_readable r)] st = None"
proof -
  let ?rest = "drop (length m) (qmi_buf st)"
  define st1 where "st1 = (buf_read m st)\<lparr>qmi_proxy_ctl_msg := [\<lparr>msg_ClientFd = fd, msg_qmi = m\<rparr>],
    writes := writes st @ [(cdc_wdm_fd st, m)]\<rparr>"
  obtain ty where ty: "rd16 (m @ ?rest) 8 = Some ty" "ty \<noteq> QMICTL_SYNC_REQ"
    using assms(2,6,8) by (cases "rd16 (m @ ?rest) 8") (auto simp: rd16_def)
  have rd: "rd8 (m @ ?rest) 4 = Some QMUX_TYPE_CTL" "rdn (m @ ?rest) 0 (length m) = Some m"
    using assms(5,7) by (simp_all add: rd8_def nth_append rdn_def)
  have l: "length m \<le> 4096" using assms(6) by simp
  have "recv_qmi_from_client (length m) fd (buf_read m st) = Some (0, st1)"
    using assms(1,3,11) rd ty
    by (simp add: recv_qmi_from_client_def buf_read_def malloc_now quiet_def
        queue_ctl_msg_def send_qmi_to_cdc_wdm_def send_now [OF assms(4)] st1_def)
  then have ev1: "qmi_proxy_event acc fd (q_readable m) st = Some (Next_fd, st1)"
    by (simp add: client_event [OF assms(4) l assms(10,9)])
  let ?rest = "drop (length r) (qmi_buf st1)"
  have s: "qmi_proxy_server_fd st1 = qmi_proxy_server_fd st" "cdc_wdm_fd st1 = cdc_wdm_fd st"
    "qmi_proxy_ctl_msg st1 = [\<lparr>msg_ClientFd = fd, msg_qmi = m\<rparr>]"
    by (simp_all add: st1_def buf_read_def)
  have b: "rd8 (r @ ?rest) 4 = Some QMUX_TYPE_CTL" "rd8 (r @ ?rest) 6 = Some QMICTL_CTL_FLAG_RSP"
    using assms(14,16,17) by (simp_all add: rd8_def nth_append)
  have short: "rd8 m 7 = None" using assms(6) by (simp add: rd8_def)
  have ne: "cdc_wdm_fd st1 \<noteq> qmi_proxy_server_fd st1" using s assms(12) by simp
  have "qmi_proxy_event acc (cdc_wdm_fd st1) (q_readable r) st1 = None"
    using b s assms(11) short
    by (subst dev_event [OF assms(13,15) ne])
       (simp add: recv_qmi_from_dev_def ctl_message_def ctl_response_def buf_read_def)
  then show ?thesis using ev1 s by simp
qed

section \<open>The reset of the modem\<close>

lemma send_flag:
  "always (\<lambda>(_, st'). modem_reset_flag st' = modem_reset_flag st) (send_qmi fd m st)"
  by (rule alwaysI) (auto dest!: send_sent_frame simp: sent_frame_def)

lemma get_client_id_flag:
  "always (\<lambda>(_, st'). modem_reset_flag st' = modem_reset_flag st) (get_client_id p con st)"
proof -
  obtain ok oks where m: "proxy_malloc st = (ok, st\<lparr>malloc_results := oks\<rparr>)"
    by (rule proxy_malloc_frame)
  show ?thesis unfolding get_client_id_def m Let_def
    by (intro always_bind_any always_intro) (simp_all add: always_def bind_eq_Some_conv)
qed

lemma ctl_deliver_flag:
  "always (\<lambda>(_, st'). modem_reset_flag st' = modem_reset_flag st) (ctl_deliver p ty fd cons st)"
proof (induction cons arbitrary: st)
  case (Cons con cons)
  show ?case
  proof (cases "con_ClientFd con = fd")
    case True
    have "always (\<lambda>(_, st'). modem_reset_flag st' = modem_reset_flag st) (do {
        (_, st) \<leftarrow> send_qmi_to_client p fd st;
        if ty = QMICTL_GET_CLIENT_ID_RESP then get_client_id p con st
        else if ty = QMICTL_RELEASE_CLIENT_ID_RESP then do {
          con \<leftarrow> release_client_id p con;
          Some (con, st)
        }
        else Some (con, st) })"
      unfolding send_qmi_to_client_def
      by (rule always_bind [OF send_flag], clarify, intro always_intro always_bind_any)
         (use get_client_id_flag in \<open>auto simp: always_def\<close>)
    from this [THEN alwaysD] show ?thesis unfolding ctl_deliver.simps if_P [OF True]
      by (intro alwaysI) (fastforce elim!: bind_SomeE dest: alwaysD [OF Cons.IH])
  next
    case False
    then show ?thesis
      by (auto simp: always_def bind_eq_Some_conv dest: alwaysD [OF Cons.IH])
  qed
qed (simp add: always_def)

lemma service_clients_flag:
  "always (\<lambda>st'. modem_reset_flag st' = modem_reset_flag st) (service_clients p ty cid fd cs st)"
proof (induction cs arbitrary: st)
  case (Cons c cs)
  then show ?case
    by (auto simp: always_def bind_eq_Some_conv send_qmi_to_client_def split: if_splits
        dest!: alwaysD [OF send_flag] elim!: map_snd_SomeE)
qed (simp add: always_def)

lemma service_message_flag:
  "always (\<lambda>st'. modem_reset_flag st' = modem_reset_flag st) (service_message p ty cid cons st)"
proof (induction cons arbitrary: st)
  case (Cons con cons)
  show ?case
    by (auto simp: always_def bind_eq_Some_conv dest!: alwaysD [OF Cons.IH] alwaysD [OF service_clients_flag])
qed (simp add: always_def)

lemma ctl_response_flag:
  "always (\<lambda>st'. modem_reset_flag st' = modem_reset_flag st) (ctl_response p q st)"
  unfolding ctl_response_def
  by (rule alwaysI) (auto simp: bind_eq_Some_conv split: if_splits dest!: alwaysD [OF ctl_deliver_flag])

lemma ctl_message_flag:
  assumes "rd8 p 4 = Some QMUX_TYPE_CTL"
  shows "always (\<lambda>st'. modem_reset_flag st' = modem_reset_flag st) (ctl_message p st)"
proof -
  have "QMUX_TYPE_CTL \<noteq> QMICTL_CTL_FLAG_IND" by (simp add: QMUX_TYPE_CTL_def QMICTL_CTL_FLAG_IND_def)
  moreover have "always (\<lambda>st'. modem_reset_flag st' = modem_reset_flag st) (do {
      st \<leftarrow> ctl_response p q st;
      let st = st\<lparr>qmi_proxy_ctl_msg := tl (qmi_proxy_ctl_msg st)\<rparr>;
      case qmi_proxy_ctl_msg st of
        [] \<Rightarrow> Some st
      | q # _ \<Rightarrow> map_option snd (send_qmi_to_cdc_wdm (msg_qmi q) st) })" for q
    by (rule always_bind [OF ctl_response_flag])
       (auto simp: always_def Let_def send_qmi_to_cdc_wdm_def split: list.splits
         dest!: alwaysD [OF send_flag] elim!: map_snd_SomeE)
  ultimately show ?thesis using assms unfolding ctl_message_def
    by (cases "rd8 p 6"; cases "qmi_proxy_ctl_msg st") (simp_all add: always_def)
qed

lemma recv_qmi_from_dev_flag:
  "always (\<lambda>st'. modem_reset_flag st' = modem_reset_flag st) (recv_qmi_from_dev st)"
  unfolding recv_qmi_from_dev_def Let_def
proof (rule always_if)
  show "always (\<lambda>st'. modem_reset_flag st' = modem_reset_flag st) (Some (st\<lparr>qmi_sync_done := True\<rparr>))"
    by (simp add: always_def)
  show "always (\<lambda>st'. modem_reset_flag st' = modem_reset_flag st) (Option.bind (rd8 (qmi_buf st) 4)
      (\<lambda>QMIType. if QMIType = QMUX_TYPE_CTL then ctl_message (qmi_buf st) st
         else Option.bind (rd8 (qmi_buf st) 5)
           (\<lambda>ClientId. service_message (qmi_buf st) QMIType ClientId (qmi_proxy_connection st) st)))"
    using ctl_message_flag [of "qmi_buf st" st] service_message_flag
    by (cases "rd8 (qmi_buf st) 4") (auto simp: always_def bind_eq_Some_conv)
qed

lemma recv_qmi_from_client_flag:
  "always (\<lambda>(_, st'). modem_reset_flag st' = modem_reset_flag st) (recv_qmi_from_client n fd st)"
proof -
  obtain ok oks where m: "proxy_malloc st = (ok, st\<lparr>malloc_results := oks\<rparr>)"
    by (rule proxy_malloc_frame)
  have q: "modem_reset_flag b = modem_reset_flag st"
    if "queue_ctl_msg p q (st\<lparr>malloc_results := oks\<rparr>) = Some b" for p q b
    using queue_ctl_msg_frame [OF that] by (simp add: sent_frame_def)
  show ?thesis unfolding recv_qmi_from_client_def m Let_def send_qmi_to_cdc_wdm_def
    by (rule alwaysI)
       (auto simp: bind_eq_Some_conv split: if_splits dest: q dest!: alwaysD [OF send_flag])
qed

text \<open>C38:
  The proxy never notices that the modem was reset.  The flag that ends the loop and makes \<open>main\<close> wait
  thirty seconds is to be set by a revoke-client-id indication, but the test for an indication looks at
  the service field, which is that of the control service in this branch: whatever arrives, no event
  changes the flag.
\<close>

theorem revoke_never_resets:
  assumes "qmi_proxy_event acc fd ev st = Some (ctl, st')"
  shows "modem_reset_flag st' = modem_reset_flag st"
proof -
  have cleanup: "modem_reset_flag b = modem_reset_flag st" if "cleanup_qmi_connection fd d st = Some b" for d b
    using cleanup_qmi_connection_frame(2) [OF that] by (simp add: sent_frame_def)
  obtain ok oks where "proxy_malloc st = (ok, st\<lparr>malloc_results := oks\<rparr>)"
    by (rule proxy_malloc_frame)
  then have accept: "modem_reset_flag (accept_qmi_connection acc st) = modem_reset_flag st"
    by (simp add: accept_qmi_connection_def Let_def)
  have buf: "modem_reset_flag (buf_read bs st) = modem_reset_flag st" for bs by (simp add: buf_read_def)
  show ?thesis using assms accept buf
    unfolding qmi_proxy_event_def Let_def
    by (auto simp: bind_eq_Some_conv split: if_splits
        dest!: cleanup alwaysD [OF recv_qmi_from_dev_flag] alwaysD [OF recv_qmi_from_client_flag])
qed

section \<open>Memory safety\<close>

text \<open>\<open>returns P m\<close>: \<open>m\<close> returns, with a result that satisfies \<open>P\<close>.\<close>

definition returns :: "('a \<Rightarrow> bool) \<Rightarrow> 'a option \<Rightarrow> bool" where
  "returns P m \<longleftrightarrow> (\<exists>x. m = Some x \<and> P x)"

lemma returns_bind:
  "returns P m \<Longrightarrow> (\<And>x. P x \<Longrightarrow> returns Q (f x)) \<Longrightarrow> returns Q (Option.bind m f)"
  by (auto simp: returns_def)

lemma returns_Some: "P x \<Longrightarrow> returns P (Some x)"
  by (simp add: returns_def)

lemma returns_map: "returns (\<lambda>x. P (f x)) m \<Longrightarrow> returns P (map_option f m)"
  by (auto simp: returns_def)

lemma returns_mono: "returns P m \<Longrightarrow> (\<And>x. P x \<Longrightarrow> Q x) \<Longrightarrow> returns Q m"
  by (auto simp: returns_def)

text \<open>
  A state is well-formed when the receive buffer has its size and every stored request is a whole
  message that reaches to the end of its control header; memory is available.
\<close>

definition request_ok :: "qmi_proxy_msg \<Rightarrow> bool" where
  "request_ok q \<longleftrightarrow> qmi_msg_ok (msg_qmi q) \<and> 10 \<le> length (msg_qmi q)"

definition qmi_proxy_wf :: "int \<Rightarrow> qmi_proxy \<Rightarrow> bool" where
  "qmi_proxy_wf dev st \<longleftrightarrow>
     cdc_wdm_fd st = dev \<and> length (qmi_buf st) = 4096 \<and> (\<forall>q \<in> set (qmi_proxy_ctl_msg st). request_ok q) \<and>
     set (malloc_results st) \<subseteq> {True}"

definition sendable :: "bytes \<Rightarrow> bool" where
  "sendable p \<longleftrightarrow> (case rd16 p 1 of None \<Rightarrow> False | Some L \<Rightarrow> unat L + 1 \<le> length p)"

lemma msg_ok_sendable: "qmi_msg_ok m \<Longrightarrow> sendable m"
  by (auto simp: qmi_msg_ok_def sendable_def split: option.splits)

lemma send_returns:
  assumes "qmi_proxy_wf dev st" and "sendable p"
  shows "returns (\<lambda>(_, st'). qmi_proxy_wf dev st' \<and> qmi_buf st' = qmi_buf st \<and> qmi_proxy_server_fd st' = qmi_proxy_server_fd st)
    (send_qmi fd p st)"
proof -
  from assms(2) obtain L m where L: "rd16 p 1 = Some L" "rdn p 0 (unat L + 1) = Some m"
    by (auto simp: sendable_def rdn_def split: option.splits)
  obtain r st' where run: "send_qmi fd p st = Some (r, st')"
  proof (cases "sends st")
    case Nil
    then show ?thesis using L that by (simp add: send_qmi_def)
  next
    case (Cons x xs)
    then show ?thesis using L that by (cases x) (simp_all add: send_qmi_def)
  qed
  then obtain ss ws where "st' = st\<lparr>sends := ss, writes := ws\<rparr>" by (rule send_qmi_frame)
  with run assms(1) show ?thesis by (simp add: returns_def qmi_proxy_wf_def)
qed

lemma send_snd_returns:
  assumes "qmi_proxy_wf dev st" and "sendable p"
  shows "returns (qmi_proxy_wf dev) (map_option snd (send_qmi fd p st))"
  by (rule returns_map, rule returns_mono [OF send_returns [OF assms]]) auto

lemma malloc_returns:
  assumes "qmi_proxy_wf dev st"
  obtains st' where "proxy_malloc st = (True, st')" "qmi_proxy_wf dev st'" "qmi_buf st' = qmi_buf st"
    "qmi_proxy_server_fd st' = qmi_proxy_server_fd st"
proof (cases "malloc_results st")
  case Nil
  with assms show ?thesis by (intro that [of st]) (simp_all add: proxy_malloc_def)
next
  case (Cons b bs)
  with assms show ?thesis
    by (intro that [of "st\<lparr>malloc_results := bs\<rparr>"]) (auto simp: proxy_malloc_def qmi_proxy_wf_def)
qed

lemma queue_ctl_msg_returns:
  assumes "qmi_proxy_wf dev st" and "sendable p" and "request_ok q"
  shows "returns (qmi_proxy_wf dev) (queue_ctl_msg p q st)"
  unfolding queue_ctl_msg_def send_qmi_to_cdc_wdm_def
proof (rule returns_bind [where P = "qmi_proxy_wf dev"])
  have "returns (qmi_proxy_wf dev) (map_option snd (send_qmi (cdc_wdm_fd st) p st))"
    by (rule send_snd_returns [OF assms(1,2)])
  then show "returns (qmi_proxy_wf dev)
      (if qmi_proxy_ctl_msg st = [] then map_option snd (send_qmi (cdc_wdm_fd st) p st) else Some st)"
    using assms(1) by (simp add: returns_Some)
qed (use assms(3) in \<open>auto simp: returns_def qmi_proxy_wf_def\<close>)

lemma cleanup_clients_returns:
  "qmi_proxy_wf dev st \<Longrightarrow> returns (qmi_proxy_wf dev) (cleanup_clients d cs st)"
proof (induction cs arbitrary: st)
  case (Cons c cs)
  have "returns (qmi_proxy_wf dev) (release_client c st)"
  proof -
    obtain st' where m: "proxy_malloc st = (True, st')" "qmi_proxy_wf dev st'"
      using Cons.prems by (rule malloc_returns)
    have "length (release_request t i) = 17" for t i by (simp add: release_request_def)
    then show ?thesis unfolding release_client_def m Let_def
      by (simp add: queue_ctl_msg_returns [OF m(2)] msg_ok_sendable release_request_ok request_ok_def)
  qed
  then show ?case using Cons.prems unfolding cleanup_clients.simps
    by (intro returns_bind [where P = "qmi_proxy_wf dev"] Cons.IH) (simp_all add: returns_Some)
qed (simp add: returns_Some)

lemma set_remove_first: "set (remove_first P xs) \<subseteq> set xs"
  by (induction xs) auto

lemma cleanup_returns:
  assumes "qmi_proxy_wf dev st"
  shows "returns (qmi_proxy_wf dev) (cleanup_qmi_connection fd d st)"
proof (cases "find (\<lambda>c. con_ClientFd c = fd) (qmi_proxy_connection st)")
  case None
  with assms show ?thesis by (simp add: cleanup_qmi_connection_def returns_Some)
next
  case (Some con)
  have keep: "\<forall>q \<in> set (remove_first P (qmi_proxy_ctl_msg a)). request_ok q" if "qmi_proxy_wf dev a" for P a
    using that set_remove_first [of P "qmi_proxy_ctl_msg a"] by (auto simp: qmi_proxy_wf_def)
  show ?thesis unfolding cleanup_qmi_connection_def Some option.case
    by (rule returns_bind [OF cleanup_clients_returns [OF assms]], rule returns_Some)
       (use keep in \<open>simp add: qmi_proxy_wf_def\<close>)
qed

lemma get_client_id_returns:
  assumes "qmi_proxy_wf dev st" and "24 \<le> length p"
  shows "returns (\<lambda>(_, st'). qmi_proxy_wf dev st' \<and> qmi_proxy_server_fd st' = qmi_proxy_server_fd st) (get_client_id p con st)"
proof -
  obtain st' where m: "proxy_malloc st = (True, st')" "qmi_proxy_wf dev st'"
    "qmi_proxy_server_fd st' = qmi_proxy_server_fd st"
    using assms(1) by (rule malloc_returns)
  obtain a b where "rd16 p 15 = Some a" "rd16 p 17 = Some b" using assms(2) by (simp add: rd16_def)
  moreover have "rd8 p 22 = Some (p ! 22)" "rd8 p 23 = Some (p ! 23)" using assms(2) by (simp_all add: rd8_def)
  ultimately show ?thesis using m assms(1) by (simp add: get_client_id_def returns_Some)
qed

lemma release_client_id_returns:
  assumes "24 \<le> length p"
  shows "returns (\<lambda>_. True) (release_client_id p con)"
  using release_client_id_run [OF assms, of con] by (auto simp: returns_def)

lemma ctl_deliver_returns:
  assumes "sendable p" and "24 \<le> length p"
  shows "qmi_proxy_wf dev st \<Longrightarrow> returns (\<lambda>(_, st'). qmi_proxy_wf dev st') (ctl_deliver p ty fd cons st)"
proof (induction cons arbitrary: st)
  case (Cons con cons)
  let ?P = "\<lambda>(_ :: qmi_connection, st'). qmi_proxy_wf dev st'"
  have send: "returns (\<lambda>(_, st'). qmi_proxy_wf dev st') (send_qmi fd p st)"
    by (rule returns_mono [OF send_returns [OF Cons.prems assms(1)]]) auto
  have upd: "returns ?P (if ty = QMICTL_GET_CLIENT_ID_RESP then get_client_id p con st'
        else if ty = QMICTL_RELEASE_CLIENT_ID_RESP
             then Option.bind (release_client_id p con) (\<lambda>con. Some (con, st'))
        else Some (con, st'))" if "qmi_proxy_wf dev st'" for st'
  proof -
    have "returns ?P (get_client_id p con st')"
      by (rule returns_mono [OF get_client_id_returns [OF that assms(2)]]) auto
    moreover have "returns ?P (Option.bind (release_client_id p con) (\<lambda>con. Some (con, st')))"
      by (rule returns_bind [OF release_client_id_returns [OF assms(2)]]) (simp add: returns_Some that)
    ultimately show ?thesis using that by (simp add: returns_Some)
  qed
  have body: "returns ?P (if con_ClientFd con = fd
      then Option.bind (send_qmi_to_client p fd st) (\<lambda>(_, st).
        if ty = QMICTL_GET_CLIENT_ID_RESP then get_client_id p con st
        else if ty = QMICTL_RELEASE_CLIENT_ID_RESP
             then Option.bind (release_client_id p con) (\<lambda>con. Some (con, st))
        else Some (con, st))
      else Some (con, st))"
    unfolding send_qmi_to_client_def
    using returns_bind [OF send, where Q = ?P] upd Cons.prems by (auto simp: returns_Some)
  show ?case unfolding ctl_deliver.simps
    by (rule returns_bind [OF body], clarify, rule returns_bind [OF Cons.IH], assumption)
       (auto simp: returns_Some)
qed (simp add: returns_Some)

lemma ctl_response_returns:
  assumes "qmi_proxy_wf dev st" and "sendable p" and "24 \<le> length p" and "request_ok q"
  shows "returns (qmi_proxy_wf dev) (ctl_response p q st)"
proof -
  obtain t ty t' ty' where rd: "rd8 p 7 = Some t" "rd16 p 8 = Some ty"
    "rd8 (msg_qmi q) 7 = Some t'" "rd16 (msg_qmi q) 8 = Some ty'"
    using assms(3,4) by (simp add: rd8_def rd16_def request_ok_def)
  have "returns (qmi_proxy_wf dev) (Option.bind (ctl_deliver p ty (msg_ClientFd q) (qmi_proxy_connection st) st)
      (\<lambda>(cons, st). Some (st\<lparr>qmi_proxy_connection := cons\<rparr>)))"
    by (rule returns_bind [OF ctl_deliver_returns [OF assms(2,3,1)]])
       (auto simp: returns_Some qmi_proxy_wf_def)
  then show ?thesis using assms(1) rd by (simp add: ctl_response_def returns_Some)
qed

lemma ctl_response_queue:
  "ctl_response p q st = Some st' \<Longrightarrow> qmi_proxy_ctl_msg st' = qmi_proxy_ctl_msg st"
proof -
  have get: "qmi_proxy_ctl_msg b = qmi_proxy_ctl_msg st" if "get_client_id p con st = Some (a, b)" for p con st a b
  proof -
    obtain ok oks where m: "proxy_malloc st = (ok, st\<lparr>malloc_results := oks\<rparr>)" by (rule proxy_malloc_frame)
    show ?thesis using that by (auto simp: get_client_id_def m bind_eq_Some_conv split: if_splits)
  qed
  have "qmi_proxy_ctl_msg b = qmi_proxy_ctl_msg st" if "ctl_deliver p ty fd cons st = Some (a, b)" for ty fd cons st a b
    using that
  proof (induction cons arbitrary: st a)
    case (Cons c cs)
    from Cons.prems obtain st1 c1 cs1 where
      "ctl_deliver p ty fd cs st1 = Some (cs1, b)" "qmi_proxy_ctl_msg st1 = qmi_proxy_ctl_msg st"
      by (auto simp: bind_eq_Some_conv send_qmi_to_client_def split: if_splits dest!: get
          dest: send_sent_frame) 
    with Cons.IH show ?case by metis
  qed simp
  then show "ctl_response p q st = Some st' \<Longrightarrow> qmi_proxy_ctl_msg st' = qmi_proxy_ctl_msg st"
    by (auto simp: ctl_response_def bind_eq_Some_conv split: if_splits)
qed

lemma ctl_message_returns:
  assumes "qmi_proxy_wf dev st" and "sendable p" and "24 \<le> length p"
  shows "returns (qmi_proxy_wf dev) (ctl_message p st)"
proof -
  obtain a b c where rd: "rd8 p 6 = Some a" "rd8 p 4 = Some b" "rd16 p 8 = Some c"
    using assms(3) by (simp add: rd8_def rd16_def)
  have wf: "qmi_proxy_wf dev (st\<lparr>modem_reset_flag := True\<rparr>)" using assms(1) by (simp add: qmi_proxy_wf_def)
  show ?thesis
  proof (cases "a = QMICTL_CTL_FLAG_RSP \<and> qmi_proxy_ctl_msg st \<noteq> []")
    case True
    then obtain q qs where q: "qmi_proxy_ctl_msg st = q # qs" by (cases "qmi_proxy_ctl_msg st") auto
    then have "request_ok q" using assms(1) by (simp add: qmi_proxy_wf_def)
    from ctl_response_returns [OF assms this] obtain st1 where
      st1: "ctl_response p q st = Some st1" "qmi_proxy_wf dev st1" by (auto simp: returns_def)
    have qs: "qmi_proxy_ctl_msg st1 = q # qs" using ctl_response_queue [OF st1(1)] q by simp
    then have wf1: "qmi_proxy_wf dev (st1\<lparr>qmi_proxy_ctl_msg := qs\<rparr>)" using st1(2) by (simp add: qmi_proxy_wf_def)
    show ?thesis
    proof (cases qs)
      case Nil
      with True q qs st1 rd wf1 show ?thesis by (simp add: ctl_message_def returns_Some)
    next
      case (Cons q' qs')
      have "sendable (msg_qmi q')"
        using wf1 Cons by (simp add: qmi_proxy_wf_def request_ok_def msg_ok_sendable)
      from send_snd_returns [OF wf1 this] have "returns (qmi_proxy_wf dev)
          (map_option snd (send_qmi_to_cdc_wdm (msg_qmi q') (st1\<lparr>qmi_proxy_ctl_msg := qs\<rparr>)))"
        unfolding send_qmi_to_cdc_wdm_def .
      with True q qs st1 rd Cons show ?thesis by (simp add: ctl_message_def)
    qed
  next
    case False
    with assms(1) rd wf show ?thesis
      by (cases "qmi_proxy_ctl_msg st") (simp_all add: ctl_message_def returns_Some)
  qed
qed

lemma service_clients_returns:
  assumes "sendable p"
  shows "qmi_proxy_wf dev st \<Longrightarrow> returns (qmi_proxy_wf dev) (service_clients p ty cid fd cs st)"
proof (induction cs arbitrary: st)
  case (Cons c cs)
  have "returns (qmi_proxy_wf dev) (map_option snd (send_qmi_to_client p fd st))"
    unfolding send_qmi_to_client_def by (rule send_snd_returns [OF Cons.prems assms])
  then show ?case unfolding service_clients.simps using Cons.prems
    by (intro returns_bind [where P = "qmi_proxy_wf dev"] Cons.IH) (simp_all add: returns_Some)
qed (simp add: returns_Some)

lemma service_message_returns:
  assumes "sendable p"
  shows "qmi_proxy_wf dev st \<Longrightarrow> returns (qmi_proxy_wf dev) (service_message p ty cid cons st)"
proof (induction cons arbitrary: st)
  case (Cons c cs)
  show ?case unfolding service_message.simps
    by (rule returns_bind [OF service_clients_returns [OF assms Cons.prems] Cons.IH])
qed (simp add: returns_Some)

lemma recv_qmi_from_dev_returns:
  assumes "qmi_proxy_wf dev st" and "sendable (qmi_buf st)"
  shows "returns (qmi_proxy_wf dev) (recv_qmi_from_dev st)"
proof -
  have l: "24 \<le> length (qmi_buf st)" using assms(1) by (simp add: qmi_proxy_wf_def)
  then obtain a b where rd: "rd8 (qmi_buf st) 4 = Some a" "rd8 (qmi_buf st) 5 = Some b"
    by (simp add: rd8_def)
  have "qmi_proxy_wf dev (st\<lparr>qmi_sync_done := True\<rparr>)" using assms(1) by (simp add: qmi_proxy_wf_def)
  then show ?thesis
    using rd ctl_message_returns [OF assms(1,2) l] service_message_returns [OF assms(2,1)]
    by (simp add: recv_qmi_from_dev_def Let_def returns_Some)
qed

lemma recv_qmi_from_client_returns:
  assumes "qmi_proxy_wf dev st" and "rd16 (qmi_buf st) 1 = Some L" and "n = unat L + 1" and "10 \<le> n" and "n \<le> 4096"
  shows "returns (\<lambda>(_, st'). qmi_proxy_wf dev st') (recv_qmi_from_client n fd st)"
proof -
  let ?b = "qmi_buf st"
  have l: "length ?b = 4096" using assms(1) by (simp add: qmi_proxy_wf_def)
  have s: "sendable ?b" using assms l by (simp add: sendable_def)
  obtain a c where rd: "rd8 ?b 4 = Some a" "rd16 ?b 8 = Some c" using l by (simp add: rd8_def rd16_def)
  have m: "rdn ?b 0 n = Some (take n ?b)" using l assms(5) by (simp add: rdn_def)
  have "rd16 (take n ?b) 1 = Some L" using assms(2,4) l by (auto simp: rd16_def split: if_splits)
  then have ok: "request_ok \<lparr>msg_ClientFd = fd, msg_qmi = take n ?b\<rparr>"
    using assms(3-5) l by (simp add: request_ok_def qmi_msg_ok_def)
  obtain st' where st': "proxy_malloc st = (True, st')" "qmi_proxy_wf dev st'" "qmi_buf st' = qmi_buf st"
    using assms(1) by (rule malloc_returns)
  have q: "returns (\<lambda>(_, st'). qmi_proxy_wf dev st') (Option.bind
      (queue_ctl_msg ?b \<lparr>msg_ClientFd = fd, msg_qmi = take n ?b\<rparr> st') (\<lambda>st. Some (0 :: int, st)))"
    by (rule returns_bind [OF queue_ctl_msg_returns [OF st'(2) s ok]]) (simp add: returns_Some)
  have "returns (\<lambda>(_, st'). qmi_proxy_wf dev st') (Option.bind (send_qmi (cdc_wdm_fd st) ?b st)
      (\<lambda>(_, st). Some (0 :: int, st)))"
    by (rule returns_bind [OF send_returns [OF assms(1) s]]) (auto simp: returns_Some)
  then show ?thesis using assms(1) rd m st'(1) q
    by (simp add: recv_qmi_from_client_def send_qmi_to_cdc_wdm_def Let_def returns_Some)
qed

text \<open>What a client sends in one piece reaches to the end of the control header.\<close>

definition long_read :: "qevent \<Rightarrow> bool" where
  "long_read ev \<longleftrightarrow> (case qe_read ev of None \<Rightarrow> True | Some bs \<Rightarrow> bs = [] \<or> 10 \<le> length bs)"

lemma buf_read_wf: "qmi_proxy_wf dev st \<Longrightarrow> length bs \<le> 4096 \<Longrightarrow> qmi_proxy_wf dev (buf_read bs st)"
  by (simp add: qmi_proxy_wf_def buf_read_def)

lemma accept_wf:
  assumes "qmi_proxy_wf dev st"
  shows "qmi_proxy_wf dev (accept_qmi_connection acc st)"
proof -
  obtain st' where "proxy_malloc st = (True, st')" "qmi_proxy_wf dev st'"
    using assms by (rule malloc_returns)
  then show ?thesis by (simp add: accept_qmi_connection_def qmi_proxy_wf_def)
qed

lemma read_event_returns:
  assumes "qmi_proxy_wf dev st" and "length bs \<le> 4096" and "fd \<noteq> dev \<longrightarrow> 10 \<le> length bs"
  shows "returns (\<lambda>(_, st'). qmi_proxy_wf dev st') (do {
      let st = buf_read bs st;
      Length \<leftarrow> rd16 (qmi_buf st) 1;
      if length bs \<noteq> unat Length + 1 then Some (Next_fd, st)
      else if fd = cdc_wdm_fd st then do {
        st \<leftarrow> recv_qmi_from_dev st;
        Some (if modem_reset_flag st then Exit_loop else Next_fd, st)
      }
      else do {
        (_, st) \<leftarrow> recv_qmi_from_client (length bs) fd st;
        Some (Next_fd, st)
      } })"
proof -
  let ?st = "buf_read bs st"
  have wf: "qmi_proxy_wf dev ?st" by (rule buf_read_wf [OF assms(1,2)])
  then have l: "length (qmi_buf ?st) = 4096" "cdc_wdm_fd ?st = dev" by (simp_all add: qmi_proxy_wf_def)
  then obtain L where L: "rd16 (qmi_buf ?st) 1 = Some L" by (simp add: rd16_def)
  have d: "returns (\<lambda>(_, st'). qmi_proxy_wf dev st') (Option.bind (recv_qmi_from_dev ?st)
      (\<lambda>st. Some (if modem_reset_flag st then Exit_loop else Next_fd, st)))"
    if "length bs = unat L + 1"
    by (rule returns_bind [OF recv_qmi_from_dev_returns [OF wf]])
       (use that L l assms(2) in \<open>simp_all add: sendable_def returns_Some\<close>)
  have c: "returns (\<lambda>(_, st'). qmi_proxy_wf dev st') (Option.bind (recv_qmi_from_client (length bs) fd ?st)
      (\<lambda>(_, st). Some (Next_fd, st)))"
    if "length bs = unat L + 1" "fd \<noteq> dev"
    by (rule returns_bind [OF recv_qmi_from_client_returns [OF wf L that(1)]])
       (use that assms(2,3) in \<open>auto simp: returns_Some\<close>)
  show ?thesis unfolding Let_def using L wf l d c by (auto simp: returns_Some)
qed

lemma event_returns:
  assumes "qmi_proxy_wf dev st" and "fd \<noteq> dev \<longrightarrow> long_read ev"
  shows "returns (\<lambda>(_, st'). qmi_proxy_wf dev st') (qmi_proxy_event acc fd ev st)"
proof -
  let ?bs = "case qe_read ev of None \<Rightarrow> [] | Some bs \<Rightarrow> take 4096 bs"
  have clean: "returns (\<lambda>(_, st'). qmi_proxy_wf dev st') (map_option (Pair k) (cleanup_qmi_connection fd True st))" for k :: fd_ctl
    by (rule returns_map) (use cleanup_returns [OF assms(1)] in simp)
  have l: "length ?bs \<le> 4096" by (simp split: option.splits)
  have "?bs \<noteq> [] \<Longrightarrow> fd \<noteq> dev \<longrightarrow> 10 \<le> length ?bs"
    using assms(2) by (auto simp: long_read_def split: option.splits)
  note read = read_event_returns [OF assms(1) l this]
  show ?thesis unfolding qmi_proxy_event_def
    using clean assms(1) accept_wf [OF assms(1), of acc] read by (simp add: returns_Some Let_def)
qed

lemma events_returns:
  "qmi_proxy_wf dev st \<Longrightarrow> \<forall>(fd, ev) \<in> set evs. fd \<noteq> dev \<longrightarrow> long_read ev \<Longrightarrow>
     returns (\<lambda>(_, st'). qmi_proxy_wf dev st') (qmi_proxy_events acc evs st)"
proof (induction evs arbitrary: st)
  case (Cons e evs)
  obtain fd ev where e: "e = (fd, ev)" by (cases e)
  have ok: "fd \<noteq> dev \<longrightarrow> long_read ev" "\<forall>(fd, ev) \<in> set evs. fd \<noteq> dev \<longrightarrow> long_read ev"
    using Cons.prems(2) e by auto
  show ?case unfolding e qmi_proxy_events.simps
    by (rule returns_bind [OF event_returns [OF Cons.prems(1) ok(1)]])
       (use Cons.IH ok(2) in \<open>auto simp: returns_Some\<close>)
qed (simp add: returns_Some)

lemma close_connections_returns:
  "qmi_proxy_wf dev st \<Longrightarrow> returns (qmi_proxy_wf dev) (close_connections st)"
proof (induction st rule: close_connections.induct)
  case (1 st)
  show ?case
  proof (cases "qmi_proxy_connection st")
    case Nil
    with 1(2) show ?thesis by (subst close_connections.simps) (simp add: returns_Some)
  next
    case (Cons c cs)
    from cleanup_returns [OF 1(2), of "con_ClientFd c" False] obtain st' where
      "cleanup_qmi_connection (con_ClientFd c) False st = Some st'" "qmi_proxy_wf dev st'"
      by (auto simp: returns_def)
    with 1(1) [OF Cons] Cons show ?thesis by (subst close_connections.simps) simp
  qed
qed

text \<open>C19:
  The proxy stays inside its buffers.  In a well-formed state, and as long as every piece that a client
  sends is at least as long as a control header, every round of the loop returns: no fault whatever the
  modem sends, whichever descriptors are ready, fail or hang up, and also when the loop ends and
  closes its connections.  The state is well-formed again after the rounds: the buffer has its
  size, and the stored requests are whole messages.
\<close>

theorem proxy_never_faults:
  assumes "qmi_proxy_wf dev st"
    and "\<forall>answer \<in> set polls. \<forall>evs. answer = Some evs \<longrightarrow> (\<forall>ev \<in> set (tl evs). long_read ev)"
  shows "\<exists>st'. qmi_proxy_rounds acc polls st = Some st' \<and> qmi_proxy_wf dev st'"
  using assms
proof (induction polls arbitrary: st)
  case (Cons answer polls)
  have exit: "returns (qmi_proxy_wf dev) (qmi_proxy_loop_exit st)" if "qmi_proxy_wf dev st" for st
    unfolding qmi_proxy_loop_exit_def
    by (rule returns_map, rule returns_mono [OF close_connections_returns [OF that]])
       (simp add: qmi_proxy_wf_def)
  have "returns (qmi_proxy_wf dev) (qmi_proxy_round acc answer st)"
  proof (cases answer)
    case None
    with Cons.prems(1) exit show ?thesis by (simp add: qmi_proxy_round_def returns_Some)
  next
    case (Some evs)
    have "\<forall>(fd, ev) \<in> set (zip (qmi_pollfds st) evs). fd \<noteq> dev \<longrightarrow> long_read ev"
    proof (cases evs)
      case (Cons e es)
      have "qmi_pollfds st = dev # tl (qmi_pollfds st)"
        using Cons.prems(1) by (simp add: qmi_pollfds_def qmi_proxy_wf_def)
      then obtain fds where "qmi_pollfds st = dev # fds" by blast
      moreover have "\<forall>ev \<in> set es. long_read ev" using Cons.prems(2) Some Cons by simp
      ultimately show ?thesis using Cons by (auto dest: set_zip_rightD)
    qed simp
    note evs = events_returns [OF Cons.prems(1) this, of acc]
    have "returns (qmi_proxy_wf dev) (Option.bind (qmi_proxy_events acc (zip (qmi_pollfds st) evs) st)
        (\<lambda>(ctl, st). if ctl = Exit_loop then qmi_proxy_loop_exit st else Some st))"
      by (rule returns_bind [OF evs]) (use exit in \<open>auto simp: returns_Some\<close>)
    with Cons.prems(1) exit Some show ?thesis by (simp add: qmi_proxy_round_def returns_Some)
  qed
  then obtain st1 where "qmi_proxy_round acc answer st = Some st1" "qmi_proxy_wf dev st1"
    by (auto simp: returns_def)
  with Cons.IH [of st1] Cons.prems(2) show ?case by simp
qed simp

section \<open>Examples\<close>

definition example_cl :: "u8 \<Rightarrow> u8 \<Rightarrow> qmi_client" where
  "example_cl ty cid = \<lparr>cl_QMIType = ty, cl_ClientId = cid, cl_AccessTime = 0\<rparr>"

definition example_con :: "int \<Rightarrow> qmi_client list \<Rightarrow> qmi_connection" where
  "example_con fd cs = \<lparr>client_qnode = cs, con_ClientFd = fd, con_AccessTime = 0\<rparr>"

definition example_qmi_proxy :: qmi_proxy where
  "example_qmi_proxy =
     \<lparr>cdc_wdm_fd = 3, qmi_proxy_server_fd = 4,
      qmi_proxy_connection = [example_con 5 [], example_con 6 [example_cl 1 7, example_cl 3 2]],
      qmi_proxy_ctl_msg = [], qmi_proxy_quit = 0, modem_reset_flag = False, qmi_sync_done = True,
      qmi_buf = replicate 4096 0, loop_running = True, sends = [], malloc_results = [], writes = [],
      closes = []\<rparr>"

definition example_ind :: bytes where
  "example_ind = [1, 12, 0, 0x80, 1, 7, 4, 0, 0, 0x22, 0, 0, 0]"

definition example_get :: "u8 \<Rightarrow> bytes" where
  "example_get tid = [1, 15, 0, 0, 0, 0, 0, tid, 0x22, 0, 4, 0, 1, 1, 0, 1]"

definition example_rsp :: "u8 \<Rightarrow> u8 \<Rightarrow> u8 \<Rightarrow> u8 \<Rightarrow> bytes" where
  "example_rsp tid type ty cid =
     [1, 23, 0, 0x80, 0, 0, 1, tid, type, 0, 12, 0, 2, 4, 0, 0, 0, 0, 0, 1, 2, 0, ty, cid]"

definition example_revoke :: bytes where
  "example_revoke = [1, 16, 0, 0x80, 0, 0, 2, 0, 0x24, 0, 5, 0, 1, 2, 0, 1, 7]"

lemmas example_qmi_defs = example_qmi_proxy_def example_cl_def example_con_def

lemmas example_msg_defs = example_ind_def example_get_def example_rsp_def example_revoke_def
  qmi_msg_ok_def rd16_def rd8_def le16_to_cpu_def QMUX_TYPE_CTL_def qctl_consts

lemma example_quiet: "quiet example_qmi_proxy"
  by (simp add: quiet_def example_qmi_proxy_def)

theorem service_message_routed_witness:
  "\<exists>ctl st'. qmi_proxy_event (\<lambda>_. -1) 3 (q_readable example_ind) example_qmi_proxy = Some (ctl, st') \<and>
     writes st' = [(6, example_ind)]"
proof -
  have "\<exists>ctl st'. qmi_proxy_event (\<lambda>_. -1) (cdc_wdm_fd example_qmi_proxy) (q_readable example_ind) example_qmi_proxy =
       Some (ctl, st') \<and>
     writes st' = writes example_qmi_proxy @ [(con_ClientFd con, example_ind). con \<leftarrow> qmi_proxy_connection example_qmi_proxy,
                                c \<leftarrow> client_qnode con, addressed example_ind c] \<and>
     qmi_proxy_connection st' = qmi_proxy_connection example_qmi_proxy \<and>
     qmi_proxy_ctl_msg st' = qmi_proxy_ctl_msg example_qmi_proxy"
    by (rule service_message_routed) (simp_all add: example_msg_defs example_qmi_proxy_def)
  moreover have "cdc_wdm_fd example_qmi_proxy = 3" "writes example_qmi_proxy = []"
    "[(con_ClientFd con, example_ind). con \<leftarrow> qmi_proxy_connection example_qmi_proxy,
        c \<leftarrow> client_qnode con, addressed example_ind c] = [(6, example_ind)]"
    by (simp_all add: example_qmi_defs addressed_def example_ind_def)
  ultimately show ?thesis by auto
qed


theorem ctl_request_roundtrip_witness:
  "\<exists>st'. qmi_proxy_events (\<lambda>_. -1) [(5, q_readable (example_get 9)), (3, q_readable (example_rsp 9 0x22 1 8))]
      example_qmi_proxy = Some (Next_fd, st') \<and>
    writes st' = [(3, example_get 9), (5, example_rsp 9 0x22 1 8)] \<and>
    qmi_proxy_connection st' =
      [example_con 5 [example_cl 1 8], example_con 6 [example_cl 1 7, example_cl 3 2]]"
proof -
  let ?r = "example_rsp 9 0x22 1 8"
  have "\<exists>st'. qmi_proxy_events (\<lambda>_. -1)
        [(5, q_readable (example_get 9)), (cdc_wdm_fd example_qmi_proxy, q_readable ?r)] example_qmi_proxy =
      Some (Next_fd, st') \<and>
    writes st' = writes example_qmi_proxy @ [(cdc_wdm_fd example_qmi_proxy, example_get 9), (5, ?r)] \<and>
    qmi_proxy_ctl_msg st' = [] \<and>
    qmi_proxy_connection st' = [] @ id_update ?r (example_con 5 []) # [example_con 6 [example_cl 1 7, example_cl 3 2]]"
    by (rule ctl_request_roundtrip [OF example_quiet])
       (simp_all add: example_qmi_proxy_def example_con_def answers_def example_msg_defs)
  moreover have "id_update ?r (example_con 5 []) = example_con 5 [example_cl 1 8]"
    by (simp add: id_update_def example_con_def example_cl_def example_msg_defs)
  moreover have "cdc_wdm_fd example_qmi_proxy = 3" "writes example_qmi_proxy = []"
    by (simp_all add: example_qmi_proxy_def)
  ultimately show ?thesis by auto
qed

definition example_waiting :: qmi_proxy where
  "example_waiting = example_qmi_proxy\<lparr>qmi_proxy_ctl_msg :=
     [\<lparr>msg_ClientFd = 5, msg_qmi = example_get 9\<rparr>, \<lparr>msg_ClientFd = 6, msg_qmi = example_get 4\<rparr>]\<rparr>"

theorem hangup_loses_request_witness:
  "\<exists>st'. qmi_proxy_events (\<lambda>_. -1) [(5, q_hangup), (3, q_readable (example_rsp 9 0x22 1 8))] example_waiting =
      Some (Next_fd, st') \<and> qmi_proxy_ctl_msg st' = [] \<and> writes st' = []"
proof -
  have "\<exists>st'. qmi_proxy_events (\<lambda>_. -1)
        [(5, q_hangup), (cdc_wdm_fd example_waiting, q_readable (example_rsp 9 0x22 1 8))] example_waiting =
      Some (Next_fd, st') \<and> qmi_proxy_ctl_msg st' = [] \<and>
      writes st' = writes example_waiting @ next_request (cdc_wdm_fd example_waiting) []"
    by (rule hangup_loses_request [where con = "example_con 5 []" and
           a = "\<lparr>msg_ClientFd = 5, msg_qmi = example_get 9\<rparr>" and b = "\<lparr>msg_ClientFd = 6, msg_qmi = example_get 4\<rparr>"])
       (simp_all add: example_waiting_def quiet_def example_qmi_proxy_def example_con_def answers_def example_msg_defs)
  then show ?thesis by (simp add: example_waiting_def example_qmi_proxy_def next_request_def)
qed

theorem short_request_faults_witness:
  "qmi_proxy_events (\<lambda>_. -1) [(5, q_readable [1, 4, 0, 0, 0]), (3, q_readable (example_rsp 9 0x22 1 8))]
     example_qmi_proxy = None"
proof -
  have "qmi_proxy_events (\<lambda>_. -1)
      [(5, q_readable [1, 4, 0, 0, 0]), (cdc_wdm_fd example_qmi_proxy, q_readable (example_rsp 9 0x22 1 8))]
      example_qmi_proxy = None"
    by (rule short_request_faults [OF example_quiet])
       (simp_all add: example_qmi_proxy_def example_msg_defs nth_append nth_Cons')
  then show ?thesis by (simp add: example_qmi_proxy_def)
qed

theorem revoke_never_resets_witness:
  "\<exists>ctl st'. qmi_proxy_event (\<lambda>_. -1) 3 (q_readable example_revoke) example_qmi_proxy = Some (ctl, st') \<and>
     \<not> modem_reset_flag st'"
proof -
  have cdc: "cdc_wdm_fd example_qmi_proxy = 3" by (simp add: example_qmi_proxy_def)
  have "returns (\<lambda>_. True) (qmi_proxy_event (\<lambda>_. -1) 3 (q_readable example_revoke) example_qmi_proxy)"
    by (rule returns_mono [OF event_returns [where dev = 3]])
       (simp_all add: qmi_proxy_wf_def example_qmi_proxy_def)
  then obtain ctl st' where
    run: "qmi_proxy_event (\<lambda>_. -1) 3 (q_readable example_revoke) example_qmi_proxy = Some (ctl, st')"
    by (auto simp: returns_def)
  from revoke_never_resets [OF run] have "\<not> modem_reset_flag st'" by (simp add: example_qmi_proxy_def)
  with run show ?thesis by blast
qed

theorem proxy_never_faults_witness:
  "\<exists>st'. qmi_proxy_rounds (\<lambda>_. 7) [Some [q_readable example_revoke, q_readable [], q_readable (example_get 9), q_hangup], None]
     example_qmi_proxy = Some st' \<and> qmi_proxy_wf 3 st'"
  by (rule proxy_never_faults)
     (simp_all add: qmi_proxy_wf_def example_qmi_proxy_def long_read_def q_readable_def q_hangup_def example_get_def)

end
