(* ===== verification/Spec2Isabelle.thy ===== *)
theory Spec2Isabelle
  imports ConnProps UserInput QmiCtl Atc MhiProps MbimProps MbimProxy QmapProps QList QmiProxy
begin

text \<open>
  Verification of the C code that connects the GL-XE3000 router to its cellular modem: the Quectel
  connection manager (\<^verbatim>\<open>src/gl-feed/net/quectel-cm/src\<close>, here \<^verbatim>\<open>cm\<close>) and the PCIe host driver of the
  modem (\<^verbatim>\<open>src/gl-feed/kernel/pcie_mhi/src\<close>, here \<^verbatim>\<open>mhi\<close>).

  \<^bold>\<open>The program.\<close>  \<^verbatim>\<open>quectel-CM\<close> reads its command line, opens the modem's control device and runs an
  event loop that registers, sets up a data call, reads its addresses, starts the DHCP client and
  watches the call.  The loop speaks to the modem through a table of requests, \<^verbatim>\<open>struct request_ops\<close>.
  There are three tables: QMI (\<^verbatim>\<open>QMIThread.c\<close> with the reader thread in \<^verbatim>\<open>QmiWwanCM.c\<close>), MBIM
  (\<^verbatim>\<open>mbim-cm.c\<close>) and AT commands (\<^verbatim>\<open>atc.c\<close> over \<^verbatim>\<open>atchannel.c\<close> and \<^verbatim>\<open>at_tok.c\<close>).  In each of them a
  reader thread completes the request that waits and turns indications into events of the loop.  A
  proxy process (\<^verbatim>\<open>quectel-mbim-proxy.c\<close>, \<^verbatim>\<open>quectel-qmi-proxy.c\<close>) can share the control device between
  clients, of which the manager is one.  Below it the driver moves buffers through rings shared with the modem (\<^verbatim>\<open>mhi_main.c\<close>), under a power-management
  state machine (\<^verbatim>\<open>mhi_pm.c\<close>), and the network interface (\<^verbatim>\<open>mhi_netdev_quectel.c\<close>) wraps IP packets
  into QMAP or MBIM frames and unwraps them.

  \<^bold>\<open>Conventions.\<close>  Machine integers keep their width as words.  A buffer is a list of bytes, and every
  access goes through the checked reads and writes of \<^verbatim>\<open>Prelude\<close>: the outer \<open>None\<close> of a result is a
  fault of memory safety (an access outside a buffer, a null or dangling pointer, the read of a variable
  never written), so \<open>f x = Some y\<close> also says that the code stays inside its buffers.  A null pointer
  the code handles is an inner \<open>None\<close>.  State that C keeps in static variables is a record passed
  along.  What the system contributes (results of system calls, of \<^verbatim>\<open>malloc\<close>, messages that arrive,
  signals) is a field of that record or an argument; what the code does to the system (messages
  sent, programs started, doorbells rung) is a log.  The hosts are little-endian.  Threads run under a
  lock, so their interleavings are step relations whose steps are the critical sections.

  \<^bold>\<open>The theories.\<close>

  \<^item> \<^verbatim>\<open>Prelude\<close>: words, buffers, the codecs of \<^verbatim>\<open>cm/qendian.h\<close>, and \<open>always\<close>, the postcondition of a
    fallible computation with the rules that carry the invariant proofs.
  \<^item> \<^verbatim>\<open>Qmux\<close>: \<^verbatim>\<open>GetTLV\<close> and \<^verbatim>\<open>ComposeQMUXMsg\<close> of \<^verbatim>\<open>cm/QMIThread.c\<close> with the list of TLVs they
    encode.  The search refines the lookup in that list, and a composed message parses to it.
  \<^item> \<^verbatim>\<open>QmiTypes\<close>, \<^verbatim>\<open>QmiBuilders\<close>: the profile of \<^verbatim>\<open>cm/QMIThread.h\<close> and the builder of each request.  The
    locale \<open>qmux_builder\<close> is what the composer relies on from a builder; it is interpreted on every
    builder, so that each message is known as a list of TLVs.
  \<^item> \<^verbatim>\<open>QmiTransport\<close>: \<^verbatim>\<open>QmiThreadSendQMITimeout\<close> and \<^verbatim>\<open>QmiThreadRecvQMI\<close>, with the step relation
    \<open>link_step\<close> of the sender and the reader.  A completed request was answered by its own response.
  \<^item> \<^verbatim>\<open>QmiCall\<close>, \<^verbatim>\<open>QmiSim\<close>, \<^verbatim>\<open>QmiReg\<close>, \<^verbatim>\<open>QmiData\<close>, \<^verbatim>\<open>QmiProfile\<close>: the requests of \<^verbatim>\<open>cm/QMIThread.c\<close>, each
    with what it returns and records for the TLVs of a reply.
  \<^item> \<^verbatim>\<open>QmiCtl\<close>: the control service, the client ids and the reader thread of \<^verbatim>\<open>cm/QmiWwanCM.c\<close>.
  \<^item> \<^verbatim>\<open>ConnManager\<close>, \<^verbatim>\<open>ConnLaws\<close>, \<^verbatim>\<open>ConnProps\<close>: \<^verbatim>\<open>qmi_main\<close> of \<^verbatim>\<open>cm/main.c\<close> over any table of requests,
    the laws it relies on (locale \<open>data_call_ops\<close>), and its invariant over \<open>cm_step\<close>, the
    interleavings of events and signals.  The locale is interpreted on the QMI table in \<^verbatim>\<open>ConnLaws\<close>, on
    the AT table in \<^verbatim>\<open>Atc\<close> and on the MBIM table in \<^verbatim>\<open>MbimProps\<close>, so the loop is verified once for all
    three.
  \<^item> \<^verbatim>\<open>UserInput\<close>: \<^verbatim>\<open>parse_user_input\<close> of \<^verbatim>\<open>cm/main.c\<close>.
  \<^item> \<^verbatim>\<open>AtTok\<close>, \<^verbatim>\<open>AtChannel\<close>, \<^verbatim>\<open>Atc\<close>: the tokeniser, the line framing and the exchange of commands, and
    the requests of the AT backend.  Printing and scanning are inverse; the ring of received bytes
    cuts any stream into the same lines however it is delivered.
  \<^item> \<^verbatim>\<open>MbimMsg\<close>, \<^verbatim>\<open>Mbim\<close>, \<^verbatim>\<open>MbimLink\<close>, \<^verbatim>\<open>MbimProps\<close>: the messages, requests and reader of the MBIM
    backend, the invariant of its transaction ids over \<open>mbim_step\<close>, and what its requests send and
    record.
  \<^item> \<^verbatim>\<open>MbimProxy\<close>: the client table and the loops of \<^verbatim>\<open>cm/quectel-mbim-proxy.c\<close>.  A request comes back to
    the client that made it, and the table stays consistent over a session.
  \<^item> \<^verbatim>\<open>QmiProxy\<close>: \<^verbatim>\<open>cm/quectel-qmi-proxy.c\<close>.  Service messages reach the owners of the client ids they
    address; a control request is answered to the connection that made it; the ids of a client that
    hangs up are released; the loop stays inside its buffers.  A section at the end of this theory joins
    it to \<^verbatim>\<open>QmiCtl\<close>: the manager and the proxy agree on who owns a client id.
  \<^item> \<^verbatim>\<open>QList\<close>: the linked lists of \<^verbatim>\<open>cm/qlist.h\<close> on an explicit store of nodes.  They implement the
    locale \<open>linked_list\<close>, and refine lists of items.
  \<^item> \<^verbatim>\<open>MhiPm\<close>: the states and transitions of \<^verbatim>\<open>mhi/core/mhi_pm.c\<close> and \<^verbatim>\<open>mhi_internal.h\<close>, equivalent to the
    documented diagram.
  \<^item> \<^verbatim>\<open>MhiRing\<close>, \<^verbatim>\<open>MhiChan\<close>, \<^verbatim>\<open>MhiProps\<close>: the rings and channels of \<^verbatim>\<open>mhi/core/mhi_main.c\<close>.  A ring
    implements the locale \<open>bounded_queue\<close>; on it rest completion in order, draining, and the
    accounting of transmissions over \<open>mhi_run\<close>.
  \<^item> \<^verbatim>\<open>Qmap\<close>, \<^verbatim>\<open>QmapProps\<close>: the data path of \<^verbatim>\<open>mhi/devices/mhi_netdev_quectel.c\<close>.  Framing and unframing
    are inverse in QMAP version 1, version 5 and MBIM; the receive loop ends; over \<open>net_step\<close> a
    stopped queue has a reason, and the deadline of the flow control opens it.

  \<^bold>\<open>Loops, bounds and fuel.\<close>  No definition takes fuel.  Loops over arrays and lists are structural;
  those over a buffer position recurse on the bytes left, with a termination proof.  Seven loops may
  really run forever and are \<open>partial_function (option)\<close>, where \<open>None\<close> is not to return.  Two of them
  repeat a request for as long as the modem gives one particular answer (\<open>sim_wait\<close>,
  \<open>profile_answer\<close>).  One walks a linked list, and is proved to end on a well-formed one.  The
  others are in the driver: the loop over the elements an MHI event completes,
  the drain of a channel, and the two receive loops of the data path.  Completion, drain and the QMAP
  loop are proved to return under the condition the code relies on, the MBIM loop on the blocks the
  transmit side builds; and where the condition can fail there is a theorem that the loop then does
  not return (an event beside the ring, a frame for a missing interface, a cycle of MBIM tables).
  Lengths are bounded only where the code's own fields are: a message
  by its 16-bit length, a proxy message by the 4096-byte buffer.

  \<^bold>\<open>Not modelled.\<close>  In the connection manager: the search for the device and its ioctls
  (\<^verbatim>\<open>device.c\<close>, \<^verbatim>\<open>util.c\<close>), the start of DHCP programs (\<^verbatim>\<open>udhcpc*.c\<close>, an effect of the loop here), netlink
  and ioctl set-up (\<^verbatim>\<open>rmnetctl.c\<close>, \<^verbatim>\<open>qmap_bridge_mode.c\<close>), and the AT proxy, which
  passes text between sockets and the modelled AT channel; GobiNet, QRTR and the message dumps, which this
  device does not use or which only print, and code behind \<^verbatim>\<open>CONFIG_\<close> options that the build leaves
  off.  In the driver: register programming, interrupts, boot, probing, sysfs, and the
  controllers, which are calls into the kernel and the hardware; bounce buffers and coalescing.
  The rest of the repository, the captive-portal and hardware-information modules, the multi-WAN helpers
  and the Lua, shell and JavaScript glue, is outside the modem path verified here.
\<close>

section \<open>The manager behind the proxy\<close>

definition get_client_frame :: "u8 \<Rightarrow> u8 \<Rightarrow> bytes" where
  "get_client_frame tid QMIType =
     [0x01, 15, 0, 0, QMUX_TYPE_CTL, 0, 0, tid, 0x22, 0, 4, 0, 0x01, 1, 0, QMIType]"

lemma compose_get_client:
  assumes "GetQCTLTransactionId t = (tid, t')"
  shows "ComposeQCTLMsg True t 0x0022 (Some (CtlGetClientIdReq ty)) = Some (Some (get_client_frame tid ty), t')"
proof -
  have z: "replicate WDM_DEFAULT_BUFSIZE (0 :: u8) = [0,0,0,0,0,0,0,0,0,0,0,0,0,0,0,0] @ replicate 240 0"
    by (simp add: WDM_DEFAULT_BUFSIZE_def numeral_eq_Suc)
  show ?thesis
    unfolding ComposeQCTLMsg_def z
    by (simp add: assms CtlGetClientIdReq_def poke_def le16_def rd16_def rdn_def le16_to_cpu_def
        get_client_frame_def QMUX_TYPE_CTL_def)
qed

lemma get_client_frame_ok:
  "qmi_msg_ok (get_client_frame tid ty)" "length (get_client_frame tid ty) = 16"
  "get_client_frame tid ty ! 4 = QMUX_TYPE_CTL" "rd8 (get_client_frame tid ty) 7 = Some tid"
  "rd16 (get_client_frame tid ty) 8 = Some 0x0022"
  by (simp_all add: get_client_frame_def qmi_msg_ok_def rd16_def rd8_def le16_to_cpu_def)

text \<open>What the manager makes of the response to its request for a client id.\<close>

lemma manager_get_client:
  assumes "mallocs (w_qmi w) = []" and "replies (w_qmi w) = Woken (Some r) # rs"
    and "GetQCTLTransactionId (CtlTransactionId w) = (tid, t)" and "24 \<le> length r"
  obtains w' where "QmiWwanGetClientID ty w =
      Some (if rd16 r 15 = Some 0 \<and> rd16 r 17 = Some 0 \<and> ty = r ! 22 then r ! 23 else 0, w')"
    "sent (w_qmi w') = sent (w_qmi w) @ [get_client_frame tid ty]"
proof -
  obtain a b where "rd16 r 15 = Some a" "rd16 r 17 = Some b" using assms(4) by (simp add: rd16_def)
  moreover have "rd8 r 22 = Some (r ! 22)" "rd8 r 23 = Some (r ! 23)" using assms(4) by (simp_all add: rd8_def)
  ultimately show ?thesis
    using assms(1,2) compose_get_client [OF assms(3), of ty]
    by (intro that [of "w\<lparr>w_qmi := (w_qmi w)\<lparr>mallocs := [], replies := rs,
          sent := sent (w_qmi w) @ [get_client_frame tid ty]\<rparr>, CtlTransactionId := t\<rparr>"])
       (simp_all add: QmiWwanGetClientID_def ctl_call_def QmiThreadSendQMI_def)
qed

text \<open>C18:
  The manager and the proxy agree on who owns a client id.  When the connection manager asks for a
  client id through the proxy and the modem's response is at least 24 bytes long, the proxy passes
  exactly the manager's request to the modem and exactly the response to the manager; and if the
  manager takes a client id out of the response, the proxy has recorded this id, with the service asked
  for, for the manager's connection, so that messages to the id reach the manager and the id
  is released when the manager goes away.
\<close>

theorem manager_ids_match_proxy:
  assumes "mallocs (w_qmi w) = []" and "replies (w_qmi w) = Woken (Some r) # rs"
    and "GetQCTLTransactionId (CtlTransactionId w) = (tid, t)"
    and "quiet st" and "length (qmi_buf st) = 4096" and "qmi_proxy_ctl_msg st = []"
    and "qmi_proxy_connection st = xs @ con # ys" and "\<forall>c \<in> set (xs @ ys). con_ClientFd c \<noteq> fd"
    and "con_ClientFd con = fd" and "fd \<noteq> cdc_wdm_fd st" and "fd \<noteq> qmi_proxy_server_fd st"
    and "\<not> modem_reset_flag st" and "qmi_proxy_server_fd st \<noteq> -1"
    and "cdc_wdm_fd st \<noteq> qmi_proxy_server_fd st"
    and "answers \<lparr>msg_ClientFd = fd, msg_qmi = get_client_frame tid ty\<rparr> r" and "24 \<le> length r"
  shows "\<exists>m cid w' st'. QmiWwanGetClientID ty w = Some (cid, w') \<and> sent (w_qmi w') = sent (w_qmi w) @ [m] \<and>
     qmi_proxy_events acc [(fd, q_readable m), (cdc_wdm_fd st, q_readable r)] st = Some (Next_fd, st') \<and>
     writes st' = writes st @ [(cdc_wdm_fd st, m), (fd, r)] \<and>
     (cid \<noteq> 0 \<longrightarrow> (\<exists>con'. qmi_proxy_connection st' = xs @ con' # ys \<and> con_ClientFd con' = fd \<and>
        \<lparr>cl_QMIType = ty, cl_ClientId = cid, cl_AccessTime = 0\<rparr> \<in> set (client_qnode con')))"
proof -
  let ?m = "get_client_frame tid ty"
  obtain w' where w: "QmiWwanGetClientID ty w =
      Some (if rd16 r 15 = Some 0 \<and> rd16 r 17 = Some 0 \<and> ty = r ! 22 then r ! 23 else 0, w')"
    "sent (w_qmi w') = sent (w_qmi w) @ [?m]"
    using assms(1-3,16) by (rule manager_get_client)
  have "rd16 ?m 8 \<noteq> Some QMICTL_SYNC_REQ"
    using get_client_frame_ok(5) [of tid ty] by (simp add: QMICTL_SYNC_REQ_def)
  then obtain st' where st': "qmi_proxy_events acc [(fd, q_readable ?m), (cdc_wdm_fd st, q_readable r)] st =
      Some (Next_fd, st')" "writes st' = writes st @ [(cdc_wdm_fd st, ?m), (fd, r)]"
    "qmi_proxy_connection st' = xs @ id_update r con # ys"
    using ctl_roundtrip [OF assms(4-14) get_client_frame_ok(1), of tid ty r acc] assms(15,16)
    by (auto simp: get_client_frame_ok)
  have "rd16 r 8 = Some QMICTL_GET_CLIENT_ID_RESP"
    using assms(15) get_client_frame_ok(5) [of tid ty] by (simp add: answers_def QMICTL_GET_CLIENT_ID_RESP_def)
  then have "con_ClientFd (id_update r con) = fd" and
    "rd16 r 15 = Some 0 \<Longrightarrow> rd16 r 17 = Some 0 \<Longrightarrow>
       \<lparr>cl_QMIType = r ! 22, cl_ClientId = r ! 23, cl_AccessTime = 0\<rparr> \<in> set (client_qnode (id_update r con))"
    using assms(9) by (simp_all add: id_update_def)
  with w st' show ?thesis
    by (intro exI [of _ ?m] exI [of _ "if rd16 r 15 = Some 0 \<and> rd16 r 17 = Some 0 \<and> ty = r ! 22 then r ! 23 else 0"]
        exI [of _ w'] exI [of _ st']) auto
qed

definition example_wwan :: wwan where
  "example_wwan = \<lparr>w_qmi = qmi_init [Woken (Some (example_rsp 9 0x22 1 8))],
     qmiclientId = replicate 255 0, CtlTransactionId = 8\<rparr>"

theorem manager_ids_match_proxy_witness:
  "\<exists>m cid w' st'. QmiWwanGetClientID 1 example_wwan = Some (cid, w') \<and> sent (w_qmi w') = [m] \<and>
     qmi_proxy_events (\<lambda>_. -1) [(5, q_readable m), (3, q_readable (example_rsp 9 0x22 1 8))]
       example_qmi_proxy = Some (Next_fd, st')"
proof -
  have e: "cdc_wdm_fd example_qmi_proxy = 3" "sent (w_qmi example_wwan) = []"
    by (simp_all add: example_qmi_proxy_def example_wwan_def qmi_init_def)
  have "\<exists>m cid w' st'. QmiWwanGetClientID 1 example_wwan = Some (cid, w') \<and>
     sent (w_qmi w') = sent (w_qmi example_wwan) @ [m] \<and>
     qmi_proxy_events (\<lambda>_. -1) [(5, q_readable m), (cdc_wdm_fd example_qmi_proxy, q_readable (example_rsp 9 0x22 1 8))]
       example_qmi_proxy = Some (Next_fd, st') \<and>
     writes st' = writes example_qmi_proxy @
       [(cdc_wdm_fd example_qmi_proxy, m), (5, example_rsp 9 0x22 1 8)] \<and>
     (cid \<noteq> 0 \<longrightarrow> (\<exists>con'. qmi_proxy_connection st' =
          [] @ con' # [example_con 6 [example_cl 1 7, example_cl 3 2]] \<and> con_ClientFd con' = 5 \<and>
        \<lparr>cl_QMIType = 1, cl_ClientId = cid, cl_AccessTime = 0\<rparr> \<in> set (client_qnode con')))"
    by (rule manager_ids_match_proxy [where tid = 9 and t = 9 and con = "example_con 5 []", OF _ _ _ example_quiet])
       (simp_all add: example_wwan_def qmi_init_def GetQCTLTransactionId_def example_qmi_proxy_def example_con_def
         answers_def get_client_frame_def example_msg_defs)
  then show ?thesis unfolding e by auto
qed

end
